(* ===== verification/Prelude.thy ===== *)
theory Prelude
  imports Complex_Main "HOL-Library.Word" "HOL-Library.Finite_Map" "HOL-Library.Sublist"
begin

text \<open>
  Shared vocabulary of the HydraDNS development: the machine integers and byte
  strings of the Go sources, fallible results with their sequencing operator, the
  lemma collections used by the component theories, and generic facts on lists and
  on reads at an offset of a buffer.

  Go's \<open>byte\<close>, \<open>uint16\<close> and \<open>uint32\<close> are words of the same width; \<open>[]byte\<close> is a
  list of bytes; a Go string is a list of characters (bytes); \<open>int\<close> values that
  index a buffer are natural numbers, every other \<open>int\<close> is an integer. A function
  returning \<open>(T, error)\<close> returns a sum: \<^term>\<open>Inl e\<close> for a non-nil error,
  \<^term>\<open>Inr x\<close> otherwise.
\<close>

unbundle bit_operations_syntax

section \<open>Types\<close>

type_synonym byte = "8 word"
type_synonym uint16 = "16 word"
type_synonym uint32 = "32 word"
type_synonym uint64 = "64 word"
type_synonym bytes = "byte list"

text \<open>Offsets into a message stay sums, \<open>off + 2\<close>, in every simplification.\<close>

declare add_2_eq_Suc [simp del] add_2_eq_Suc' [simp del]

section \<open>Lemma collections\<close>

text \<open>
  \<open>wire\<close>: reading and writing fixed-width fields; \<open>result_iff\<close>: inversion of a
  successful sequence of fallible steps.
\<close>

named_theorems wire
named_theorems result_iff

section \<open>Fallible steps\<close>

text \<open>Go's \<open>if err != nil { return err }\<close> between two steps.\<close>

definition andThen :: "'e + 'a \<Rightarrow> ('a \<Rightarrow> 'e + 'b) \<Rightarrow> 'e + 'b" where
  "andThen m f = (case m of Inl e \<Rightarrow> Inl e | Inr x \<Rightarrow> f x)"

text \<open>Go's \<open>if guard { return err }\<close> before the rest of a function.\<close>

definition failIf :: "bool \<Rightarrow> 'e \<Rightarrow> 'e + unit" where
  "failIf b e = (if b then Inl e else Inr ())"

lemma andThen_simps [simp]:
  "andThen (Inl e) f = Inl e"
  "andThen (Inr x) f = f x"
  by (simp_all add: andThen_def)

lemma failIf_simps [simp]:
  "failIf True e = Inl e"
  "failIf False e = Inr ()"
  by (simp_all add: failIf_def)

lemma andThen_Inr_iff [result_iff]:
  "andThen m f = Inr y \<longleftrightarrow> (\<exists>x. m = Inr x \<and> f x = Inr y)"
  by (cases m) simp_all

lemma failIf_Inr_iff [result_iff]: "failIf b e = Inr u \<longleftrightarrow> \<not> b"
  by (simp add: failIf_def)

lemma andThen_cong [fundef_cong]:
  "m = m' \<Longrightarrow> (\<And>x. m' = Inr x \<Longrightarrow> f x = g x) \<Longrightarrow> andThen m f = andThen m' g"
  by (cases m') simp_all

section \<open>Bytes and characters\<close>

text \<open>Go converts between \<open>[]byte\<close> and \<open>string\<close> byte for byte.\<close>

definition byteOf :: "char \<Rightarrow> byte" where
  "byteOf c = word_of_nat (of_char c)"

definition charOf :: "byte \<Rightarrow> char" where
  "charOf b = char_of (unat b)"

definition bytesOf :: "string \<Rightarrow> bytes" where
  "bytesOf s = map byteOf s"

definition stringOf :: "bytes \<Rightarrow> string" where
  "stringOf bs = map charOf bs"

lemma unat_byteOf: "unat (byteOf c) = of_char c"
proof -
  have "(of_char c :: nat) mod 256 = of_char c"
    by (rule of_char_mod_256)
  then show ?thesis
    by (simp add: byteOf_def unat_of_nat)
qed

lemma charOf_byteOf [simp]: "charOf (byteOf c) = c"
  by (simp add: charOf_def unat_byteOf)

lemma byteOf_charOf [simp]: "byteOf (charOf b) = b"
proof -
  have "unat b < 256" using unsigned_less [of b, where 'a = nat] by simp
  then have "unat (byteOf (charOf b)) = unat b"
    by (simp add: unat_byteOf charOf_def)
  then show ?thesis by (rule unsigned_word_eqI)
qed

lemma stringOf_bytesOf [simp]: "stringOf (bytesOf s) = s"
  by (simp add: stringOf_def bytesOf_def o_def)

lemma bytesOf_stringOf [simp]: "bytesOf (stringOf bs) = bs"
  by (simp add: stringOf_def bytesOf_def o_def)

lemma length_bytesOf [simp]: "length (bytesOf s) = length s"
  by (simp add: bytesOf_def)

lemma length_stringOf [simp]: "length (stringOf bs) = length bs"
  by (simp add: stringOf_def)

lemma stringOf_inject [simp]: "stringOf a = stringOf b \<longleftrightarrow> a = b"
  by (metis bytesOf_stringOf)

text \<open>ASCII text: every byte at most \<open>0x7F\<close>.\<close>

definition asciiChar :: "char \<Rightarrow> bool" where
  "asciiChar c \<longleftrightarrow> byteOf c \<le> 0x7F"

definition ascii :: "string \<Rightarrow> bool" where
  "ascii s \<longleftrightarrow> list_all asciiChar s"

lemma ascii_append [simp]: "ascii (s @ t) \<longleftrightarrow> ascii s \<and> ascii t"
  by (simp add: ascii_def)

lemma ascii_Nil [simp]: "ascii []"
  by (simp add: ascii_def)

lemma ascii_Cons [simp]: "ascii (c # s) \<longleftrightarrow> asciiChar c \<and> ascii s"
  by (simp add: ascii_def)

end
