(* ===== verification/Wire.thy ===== *)
theory Wire
  imports Prelude
begin

text \<open>
  Go's \<open>encoding/binary\<close> big-endian accessors and slice expressions, as the packet
  code uses them. A read \<open>binary.BigEndian.Uint16(msg[i:j])\<close> of the source is
  \<open>Uint16 (slice msg i j)\<close>; every read of the model stands behind the length test
  that guards it in the source, so \<^const>\<open>nth\<close> is only used in range.
\<close>

unbundle bit_operations_syntax

definition Uint16 :: "bytes \<Rightarrow> uint16" where
  "Uint16 b = ucast (b ! 1) OR push_bit 8 (ucast (b ! 0))"

definition PutUint16 :: "uint16 \<Rightarrow> bytes" where
  "PutUint16 v = [ucast (drop_bit 8 v), ucast v]"

definition Uint32 :: "bytes \<Rightarrow> uint32" where
  "Uint32 b = ucast (b ! 3) OR push_bit 8 (ucast (b ! 2)) OR
     push_bit 16 (ucast (b ! 1)) OR push_bit 24 (ucast (b ! 0))"

definition PutUint32 :: "uint32 \<Rightarrow> bytes" where
  "PutUint32 v =
     [ucast (drop_bit 24 v), ucast (drop_bit 16 v), ucast (drop_bit 8 v), ucast v]"

text \<open>The slice expression \<open>b[i:j]\<close>, and the in-place write \<open>copy(b[i:], v)\<close>.\<close>

definition slice :: "'a list \<Rightarrow> nat \<Rightarrow> nat \<Rightarrow> 'a list" where
  "slice xs i j = take (j - i) (drop i xs)"

definition overwrite :: "'a list \<Rightarrow> nat \<Rightarrow> 'a list \<Rightarrow> 'a list" where
  "overwrite xs i vs = take i xs @ vs @ drop (i + length vs) xs"

section \<open>Round trips of the fixed-width fields\<close>

lemma Uint16_PutUint16 [simp, wire]: "Uint16 (PutUint16 v) = v"
  by (rule bit_word_eqI)
    (auto simp: Uint16_def PutUint16_def bit_or_iff bit_push_bit_iff bit_ucast_iff
       bit_drop_bit_eq)

lemma Uint32_PutUint32 [simp, wire]: "Uint32 (PutUint32 v) = v"
proof (rule bit_word_eqI)
  fix n assume n: "n < LENGTH(32)"
  then consider "n < 8" | "8 \<le> n" "n < 16" | "16 \<le> n" "n < 24" | "24 \<le> n" "n < 32"
    by force
  then show "bit (Uint32 (PutUint32 v)) n = bit v n"
    by cases (auto simp: Uint32_def PutUint32_def bit_or_iff bit_push_bit_iff bit_ucast_iff
       bit_drop_bit_eq)
qed

lemma Uint16_bytes [simp]: "Uint16 [ucast (drop_bit 8 v), ucast v] = v"
  using Uint16_PutUint16 [of v] by (simp only: PutUint16_def)

lemma Uint32_bytes [simp]:
  "Uint32 [ucast (drop_bit 24 v), ucast (drop_bit 16 v), ucast (drop_bit 8 v), ucast v] = v"
  using Uint32_PutUint32 [of v] by (simp only: PutUint32_def)

lemma length_PutUint16 [simp]: "length (PutUint16 v) = 2"
  by (simp add: PutUint16_def)

lemma length_PutUint32 [simp]: "length (PutUint32 v) = 4"
  by (simp add: PutUint32_def)

lemma PutUint16_Uint16:
  assumes "length b = 2"
  shows "PutUint16 (Uint16 b) = b"
proof -
  from assms obtain x y where b: "b = [x, y]"
    by (auto simp: numeral_2_eq_2 length_Suc_conv)
  have "ucast (drop_bit 8 (ucast y OR push_bit 8 (ucast x) :: uint16)) = x"
    by (rule bit_word_eqI)
      (auto simp: bit_ucast_iff bit_drop_bit_eq bit_or_iff bit_push_bit_iff dest: bit_imp_le_length)
  moreover have "ucast (ucast y OR push_bit 8 (ucast x) :: uint16) = y"
    by (rule bit_word_eqI) (auto simp: bit_ucast_iff bit_or_iff bit_push_bit_iff)
  ultimately show ?thesis by (simp add: b Uint16_def PutUint16_def)
qed

section \<open>Slices\<close>

lemma length_slice [simp]: "length (slice xs i j) = min (j - i) (length xs - i)"
  by (simp add: slice_def)

lemma slice_append_right [wire]:
  "slice (pre @ xs) (length pre + i) (length pre + j) = slice xs i j"
  by (simp add: slice_def)

lemma slice_append_right_0 [wire]:
  "slice (pre @ xs) (length pre) (length pre + j) = slice xs 0 j"
  by (simp add: slice_def)

lemma slice_at:
  "i = length a \<Longrightarrow> j = i + length b \<Longrightarrow> slice (a @ b @ c) i j = b"
  by (simp add: slice_def)

lemma slice_whole [simp]: "slice xs 0 (length xs) = xs"
  by (simp add: slice_def)

lemma take_slice_drop:
  "i \<le> j \<Longrightarrow> j \<le> length xs \<Longrightarrow> take i xs @ slice xs i j @ drop j xs = xs"
  by (metis append_take_drop_id drop_drop le_add_diff_inverse2 slice_def)

lemma length_overwrite [simp]:
  "i + length vs \<le> length xs \<Longrightarrow> length (overwrite xs i vs) = length xs"
  by (simp add: overwrite_def)

lemma overwrite_at:
  "i = length a \<Longrightarrow> length b = length b' \<Longrightarrow> overwrite (a @ b @ c) i b' = a @ b' @ c"
  by (simp add: overwrite_def)

lemma nth_overwrite:
  assumes "i + length vs \<le> length xs" "k < length xs"
  shows "overwrite xs i vs ! k =
    (if i \<le> k \<and> k < i + length vs then vs ! (k - i) else xs ! k)"
  using assms by (auto simp: overwrite_def nth_append min_def)

lemma slice_overwrite_same:
  assumes "i + length vs \<le> length xs"
  shows "slice (overwrite xs i vs) i (i + length vs) = vs"
  using assms by (simp add: overwrite_def slice_def)

lemma slice_overwrite_before:
  assumes "i + length vs \<le> length xs" "j \<le> i"
  shows "slice (overwrite xs i vs) k j = slice xs k j"
  using assms by (auto simp: overwrite_def slice_def take_drop min_def)

lemma slice_overwrite_after:
  assumes "i + length vs \<le> length xs" "i + length vs \<le> k"
  shows "slice (overwrite xs i vs) k j = slice xs k j"
  using assms by (simp add: overwrite_def slice_def)

end
