(* ===== verification/Dns_Errors.thy ===== *)
theory Dns_Errors
  imports Prelude
begin

text \<open>
  The errors the \<open>dns\<close> package returns, one constructor per \<open>fmt.Errorf\<close> or
  \<open>errors.New\<close> site, carrying the numbers the message prints. \<open>Panic\<close> stands for
  a Go run-time panic (an index or slice bound out of range).
\<close>

datatype dns_error =
    EmptyDomainName
  | EmptyLabel string
  | DomainNotASCII
  | LabelTooLong nat
  | EncodedNameTooLong nat
  | TooManyIndirections
  | EOFDecodingName
  | ReservedLabelBits
  | EOFDecodingPointer
  | PointerOutOfBounds
  | PointerLoop
  | EOFReadingLabel
  | DecodedNotASCII
  | EOFReadingHeader
  | EOFReadingQuestion
  | EOFReadingRecord
  | EOFReadingRData
  | IPRecordLength nat
  | EOFReadingIPRecord
  | NameRDataLengthMismatch
  | OpaqueNotBytes
  | InvalidIPAddress
  | RDataTooLarge nat
  | MessageTooLarge
  | ResponsePacketReceived
  | UnsupportedOpCode uint16
  | TooManyQuestions
  | UnsupportedQuestionCount
  | TooManyRecords
  | TooManyTotalRecords
  | Panic

end
