(* ===== verification/Codec.thy ===== *)
theory Codec
  imports Wire Dns_Errors
begin

text \<open>
  Sequences of wire items. \<open>parseN\<close> is the source's \<open>for range count\<close> around a
  parser that advances an offset; \<open>appendAll\<close> is its loop that marshals items onto an
  output buffer. The locale \<open>wire_codec\<close> states what one item's marshaller and parser
  promise each other (the parser inverts the marshaller at any position of a message
  and always moves forward) and derives the same for whole sections.
\<close>

fun parseN :: "(bytes \<Rightarrow> nat \<Rightarrow> dns_error + ('b \<times> nat)) \<Rightarrow> nat \<Rightarrow> bytes \<Rightarrow> nat \<Rightarrow>
    dns_error + ('b list \<times> nat)" where
  "parseN dec 0 msg off = Inr ([], off)"
| "parseN dec (Suc n) msg off =
     andThen (dec msg off) (\<lambda>(y, off1).
       andThen (parseN dec n msg off1) (\<lambda>(ys, off2). Inr (y # ys, off2)))"

fun appendAll :: "('a \<Rightarrow> dns_error + bytes) \<Rightarrow> bytes \<Rightarrow> 'a list \<Rightarrow> dns_error + bytes" where
  "appendAll enc out [] = Inr out"
| "appendAll enc out (x # xs) = andThen (enc x) (\<lambda>b. appendAll enc (out @ b) xs)"

lemma appendAll_out:
  "appendAll enc out xs = andThen (appendAll enc [] xs) (\<lambda>b. Inr (out @ b))"
proof (induction xs arbitrary: out)
  case (Cons x xs)
  show ?case
  proof (cases "enc x")
    case (Inr b)
    show ?thesis
      using Cons [of "out @ b"] Cons [of b] Inr
      by (cases "appendAll enc [] xs") simp_all
  qed simp
qed simp

lemma appendAll_Cons_Inr:
  "appendAll enc [] (x # xs) = Inr bs \<longleftrightarrow>
     (\<exists>b rest. enc x = Inr b \<and> appendAll enc [] xs = Inr rest \<and> bs = b @ rest)"
  by (subst appendAll.simps, subst appendAll_out) (auto simp: andThen_Inr_iff)

lemma appendAll_Inr_out:
  "appendAll enc out xs = Inr bs \<longleftrightarrow> (\<exists>rest. appendAll enc [] xs = Inr rest \<and> bs = out @ rest)"
  by (subst appendAll_out) (auto simp: andThen_Inr_iff)

lemma appendAll_onto: "appendAll enc [] xs = Inr b \<Longrightarrow> appendAll enc out xs = Inr (out @ b)"
  by (subst appendAll_out) simp

lemma appendAll_total:
  assumes "\<And>x. x \<in> set xs \<Longrightarrow> \<exists>b. enc x = Inr b"
  shows "\<exists>bs. appendAll enc out xs = Inr bs"
  using assms
proof (induction xs arbitrary: out)
  case (Cons x xs)
  then obtain b where "enc x = Inr b" by force
  with Cons.IH [of "out @ b"] Cons.prems show ?case by simp
qed simp

lemma parseN_length:
  "parseN dec n msg off = Inr (ys, off') \<Longrightarrow> length ys = n"
  by (induction n arbitrary: off ys) (auto simp: andThen_Inr_iff)

locale wire_codec =
  fixes enc :: "'a \<Rightarrow> dns_error + bytes"
    and dec :: "bytes \<Rightarrow> nat \<Rightarrow> dns_error + ('b \<times> nat)"
    and norm :: "'a \<Rightarrow> 'b"
    and wf :: "'a \<Rightarrow> bool"
    and good :: "'b \<Rightarrow> bool"
  assumes dec_enc: "wf x \<Longrightarrow> enc x = Inr bs \<Longrightarrow>
      dec (pre @ bs @ post) (length pre) = Inr (norm x, length pre + length bs)"
    and dec_progress: "dec msg off = Inr (y, off') \<Longrightarrow> off < off' \<and> off' \<le> length msg"
    and dec_good: "dec msg off = Inr (y, off') \<Longrightarrow> good y"
begin

lemma parseN_appendAll:
  assumes "list_all wf xs" "appendAll enc [] xs = Inr bs"
  shows "parseN dec (length xs) (pre @ bs @ post) (length pre) =
    Inr (map norm xs, length pre + length bs)"
  using assms
proof (induction xs arbitrary: pre bs)
  case Nil
  then show ?case by simp
next
  case (Cons x xs)
  then obtain b rest where b: "enc x = Inr b" and rest: "appendAll enc [] xs = Inr rest"
    and bs: "bs = b @ rest"
    using appendAll_Cons_Inr [of enc x xs bs] by blast
  have "dec (pre @ bs @ post) (length pre) = Inr (norm x, length pre + length b)"
    using dec_enc [OF _ b, of pre "rest @ post"] Cons.prems(1) by (simp add: bs)
  moreover have "parseN dec (length xs) (pre @ bs @ post) (length pre + length b) =
      Inr (map norm xs, length pre + length bs)"
    using Cons.IH [of rest "pre @ b"] Cons.prems(1) rest by (simp add: bs add.assoc)
  ultimately show ?case by simp
qed

lemma parseN_progress:
  assumes "parseN dec n msg off = Inr (ys, off')" "off \<le> length msg"
  shows "off + n \<le> off' \<and> off' \<le> length msg"
  using assms
proof (induction n arbitrary: off ys)
  case (Suc n)
  then obtain y off1 zs where "dec msg off = Inr (y, off1)" "parseN dec n msg off1 = Inr (zs, off')"
    by (auto simp: andThen_Inr_iff)
  with dec_progress Suc.IH [of off1 zs] show ?case by fastforce
qed simp

lemma parseN_good:
  assumes "parseN dec n msg off = Inr (ys, off')"
  shows "list_all good ys"
  using assms
  by (induction n arbitrary: off ys) (auto simp: andThen_Inr_iff dest: dec_good)

end

end
