(* ===== verification/GoStrings.thy ===== *)
theory GoStrings
  imports Prelude
begin

text \<open>
  The functions of Go's \<open>strings\<close> package that the sources call. On ASCII text each
  is defined here. On other text \<open>ToLower\<close>, \<open>ToUpper\<close>, \<open>TrimSpace\<close>, \<open>Fields\<close> and
  \<open>EqualFold\<close> consult the Unicode tables of the Go runtime, which are not part of
  the repository: their results there are the fields of the parameter
  \<open>go_unicode\<close>, and every function that reaches them takes that parameter.
\<close>

record go_unicode =
  uc_ToLower :: "string \<Rightarrow> string"
  uc_ToUpper :: "string \<Rightarrow> string"
  uc_TrimSpace :: "string \<Rightarrow> string"
  uc_Fields :: "string \<Rightarrow> string list"
  uc_EqualFold :: "string \<Rightarrow> string \<Rightarrow> bool"

section \<open>Case\<close>

definition lowerChar :: "char \<Rightarrow> char" where
  "lowerChar c = (let b = byteOf c in if 0x41 \<le> b \<and> b \<le> 0x5A then charOf (b + 32) else c)"

definition upperChar :: "char \<Rightarrow> char" where
  "upperChar c = (let b = byteOf c in if 0x61 \<le> b \<and> b \<le> 0x7A then charOf (b - 32) else c)"

definition ToLower :: "go_unicode \<Rightarrow> string \<Rightarrow> string" where
  "ToLower uc s = (if ascii s then map lowerChar s else uc_ToLower uc s)"

definition ToUpper :: "go_unicode \<Rightarrow> string \<Rightarrow> string" where
  "ToUpper uc s = (if ascii s then map upperChar s else uc_ToUpper uc s)"

definition EqualFold :: "go_unicode \<Rightarrow> string \<Rightarrow> string \<Rightarrow> bool" where
  "EqualFold uc s t =
     (if ascii s \<and> ascii t then map lowerChar s = map lowerChar t else uc_EqualFold uc s t)"

section \<open>Trimming and searching\<close>

definition asciiSpace :: "char \<Rightarrow> bool" where
  "asciiSpace c \<longleftrightarrow> c = CHR '' '' \<or> (0x09 \<le> byteOf c \<and> byteOf c \<le> 0x0D)"

definition trimBoth :: "(char \<Rightarrow> bool) \<Rightarrow> string \<Rightarrow> string" where
  "trimBoth p s = rev (dropWhile p (rev (dropWhile p s)))"

definition TrimSpace :: "go_unicode \<Rightarrow> string \<Rightarrow> string" where
  "TrimSpace uc s = (if ascii s then trimBoth asciiSpace s else uc_TrimSpace uc s)"

definition HasPrefix :: "string \<Rightarrow> string \<Rightarrow> bool" where
  "HasPrefix s p \<longleftrightarrow> take (length p) s = p"

definition HasSuffix :: "string \<Rightarrow> string \<Rightarrow> bool" where
  "HasSuffix s p \<longleftrightarrow> length p \<le> length s \<and> drop (length s - length p) s = p"

definition TrimPrefix :: "string \<Rightarrow> string \<Rightarrow> string" where
  "TrimPrefix s p = (if HasPrefix s p then drop (length p) s else s)"

definition TrimSuffix :: "string \<Rightarrow> string \<Rightarrow> string" where
  "TrimSuffix s p = (if HasSuffix s p then take (length s - length p) s else s)"

text \<open>\<open>if idx := strings.Index(s, c); idx >= 0 { s = s[:idx] }\<close> for a one-byte \<open>c\<close>.\<close>

definition cutAt :: "char \<Rightarrow> string \<Rightarrow> string" where
  "cutAt c s = takeWhile (\<lambda>x. x \<noteq> c) s"

section \<open>Splitting and joining\<close>

text \<open>\<open>strings.Split(s, c)\<close> for a one-byte separator.\<close>

fun Split :: "char \<Rightarrow> string \<Rightarrow> string list" where
  "Split c [] = [[]]"
| "Split c (x # xs) =
     (if x = c then [] # Split c xs
      else (case Split c xs of [] \<Rightarrow> [[x]] | y # ys \<Rightarrow> (x # y) # ys))"

fun asciiFields :: "string \<Rightarrow> string \<Rightarrow> string list" where
  "asciiFields acc [] = (if acc = [] then [] else [rev acc])"
| "asciiFields acc (x # xs) =
     (if asciiSpace x then (if acc = [] then asciiFields [] xs else rev acc # asciiFields [] xs)
      else asciiFields (x # acc) xs)"

definition Fields :: "go_unicode \<Rightarrow> string \<Rightarrow> string list" where
  "Fields uc s = (if ascii s then asciiFields [] s else uc_Fields uc s)"

fun joinWith :: "char \<Rightarrow> string list \<Rightarrow> string" where
  "joinWith c [] = []"
| "joinWith c [s] = s"
| "joinWith c (s # ss) = s @ c # joinWith c ss"

section \<open>Facts\<close>

lemma Split_not_Nil [simp]: "Split c s \<noteq> []"
  by (cases s) (auto split: list.splits)

lemma joinWith_Cons: "ss \<noteq> [] \<Longrightarrow> joinWith c (s # ss) = s @ c # joinWith c ss"
  by (cases ss) simp_all

lemma joinWith_Split [simp]: "joinWith c (Split c s) = s"
proof (induction s)
  case (Cons x xs)
  obtain y ys where ys: "Split c xs = y # ys"
    by (meson Split_not_Nil neq_Nil_conv)
  show ?case
    using Cons ys by (cases ys) (auto simp: joinWith_Cons)
qed simp

lemma Split_no_sep: "c \<notin> set s \<Longrightarrow> Split c s = [s]"
  by (induction s) auto

lemma Split_append_sep: "c \<notin> set s \<Longrightarrow> Split c (s @ c # t) = s # Split c t"
  by (induction s) auto

lemma Split_joinWith:
  assumes "ss \<noteq> []" "\<And>s. s \<in> set ss \<Longrightarrow> c \<notin> set s"
  shows "Split c (joinWith c ss) = ss"
  using assms
proof (induction ss)
  case (Cons s ss)
  then show ?case
    by (cases "ss = []") (auto simp: joinWith_Cons Split_no_sep Split_append_sep)
qed simp

lemma Split_parts: "s \<in> set (Split c t) \<Longrightarrow> c \<notin> set s"
proof (induction t arbitrary: s)
  case (Cons x xs)
  then show ?case
    by (auto split: if_splits list.splits simp: Split_not_Nil)
qed simp

lemma length_joinWith:
  "ss \<noteq> [] \<Longrightarrow> length (joinWith c ss) + 1 = sum_list (map (\<lambda>s. length s + 1) ss)"
proof (induction ss)
  case (Cons s ss)
  then show ?case by (cases "ss = []") (auto simp: joinWith_Cons)
qed simp

lemma ascii_joinWith:
  "asciiChar c \<Longrightarrow> list_all ascii ss \<Longrightarrow> ascii (joinWith c ss)"
  by (induction c ss rule: joinWith.induct) auto

lemma asciiChar_charOf: "asciiChar (charOf b) \<longleftrightarrow> b \<le> 0x7F"
  by (simp add: asciiChar_def)

lemma asciiChar_lowerChar [simp]: "asciiChar (lowerChar c) \<longleftrightarrow> asciiChar c"
proof -
  have "b + 32 \<le> 0x7F" if "0x41 \<le> b" "b \<le> 0x5A" for b :: byte
    using that by unat_arith
  moreover have "b \<le> 0x7F" if "b \<le> 0x5A" for b :: byte
    using that by unat_arith
  ultimately show ?thesis
    by (auto simp: lowerChar_def Let_def asciiChar_charOf asciiChar_def)
qed

lemma ascii_map_lowerChar [simp]: "ascii (map lowerChar s) \<longleftrightarrow> ascii s"
  by (induction s) auto

lemma unat_upper_add:
  fixes b :: byte
  assumes "b \<le> 0x5A"
  shows "unat (b + 32) = unat b + 32"
  using assms by (simp add: unat_word_ariths word_le_nat_alt)

lemma lowerChar_idem [simp]: "lowerChar (lowerChar c) = lowerChar c"
proof -
  have "\<not> b + 32 \<le> 0x5A" if "0x41 \<le> b" "b \<le> 0x5A" for b :: byte
    using that by (simp add: word_le_nat_alt unat_upper_add)
  then show ?thesis
    by (auto simp: lowerChar_def Let_def)
qed

lemma byteOf_dot: "byteOf CHR ''.'' = 0x2E"
  by (simp add: byteOf_def)

lemma lowerChar_dot [simp]: "lowerChar c = CHR ''.'' \<longleftrightarrow> c = CHR ''.''"
proof (cases "0x41 \<le> byteOf c \<and> byteOf c \<le> 0x5A")
  case True
  then have "unat (byteOf c + 32) \<noteq> unat (byteOf CHR ''.'')"
    by (simp add: unat_upper_add byteOf_dot word_le_nat_alt)
  then have "charOf (byteOf c + 32) \<noteq> CHR ''.''"
    by (metis byteOf_charOf)
  moreover have "c \<noteq> CHR ''.''"
    using True by (auto simp: byteOf_dot)
  ultimately show ?thesis
    using True by (simp add: lowerChar_def Let_def)
qed (auto simp: lowerChar_def Let_def byteOf_dot)

lemma ascii_ToLower: "ascii s \<Longrightarrow> ToLower uc s = map lowerChar s"
  by (simp add: ToLower_def)

lemma ToLower_idem: "ascii s \<Longrightarrow> ToLower uc (ToLower uc s) = ToLower uc s"
  by (simp add: ToLower_def)

lemma set_TrimSuffix: "set (TrimSuffix s p) \<subseteq> set s"
  by (auto simp: TrimSuffix_def dest: in_set_takeD)

lemma ascii_TrimSuffix: "ascii s \<Longrightarrow> ascii (TrimSuffix s p)"
  using set_TrimSuffix [of s p] by (auto simp: ascii_def list_all_iff)

lemma TrimSuffix_dot_id: "(s = [] \<or> last s \<noteq> c) \<Longrightarrow> TrimSuffix s [c] = s"
  by (cases s rule: rev_cases) (auto simp: TrimSuffix_def HasSuffix_def)

end
