(* ===== verification/Dns_Name.thy ===== *)
theory Dns_Name
  imports Wire GoStrings Dns_Errors
begin

text \<open>
  \<open>internal/dns/codec.go\<close>: domain names in wire format. \<open>EncodeName\<close> is the index
  loop of the source; \<open>decodeName\<close>, its label loop and \<open>followCompressionPointer\<close>
  are mutually recursive as in the source, with the offset and the set of visited
  pointers passed explicitly (the source shares them by reference, and every
  recursive call ends the caller's loop). The lemmas show that encoding agrees with
  a split into labels, that decoding inverts it at any position of a message, that
  decoding always ends, stays inside the message and yields ASCII text.
\<close>

unbundle bit_operations_syntax

section \<open>Encoding\<close>

definition NormalizeName :: "go_unicode \<Rightarrow> string \<Rightarrow> string" where
  "NormalizeName uc name = ToLower uc (TrimSuffix name ''.'')"

fun trimDot :: "string \<Rightarrow> string" where
  "trimDot s = (if s \<noteq> [] \<and> last s = CHR ''.'' then trimDot (butlast s) else s)"

declare trimDot.simps [simp del]

text \<open>
  The loop of \<open>EncodeName\<close> over \<open>i\<close>, with \<open>labelStart\<close> and the output so far.
\<close>

function encodeLabels :: "string \<Rightarrow> nat \<Rightarrow> nat \<Rightarrow> bytes \<Rightarrow> dns_error + bytes" where
  "encodeLabels domain i labelStart out =
     (if i > length domain then Inr out
      else if i = length domain \<or> domain ! i = CHR ''.'' then
        (if i = labelStart then Inl (EmptyLabel domain)
         else
           (let label = slice domain labelStart i in
            if \<not> ascii label then Inl DomainNotASCII
            else if length label > 63 then Inl (LabelTooLong (length label))
            else encodeLabels domain (i + 1) (i + 1)
                   (out @ word_of_nat (length label) # bytesOf label)))
      else encodeLabels domain (i + 1) labelStart out)"
  by pat_completeness auto
termination
  by (relation "measure (\<lambda>(domain, i, _, _). length domain + 1 - i)") auto

declare encodeLabels.simps [simp del]

definition EncodeName :: "string \<Rightarrow> dns_error + bytes" where
  "EncodeName domain0 =
     (if domain0 = '''' then Inl EmptyDomainName
      else
        (let domain = trimDot domain0 in
         if domain = '''' then Inr [0]
         else andThen (encodeLabels domain 0 0 []) (\<lambda>labels.
           (let out = labels @ [0] in
            if length out > 255 then Inl (EncodedNameTooLong (length out)) else Inr out))))"

section \<open>Decoding\<close>

definition isCompressionPointer :: "byte \<Rightarrow> bool" where
  "isCompressionPointer b \<longleftrightarrow> b AND 0xC0 = 0xC0"

definition hasReservedBits :: "byte \<Rightarrow> bool" where
  "hasReservedBits b \<longleftrightarrow> b AND 0xC0 \<noteq> 0"

definition joinLabels :: "string list \<Rightarrow> string" where
  "joinLabels labels = joinWith CHR ''.'' labels"

definition readLabel :: "bytes \<Rightarrow> nat \<Rightarrow> nat \<Rightarrow> dns_error + (string \<times> nat)" where
  "readLabel msg off len =
     (if off + len > length msg then Inl EOFReadingLabel
      else
        (let label = slice msg off (off + len) in
         if list_ex (\<lambda>b. b > 0x7F) label then Inl DecodedNotASCII
         else Inr (stringOf label, off + len)))"

lemma readLabel_Inr:
  assumes "readLabel msg off len = Inr (l, off')"
  shows "off' = off + len \<and> off' \<le> length msg \<and> ascii l \<and> length l = len \<and>
    bytesOf l = slice msg off off'"
  using assms
  by (auto simp: readLabel_def Let_def ascii_def stringOf_def asciiChar_charOf list_all_iff
      list_ex_iff not_less bytesOf_def o_def split: if_splits)

definition maxCompressionDepth :: nat where
  "maxCompressionDepth = 20"

function (sequential)
  decodeName :: "bytes \<Rightarrow> nat \<Rightarrow> nat \<Rightarrow> nat set \<Rightarrow> dns_error + (string \<times> nat)" and
  decodeLoop :: "bytes \<Rightarrow> nat \<Rightarrow> nat \<Rightarrow> nat set \<Rightarrow> string list \<Rightarrow> dns_error + (string \<times> nat)" and
  followCompressionPointer ::
    "bytes \<Rightarrow> nat \<Rightarrow> byte \<Rightarrow> nat \<Rightarrow> nat set \<Rightarrow> dns_error + (string \<times> nat)"
where
  "decodeName msg off depth visited =
     (if depth > maxCompressionDepth then Inl TooManyIndirections
      else if off \<ge> length msg then Inl EOFDecodingName
      else decodeLoop msg off depth visited [])"
| "decodeLoop msg off depth visited labels =
     (if off \<ge> length msg then Inl EOFDecodingName
      else
        (let labelLen = msg ! off in
         if labelLen = 0 then Inr (joinLabels labels, off + 1)
         else if isCompressionPointer labelLen then
           andThen (followCompressionPointer msg (off + 1) labelLen depth visited)
             (\<lambda>(rest, off'). Inr (joinLabels (if rest \<noteq> '''' then labels @ [rest] else labels), off'))
         else if hasReservedBits labelLen then Inl ReservedLabelBits
         else
           (case readLabel msg (off + 1) (unat labelLen) of
              Inl e \<Rightarrow> Inl e
            | Inr (label, off') \<Rightarrow> decodeLoop msg off' depth visited (labels @ [label]))))"
| "followCompressionPointer msg off firstByte depth visited =
     (if off \<ge> length msg then Inl EOFDecodingPointer
      else
        (let ptr = unat (Uint16 [firstByte AND 0x3F, msg ! off]) in
         if ptr \<ge> length msg then Inl PointerOutOfBounds
         else if ptr \<in> visited then Inl PointerLoop
         else andThen (decodeName msg ptr (depth + 1) (insert ptr visited))
                (\<lambda>(rest, _). Inr (rest, off + 1))))"
  by pat_completeness auto
termination
  by (relation "inv_image (less_than <*lex*> less_than) (\<lambda>x. case x of
        Inl (msg, off, d, v) \<Rightarrow> (3 * (21 - d), 0)
      | Inr (Inl (msg, off, d, v, ls)) \<Rightarrow> (3 * (20 - d) + 2, length msg - off)
      | Inr (Inr (msg, off, b, d, v)) \<Rightarrow> (3 * (20 - d) + 1, 0))")
    (auto simp: maxCompressionDepth_def dest!: readLabel_Inr)

declare decodeName.simps [simp del] decodeLoop.simps [simp del]
  followCompressionPointer.simps [simp del]

definition DecodeName :: "bytes \<Rightarrow> nat \<Rightarrow> dns_error + (string \<times> nat)" where
  "DecodeName msg off = decodeName msg off 0 {}"

section \<open>Trailing dots\<close>

lemma trimDot_eq: "trimDot s = rev (dropWhile (\<lambda>c. c = CHR ''.'') (rev s))"
proof (induction s rule: trimDot.induct)
  case (1 s)
  then show ?case
    by (cases s rule: rev_cases) (subst trimDot.simps, auto)+
qed

lemma trimDot_last: "trimDot s \<noteq> [] \<Longrightarrow> last (trimDot s) \<noteq> CHR ''.''"
  by (metis (mono_tags, lifting) trimDot_eq hd_dropWhile last_rev rev_is_Nil_conv)

lemma trimDot_idem [simp]: "trimDot (trimDot s) = trimDot s"
  using trimDot_last [of s] by (subst trimDot.simps) auto

lemma set_trimDot: "set (trimDot s) \<subseteq> set s"
  by (auto simp: trimDot_eq dest: set_dropWhileD)

section \<open>The encoding loop against a split into labels\<close>

definition wireLabel :: "string \<Rightarrow> bytes" where
  "wireLabel l = word_of_nat (length l) # bytesOf l"

definition wireLabels :: "string list \<Rightarrow> bytes" where
  "wireLabels ls = concat (map wireLabel ls)"

definition labelOK :: "string \<Rightarrow> bool" where
  "labelOK l \<longleftrightarrow> l \<noteq> [] \<and> ascii l \<and> length l \<le> 63"

fun encodeRef :: "string \<Rightarrow> string list \<Rightarrow> dns_error + bytes" where
  "encodeRef d [] = Inr []"
| "encodeRef d (l # ls) =
     (if l = [] then Inl (EmptyLabel d)
      else if \<not> ascii l then Inl DomainNotASCII
      else if length l > 63 then Inl (LabelTooLong (length l))
      else andThen (encodeRef d ls) (\<lambda>bs. Inr (wireLabel l @ bs)))"

lemma encodeRef_Inr_iff:
  "encodeRef d ls = Inr bs \<longleftrightarrow> list_all labelOK ls \<and> bs = wireLabels ls"
  by (induction ls arbitrary: bs)
    (auto simp: labelOK_def wireLabels_def andThen_Inr_iff)

lemma slice_no_sep:
  assumes "\<forall>k. j \<le> k \<and> k < i \<longrightarrow> d ! k \<noteq> c" "i \<le> length d"
  shows "c \<notin> set (slice d j i)"
  using assms by (auto simp: slice_def in_set_conv_nth)

lemma drop_at_sep:
  assumes "j \<le> i" "i < length d"
  shows "drop j d = slice d j i @ d ! i # drop (i + 1) d"
proof -
  have "drop j d = take (i - j) (drop j d) @ drop i d"
    using assms(1) by (metis append_take_drop_id drop_drop le_add_diff_inverse2)
  then show ?thesis
    using assms(2) by (simp add: slice_def Cons_nth_drop_Suc)
qed

lemma encodeLabels_eq:
  assumes "j \<le> i" "i \<le> length d" "\<forall>k. j \<le> k \<and> k < i \<longrightarrow> d ! k \<noteq> CHR ''.''"
  shows "encodeLabels d i j out =
    andThen (encodeRef d (Split CHR ''.'' (drop j d))) (\<lambda>bs. Inr (out @ bs))"
  using assms
proof (induction d i j out rule: encodeLabels.induct)
  case (1 d i j out)
  note nosep = slice_no_sep [OF "1.prems"(3,2)]
  consider (fin) "i = length d" | (dot) "i < length d" "d ! i = CHR ''.''"
    | (other) "i < length d" "d ! i \<noteq> CHR ''.''"
    using "1.prems" by linarith
  then show ?case
  proof cases
    case fin
    then have sl: "slice d j i = drop j d" by (simp add: slice_def)
    have "Split CHR ''.'' (drop j d) = [drop j d]"
      using nosep by (simp add: Split_no_sep sl)
    then show ?thesis
      using fin "1.prems" by (subst encodeLabels.simps)
        (simp add: slice_def Let_def wireLabel_def encodeLabels.simps [of d "Suc (length d)"])
  next
    case dot
    have "Split CHR ''.'' (drop j d) = slice d j i # Split CHR ''.'' (drop (i + 1) d)"
      using Split_append_sep [OF nosep] drop_at_sep [OF "1.prems"(1) dot(1)] dot(2) by simp
    moreover have triv: "\<forall>k. Suc i \<le> k \<and> k < Suc i \<longrightarrow> d ! k \<noteq> CHR ''.''"
      by auto
    moreover have "slice d j i = [] \<longleftrightarrow> i = j"
      using dot(1) "1.prems"(1) by (auto simp: slice_def)
    moreover have "encodeLabels d (i + 1) (i + 1) out' =
        andThen (encodeRef d (Split CHR ''.'' (drop (i + 1) d))) (\<lambda>bs. Inr (out' @ bs))"
      if "i \<noteq> j" "ascii (slice d j i)" "length (slice d j i) \<le> 63"
        "out' = out @ word_of_nat (length (slice d j i)) # bytesOf (slice d j i)" for out'
      using "1.IH"(1) [OF _ _ _ refl] dot that triv by simp
    ultimately show ?thesis
      using dot "1.prems" by (subst encodeLabels.simps)
        (simp add: Let_def wireLabel_def andThen_def split: sum.splits)
  next
    case other
    moreover have "\<forall>k. j \<le> k \<and> k < i + 1 \<longrightarrow> d ! k \<noteq> CHR ''.''"
      using "1.prems"(3) other(2) by (metis Suc_eq_plus1 less_Suc_eq)
    ultimately show ?thesis
      using "1.IH"(2) "1.prems" by (subst encodeLabels.simps) simp
  qed
qed

text \<open>
  What \<open>EncodeName\<close> computes: the labels between the dots, each as a length byte and
  its text, then the zero byte of the root.
\<close>

lemma EncodeName_Inr_iff:
  "EncodeName d = Inr bs \<longleftrightarrow> d \<noteq> [] \<and>
     (if trimDot d = [] then bs = [0]
      else list_all labelOK (Split CHR ''.'' (trimDot d)) \<and>
        bs = wireLabels (Split CHR ''.'' (trimDot d)) @ [0] \<and> length bs \<le> 255)"
  by (auto simp: EncodeName_def Let_def encodeLabels_eq andThen_Inr_iff encodeRef_Inr_iff
      split: if_splits)

lemma length_wireLabels: "length (wireLabels ls) = sum_list (map (\<lambda>l. length l + 1) ls)"
  by (induction ls) (simp_all add: wireLabels_def wireLabel_def)

lemma EncodeName_bounds:
  assumes "EncodeName d = Inr bs"
  shows "1 \<le> length bs" "length bs \<le> 255" "last bs = 0"
  using assms by (auto simp: EncodeName_Inr_iff split: if_splits)

section \<open>Length bytes\<close>

lemma small_byte_and_C0:
  fixes b :: byte
  assumes "unat b < 64"
  shows "b AND 0xC0 = 0"
proof -
  have "(b AND 0xC0) = (b AND NOT (mask 6))"
    by (rule bit_word_eqI) (auto simp: bit_simps less_Suc_eq numeral_eq_Suc)
  moreover have "take_bit 6 b = b"
    using assms by (simp add: take_bit_nat_eq_self unsigned_take_bit_eq word_unat_eq_iff)
  ultimately show ?thesis
    by (metis and.assoc and.right_neutral bit.conj_cancel_right take_bit_eq_mask and_zero_eq)
qed

lemma label_byte:
  assumes "0 < n" "n \<le> 63"
  shows "(word_of_nat n :: byte) \<noteq> 0" "unat (word_of_nat n :: byte) = n"
    "\<not> isCompressionPointer (word_of_nat n)" "\<not> hasReservedBits (word_of_nat n)"
proof -
  show u: "unat (word_of_nat n :: byte) = n"
    using assms by (simp add: unat_of_nat)
  show "(word_of_nat n :: byte) \<noteq> 0"
    using u assms(1) by (metis unat_0 less_irrefl)
  have "(word_of_nat n :: byte) AND 0xC0 = 0"
    by (rule small_byte_and_C0) (use u assms in simp)
  then show "\<not> isCompressionPointer (word_of_nat n)" "\<not> hasReservedBits (word_of_nat n)"
    by (simp_all add: isCompressionPointer_def hasReservedBits_def)
qed

section \<open>Decoding inverts encoding\<close>

lemma readLabel_bytesOf:
  assumes "ascii l"
  shows "readLabel (pre @ bytesOf l @ post) (length pre) (length l) =
    Inr (l, length pre + length l)"
proof -
  have "slice (pre @ bytesOf l @ post) (length pre) (length pre + length l) = bytesOf l"
    by (rule slice_at) simp_all
  moreover have "\<not> list_ex (\<lambda>b. b > 0x7F) (bytesOf l)"
    using assms by (auto simp: ascii_def asciiChar_def list_ex_iff list_all_iff bytesOf_def not_less)
  ultimately show ?thesis
    by (simp add: readLabel_def Let_def)
qed

lemma decodeLoop_wireLabels:
  assumes "list_all labelOK ls"
  shows "decodeLoop (pre @ wireLabels ls @ 0 # post) (length pre) depth visited acc =
    Inr (joinLabels (acc @ ls), length pre + length (wireLabels ls) + 1)"
  using assms
proof (induction ls arbitrary: pre acc)
  case Nil
  show ?case
    by (subst decodeLoop.simps) (simp add: wireLabels_def)
next
  case (Cons l ls)
  let ?b = "word_of_nat (length l) :: byte"
  let ?msg = "pre @ wireLabels (l # ls) @ 0 # post"
  have "labelOK l" and ls: "list_all labelOK ls"
    using Cons.prems by simp_all
  then have ok: "l \<noteq> []" "ascii l" "length l \<le> 63"
    by (simp_all add: labelOK_def)
  note lb = label_byte [of "length l", OF _ ok(3)]
  have msg: "?msg = pre @ ?b # bytesOf l @ wireLabels ls @ 0 # post"
    by (simp add: wireLabels_def wireLabel_def)
  have rl: "readLabel ?msg (length pre + 1) (length l) = Inr (l, length pre + 1 + length l)"
    using readLabel_bytesOf [OF ok(2), of "pre @ [?b]"] by (simp add: msg)
  have IH: "decodeLoop ?msg (length pre + 1 + length l) depth visited (acc @ [l]) =
      Inr (joinLabels (acc @ l # ls), length pre + length (wireLabels (l # ls)) + 1)"
    using Cons.IH [OF ls, of "pre @ wireLabel l" "acc @ [l]"]
    by (simp add: wireLabels_def wireLabel_def add.assoc)
  have at: "?msg ! length pre = ?b" by (simp add: msg)
  show ?case
    using lb ok(1) rl IH at
    by (subst decodeLoop.simps) (simp add: Let_def wireLabels_def wireLabel_def)
qed

lemma DecodeName_EncodeName:
  assumes "EncodeName d = Inr bs"
  shows "DecodeName (pre @ bs @ post) (length pre) = Inr (trimDot d, length pre + length bs)"
proof (cases "trimDot d = []")
  case True
  with assms have "bs = [0]" by (simp add: EncodeName_Inr_iff)
  then show ?thesis
    using True decodeLoop_wireLabels [of "[]" pre post 0 "{}" "[]"]
    by (simp add: DecodeName_def decodeName.simps joinLabels_def wireLabels_def
        maxCompressionDepth_def)
next
  case False
  let ?ls = "Split CHR ''.'' (trimDot d)"
  from assms False have ok: "list_all labelOK ?ls" and bs: "bs = wireLabels ?ls @ [0]"
    by (simp_all add: EncodeName_Inr_iff)
  show ?thesis
    using decodeLoop_wireLabels [OF ok, of pre post 0 "{}" "[]"]
    by (simp add: DecodeName_def decodeName.simps bs joinLabels_def maxCompressionDepth_def)
qed

section \<open>Decoding stays inside the message\<close>

lemma ascii_joinLabels: "list_all ascii ls \<Longrightarrow> ascii (joinLabels ls)"
  by (simp add: joinLabels_def ascii_joinWith asciiChar_def byteOf_dot)

lemma decode_progress:
  shows "decodeName msg off depth visited = Inr (n, off') \<Longrightarrow>
      off < off' \<and> off' \<le> length msg \<and> ascii n"
    and "decodeLoop msg off depth visited ls = Inr (n, off') \<Longrightarrow> list_all ascii ls \<Longrightarrow>
      off < off' \<and> off' \<le> length msg \<and> ascii n"
    and "followCompressionPointer msg off b depth visited = Inr (n, off') \<Longrightarrow>
      off' = off + 1 \<and> off' \<le> length msg \<and> ascii n"
proof (induction msg off depth visited and msg off depth visited ls and msg off b depth visited
    arbitrary: n off' and n off' and n off'
    rule: decodeName_decodeLoop_followCompressionPointer.induct)
  case (1 msg off depth visited)
  then show ?case
    by (auto simp: decodeName.simps [of msg off] split: if_splits)
next
  case (2 msg off depth visited ls)
  consider (zero) "msg ! off = 0" | (ptr) "msg ! off \<noteq> 0" "isCompressionPointer (msg ! off)"
    | (label) "msg ! off \<noteq> 0" "\<not> isCompressionPointer (msg ! off)" by blast
  then show ?case
  proof cases
    case zero
    with "2.prems" show ?thesis
      by (auto simp: decodeLoop.simps [of msg off] ascii_joinLabels split: if_splits)
  next
    case ptr
    with "2.prems" have lt: "\<not> length msg \<le> off"
      by (auto simp: decodeLoop.simps [of msg off] split: if_splits)
    with "2.prems" ptr obtain rest
      where f: "followCompressionPointer msg (off + 1) (msg ! off) depth visited = Inr (rest, off')"
        and n: "n = joinLabels (if rest \<noteq> '''' then ls @ [rest] else ls)"
      by (auto simp: decodeLoop.simps [of msg off] andThen_Inr_iff split: if_splits)
    from "2.IH"(1) [OF lt refl ptr f] lt
    have "off' = off + 2 \<and> off' \<le> length msg \<and> ascii rest" by simp
    then show ?thesis
      using "2.prems"(2) by (simp add: n ascii_joinLabels)
  next
    case label
    with "2.prems" obtain l off1
      where nr: "\<not> hasReservedBits (msg ! off)" and lt: "\<not> length msg \<le> off"
        and rl: "readLabel msg (off + 1) (unat (msg ! off)) = Inr (l, off1)"
        and rec: "decodeLoop msg off1 depth visited (ls @ [l]) = Inr (n, off')"
      by (auto simp: decodeLoop.simps [of msg off] Let_def split: if_splits sum.splits prod.splits)
    note r = readLabel_Inr [OF rl]
    from "2.IH"(2) [OF lt refl label nr rl refl rec] r "2.prems"(2)
    show ?thesis by simp
  qed
next
  case (3 msg off b depth visited)
  then show ?case
    by (auto simp: followCompressionPointer.simps [of msg off] Let_def andThen_Inr_iff
        split: if_splits)
qed

lemma DecodeName_progress:
  "DecodeName msg off = Inr (n, off') \<Longrightarrow> off < off' \<and> off' \<le> length msg \<and> ascii n"
  using decode_progress(1) by (simp add: DecodeName_def)

end
