(* ===== verification/Dns_Enums.thy ===== *)
theory Dns_Enums
  imports Wire
begin

text \<open>
  \<open>internal/dns/enums.go\<close> and the limits of \<open>parsing.go\<close>, \<open>header.go\<close> and
  \<open>edns.go\<close>: header flag masks, record types and classes, response codes, and the
  names they print as.
\<close>

unbundle bit_operations_syntax

definition QRFlag :: uint16 where "QRFlag = 0x8000"
definition OpcodeMask :: uint16 where "OpcodeMask = 0x7800"
definition AAFlag :: uint16 where "AAFlag = 0x0400"
definition TCFlag :: uint16 where "TCFlag = 0x0200"
definition RDFlag :: uint16 where "RDFlag = 0x0100"
definition RAFlag :: uint16 where "RAFlag = 0x0080"
definition ZFlag :: uint16 where "ZFlag = 0x0040"
definition ADFlag :: uint16 where "ADFlag = 0x0020"
definition CDFlag :: uint16 where "CDFlag = 0x0010"
definition RCodeMask :: uint16 where "RCodeMask = 0x000F"

lemmas flag_defs = QRFlag_def OpcodeMask_def AAFlag_def TCFlag_def RDFlag_def RAFlag_def
  ZFlag_def ADFlag_def CDFlag_def RCodeMask_def

type_synonym RecordType = uint16

definition TypeA :: RecordType where "TypeA = 1"
definition TypeNS :: RecordType where "TypeNS = 2"
definition TypeCNAME :: RecordType where "TypeCNAME = 5"
definition TypeSOA :: RecordType where "TypeSOA = 6"
definition TypePTR :: RecordType where "TypePTR = 12"
definition TypeMX :: RecordType where "TypeMX = 15"
definition TypeTXT :: RecordType where "TypeTXT = 16"
definition TypeAAAA :: RecordType where "TypeAAAA = 28"
definition TypeSRV :: RecordType where "TypeSRV = 33"
definition TypeOPT :: RecordType where "TypeOPT = 41"
definition TypeDS :: RecordType where "TypeDS = 43"
definition TypeRRSIG :: RecordType where "TypeRRSIG = 46"
definition TypeNSEC :: RecordType where "TypeNSEC = 47"
definition TypeDNSKEY :: RecordType where "TypeDNSKEY = 48"
definition TypeNSEC3 :: RecordType where "TypeNSEC3 = 50"
definition TypeNSEC3PARAM :: RecordType where "TypeNSEC3PARAM = 51"
definition TypeCAA :: RecordType where "TypeCAA = 257"

lemmas type_defs = TypeA_def TypeNS_def TypeCNAME_def TypeSOA_def TypePTR_def TypeMX_def
  TypeTXT_def TypeAAAA_def TypeSRV_def TypeOPT_def TypeDS_def TypeRRSIG_def TypeNSEC_def
  TypeDNSKEY_def TypeNSEC3_def TypeNSEC3PARAM_def TypeCAA_def

type_synonym RecordClass = uint16

definition ClassIN :: RecordClass where "ClassIN = 1"

type_synonym RCode = uint16

definition RCodeNoError :: RCode where "RCodeNoError = 0"
definition RCodeFormErr :: RCode where "RCodeFormErr = 1"
definition RCodeServFail :: RCode where "RCodeServFail = 2"
definition RCodeNXDomain :: RCode where "RCodeNXDomain = 3"
definition RCodeNotImp :: RCode where "RCodeNotImp = 4"
definition RCodeRefused :: RCode where "RCodeRefused = 5"

lemmas rcode_defs = RCodeNoError_def RCodeFormErr_def RCodeServFail_def RCodeNXDomain_def
  RCodeNotImp_def RCodeRefused_def

definition RCodeFromFlags :: "uint16 \<Rightarrow> RCode" where
  "RCodeFromFlags flags = flags AND RCodeMask"

section \<open>Printed names\<close>

text \<open>\<open>%d\<close> of an unsigned number.\<close>

fun decimal :: "nat \<Rightarrow> string" where
  "decimal n = (if n < 10 then [char_of (48 + n)] else decimal (n div 10) @ [char_of (48 + n mod 10)])"

declare decimal.simps [simp del]

definition RecordType_String :: "RecordType \<Rightarrow> string" where
  "RecordType_String rt =
     (if rt = TypeA then ''A''
      else if rt = TypeNS then ''NS''
      else if rt = TypeCNAME then ''CNAME''
      else if rt = TypeSOA then ''SOA''
      else if rt = TypePTR then ''PTR''
      else if rt = TypeMX then ''MX''
      else if rt = TypeTXT then ''TXT''
      else if rt = TypeAAAA then ''AAAA''
      else if rt = TypeSRV then ''SRV''
      else if rt = TypeOPT then ''OPT''
      else if rt = TypeDS then ''DS''
      else if rt = TypeRRSIG then ''RRSIG''
      else if rt = TypeNSEC then ''NSEC''
      else if rt = TypeDNSKEY then ''DNSKEY''
      else if rt = TypeNSEC3 then ''NSEC3''
      else if rt = TypeNSEC3PARAM then ''NSEC3PARAM''
      else if rt = TypeCAA then ''CAA''
      else ''TYPE'' @ decimal (unat rt))"

definition RecordClass_String :: "RecordClass \<Rightarrow> string" where
  "RecordClass_String rc = (if rc = ClassIN then ''IN'' else ''CLASS'' @ decimal (unat rc))"

section \<open>Facts on the masks\<close>

lemma bit_two_power: "bit (2 ^ m :: 'a::len word) n \<longleftrightarrow> n = m \<and> m < LENGTH('a)"
  by (auto simp: bit_exp_iff)

lemma bit_QRFlag: "bit QRFlag n \<longleftrightarrow> n = 15"
proof -
  have *: "QRFlag = 2 ^ 15" by (simp add: QRFlag_def)
  show ?thesis unfolding * bit_two_power by simp
qed

lemma bit_RDFlag: "bit RDFlag n \<longleftrightarrow> n = 8"
proof -
  have *: "RDFlag = 2 ^ 8" by (simp add: RDFlag_def)
  show ?thesis unfolding * bit_two_power by simp
qed

lemma bit_TCFlag: "bit TCFlag n \<longleftrightarrow> n = 9"
proof -
  have *: "TCFlag = 2 ^ 9" by (simp add: TCFlag_def)
  show ?thesis unfolding * bit_two_power by simp
qed

lemma bit_ADFlag: "bit ADFlag n \<longleftrightarrow> n = 5"
proof -
  have *: "ADFlag = 2 ^ 5" by (simp add: ADFlag_def)
  show ?thesis unfolding * bit_two_power by simp
qed

lemma bit_CDFlag: "bit CDFlag n \<longleftrightarrow> n = 4"
proof -
  have *: "CDFlag = 2 ^ 4" by (simp add: CDFlag_def)
  show ?thesis unfolding * bit_two_power by simp
qed

lemma bit_RAFlag: "bit RAFlag n \<longleftrightarrow> n = 7"
proof -
  have *: "RAFlag = 2 ^ 7" by (simp add: RAFlag_def)
  show ?thesis unfolding * bit_two_power by simp
qed

lemma bit_AAFlag: "bit AAFlag n \<longleftrightarrow> n = 10"
proof -
  have *: "AAFlag = 2 ^ 10" by (simp add: AAFlag_def)
  show ?thesis unfolding * bit_two_power by simp
qed

lemma RCodeMask_mask: "RCodeMask = mask 4"
  by (simp add: RCodeMask_def mask_eq_exp_minus_1)

lemma bit_RCodeMask: "bit RCodeMask n \<longleftrightarrow> n < 4"
  by (auto simp: RCodeMask_mask bit_mask_iff)

lemma and_flag_nonzero:
  fixes w :: "'a::len word"
  assumes "\<And>k. bit f k \<longleftrightarrow> k = n"
  shows "w AND f \<noteq> 0 \<longleftrightarrow> bit w n"
proof
  assume "w AND f \<noteq> 0"
  then obtain k where "bit (w AND f) k"
    by (metis bit_eqI bit_0_eq bot_apply bot_bool_def)
  then show "bit w n" using assms by (auto simp: bit_and_iff)
next
  assume "bit w n"
  then have "bit (w AND f) n" using assms by (simp add: bit_and_iff)
  then show "w AND f \<noteq> 0" by (metis bit_0_eq bot_apply bot_bool_def)
qed

lemma RCodeFromFlags_bound: "RCodeFromFlags f \<le> 15"
  by (simp add: RCodeFromFlags_def RCodeMask_def word_and_le1)

end
