(* ===== verification/Dns_Header.thy ===== *)
theory Dns_Header
  imports Codec Dns_Name Dns_Enums
begin

text \<open>
  \<open>internal/dns/header.go\<close> and \<open>internal/dns/question.go\<close>: the 12-byte message
  header with its flag accessors, and the question entry. \<open>Question\<close> marshalling and
  parsing instantiate \<open>wire_codec\<close>.
\<close>

unbundle bit_operations_syntax

section \<open>Header\<close>

record Header =
  ID :: uint16
  Flags :: uint16
  QDCount :: uint16
  ANCount :: uint16
  NSCount :: uint16
  ARCount :: uint16

definition HeaderSize :: nat where
  "HeaderSize = 12"

definition Header_Marshal :: "Header \<Rightarrow> dns_error + bytes" where
  "Header_Marshal h = Inr (PutUint16 (ID h) @ PutUint16 (Flags h) @ PutUint16 (QDCount h) @
     PutUint16 (ANCount h) @ PutUint16 (NSCount h) @ PutUint16 (ARCount h))"

definition ParseHeader :: "bytes \<Rightarrow> nat \<Rightarrow> dns_error + (Header \<times> nat)" where
  "ParseHeader msg off =
     (if off + HeaderSize > length msg then Inl EOFReadingHeader
      else Inr
        (\<lparr>ID = Uint16 (slice msg off (off + 2)),
          Flags = Uint16 (slice msg (off + 2) (off + 4)),
          QDCount = Uint16 (slice msg (off + 4) (off + 6)),
          ANCount = Uint16 (slice msg (off + 6) (off + 8)),
          NSCount = Uint16 (slice msg (off + 8) (off + 10)),
          ARCount = Uint16 (slice msg (off + 10) (off + 12))\<rparr>,
         off + HeaderSize))"

definition AuthenticData :: "Header \<Rightarrow> bool" where
  "AuthenticData h \<longleftrightarrow> Flags h AND ADFlag \<noteq> 0"

definition CheckingDisabled :: "Header \<Rightarrow> bool" where
  "CheckingDisabled h \<longleftrightarrow> Flags h AND CDFlag \<noteq> 0"

definition SetAD :: "Header \<Rightarrow> bool \<Rightarrow> Header" where
  "SetAD h enabled =
     (if enabled then h\<lparr>Flags := Flags h OR ADFlag\<rparr>
      else h\<lparr>Flags := Flags h AND NOT ADFlag\<rparr>)"

definition SetCD :: "Header \<Rightarrow> bool \<Rightarrow> Header" where
  "SetCD h enabled =
     (if enabled then h\<lparr>Flags := Flags h OR CDFlag\<rparr>
      else h\<lparr>Flags := Flags h AND NOT CDFlag\<rparr>)"

definition RecursionDesired :: "Header \<Rightarrow> bool" where
  "RecursionDesired h \<longleftrightarrow> Flags h AND RDFlag \<noteq> 0"

definition RecursionAvailable :: "Header \<Rightarrow> bool" where
  "RecursionAvailable h \<longleftrightarrow> Flags h AND RAFlag \<noteq> 0"

definition Authoritative :: "Header \<Rightarrow> bool" where
  "Authoritative h \<longleftrightarrow> Flags h AND AAFlag \<noteq> 0"

definition Truncated :: "Header \<Rightarrow> bool" where
  "Truncated h \<longleftrightarrow> Flags h AND TCFlag \<noteq> 0"

definition IsQuery :: "Header \<Rightarrow> bool" where
  "IsQuery h \<longleftrightarrow> Flags h AND QRFlag = 0"

definition IsResponse :: "Header \<Rightarrow> bool" where
  "IsResponse h \<longleftrightarrow> Flags h AND QRFlag \<noteq> 0"

section \<open>Question\<close>

record Question =
  q_Name :: string
  q_Type :: uint16
  q_Class :: uint16

definition Question_Marshal :: "Question \<Rightarrow> dns_error + bytes" where
  "Question_Marshal q =
     andThen (EncodeName (q_Name q)) (\<lambda>name.
       Inr (name @ PutUint16 (q_Type q) @ PutUint16 (q_Class q)))"

definition ParseQuestion :: "go_unicode \<Rightarrow> bytes \<Rightarrow> nat \<Rightarrow> dns_error + (Question \<times> nat)" where
  "ParseQuestion uc msg off0 =
     andThen (DecodeName msg off0) (\<lambda>(name, off).
       if off + 4 > length msg then Inl EOFReadingQuestion
       else Inr
         (\<lparr>q_Name = NormalizeName uc name,
           q_Type = Uint16 (slice msg off (off + 2)),
           q_Class = Uint16 (slice msg (off + 2) (off + 4))\<rparr>,
          off + 4))"

section \<open>Flag accessors\<close>

lemma flag_bits:
  "AuthenticData h \<longleftrightarrow> bit (Flags h) 5"
  "CheckingDisabled h \<longleftrightarrow> bit (Flags h) 4"
  "RecursionDesired h \<longleftrightarrow> bit (Flags h) 8"
  "RecursionAvailable h \<longleftrightarrow> bit (Flags h) 7"
  "Authoritative h \<longleftrightarrow> bit (Flags h) 10"
  "Truncated h \<longleftrightarrow> bit (Flags h) 9"
  "IsResponse h \<longleftrightarrow> bit (Flags h) 15"
  by (simp_all only: AuthenticData_def CheckingDisabled_def RecursionDesired_def
      RecursionAvailable_def Authoritative_def Truncated_def IsResponse_def
      and_flag_nonzero [OF bit_ADFlag] and_flag_nonzero [OF bit_CDFlag]
      and_flag_nonzero [OF bit_RDFlag] and_flag_nonzero [OF bit_RAFlag]
      and_flag_nonzero [OF bit_AAFlag] and_flag_nonzero [OF bit_TCFlag]
      and_flag_nonzero [OF bit_QRFlag])

lemma IsQuery_not_IsResponse: "IsQuery h \<longleftrightarrow> \<not> IsResponse h"
  by (simp add: IsQuery_def IsResponse_def)

section \<open>Round trips\<close>

lemma ParseHeader_Marshal:
  assumes "Header_Marshal h = Inr bs"
  shows "ParseHeader (pre @ bs @ post) (length pre) = Inr (h, length pre + HeaderSize)"
  using assms
  by (auto simp: Header_Marshal_def ParseHeader_def HeaderSize_def wire slice_def
      PutUint16_def)

lemma ParseHeader_fields:
  assumes "ParseHeader msg 0 = Inr (h, off)"
  shows "HeaderSize \<le> length msg" "ID h = Uint16 (slice msg 0 2)" "Flags h = Uint16 (slice msg 2 4)"
    "QDCount h = Uint16 (slice msg 4 6)" "ANCount h = Uint16 (slice msg 6 8)"
    "NSCount h = Uint16 (slice msg 8 10)" "ARCount h = Uint16 (slice msg 10 12)"
  using assms by (auto simp: ParseHeader_def split: if_splits)

lemma length_Header_Marshal: "Header_Marshal h = Inr bs \<Longrightarrow> length bs = HeaderSize"
  by (auto simp: Header_Marshal_def HeaderSize_def)

lemma ParseHeader_progress:
  "ParseHeader msg off = Inr (h, off') \<Longrightarrow> off' = off + HeaderSize \<and> off' \<le> length msg"
  by (auto simp: ParseHeader_def split: if_splits)

definition normQuestion :: "Question \<Rightarrow> Question" where
  "normQuestion q = q\<lparr>q_Name := map lowerChar (trimDot (q_Name q))\<rparr>"

lemma EncodeName_ascii:
  assumes "EncodeName d = Inr bs"
  shows "ascii (trimDot d)"
  using DecodeName_EncodeName [OF assms, of "[]" "[]"] DecodeName_progress by fastforce

lemma NormalizeName_trimDot:
  assumes "ascii (trimDot d)"
  shows "NormalizeName uc (trimDot d) = map lowerChar (trimDot d)"
proof -
  have "TrimSuffix (trimDot d) ''.'' = trimDot d"
    using trimDot_last [of d] by (intro TrimSuffix_dot_id) blast
  then show ?thesis
    using assms by (simp add: NormalizeName_def ascii_ToLower)
qed

lemma ParseQuestion_Marshal:
  assumes "Question_Marshal q = Inr bs"
  shows "ParseQuestion uc (pre @ bs @ post) (length pre) =
    Inr (normQuestion q, length pre + length bs)"
proof -
  from assms obtain name where n: "EncodeName (q_Name q) = Inr name"
    and bs: "bs = name @ PutUint16 (q_Type q) @ PutUint16 (q_Class q)"
    by (auto simp: Question_Marshal_def andThen_Inr_iff)
  let ?msg = "pre @ bs @ post" and ?off = "length pre + length name"
  have dec: "DecodeName ?msg (length pre) = Inr (trimDot (q_Name q), ?off)"
    using DecodeName_EncodeName [OF n, of pre] by (simp add: bs)
  have "slice ?msg ?off (?off + 2) = PutUint16 (q_Type q)"
    by (simp add: bs slice_def)
  moreover have "slice ?msg (?off + 2) (?off + 4) = PutUint16 (q_Class q)"
    by (simp add: bs slice_def)
  ultimately show ?thesis
    by (simp add: ParseQuestion_def dec NormalizeName_trimDot [OF EncodeName_ascii [OF n]]
        normQuestion_def) (simp add: bs)
qed

text \<open>A parsed question name is lower-case ASCII.\<close>

definition lowerName :: "string \<Rightarrow> bool" where
  "lowerName s \<longleftrightarrow> ascii s \<and> map lowerChar s = s"

lemma lowerName_NormalizeName: "ascii s \<Longrightarrow> lowerName (NormalizeName uc s)"
  by (simp add: lowerName_def NormalizeName_def ascii_ToLower ascii_TrimSuffix)

lemma ParseQuestion_progress:
  assumes "ParseQuestion uc msg off = Inr (q, off')"
  shows "off < off' \<and> off' \<le> length msg" "lowerName (q_Name q)"
  using assms
  by (auto simp: ParseQuestion_def andThen_Inr_iff split: if_splits
      dest!: DecodeName_progress intro: lowerName_NormalizeName)

interpretation question: wire_codec Question_Marshal "ParseQuestion uc" normQuestion "\<lambda>_. True"
  "\<lambda>q. lowerName (q_Name q)"
  for uc
  by unfold_locales (blast dest: ParseQuestion_Marshal ParseQuestion_progress)+

end
