(* ===== verification/Helpers.thy ===== *)
theory Helpers
  imports Wire
begin

text \<open>
  \<open>internal/helpers/convert.go\<close>: clamping conversions from \<open>int\<close> to the unsigned
  types of the wire format.
\<close>

definition clampInt :: "int \<Rightarrow> int \<Rightarrow> int \<Rightarrow> int" where
  "clampInt v minVal maxVal =
     (if v < minVal then minVal else if v > maxVal then maxVal else v)"

definition ClampInt :: "int \<Rightarrow> int \<Rightarrow> int \<Rightarrow> int" where
  "ClampInt v lowerLimit upperLimit = clampInt v lowerLimit upperLimit"

definition ClampIntToUint16 :: "int \<Rightarrow> uint16" where
  "ClampIntToUint16 v = word_of_int (clampInt v 0 65535)"

definition ClampIntToUint32 :: "int \<Rightarrow> uint32" where
  "ClampIntToUint32 v = word_of_int (clampInt v 0 4294967295)"

definition ClampUint32ToUint8 :: "uint32 \<Rightarrow> byte" where
  "ClampUint32ToUint8 v = (if v > 255 then 255 else ucast v)"

section \<open>Facts\<close>

lemma clampInt_range: "lo \<le> hi \<Longrightarrow> lo \<le> clampInt v lo hi \<and> clampInt v lo hi \<le> hi"
  by (simp add: clampInt_def)

lemma clampInt_id: "lo \<le> v \<Longrightarrow> v \<le> hi \<Longrightarrow> clampInt v lo hi = v"
  by (simp add: clampInt_def)

lemma uint_ClampIntToUint16: "uint (ClampIntToUint16 v) = clampInt v 0 65535"
proof -
  have "0 \<le> clampInt v 0 65535" "clampInt v 0 65535 < 2 ^ LENGTH(16)"
    using clampInt_range [of 0 65535 v] by simp_all
  then show ?thesis
    by (simp add: ClampIntToUint16_def uint_word_of_int take_bit_eq_mod)
qed

lemma uint_ClampIntToUint32: "uint (ClampIntToUint32 v) = clampInt v 0 4294967295"
proof -
  have "0 \<le> clampInt v 0 4294967295" "clampInt v 0 4294967295 < 2 ^ LENGTH(32)"
    using clampInt_range [of 0 4294967295 v] by simp_all
  then show ?thesis
    by (simp add: ClampIntToUint32_def uint_word_of_int take_bit_eq_mod)
qed

lemma unat_Clamp_length:
  assumes "n \<le> 65535"
  shows "unat (ClampIntToUint16 (int n)) = n"
  using assms by (simp add: unat_eq_nat_uint uint_ClampIntToUint16 clampInt_def)

lemma Clamp_length_max:
  assumes "65535 \<le> n"
  shows "ClampIntToUint16 (int n) = 0xFFFF"
  using assms by (simp add: ClampIntToUint16_def clampInt_def)

lemma ClampUint32ToUint8_byte:
  "unat v \<le> 255 \<Longrightarrow> unat (ClampUint32ToUint8 v) = unat v"
  by (simp add: ClampUint32ToUint8_def word_less_nat_alt unsigned_ucast_eq take_bit_nat_eq_self)

end
