(* ===== verification/Dns_Record.thy ===== *)
theory Dns_Record
  imports Dns_Header Helpers
begin

text \<open>
  \<open>internal/dns/record.go\<close>, \<open>ip_record.go\<close>, \<open>name_record.go\<close> and
  \<open>opaque_record.go\<close>: resource records. The \<open>Record\<close> interface is a datatype with
  one constructor per implementation; \<open>net.IP\<close> is its byte slice; the \<open>any\<close> payload
  of an opaque record is nil, a byte slice, or a value of another type. Marshalling
  and parsing of well-formed records instantiate \<open>wire_codec\<close>.
\<close>

section \<open>Data\<close>

record RRHeader =
  rr_Name :: string
  rr_Class :: uint16
  rr_TTL :: uint32

definition NewRRHeader :: "string \<Rightarrow> RecordClass \<Rightarrow> uint32 \<Rightarrow> RRHeader" where
  "NewRRHeader name rclass ttl = \<lparr>rr_Name = name, rr_Class = rclass, rr_TTL = ttl\<rparr>"

definition zeroRRHeader :: RRHeader where
  "zeroRRHeader = \<lparr>rr_Name = '''', rr_Class = 0, rr_TTL = 0\<rparr>"

datatype opaque_data = NilData | BytesData bytes | OtherData

datatype Record =
    IPRecord RRHeader bytes
  | NameRecord RRHeader RecordType string
  | OpaqueRecord RRHeader RecordType opaque_data

text \<open>The constructors the sources use to build records.\<close>

definition NewIPRecord :: "RRHeader \<Rightarrow> bytes \<Rightarrow> Record" where
  "NewIPRecord h addr = IPRecord h addr"

definition NewNameRecord :: "RRHeader \<Rightarrow> RecordType \<Rightarrow> string \<Rightarrow> Record" where
  "NewNameRecord h rt target = NameRecord h rt target"

definition NewCNAMERecord :: "RRHeader \<Rightarrow> string \<Rightarrow> Record" where
  "NewCNAMERecord h target = NewNameRecord h TypeCNAME target"

definition NewNSRecord :: "RRHeader \<Rightarrow> string \<Rightarrow> Record" where
  "NewNSRecord h target = NewNameRecord h TypeNS target"

definition NewPTRRecord :: "RRHeader \<Rightarrow> string \<Rightarrow> Record" where
  "NewPTRRecord h target = NewNameRecord h TypePTR target"

definition NewOpaqueRecord :: "RRHeader \<Rightarrow> RecordType \<Rightarrow> bytes \<Rightarrow> Record" where
  "NewOpaqueRecord h rt data = OpaqueRecord h rt (BytesData data)"

section \<open>\<open>net.IP\<close>\<close>

text \<open>\<open>To4\<close> and \<open>To16\<close> of Go's \<open>net\<close> package (nil is \<^const>\<open>None\<close>).\<close>

definition v4InV6Prefix :: bytes where
  "v4InV6Prefix = replicate 10 0 @ [0xFF, 0xFF]"

definition To4 :: "bytes \<Rightarrow> bytes option" where
  "To4 ip =
     (if length ip = 4 then Some ip
      else if length ip = 16 \<and> take 12 ip = v4InV6Prefix then Some (drop 12 ip)
      else None)"

definition To16 :: "bytes \<Rightarrow> bytes option" where
  "To16 ip =
     (if length ip = 4 then Some (v4InV6Prefix @ ip)
      else if length ip = 16 then Some ip
      else None)"

section \<open>The \<open>Record\<close> interface\<close>

fun Record_Type :: "Record \<Rightarrow> RecordType" where
  "Record_Type (IPRecord h addr) = (if To4 addr \<noteq> None then TypeA else TypeAAAA)"
| "Record_Type (NameRecord h t target) = t"
| "Record_Type (OpaqueRecord h t data) = t"

fun Record_Header :: "Record \<Rightarrow> RRHeader" where
  "Record_Header (IPRecord h addr) = h"
| "Record_Header (NameRecord h t target) = h"
| "Record_Header (OpaqueRecord h t data) = h"

fun SetHeader :: "Record \<Rightarrow> RRHeader \<Rightarrow> Record" where
  "SetHeader (IPRecord _ addr) h = IPRecord h addr"
| "SetHeader (NameRecord _ t target) h = NameRecord h t target"
| "SetHeader (OpaqueRecord _ t data) h = OpaqueRecord h t data"

fun MarshalRData :: "Record \<Rightarrow> dns_error + bytes" where
  "MarshalRData (IPRecord h addr) =
     (case To4 addr of
        Some ip4 \<Rightarrow> Inr ip4
      | None \<Rightarrow> (case To16 addr of Some ip6 \<Rightarrow> Inr ip6 | None \<Rightarrow> Inl InvalidIPAddress))"
| "MarshalRData (NameRecord h t target) = EncodeName target"
| "MarshalRData (OpaqueRecord h t data) =
     (case data of NilData \<Rightarrow> Inr [] | BytesData b \<Rightarrow> Inr b | OtherData \<Rightarrow> Inl OpaqueNotBytes)"

section \<open>Parsing\<close>

definition ParseIPRData :: "bytes \<Rightarrow> nat \<Rightarrow> nat \<Rightarrow> dns_error + (Record \<times> nat)" where
  "ParseIPRData msg off rdlen =
     (if rdlen \<noteq> 4 \<and> rdlen \<noteq> 16 then Inl (IPRecordLength rdlen)
      else if off + rdlen > length msg then Inl EOFReadingIPRecord
      else Inr (IPRecord zeroRRHeader (slice msg off (off + rdlen)), off + rdlen))"

definition ParseNameRData ::
    "bytes \<Rightarrow> nat \<Rightarrow> nat \<Rightarrow> nat \<Rightarrow> RecordType \<Rightarrow> dns_error + (Record \<times> nat)" where
  "ParseNameRData msg off0 start rdlen rt =
     andThen (DecodeName msg off0) (\<lambda>(n, off).
       if int off - int start \<noteq> int rdlen then Inl NameRDataLengthMismatch
       else Inr (NameRecord zeroRRHeader rt n, off))"

definition ParseOpaqueRData ::
    "bytes \<Rightarrow> nat \<Rightarrow> nat \<Rightarrow> RecordType \<Rightarrow> dns_error + (Record \<times> nat)" where
  "ParseOpaqueRData msg off rdlen rt =
     (if off + rdlen > length msg then Inl Panic
      else Inr (OpaqueRecord zeroRRHeader rt (BytesData (slice msg off (off + rdlen))), off + rdlen))"

definition parseRData ::
    "RecordType \<Rightarrow> bytes \<Rightarrow> nat \<Rightarrow> nat \<Rightarrow> nat \<Rightarrow> dns_error + (Record \<times> nat)" where
  "parseRData rt msg off start rdlen =
     (if rt = TypeA \<or> rt = TypeAAAA then ParseIPRData msg off rdlen
      else if rt = TypeCNAME \<or> rt = TypeNS \<or> rt = TypePTR then
        ParseNameRData msg off start rdlen rt
      else ParseOpaqueRData msg off rdlen rt)"

definition ParseRecord :: "bytes \<Rightarrow> nat \<Rightarrow> dns_error + (Record \<times> nat)" where
  "ParseRecord msg off0 =
     andThen (DecodeName msg off0) (\<lambda>(name, off).
       if off + 10 > length msg then Inl EOFReadingRecord
       else
         (let rrType = Uint16 (slice msg off (off + 2));
              rrClass = Uint16 (slice msg (off + 2) (off + 4));
              ttl = Uint32 (slice msg (off + 4) (off + 8));
              rdlen = unat (Uint16 (slice msg (off + 8) (off + 10)));
              start = off + 10
          in if start + rdlen > length msg then Inl EOFReadingRData
             else andThen (parseRData rrType msg start start rdlen) (\<lambda>(tr, off').
               Inr (SetHeader tr \<lparr>rr_Name = name, rr_Class = rrClass, rr_TTL = ttl\<rparr>, off'))))"

section \<open>Marshalling\<close>

definition marshalRecordWithRData :: "RRHeader \<Rightarrow> RecordType \<Rightarrow> bytes \<Rightarrow> dns_error + bytes" where
  "marshalRecordWithRData h rt rdata =
     andThen (if rt \<noteq> TypeOPT then EncodeName (rr_Name h) else Inr [0]) (\<lambda>nameWire.
       if length rdata > 65535 then Inl (RDataTooLarge (length rdata))
       else Inr (nameWire @ PutUint16 rt @ PutUint16 (rr_Class h) @ PutUint32 (rr_TTL h) @
                 PutUint16 (ClampIntToUint16 (int (length rdata))) @ rdata))"

definition MarshalRecord :: "Record \<Rightarrow> dns_error + bytes" where
  "MarshalRecord r =
     andThen (MarshalRData r) (\<lambda>rdata.
       marshalRecordWithRData (Record_Header r) (Record_Type r) rdata)"

section \<open>Round trips\<close>

text \<open>
  The records the package can tell apart on the wire: a name record has one of the
  three name types, an opaque record has none of the types parsed otherwise.
\<close>

definition isNameType :: "RecordType \<Rightarrow> bool" where
  "isNameType t \<longleftrightarrow> t = TypeCNAME \<or> t = TypeNS \<or> t = TypePTR"

definition isIPType :: "RecordType \<Rightarrow> bool" where
  "isIPType t \<longleftrightarrow> t = TypeA \<or> t = TypeAAAA"

fun wfRecord :: "Record \<Rightarrow> bool" where
  "wfRecord (IPRecord h a) = True"
| "wfRecord (NameRecord h t n) = isNameType t"
| "wfRecord (OpaqueRecord h t d) = (\<not> isNameType t \<and> \<not> isIPType t)"

fun parsedRecord :: "Record \<Rightarrow> bool" where
  "parsedRecord (IPRecord h a) = (length a = 4 \<or> length a = 16)"
| "parsedRecord (NameRecord h t n) = (isNameType t \<and> ascii n)"
| "parsedRecord (OpaqueRecord h t d) =
     (\<not> isNameType t \<and> \<not> isIPType t \<and> (\<exists>b. d = BytesData b))"

fun normRData :: "Record \<Rightarrow> Record" where
  "normRData (IPRecord h a) = IPRecord zeroRRHeader (case To4 a of Some b \<Rightarrow> b | None \<Rightarrow> a)"
| "normRData (NameRecord h t n) = NameRecord zeroRRHeader t (trimDot n)"
| "normRData (OpaqueRecord h t d) =
     OpaqueRecord zeroRRHeader t (case d of NilData \<Rightarrow> BytesData [] | _ \<Rightarrow> d)"

definition normRecord :: "Record \<Rightarrow> Record" where
  "normRecord r = SetHeader (normRData r)
     ((Record_Header r)\<lparr>rr_Name :=
        (if Record_Type r = TypeOPT then '''' else trimDot (rr_Name (Record_Header r)))\<rparr>)"

lemma type_distinct [simp]:
  "\<not> isNameType TypeA" "\<not> isNameType TypeAAAA" "isIPType TypeA" "isIPType TypeAAAA"
  "isNameType t \<Longrightarrow> t \<noteq> TypeOPT" "isIPType t \<Longrightarrow> t \<noteq> TypeOPT"
  by (auto simp: isNameType_def isIPType_def type_defs)

lemma parseRData_cases:
  "isIPType rt \<Longrightarrow> parseRData rt msg off start n = ParseIPRData msg off n"
  "isNameType rt \<Longrightarrow> parseRData rt msg off start n = ParseNameRData msg off start n rt"
  "\<not> isIPType rt \<Longrightarrow> \<not> isNameType rt \<Longrightarrow> parseRData rt msg off start n = ParseOpaqueRData msg off n rt"
  by (auto simp: parseRData_def isNameType_def isIPType_def type_defs)

lemma length_To4: "To4 a = Some b \<Longrightarrow> length b = 4"
  by (auto simp: To4_def split: if_splits)

lemma To16_None4: "To4 a = None \<Longrightarrow> To16 a = Some b \<Longrightarrow> b = a \<and> length a = 16"
  by (auto simp: To4_def To16_def split: if_splits)

lemma parseRData_MarshalRData:
  assumes "wfRecord r" "MarshalRData r = Inr rdata"
  shows "parseRData (Record_Type r) (pre @ rdata @ post) (length pre) (length pre) (length rdata) =
    Inr (normRData r, length pre + length rdata)"
proof (cases r)
  case (IPRecord h a)
  have sl: "slice (pre @ rdata @ post) (length pre) (length pre + length rdata) = rdata"
    by (rule slice_at) simp_all
  show ?thesis
  proof (cases "To4 a")
    case (Some b)
    with assms(2) IPRecord length_To4 [OF Some] sl show ?thesis
      by (simp add: parseRData_cases ParseIPRData_def)
  next
    case None
    then obtain b where "To16 a = Some b" "b = rdata"
      using assms(2) IPRecord by (auto split: option.splits)
    with None To16_None4 [OF None] IPRecord sl show ?thesis
      by (simp add: parseRData_cases ParseIPRData_def)
  qed
next
  case (NameRecord h t n)
  with assms DecodeName_EncodeName [of n rdata pre post] show ?thesis
    by (simp add: parseRData_cases ParseNameRData_def)
next
  case (OpaqueRecord h t d)
  moreover have "slice (pre @ rdata @ post) (length pre) (length pre + length rdata) = rdata"
    by (rule slice_at) simp_all
  ultimately show ?thesis
    using assms by (auto simp: parseRData_cases ParseOpaqueRData_def split: opaque_data.splits)
qed

lemma MarshalRecord_wire:
  assumes "MarshalRecord r = Inr bs"
  obtains name rdata where "MarshalRData r = Inr rdata" "length rdata \<le> 65535"
    "(if Record_Type r \<noteq> TypeOPT then EncodeName (rr_Name (Record_Header r)) else Inr [0]) = Inr name"
    "bs = name @ PutUint16 (Record_Type r) @ PutUint16 (rr_Class (Record_Header r)) @
      PutUint32 (rr_TTL (Record_Header r)) @
      PutUint16 (ClampIntToUint16 (int (length rdata))) @ rdata"
    "\<forall>pre post. DecodeName (pre @ name @ post) (length pre) =
      Inr (if Record_Type r = TypeOPT then '''' else trimDot (rr_Name (Record_Header r)),
           length pre + length name)"
proof -
  let ?h = "Record_Header r" and ?t = "Record_Type r"
  from assms obtain rdata name where rd: "MarshalRData r = Inr rdata"
    and nm: "(if ?t \<noteq> TypeOPT then EncodeName (rr_Name ?h) else Inr [0]) = Inr name"
    and len: "length rdata \<le> 65535"
    and bs: "bs = name @ PutUint16 ?t @ PutUint16 (rr_Class ?h) @ PutUint32 (rr_TTL ?h) @
      PutUint16 (ClampIntToUint16 (int (length rdata))) @ rdata"
    by (auto simp: MarshalRecord_def marshalRecordWithRData_def andThen_Inr_iff not_less
        split: if_splits)
  have "EncodeName ''.'' = Inr [0]"
    by (simp add: EncodeName_def trimDot_eq)
  then have "\<forall>pre post. DecodeName (pre @ name @ post) (length pre) =
      Inr (if ?t = TypeOPT then '''' else trimDot (rr_Name ?h), length pre + length name)"
    using nm DecodeName_EncodeName [of "''.''" "[0]"] DecodeName_EncodeName [of "rr_Name ?h" name]
    by (auto simp: trimDot_eq split: if_splits)
  from that [OF rd len nm bs this] show thesis .
qed

lemma ParseRecord_MarshalRecord:
  assumes "wfRecord r" "MarshalRecord r = Inr bs"
  shows "ParseRecord (pre @ bs @ post) (length pre) = Inr (normRecord r, length pre + length bs)"
proof -
  let ?h = "Record_Header r" and ?t = "Record_Type r"
  from assms(2) obtain name rdata where rd: "MarshalRData r = Inr rdata"
    and len: "length rdata \<le> 65535"
    and "(if ?t \<noteq> TypeOPT then EncodeName (rr_Name ?h) else Inr [0]) = Inr name"
    and bs: "bs = name @ PutUint16 ?t @ PutUint16 (rr_Class ?h) @ PutUint32 (rr_TTL ?h) @
      PutUint16 (ClampIntToUint16 (int (length rdata))) @ rdata"
    and dec: "\<forall>pre post. DecodeName (pre @ name @ post) (length pre) =
      Inr (if ?t = TypeOPT then '''' else trimDot (rr_Name ?h), length pre + length name)"
    by (rule MarshalRecord_wire)
  let ?msg = "pre @ bs @ post" and ?off = "length pre + length name"
  have sl: "slice ?msg ?off (?off + 2) = PutUint16 ?t"
    "slice ?msg (?off + 2) (?off + 4) = PutUint16 (rr_Class ?h)"
    "slice ?msg (?off + 4) (?off + 8) = PutUint32 (rr_TTL ?h)"
    "slice ?msg (?off + 8) (?off + 10) = PutUint16 (ClampIntToUint16 (int (length rdata)))"
    by (simp_all add: bs slice_def)
  have "parseRData ?t ?msg (?off + 10) (?off + 10) (length rdata) =
      Inr (normRData r, length pre + length bs)"
    using parseRData_MarshalRData [OF assms(1) rd, of "pre @ name @ PutUint16 ?t @
      PutUint16 (rr_Class ?h) @ PutUint32 (rr_TTL ?h) @
      PutUint16 (ClampIntToUint16 (int (length rdata)))" post]
    by (simp add: bs add.assoc)
  moreover have "DecodeName ?msg (length pre) =
      Inr (if ?t = TypeOPT then '''' else trimDot (rr_Name ?h), ?off)"
    using dec by (simp add: bs)
  ultimately show ?thesis
    by (simp add: ParseRecord_def sl Let_def unat_Clamp_length [OF len])
      (simp add: bs normRecord_def, cases ?h, simp)
qed

lemma parseRData_good:
  assumes "parseRData rt msg off start n = Inr (r, off')"
  shows "parsedRecord r" "start = off \<Longrightarrow> off' = off + n" "off + n \<le> length msg \<Longrightarrow> off' \<le> length msg"
  using assms
  by (cases "isIPType rt"; cases "isNameType rt";
      auto simp: parseRData_cases ParseIPRData_def ParseNameRData_def ParseOpaqueRData_def
        andThen_Inr_iff split: if_splits dest: DecodeName_progress)+

lemma parsedRecord_SetHeader [simp]: "parsedRecord (SetHeader r h) = parsedRecord r"
  by (cases r) simp_all

lemma ParseRecord_progress:
  assumes "ParseRecord msg off = Inr (r, off')"
  shows "off < off' \<and> off' \<le> length msg" "parsedRecord r" "ascii (rr_Name (Record_Header r))"
proof -
  from assms obtain name off1 where d: "DecodeName msg off = Inr (name, off1)"
    by (auto simp: ParseRecord_def andThen_Inr_iff)
  let ?t = "Uint16 (slice msg off1 (off1 + 2))"
    and ?n = "unat (Uint16 (slice msg (off1 + 8) (off1 + 10)))"
    and ?h = "\<lparr>rr_Name = name, rr_Class = Uint16 (slice msg (off1 + 2) (off1 + 4)),
      rr_TTL = Uint32 (slice msg (off1 + 4) (off1 + 8))\<rparr>"
  from assms d obtain tr where le: "off1 + 10 + ?n \<le> length msg"
    and p: "parseRData ?t msg (off1 + 10) (off1 + 10) ?n = Inr (tr, off')"
    and r: "r = SetHeader tr ?h"
    by (auto simp: ParseRecord_def andThen_Inr_iff Let_def split: if_splits)
  note dp = DecodeName_progress [OF d] and g = parseRData_good [OF p]
  show "off < off' \<and> off' \<le> length msg" using dp g(2,3) le by simp
  show "parsedRecord r" using g(1) r by simp
  show "ascii (rr_Name (Record_Header r))" using dp r by (cases tr) simp_all
qed

interpretation rr: wire_codec MarshalRecord ParseRecord normRecord wfRecord
  "\<lambda>r. parsedRecord r \<and> ascii (rr_Name (Record_Header r))"
  by unfold_locales (blast dest: ParseRecord_MarshalRecord ParseRecord_progress)+

end
