(* ===== verification/Dns_Packet.thy ===== *)
theory Dns_Packet
  imports Dns_Record
begin

text \<open>
  \<open>internal/dns/packet.go\<close> and \<open>internal/dns/parsing.go\<close>: whole messages, the
  bounded parser for requests and the construction of error responses. Section
  round trips come from \<open>wire_codec\<close>'s interpretations \<open>question\<close> and \<open>rr\<close>.
\<close>

unbundle bit_operations_syntax

section \<open>Packets\<close>

record Packet =
  p_Header :: Header
  p_Questions :: "Question list"
  p_Answers :: "Record list"
  p_Authorities :: "Record list"
  p_Additionals :: "Record list"

definition appendRecords :: "bytes \<Rightarrow> Record list \<Rightarrow> dns_error + bytes" where
  "appendRecords out records = appendAll MarshalRecord out records"

definition Packet_Marshal :: "Packet \<Rightarrow> dns_error + bytes" where
  "Packet_Marshal p =
     (let h = \<lparr>ID = ID (p_Header p), Flags = Flags (p_Header p),
               QDCount = ClampIntToUint16 (int (length (p_Questions p))),
               ANCount = ClampIntToUint16 (int (length (p_Answers p))),
               NSCount = ClampIntToUint16 (int (length (p_Authorities p))),
               ARCount = ClampIntToUint16 (int (length (p_Additionals p)))\<rparr>
      in andThen (Header_Marshal h) (\<lambda>hb.
         andThen (appendAll Question_Marshal hb (p_Questions p)) (\<lambda>out1.
         andThen (appendRecords out1 (p_Answers p)) (\<lambda>out2.
         andThen (appendRecords out2 (p_Authorities p)) (\<lambda>out3.
         appendRecords out3 (p_Additionals p))))))"

definition ParsePacket :: "go_unicode \<Rightarrow> bytes \<Rightarrow> dns_error + Packet" where
  "ParsePacket uc msg =
     andThen (ParseHeader msg 0) (\<lambda>(h, off).
     andThen (parseN (ParseQuestion uc) (unat (QDCount h)) msg off) (\<lambda>(qs, off1).
     andThen (parseN ParseRecord (unat (ANCount h)) msg off1) (\<lambda>(ans, off2).
     andThen (parseN ParseRecord (unat (NSCount h)) msg off2) (\<lambda>(auths, off3).
     andThen (parseN ParseRecord (unat (ARCount h)) msg off3) (\<lambda>(adds, off4).
     Inr \<lparr>p_Header = h, p_Questions = qs, p_Answers = ans, p_Authorities = auths,
          p_Additionals = adds\<rparr>)))))"

section \<open>Bounded requests\<close>

definition MaxIncomingDNSMessageSize :: nat where
  "MaxIncomingDNSMessageSize = 4096"

definition MaxQuestions :: nat where
  "MaxQuestions = 4"

definition MaxRRPerSection :: nat where
  "MaxRRPerSection = 100"

definition MaxTotalRR :: nat where
  "MaxTotalRR = 200"

lemmas limit_defs = MaxIncomingDNSMessageSize_def MaxQuestions_def MaxRRPerSection_def
  MaxTotalRR_def

definition isResponse :: "uint16 \<Rightarrow> bool" where
  "isResponse flags \<longleftrightarrow> flags AND QRFlag \<noteq> 0"

definition extractOpcode :: "uint16 \<Rightarrow> uint16" where
  "extractOpcode flags = drop_bit 11 (flags AND OpcodeMask)"

definition validateSectionCounts :: "Header \<Rightarrow> dns_error + unit" where
  "validateSectionCounts h =
     (let qd = unat (QDCount h); an = unat (ANCount h); ns = unat (NSCount h);
          ar = unat (ARCount h)
      in if qd > MaxQuestions then Inl TooManyQuestions
         else if qd \<noteq> 1 then Inl UnsupportedQuestionCount
         else if an > MaxRRPerSection \<or> ns > MaxRRPerSection \<or> ar > MaxRRPerSection
           then Inl TooManyRecords
         else if an + ns + ar > MaxTotalRR then Inl TooManyTotalRecords
         else Inr ())"

definition ParseRequestBounded :: "go_unicode \<Rightarrow> bytes \<Rightarrow> dns_error + Packet" where
  "ParseRequestBounded uc msg =
     (if length msg > MaxIncomingDNSMessageSize then Inl MessageTooLarge
      else andThen (ParsePacket uc msg) (\<lambda>p.
        if isResponse (Flags (p_Header p)) then Inl ResponsePacketReceived
        else if extractOpcode (Flags (p_Header p)) \<noteq> 0
          then Inl (UnsupportedOpCode (extractOpcode (Flags (p_Header p))))
        else andThen (validateSectionCounts (p_Header p)) (\<lambda>_. Inr p)))"

definition buildResponseFlags :: "uint16 \<Rightarrow> uint16 \<Rightarrow> uint16" where
  "buildResponseFlags reqFlags rcode =
     ((QRFlag OR (reqFlags AND RDFlag)) AND NOT RCodeMask) OR (rcode AND RCodeMask)"

definition BuildErrorResponse :: "Packet \<Rightarrow> uint16 \<Rightarrow> Packet" where
  "BuildErrorResponse req rcode =
     \<lparr>p_Header = \<lparr>ID = ID (p_Header req),
                 Flags = buildResponseFlags (Flags (p_Header req)) rcode,
                 QDCount = ClampIntToUint16 (int (length (p_Questions req))),
                 ANCount = 0, NSCount = 0, ARCount = 0\<rparr>,
      p_Questions = p_Questions req, p_Answers = [], p_Authorities = [], p_Additionals = []\<rparr>"

section \<open>Round trip of whole messages\<close>

definition wfPacket :: "Packet \<Rightarrow> bool" where
  "wfPacket p \<longleftrightarrow>
     length (p_Questions p) \<le> 65535 \<and> length (p_Answers p) \<le> 65535 \<and>
     length (p_Authorities p) \<le> 65535 \<and> length (p_Additionals p) \<le> 65535 \<and>
     list_all wfRecord (p_Answers p) \<and> list_all wfRecord (p_Authorities p) \<and>
     list_all wfRecord (p_Additionals p)"

definition countedHeader :: "Packet \<Rightarrow> Header" where
  "countedHeader p =
     \<lparr>ID = ID (p_Header p), Flags = Flags (p_Header p),
      QDCount = ClampIntToUint16 (int (length (p_Questions p))),
      ANCount = ClampIntToUint16 (int (length (p_Answers p))),
      NSCount = ClampIntToUint16 (int (length (p_Authorities p))),
      ARCount = ClampIntToUint16 (int (length (p_Additionals p)))\<rparr>"

definition normPacket :: "Packet \<Rightarrow> Packet" where
  "normPacket p =
     \<lparr>p_Header = countedHeader p, p_Questions = map normQuestion (p_Questions p),
      p_Answers = map normRecord (p_Answers p),
      p_Authorities = map normRecord (p_Authorities p),
      p_Additionals = map normRecord (p_Additionals p)\<rparr>"

lemma Packet_Marshal_parts:
  assumes "Packet_Marshal p = Inr bs"
  obtains hb q an ns ar where "Header_Marshal (countedHeader p) = Inr hb"
    "appendAll Question_Marshal [] (p_Questions p) = Inr q"
    "appendAll MarshalRecord [] (p_Answers p) = Inr an"
    "appendAll MarshalRecord [] (p_Authorities p) = Inr ns"
    "appendAll MarshalRecord [] (p_Additionals p) = Inr ar"
    "bs = hb @ q @ an @ ns @ ar"
proof -
  from assms obtain hb o1 o2 o3 where hb: "Header_Marshal (countedHeader p) = Inr hb"
    and o: "appendAll Question_Marshal hb (p_Questions p) = Inr o1"
      "appendAll MarshalRecord o1 (p_Answers p) = Inr o2"
      "appendAll MarshalRecord o2 (p_Authorities p) = Inr o3"
      "appendAll MarshalRecord o3 (p_Additionals p) = Inr bs"
    by (auto simp: Packet_Marshal_def countedHeader_def Let_def andThen_Inr_iff appendRecords_def)
  from o [THEN appendAll_Inr_out [THEN iffD1]] obtain q an ns ar where
    "appendAll Question_Marshal [] (p_Questions p) = Inr q" "o1 = hb @ q"
    "appendAll MarshalRecord [] (p_Answers p) = Inr an" "o2 = o1 @ an"
    "appendAll MarshalRecord [] (p_Authorities p) = Inr ns" "o3 = o2 @ ns"
    "appendAll MarshalRecord [] (p_Additionals p) = Inr ar" "bs = o3 @ ar"
    by blast
  with hb show ?thesis using that by simp
qed

lemma Packet_Marshal_of_parts:
  assumes "Header_Marshal (countedHeader p) = Inr hb"
    "appendAll Question_Marshal [] (p_Questions p) = Inr q"
    "appendAll MarshalRecord [] (p_Answers p) = Inr an"
    "appendAll MarshalRecord [] (p_Authorities p) = Inr ns"
    "appendAll MarshalRecord [] (p_Additionals p) = Inr ar"
  shows "Packet_Marshal p = Inr (hb @ q @ an @ ns @ ar)"
  using assms(1) assms(2-) [THEN appendAll_onto]
  by (simp add: Packet_Marshal_def countedHeader_def Let_def appendRecords_def)

lemma ParsePacket_Marshal:
  assumes "wfPacket p" "Packet_Marshal p = Inr bs"
  shows "ParsePacket uc (bs @ post) = Inr (normPacket p)"
proof -
  obtain hb q an ns ar where hb: "Header_Marshal (countedHeader p) = Inr hb"
    and q: "appendAll Question_Marshal [] (p_Questions p) = Inr q"
    and an: "appendAll MarshalRecord [] (p_Answers p) = Inr an"
    and ns: "appendAll MarshalRecord [] (p_Authorities p) = Inr ns"
    and ar: "appendAll MarshalRecord [] (p_Additionals p) = Inr ar"
    and bs: "bs = hb @ q @ an @ ns @ ar"
    using Packet_Marshal_parts [OF assms(2)] .
  note wf = assms(1)[unfolded wfPacket_def]
  let ?h = "countedHeader p" and ?msg = "bs @ post"
  have cnt: "unat (QDCount ?h) = length (p_Questions p)" "unat (ANCount ?h) = length (p_Answers p)"
    "unat (NSCount ?h) = length (p_Authorities p)" "unat (ARCount ?h) = length (p_Additionals p)"
    using wf by (simp_all add: countedHeader_def unat_Clamp_length)
  have "ParseHeader ?msg 0 = Inr (?h, length hb)"
    using ParseHeader_Marshal [OF hb, of "[]"] length_Header_Marshal [OF hb] by (simp add: bs)
  moreover have "parseN (ParseQuestion uc) (unat (QDCount ?h)) ?msg (length hb) =
      Inr (map normQuestion (p_Questions p), length (hb @ q))"
    using question.parseN_appendAll [OF _ q, of uc hb "an @ ns @ ar @ post"]
    by (simp add: bs cnt list_all_iff)
  moreover have "parseN ParseRecord (unat (ANCount ?h)) ?msg (length (hb @ q)) =
      Inr (map normRecord (p_Answers p), length (hb @ q @ an))"
    using rr.parseN_appendAll [OF _ an, of "hb @ q" "ns @ ar @ post"] wf
    by (simp add: bs cnt add.assoc)
  moreover have "parseN ParseRecord (unat (NSCount ?h)) ?msg (length (hb @ q @ an)) =
      Inr (map normRecord (p_Authorities p), length (hb @ q @ an @ ns))"
    using rr.parseN_appendAll [OF _ ns, of "hb @ q @ an" "ar @ post"] wf
    by (simp add: bs cnt add.assoc)
  moreover have "parseN ParseRecord (unat (ARCount ?h)) ?msg (length (hb @ q @ an @ ns)) =
      Inr (map normRecord (p_Additionals p), length (hb @ q @ an @ ns @ ar))"
    using rr.parseN_appendAll [OF _ ar, of "hb @ q @ an @ ns" post] wf
    by (simp add: bs cnt add.assoc)
  ultimately show ?thesis
    by (simp add: ParsePacket_def normPacket_def)
qed

section \<open>What a parsed packet satisfies\<close>

lemma ParsePacket_shape:
  assumes "ParsePacket uc msg = Inr p"
  shows "length (p_Questions p) = unat (QDCount (p_Header p))"
    and "length (p_Answers p) = unat (ANCount (p_Header p))"
    and "length (p_Authorities p) = unat (NSCount (p_Header p))"
    and "length (p_Additionals p) = unat (ARCount (p_Header p))"
    and "\<exists>off. ParseHeader msg 0 = Inr (p_Header p, off)"
  using assms by (auto simp: ParsePacket_def andThen_Inr_iff dest!: parseN_length)

lemma ParsePacket_good:
  assumes "ParsePacket uc msg = Inr p"
  shows "list_all (\<lambda>q. lowerName (q_Name q)) (p_Questions p)"
    and "list_all parsedRecord (p_Answers p @ p_Authorities p @ p_Additionals p)"
proof -
  note rg = rr.parseN_good [THEN list.pred_mono_strong, of _ _ _ _ _ parsedRecord]
  show "list_all (\<lambda>q. lowerName (q_Name q)) (p_Questions p)"
    using assms by (auto simp: ParsePacket_def andThen_Inr_iff dest: question.parseN_good)
  show "list_all parsedRecord (p_Answers p @ p_Authorities p @ p_Additionals p)"
    using assms by (auto simp: ParsePacket_def andThen_Inr_iff intro: rg)
qed

text \<open>Every record occupies bytes of its own: a packet cannot list more than it carries.\<close>

lemma ParsePacket_counts_bounded:
  assumes "ParsePacket uc msg = Inr p"
  shows "HeaderSize + length (p_Questions p) + length (p_Answers p) + length (p_Authorities p) +
    length (p_Additionals p) \<le> length msg"
proof -
  from assms obtain h off qs off1 ans off2 auths off3 adds off4 where
    h: "ParseHeader msg 0 = Inr (h, off)"
    and q: "parseN (ParseQuestion uc) (unat (QDCount h)) msg off = Inr (qs, off1)"
    and an: "parseN ParseRecord (unat (ANCount h)) msg off1 = Inr (ans, off2)"
    and ns: "parseN ParseRecord (unat (NSCount h)) msg off2 = Inr (auths, off3)"
    and ar: "parseN ParseRecord (unat (ARCount h)) msg off3 = Inr (adds, off4)"
    and p: "p = \<lparr>p_Header = h, p_Questions = qs, p_Answers = ans, p_Authorities = auths,
      p_Additionals = adds\<rparr>"
    by (auto simp: ParsePacket_def andThen_Inr_iff)
  note hp = ParseHeader_progress [OF h]
  note len = parseN_length [OF q] parseN_length [OF an] parseN_length [OF ns] parseN_length [OF ar]
  have 1: "off + length qs \<le> off1 \<and> off1 \<le> length msg"
    using question.parseN_progress [OF q] hp len by simp
  have 2: "off1 + length ans \<le> off2 \<and> off2 \<le> length msg"
    using rr.parseN_progress [OF an] 1 len by simp
  have 3: "off2 + length auths \<le> off3 \<and> off3 \<le> length msg"
    using rr.parseN_progress [OF ns] 2 len by simp
  have 4: "off3 + length adds \<le> off4 \<and> off4 \<le> length msg"
    using rr.parseN_progress [OF ar] 3 len by simp
  show ?thesis using 1 2 3 4 hp by (simp add: p)
qed

lemma ParseRequestBounded_Inr:
  assumes "ParseRequestBounded uc msg = Inr p"
  shows "ParsePacket uc msg = Inr p" "length msg \<le> MaxIncomingDNSMessageSize"
    "\<not> isResponse (Flags (p_Header p))" "extractOpcode (Flags (p_Header p)) = 0"
    "length (p_Questions p) = 1"
    "length (p_Answers p) \<le> MaxRRPerSection" "length (p_Authorities p) \<le> MaxRRPerSection"
    "length (p_Additionals p) \<le> MaxRRPerSection"
    "length (p_Answers p) + length (p_Authorities p) + length (p_Additionals p) \<le> MaxTotalRR"
proof -
  from assms have p: "ParsePacket uc msg = Inr p"
    and rest: "length msg \<le> MaxIncomingDNSMessageSize"
      "\<not> isResponse (Flags (p_Header p))" "extractOpcode (Flags (p_Header p)) = 0"
    and v: "validateSectionCounts (p_Header p) = Inr ()"
    by (auto simp: ParseRequestBounded_def andThen_Inr_iff split: if_splits)
  note sh = ParsePacket_shape [OF p]
  show "ParsePacket uc msg = Inr p" "length msg \<le> MaxIncomingDNSMessageSize"
    "\<not> isResponse (Flags (p_Header p))" "extractOpcode (Flags (p_Header p)) = 0"
    using p rest by simp_all
  show "length (p_Questions p) = 1"
    "length (p_Answers p) \<le> MaxRRPerSection" "length (p_Authorities p) \<le> MaxRRPerSection"
    "length (p_Additionals p) \<le> MaxRRPerSection"
    "length (p_Answers p) + length (p_Authorities p) + length (p_Additionals p) \<le> MaxTotalRR"
    using v by (auto simp: validateSectionCounts_def Let_def sh split: if_splits)
qed

section \<open>Error responses\<close>

lemma buildResponseFlags_bits:
  "bit (buildResponseFlags f rc) n \<longleftrightarrow>
     n = 15 \<or> (n = 8 \<and> bit f 8) \<or> (n < 4 \<and> bit rc n)"
  by (auto simp: buildResponseFlags_def bit_and_iff bit_or_iff bit_not_iff bit_QRFlag bit_RDFlag
      bit_RCodeMask dest: bit_imp_le_length)

lemma RCodeFromFlags_buildResponseFlags:
  "RCodeFromFlags (buildResponseFlags f rc) = rc AND RCodeMask"
  by (rule bit_word_eqI)
    (auto simp: RCodeFromFlags_def buildResponseFlags_bits bit_and_iff bit_RCodeMask)

lemma wfPacket_BuildErrorResponse:
  "length (p_Questions req) \<le> 65535 \<Longrightarrow> wfPacket (BuildErrorResponse req rc)"
  by (simp add: wfPacket_def BuildErrorResponse_def)

end
