(* ===== verification/Dns_Edns.thy ===== *)
theory Dns_Edns
  imports Dns_Packet
begin

text \<open>
  \<open>internal/dns/edns.go\<close>: EDNS options, the OPT pseudo-record packed into class and
  TTL, the client's UDP size and the addition of an OPT record to raw request bytes.
\<close>

unbundle bit_operations_syntax

section \<open>Options\<close>

definition DefaultUDPPayloadSize :: nat where "DefaultUDPPayloadSize = 512"
definition EDNSDefaultUDPPayloadSize :: nat where "EDNSDefaultUDPPayloadSize = 1232"
definition EDNSMaxUDPPayloadSize :: nat where "EDNSMaxUDPPayloadSize = 4096"
definition EDNSMinUDPPayloadSize :: nat where "EDNSMinUDPPayloadSize = 512"

lemmas edns_size_defs = DefaultUDPPayloadSize_def EDNSDefaultUDPPayloadSize_def
  EDNSMaxUDPPayloadSize_def EDNSMinUDPPayloadSize_def

record EDNSOption =
  opt_Code :: uint16
  opt_Data :: bytes

definition ednsOptionHeaderLen :: nat where
  "ednsOptionHeaderLen = 4"

definition ednsMaxOptionDataSize :: nat where
  "ednsMaxOptionDataSize = EDNSMaxUDPPayloadSize"

definition isAllowedEDNSOption :: "uint16 \<Rightarrow> bool" where
  "isAllowedEDNSOption code \<longleftrightarrow> code = 10 \<or> code = 12"

definition EDNSOption_Marshal :: "EDNSOption \<Rightarrow> bytes" where
  "EDNSOption_Marshal o1 = PutUint16 (opt_Code o1) @
     PutUint16 (ClampIntToUint16 (int (length (opt_Data o1)))) @ opt_Data o1"

function ednsOptionsLoop :: "bytes \<Rightarrow> nat \<Rightarrow> EDNSOption list \<Rightarrow> EDNSOption list" where
  "ednsOptionsLoop rdata i opts =
     (if i \<ge> length rdata then opts
      else if length rdata - i < ednsOptionHeaderLen then opts
      else
        (let code = Uint16 (slice rdata i (i + 2));
             ln = unat (Uint16 (slice rdata (i + 2) (i + 4)));
             j = i + ednsOptionHeaderLen
         in if ln > ednsMaxOptionDataSize then
              (if j + ln > length rdata then opts else ednsOptionsLoop rdata (j + ln) opts)
            else if j + ln > length rdata then opts
            else if \<not> isAllowedEDNSOption code then ednsOptionsLoop rdata (j + ln) opts
            else ednsOptionsLoop rdata (j + ln)
                   (opts @ [\<lparr>opt_Code = code, opt_Data = slice rdata j (j + ln)\<rparr>])))"
  by pat_completeness auto
termination
  by (relation "measure (\<lambda>(rdata, i, _). length rdata - i)") (auto simp: ednsOptionHeaderLen_def)

declare ednsOptionsLoop.simps [simp del]

definition ParseEDNSOptions :: "bytes \<Rightarrow> EDNSOption list" where
  "ParseEDNSOptions rdata = ednsOptionsLoop rdata 0 []"

definition MarshalEDNSOptions :: "EDNSOption list \<Rightarrow> bytes" where
  "MarshalEDNSOptions opts =
     concat (map EDNSOption_Marshal
       (filter (\<lambda>o1. \<not> length (opt_Data o1) > ednsMaxOptionDataSize) opts))"

section \<open>The OPT record\<close>

record OPTRecord =
  UDPPayloadSize :: uint16
  ExtendedRCode :: byte
  Version :: byte
  DNSSECOk :: bool
  Options :: "EDNSOption list"

definition CreateOPT :: "int \<Rightarrow> OPTRecord" where
  "CreateOPT udpPayloadSize =
     \<lparr>UDPPayloadSize = ClampIntToUint16 (ClampInt udpPayloadSize (int EDNSMinUDPPayloadSize) 65535),
      ExtendedRCode = 0, Version = 0, DNSSECOk = False, Options = []\<rparr>"

definition packOPTTTL :: "byte \<Rightarrow> byte \<Rightarrow> bool \<Rightarrow> uint32" where
  "packOPTTTL extRCode version dnssecOk =
     (let ttl = push_bit 24 (ucast extRCode) OR push_bit 16 (ucast version)
      in if dnssecOk then ttl OR push_bit 15 1 else ttl)"

definition OPTRecord_Marshal :: "OPTRecord \<Rightarrow> bytes" where
  "OPTRecord_Marshal o1 =
     (let ttl = packOPTTTL (ExtendedRCode o1) (Version o1) (DNSSECOk o1);
          rdata = concat (map EDNSOption_Marshal (Options o1))
      in 0 # PutUint16 TypeOPT @ PutUint16 (UDPPayloadSize o1) @ PutUint32 ttl @
         PutUint16 (ClampIntToUint16 (int (length rdata))) @ rdata)"

fun ExtractOPT :: "Record list \<Rightarrow> OPTRecord option" where
  "ExtractOPT [] = None"
| "ExtractOPT (r # rs) =
     (if Record_Type r \<noteq> TypeOPT then ExtractOPT rs
      else
        (case r of
           OpaqueRecord h t (BytesData raw) \<Rightarrow>
             Some \<lparr>UDPPayloadSize = rr_Class h,
                   ExtendedRCode = ClampUint32ToUint8 (drop_bit 24 (rr_TTL h) AND 0xFF),
                   Version = ClampUint32ToUint8 (drop_bit 16 (rr_TTL h) AND 0xFF),
                   DNSSECOk = (drop_bit 15 (rr_TTL h) AND 1 = 1),
                   Options = ParseEDNSOptions raw\<rparr>
         | _ \<Rightarrow> ExtractOPT rs))"

definition ClientMaxUDPSize :: "Packet \<Rightarrow> nat" where
  "ClientMaxUDPSize req =
     (case ExtractOPT (p_Additionals req) of
        Some opt \<Rightarrow>
          (if unat (UDPPayloadSize opt) < DefaultUDPPayloadSize then DefaultUDPPayloadSize
           else unat (UDPPayloadSize opt))
      | None \<Rightarrow> DefaultUDPPayloadSize)"

definition IsTruncated :: "bytes \<Rightarrow> bool" where
  "IsTruncated responseBytes \<longleftrightarrow>
     \<not> length responseBytes < 4 \<and> Uint16 (slice responseBytes 2 4) AND TCFlag \<noteq> 0"

definition AddEDNSToRequestBytes :: "Packet \<Rightarrow> bytes \<Rightarrow> int \<Rightarrow> bytes" where
  "AddEDNSToRequestBytes req reqBytes udpSize =
     (case ExtractOPT (p_Additionals req) of
        Some _ \<Rightarrow> reqBytes
      | None \<Rightarrow>
          (let optBytes = OPTRecord_Marshal (CreateOPT udpSize)
           in if length reqBytes < HeaderSize then reqBytes
              else
                (let ar = Uint16 (slice reqBytes 10 12);
                     ar' = (if ar < 65535 then ar + 1 else ar)
                 in overwrite reqBytes 10 (PutUint16 ar') @ optBytes)))"

section \<open>Options survive a round trip when allowed\<close>

definition okOption :: "EDNSOption \<Rightarrow> bool" where
  "okOption o1 \<longleftrightarrow> isAllowedEDNSOption (opt_Code o1) \<and> length (opt_Data o1) \<le> ednsMaxOptionDataSize"

lemma ednsOptionsLoop_step:
  assumes "length (opt_Data o1) \<le> ednsMaxOptionDataSize"
  shows "ednsOptionsLoop (pre @ EDNSOption_Marshal o1 @ post) (length pre) acc =
    ednsOptionsLoop (pre @ EDNSOption_Marshal o1 @ post)
      (length (pre @ EDNSOption_Marshal o1)) (acc @ filter okOption [o1])"
proof -
  let ?n = "length (opt_Data o1)" and ?msg = "pre @ EDNSOption_Marshal o1 @ post"
  have len: "?n \<le> 65535" using assms by (simp add: ednsMaxOptionDataSize_def edns_size_defs)
  have sl: "slice ?msg (length pre) (length pre + 2) = PutUint16 (opt_Code o1)"
    "slice ?msg (length pre + 2) (length pre + 4) = PutUint16 (ClampIntToUint16 (int ?n))"
    "slice ?msg (length pre + 4) (length pre + 4 + ?n) = opt_Data o1"
    by (simp_all add: EDNSOption_Marshal_def slice_def)
  have eta: "\<lparr>opt_Code = opt_Code o1, opt_Data = opt_Data o1\<rparr> = o1" by simp
  show ?thesis
    using assms sl
    by (subst ednsOptionsLoop.simps)
      (simp add: Let_def sl eta unat_Clamp_length [OF len] ednsOptionHeaderLen_def okOption_def
        EDNSOption_Marshal_def add.assoc)
qed

lemma MarshalEDNSOptions_Cons:
  "MarshalEDNSOptions (o1 # os) =
     (if length (opt_Data o1) \<le> ednsMaxOptionDataSize then EDNSOption_Marshal o1 else []) @
     MarshalEDNSOptions os"
  by (simp add: MarshalEDNSOptions_def)

lemma ednsOptionsLoop_Marshal:
  "ednsOptionsLoop (pre @ MarshalEDNSOptions os) (length pre) acc = acc @ filter okOption os"
proof (induction os arbitrary: pre acc)
  case Nil
  then show ?case
    by (subst ednsOptionsLoop.simps) (simp add: MarshalEDNSOptions_def)
next
  case (Cons o1 os)
  show ?case
  proof (cases "length (opt_Data o1) \<le> ednsMaxOptionDataSize")
    case True
    with ednsOptionsLoop_step [OF True, of pre "MarshalEDNSOptions os" acc]
      Cons [of "pre @ EDNSOption_Marshal o1"]
    show ?thesis by (simp add: MarshalEDNSOptions_Cons)
  next
    case False
    with Cons show ?thesis by (simp add: MarshalEDNSOptions_Cons okOption_def)
  qed
qed

lemma ParseEDNSOptions_Marshal:
  "ParseEDNSOptions (MarshalEDNSOptions os) = filter okOption os"
  using ednsOptionsLoop_Marshal [of "[]"] by (simp add: ParseEDNSOptions_def)

lemma MarshalEDNSOptions_all:
  assumes "list_all okOption os"
  shows "MarshalEDNSOptions os = concat (map EDNSOption_Marshal os)"
  using assms
  by (induction os) (simp_all add: MarshalEDNSOptions_Cons okOption_def MarshalEDNSOptions_def)

section \<open>The OPT record as an opaque record\<close>

lemma packOPTTTL_bits:
  "bit (packOPTTTL e v d) n \<longleftrightarrow>
    (24 \<le> n \<and> bit e (n - 24)) \<or> (16 \<le> n \<and> n < 24 \<and> bit v (n - 16)) \<or> (n = 15 \<and> d)"
proof (cases "n < 32")
  case True
  then show ?thesis
    by (auto simp: packOPTTTL_def Let_def bit_or_iff bit_push_bit_iff bit_ucast_iff bit_1_iff
        simp del: push_bit_of_1 dest: bit_imp_le_length)
next
  case False
  then show ?thesis
    using bit_imp_le_length [of "packOPTTTL e v d" n] bit_imp_le_length [of e "n - 24"] by auto
qed

lemma packOPTTTL_fields:
  "ClampUint32ToUint8 (drop_bit 24 (packOPTTTL e v d) AND 0xFF) = e"
  "ClampUint32ToUint8 (drop_bit 16 (packOPTTTL e v d) AND 0xFF) = v"
  "(drop_bit 15 (packOPTTTL e v d) AND 1 = 1) = d"
proof -
  have FF: "(0xFF :: uint32) = mask 8" by (simp add: mask_eq_exp_minus_1)
  have le: "unat (ucast b :: uint32) \<le> 255" for b :: byte
    using unsigned_less [of b, where 'a = nat] by (simp add: unsigned_ucast_eq take_bit_nat_eq_self)
  have u: "unat (ucast b :: uint32) = unat b" for b :: byte
    using unsigned_less [of b, where 'a = nat] by (simp add: unsigned_ucast_eq take_bit_nat_eq_self)
  have clamp: "ClampUint32ToUint8 (ucast b) = b" for b :: byte
    using ClampUint32ToUint8_byte [OF le, of b] unfolding u by (simp add: word_unat_eq_iff)
  have "drop_bit 24 (packOPTTTL e v d) AND 0xFF = ucast e"
    by (rule bit_word_eqI)
      (auto simp: FF bit_and_iff bit_mask_iff bit_drop_bit_eq packOPTTTL_bits bit_ucast_iff
        dest: bit_imp_le_length)
  then show "ClampUint32ToUint8 (drop_bit 24 (packOPTTTL e v d) AND 0xFF) = e"
    by (simp add: clamp)
  have "drop_bit 16 (packOPTTTL e v d) AND 0xFF = ucast v"
    by (rule bit_word_eqI)
      (auto simp: FF bit_and_iff bit_mask_iff bit_drop_bit_eq packOPTTTL_bits bit_ucast_iff
        dest: bit_imp_le_length)
  then show "ClampUint32ToUint8 (drop_bit 16 (packOPTTTL e v d) AND 0xFF) = v"
    by (simp add: clamp)
  show "(drop_bit 15 (packOPTTTL e v d) AND 1 = 1) = d"
    using packOPTTTL_bits [of e v d 15]
    by (simp add: and_one_eq bit_iff_odd_drop_bit odd_iff_mod_2_eq_one)
qed

definition optRecordOf :: "OPTRecord \<Rightarrow> Record" where
  "optRecordOf o1 = OpaqueRecord
     \<lparr>rr_Name = '''', rr_Class = UDPPayloadSize o1,
      rr_TTL = packOPTTTL (ExtendedRCode o1) (Version o1) (DNSSECOk o1)\<rparr>
     TypeOPT (BytesData (concat (map EDNSOption_Marshal (Options o1))))"

lemma MarshalRecord_optRecordOf:
  assumes "length (concat (map EDNSOption_Marshal (Options o1))) \<le> 65535"
  shows "MarshalRecord (optRecordOf o1) = Inr (OPTRecord_Marshal o1)"
  using assms
  by (simp add: MarshalRecord_def optRecordOf_def marshalRecordWithRData_def OPTRecord_Marshal_def
      Let_def)

lemma wfRecord_optRecordOf: "wfRecord (optRecordOf o1)"
  by (simp add: optRecordOf_def isNameType_def isIPType_def type_defs)

lemma ExtractOPT_optRecordOf:
  assumes "list_all okOption (Options o1)"
  shows "ExtractOPT (optRecordOf o1 # rs) = Some o1"
  using ParseEDNSOptions_Marshal [of "Options o1"] assms MarshalEDNSOptions_all [OF assms]
  by (simp add: optRecordOf_def packOPTTTL_fields list_all_iff filter_id_conv)

section \<open>Sizes, truncation flag, and adding an OPT record\<close>

lemma ClientMaxUDPSize_bounds:
  "DefaultUDPPayloadSize \<le> ClientMaxUDPSize req \<and> ClientMaxUDPSize req \<le> 65535"
proof -
  have "unat (w :: uint16) \<le> 65535" for w
    using unsigned_less [of w, where 'a = nat] by simp
  then show ?thesis
    by (auto simp: ClientMaxUDPSize_def edns_size_defs split: option.splits)
qed

lemma CreateOPT_size:
  "512 \<le> unat (UDPPayloadSize (CreateOPT sz)) \<and>
   (512 \<le> sz \<and> sz \<le> 65535 \<longrightarrow> int (unat (UDPPayloadSize (CreateOPT sz))) = sz)"
  by (auto simp: CreateOPT_def unat_eq_nat_uint uint_ClampIntToUint16 ClampInt_def clampInt_def
      edns_size_defs)

lemma IsTruncated_header:
  assumes "ParseHeader msg 0 = Inr (h, off)"
  shows "IsTruncated msg \<longleftrightarrow> Truncated h"
  using assms
  by (auto simp: ParseHeader_def IsTruncated_def Truncated_def HeaderSize_def split: if_splits)

lemma appendAll_snoc:
  assumes "appendAll enc [] xs = Inr bs" "enc y = Inr b"
  shows "appendAll enc [] (xs @ [y]) = Inr (bs @ b)"
proof -
  have "appendAll enc out (xs @ [y]) = andThen (appendAll enc out xs) (\<lambda>o1. appendAll enc o1 [y])"
    for out
  proof (induction xs arbitrary: out)
    case (Cons x xs)
    then show ?case by (cases "enc x") simp_all
  qed simp
  then show ?thesis using assms by simp
qed

lemma unat_succ_Clamp:
  assumes "n < 65535"
  shows "ClampIntToUint16 (int n) + 1 = ClampIntToUint16 (int (n + 1))"
    "ClampIntToUint16 (int n) < 65535"
proof -
  have "unat (ClampIntToUint16 (int n) + 1) = unat (ClampIntToUint16 (int (n + 1)))"
    using assms unat_Clamp_length [of n] unat_Clamp_length [of "n + 1"]
    by (simp add: unat_word_ariths)
  then show "ClampIntToUint16 (int n) + 1 = ClampIntToUint16 (int (n + 1))"
    by (simp add: word_unat_eq_iff)
  show "ClampIntToUint16 (int n) < 65535"
    using assms by (simp add: word_less_nat_alt unat_Clamp_length)
qed

lemma AddEDNS_Marshal:
  assumes m: "Packet_Marshal p = Inr bs" and none: "ExtractOPT (p_Additionals p) = None"
    and len: "length (p_Additionals p) < 65535"
  shows "Packet_Marshal (p\<lparr>p_Additionals := p_Additionals p @ [optRecordOf (CreateOPT sz)]\<rparr>) =
    Inr (AddEDNSToRequestBytes p bs sz)"
proof -
  let ?opt = "CreateOPT sz" and ?n = "length (p_Additionals p)"
  let ?p = "p\<lparr>p_Additionals := p_Additionals p @ [optRecordOf ?opt]\<rparr>"
  let ?ar = "PutUint16 (ClampIntToUint16 (int ?n))"
    and ?ar' = "PutUint16 (ClampIntToUint16 (int (?n + 1)))"
  obtain hb q an ns ar where hb: "Header_Marshal (countedHeader p) = Inr hb"
    and q: "appendAll Question_Marshal [] (p_Questions p) = Inr q"
    and an: "appendAll MarshalRecord [] (p_Answers p) = Inr an"
    and ns: "appendAll MarshalRecord [] (p_Authorities p) = Inr ns"
    and ar: "appendAll MarshalRecord [] (p_Additionals p) = Inr ar"
    and bs: "bs = hb @ q @ an @ ns @ ar"
    using Packet_Marshal_parts [OF m] .
  define h10 where "h10 = PutUint16 (ID (p_Header p)) @ PutUint16 (Flags (p_Header p)) @
    PutUint16 (ClampIntToUint16 (int (length (p_Questions p)))) @
    PutUint16 (ClampIntToUint16 (int (length (p_Answers p)))) @
    PutUint16 (ClampIntToUint16 (int (length (p_Authorities p))))"
  have h10: "hb = h10 @ ?ar" "length h10 = 10"
    "Header_Marshal (countedHeader ?p) = Inr (h10 @ ?ar')"
    using hb by (simp_all add: Header_Marshal_def countedHeader_def h10_def add.commute)
  have "MarshalRecord (optRecordOf ?opt) = Inr (OPTRecord_Marshal ?opt)"
    by (rule MarshalRecord_optRecordOf) (simp add: CreateOPT_def)
  note ar' = appendAll_snoc [OF ar this]
  have "Packet_Marshal ?p = Inr (h10 @ ?ar' @ q @ an @ ns @ ar @ OPTRecord_Marshal ?opt)"
    using Packet_Marshal_of_parts [of ?p, OF h10(3)] q an ns ar' by simp
  moreover have "Uint16 (slice bs 10 12) = ClampIntToUint16 (int ?n)"
    by (simp add: bs h10 slice_def)
  moreover have "overwrite bs 10 ?ar' = h10 @ ?ar' @ q @ an @ ns @ ar"
    using overwrite_at [of 10 h10 ?ar ?ar' "q @ an @ ns @ ar"] by (simp add: bs h10)
  ultimately show ?thesis
    using none unat_succ_Clamp [OF len]
    by (simp add: AddEDNSToRequestBytes_def Let_def HeaderSize_def bs h10)
qed

end
