(* ===== verification/GoTime.thy ===== *)
theory GoTime
  imports Prelude
begin

text \<open>
  Go's \<open>time\<close> package as the caches, health tracking and limiters use it. An instant
  is an integer number of nanoseconds since the zero \<open>time.Time\<close> (year 1), so an
  uninitialised \<open>time.Time\<close> field is 0; a \<open>time.Duration\<close> is an \<open>int64\<close> number of
  nanoseconds. \<open>Time.Sub\<close> saturates at the ends of the \<open>int64\<close> range instead of
  wrapping, which the model writes out. The clock itself is an argument of every
  operation that calls \<open>time.Now\<close>.
\<close>

type_synonym instant = int
type_synonym duration = int

definition minDuration :: duration where "minDuration = - (2 ^ 63)"
definition maxDuration :: duration where "maxDuration = 2 ^ 63 - 1"

definition Second :: duration where "Second = 1000000000"
definition Minute :: duration where "Minute = 60 * Second"
definition Hour :: duration where "Hour = 60 * Minute"

definition Sub :: "instant \<Rightarrow> instant \<Rightarrow> duration" where
  "Sub t u = max minDuration (min maxDuration (t - u))"

definition Before :: "instant \<Rightarrow> instant \<Rightarrow> bool" where
  "Before t u \<longleftrightarrow> t < u"

definition After :: "instant \<Rightarrow> instant \<Rightarrow> bool" where
  "After t u \<longleftrightarrow> t > u"

definition IsZero :: "instant \<Rightarrow> bool" where
  "IsZero t \<longleftrightarrow> t = 0"

lemmas duration_defs = Second_def Minute_def Hour_def minDuration_def maxDuration_def

lemma Sub_exact: "minDuration \<le> t - u \<Longrightarrow> t - u \<le> maxDuration \<Longrightarrow> Sub t u = t - u"
  by (simp add: Sub_def)

lemma Sub_less: "minDuration < d \<Longrightarrow> t < u + d \<Longrightarrow> Sub t u < d"
  by (auto simp: Sub_def)

lemma Sub_nonneg: "u \<le> t \<Longrightarrow> 0 \<le> Sub t u"
  by (simp add: Sub_def duration_defs)

lemma Sub_ge_iff: "minDuration < d \<Longrightarrow> d \<le> maxDuration \<Longrightarrow> d \<le> Sub t u \<longleftrightarrow> d \<le> t - u"
  by (auto simp: Sub_def)

end
