(* ===== verification/TTL_Cache.thy ===== *)
theory TTL_Cache
  imports GoTime Dns_Enums
begin

text \<open>
  \<open>internal/resolvers/cache.go\<close>: the TTL-aware LRU cache. The Go cache holds a
  doubly linked list of keys (front = oldest) and a map from keys to entries, each
  entry pointing at its list element; the model has the list of keys and a finite map,
  and an entry's element is the position of its key, which the invariant makes unique.
  Every operation runs under the cache's mutex, so a history of the cache is a
  sequence of operations; the clock readings of an operation are arguments.
\<close>

section \<open>State and operations\<close>

datatype CacheEntryType = CachePositive | CacheNXDOMAIN | CacheNODATA | CacheSERVFAIL

fun CacheEntryType_String :: "CacheEntryType \<Rightarrow> string" where
  "CacheEntryType_String CachePositive = ''positive''"
| "CacheEntryType_String CacheNXDOMAIN = ''nxdomain''"
| "CacheEntryType_String CacheNODATA = ''nodata''"
| "CacheEntryType_String CacheSERVFAIL = ''servfail''"

record 'v cacheEntry =
  ce_value :: 'v
  cachedAt :: instant
  expiresAt :: instant
  entryType :: CacheEntryType

record ('k, 'v) TTLCache =
  defaultTTL :: duration
  maxTTL :: duration
  maxEntries :: int
  negativeEnabled :: bool
  negativeTTL :: duration
  servfailTTL :: duration
  maxNegativeTTL :: duration
  lru :: "'k list"
  cache_data :: "('k, 'v cacheEntry) fmap"
  hits :: int
  misses :: int
  negativeHits :: int

definition NewTTLCache :: "int \<Rightarrow> ('k, 'v) TTLCache" where
  "NewTTLCache maxE =
     \<lparr>defaultTTL = 60 * Second, maxTTL = 24 * Hour,
      maxEntries = (if maxE \<le> 0 then 1 else maxE), negativeEnabled = True,
      negativeTTL = 5 * Minute, servfailTTL = 30 * Second, maxNegativeTTL = 1 * Hour,
      lru = [], cache_data = fmempty, hits = 0, misses = 0, negativeHits = 0\<rparr>"

text \<open>\<open>list.List.MoveToBack\<close> of the element that holds a key.\<close>

definition MoveToBack :: "'k \<Rightarrow> 'k list \<Rightarrow> 'k list" where
  "MoveToBack k ks = remove1 k ks @ [k]"

definition countMiss :: "('k, 'v) TTLCache \<Rightarrow> ('k, 'v) TTLCache" where
  "countMiss c = c\<lparr>misses := misses c + 1\<rparr>"

definition dropKey :: "'k \<Rightarrow> ('k, 'v) TTLCache \<Rightarrow> ('k, 'v) TTLCache" where
  "dropKey k c = c\<lparr>lru := remove1 k (lru c), cache_data := fmdrop k (cache_data c)\<rparr>"

definition touch :: "'k \<Rightarrow> CacheEntryType \<Rightarrow> ('k, 'v) TTLCache \<Rightarrow> ('k, 'v) TTLCache" where
  "touch k et c = c\<lparr>lru := MoveToBack k (lru c), hits := hits c + 1,
     negativeHits := negativeHits c + (if et \<noteq> CachePositive then 1 else 0)\<rparr>"

text \<open>
  \<open>Get\<close> and \<open>GetWithAge\<close> at clock reading \<open>now\<close>; a miss returns \<^const>\<open>None\<close> for
  the Go results \<open>(zero, false, CachePositive)\<close>.
\<close>

definition Get ::
  "('k, 'v) TTLCache \<Rightarrow> 'k \<Rightarrow> instant \<Rightarrow> ('v \<times> CacheEntryType) option \<times> ('k, 'v) TTLCache" where
  "Get c key now =
     (case fmlookup (cache_data c) key of
        None \<Rightarrow> (None, countMiss c)
      | Some e \<Rightarrow>
          if \<not> After (expiresAt e) now then (None, countMiss (dropKey key c))
          else (Some (ce_value e, entryType e), touch key (entryType e) c))"

definition GetWithAge ::
  "('k, 'v) TTLCache \<Rightarrow> 'k \<Rightarrow> instant \<Rightarrow>
     ('v \<times> duration \<times> CacheEntryType) option \<times> ('k, 'v) TTLCache" where
  "GetWithAge c key now =
     (case fmlookup (cache_data c) key of
        None \<Rightarrow> (None, countMiss c)
      | Some e \<Rightarrow>
          if \<not> After (expiresAt e) now then (None, countMiss (dropKey key c))
          else
            (let age = Sub now (cachedAt e)
             in (Some (ce_value e, age, entryType e), touch key (entryType e) c)))"

definition capTTL :: "('k, 'v) TTLCache \<Rightarrow> duration \<Rightarrow> CacheEntryType \<Rightarrow> duration" where
  "capTTL c ttl et =
     (case et of
        CacheSERVFAIL \<Rightarrow>
          if \<not> negativeEnabled c then 0
          else if ttl > maxNegativeTTL c then maxNegativeTTL c else ttl
      | CacheNXDOMAIN \<Rightarrow>
          if \<not> negativeEnabled c then 0
          else if ttl > maxNegativeTTL c then maxNegativeTTL c else ttl
      | CacheNODATA \<Rightarrow>
          if \<not> negativeEnabled c then 0
          else if ttl > maxNegativeTTL c then maxNegativeTTL c else ttl
      | CachePositive \<Rightarrow> if ttl > maxTTL c then maxTTL c else ttl)"

text \<open>The loop of \<open>evictOldest\<close>: each round removes the front of the list.\<close>

fun evictLoop ::
  "int \<Rightarrow> 'k list \<Rightarrow> ('k, 'e) fmap \<Rightarrow> 'k list \<times> ('k, 'e) fmap" where
  "evictLoop m [] d = ([], d)"
| "evictLoop m (k # ks) d =
     (if int (fcard (fmdom d)) > m then evictLoop m ks (fmdrop k d) else (k # ks, d))"

definition evictOldest :: "('k, 'v) TTLCache \<Rightarrow> ('k, 'v) TTLCache" where
  "evictOldest c =
     (let (ks, d) = evictLoop (maxEntries c) (lru c) (cache_data c)
      in c\<lparr>lru := ks, cache_data := d\<rparr>)"

text \<open>
  \<open>Set\<close> reads the clock for the expiry (\<open>t\<close>) before it takes the lock and again,
  under the lock, for \<open>cachedAt\<close> (\<open>t'\<close>).
\<close>

definition SetEntry ::
  "('k, 'v) TTLCache \<Rightarrow> 'k \<Rightarrow> 'v \<Rightarrow> duration \<Rightarrow> CacheEntryType \<Rightarrow> instant \<Rightarrow> instant \<Rightarrow>
     ('k, 'v) TTLCache" where
  "SetEntry c key val ttl0 et t t' =
     (if ttl0 \<le> 0 then c
      else
        (let ttl = capTTL c ttl0 et in
         if ttl \<le> 0 then c
         else
           (let expires = t + ttl;
                e = \<lparr>ce_value = val, cachedAt = t', expiresAt = expires, entryType = et\<rparr>
            in case fmlookup (cache_data c) key of
                 Some existing \<Rightarrow>
                   c\<lparr>cache_data := fmupd key e (cache_data c),
                     lru := MoveToBack key (lru c)\<rparr>
               | None \<Rightarrow>
                   evictOldest
                     (c\<lparr>lru := lru c @ [key], cache_data := fmupd key e (cache_data c)\<rparr>))))"

section \<open>Invariant\<close>

definition cacheInv :: "('k, 'v) TTLCache \<Rightarrow> bool" where
  "cacheInv c \<longleftrightarrow>
     distinct (lru c) \<and> set (lru c) = fset (fmdom (cache_data c)) \<and>
     0 < maxEntries c \<and> int (length (lru c)) \<le> maxEntries c"

lemma fcard_fmdom:
  assumes "distinct ks" "set ks = fset (fmdom d)"
  shows "fcard (fmdom d) = length ks"
  using assms by (metis distinct_card fcard.rep_eq)

lemma cacheInv_size: "cacheInv c \<Longrightarrow> int (fcard (fmdom (cache_data c))) \<le> maxEntries c"
  by (simp add: cacheInv_def fcard_fmdom [of "lru c"])

lemma cacheInv_New: "cacheInv (NewTTLCache m)"
  by (simp add: cacheInv_def NewTTLCache_def)

lemma cacheInv_countMiss [simp]: "cacheInv (countMiss c) = cacheInv c"
  by (simp add: cacheInv_def countMiss_def)

lemma cacheInv_dropKey:
  assumes "cacheInv c" shows "cacheInv (dropKey k c)"
proof -
  have "length (remove1 k (lru c)) \<le> length (lru c)"
    by (simp add: length_remove1)
  with assms show ?thesis
    by (auto simp: cacheInv_def dropKey_def)
qed

lemma MoveToBack_perm:
  assumes "distinct ks" "k \<in> set ks"
  shows "distinct (MoveToBack k ks)" "set (MoveToBack k ks) = set ks"
    "length (MoveToBack k ks) = length ks"
proof -
  from assms(2) have "0 < length ks" by (rule length_pos_if_in_set)
  with assms(2) show "length (MoveToBack k ks) = length ks"
    by (simp add: MoveToBack_def length_remove1)
qed (use assms in \<open>auto simp: MoveToBack_def\<close>)

lemma fmlookup_dom: "fmlookup m k = Some e \<Longrightarrow> k \<in> fset (fmdom m)"
  by (simp add: fmdomI)

lemma cacheInv_touch:
  assumes "cacheInv c" "fmlookup (cache_data c) k = Some e"
  shows "cacheInv (touch k et c)"
  using assms fmlookup_dom [OF assms(2)]
  by (auto simp: cacheInv_def touch_def MoveToBack_perm)

lemma evictLoop_drop:
  assumes "distinct ks" "set ks = fset (fmdom d)" "0 \<le> m"
  shows "evictLoop m ks d =
    (drop (length ks - nat m) ks, fmdrop_set (set (take (length ks - nat m) ks)) d)"
  using assms
proof (induction m ks d rule: evictLoop.induct)
  case (2 m k ks d)
  have card: "fcard (fmdom d) = length (k # ks)"
    using 2(2,3) by (rule fcard_fmdom)
  have "set ks = fset (fmdom (fmdrop k d))"
    using 2(2,3) by auto
  with 2 card show ?case
    by (auto simp: Suc_diff_le nat_le_iff fmdrop_set_insert)
qed auto

lemma cacheInv_Get: "cacheInv c \<Longrightarrow> cacheInv (snd (Get c k now))"
  by (auto simp: Get_def cacheInv_dropKey cacheInv_touch split: option.split)

lemma cacheInv_GetWithAge: "cacheInv c \<Longrightarrow> cacheInv (snd (GetWithAge c k now))"
  by (auto simp: GetWithAge_def Let_def cacheInv_dropKey cacheInv_touch split: option.split)

section \<open>Refinement of a recency list\<close>

text \<open>
  The abstract cache is the list of bindings in order of use, oldest first. Reading
  a live key moves its binding to the end; storing puts the new binding at the end and
  keeps the newest \<open>maxEntries\<close> bindings.
\<close>

definition bindings :: "('k, 'v) TTLCache \<Rightarrow> ('k \<times> 'v cacheEntry) list" where
  "bindings c = map (\<lambda>k. (k, the (fmlookup (cache_data c) k))) (lru c)"

definition forget :: "'k \<Rightarrow> ('k \<times> 'e) list \<Rightarrow> ('k \<times> 'e) list" where
  "forget k xs = filter (\<lambda>p. fst p \<noteq> k) xs"

definition newest :: "nat \<Rightarrow> 'a list \<Rightarrow> 'a list" where
  "newest m xs = drop (length xs - m) xs"

definition lruRead :: "instant \<Rightarrow> 'k \<Rightarrow> ('k \<times> 'v cacheEntry) list \<Rightarrow> ('k \<times> 'v cacheEntry) list" where
  "lruRead now k xs =
     (case map_of xs k of
        None \<Rightarrow> xs
      | Some e \<Rightarrow> if expiresAt e \<le> now then forget k xs else forget k xs @ [(k, e)])"

definition lruPut :: "nat \<Rightarrow> 'k \<Rightarrow> 'e \<Rightarrow> ('k \<times> 'e) list \<Rightarrow> ('k \<times> 'e) list" where
  "lruPut m k e xs = newest m (forget k xs @ [(k, e)])"

lemma map_of_bindings:
  assumes "cacheInv c" shows "map_of (bindings c) k = fmlookup (cache_data c) k"
  using assms by (auto simp: bindings_def map_of_map_restrict restrict_map_def cacheInv_def fmdom_notD)

lemma bindings_remove:
  assumes "distinct ks"
  shows "map (\<lambda>x. (x, g x)) (remove1 k ks) = forget k (map (\<lambda>x. (x, g x)) ks)"
  using assms
  by (induction ks) (auto simp: forget_def filter_map o_def intro!: arg_cong [where f = "map _"]
      filter_True [symmetric])

lemma forget_cong:
  "(\<And>x. x \<in> set ks \<Longrightarrow> x \<noteq> k \<Longrightarrow> f x = g x) \<Longrightarrow>
   forget k (map (\<lambda>x. (x, f x)) ks) = forget k (map (\<lambda>x. (x, g x)) ks)"
  by (induction ks) (auto simp: forget_def)

lemma forget_absent: "k \<notin> fst ` set xs \<Longrightarrow> forget k xs = xs"
  by (auto simp: forget_def filter_id_conv)

lemma bindings_touch:
  assumes "cacheInv c" "fmlookup (cache_data c) k = Some e"
  shows "bindings (touch k et c) = forget k (bindings c) @ [(k, e)]"
  using assms by (simp add: bindings_def touch_def MoveToBack_def bindings_remove cacheInv_def)

lemma bindings_dropKey:
  assumes "cacheInv c" shows "bindings (dropKey k c) = forget k (bindings c)"
  using assms by (auto simp: bindings_def dropKey_def bindings_remove cacheInv_def intro: forget_cong)

lemma bindings_countMiss [simp]: "bindings (countMiss c) = bindings c"
  by (simp add: bindings_def countMiss_def)

lemma bindings_GetWithAge:
  assumes "cacheInv c"
  shows "bindings (snd (GetWithAge c k now)) = lruRead now k (bindings c)"
  using assms
  by (auto simp: GetWithAge_def lruRead_def Let_def After_def map_of_bindings bindings_dropKey
      bindings_touch split: option.split)

lemma bindings_Get:
  assumes "cacheInv c"
  shows "bindings (snd (Get c k now)) = lruRead now k (bindings c)"
  using assms
  by (auto simp: Get_def lruRead_def After_def map_of_bindings bindings_dropKey
      bindings_touch split: option.split)

lemma forget_map_absent:
  assumes "k \<notin> set ks" shows "forget k (map (\<lambda>x. (x, g x)) ks) = map (\<lambda>x. (x, g x)) ks"
  using assms by (intro forget_absent) (auto simp: image_image)

lemma bindings_insert:
  assumes "cacheInv c"
  shows "map (\<lambda>x. (x, the (fmlookup (fmupd k e (cache_data c)) x))) (remove1 k (lru c) @ [k]) =
    forget k (bindings c) @ [(k, e)]"
  using assms by (auto simp: bindings_def bindings_remove cacheInv_def intro: forget_cong)

lemma newest_all: "length xs \<le> m \<Longrightarrow> newest m xs = xs"
  by (simp add: newest_def)

lemma newest_map: "newest m (map f xs) = map f (newest m xs)"
  by (simp add: newest_def drop_map)

lemma length_newest: "length (newest m xs) = min m (length xs)"
  by (simp add: newest_def min_def)

lemma set_newest: "set (newest m xs) \<subseteq> set xs"
  by (simp add: newest_def set_drop_subset)

lemma fmdom_drop_set_iff: "x |\<in>| fmdom (fmdrop_set A m) \<longleftrightarrow> x |\<in>| fmdom m \<and> x \<notin> A"
  by (auto simp: fmlookup_dom_iff)

text \<open>Adding a fresh key and evicting keeps exactly the newest bindings.\<close>

lemma evictOldest_state:
  assumes "distinct (lru c)" "set (lru c) = fset (fmdom (cache_data c))" "0 < maxEntries c"
  shows "cacheInv (evictOldest c)"
    "bindings (evictOldest c) = newest (nat (maxEntries c)) (bindings c)"
proof -
  define n where "n = length (lru c) - nat (maxEntries c)"
  have ev: "evictOldest c = c\<lparr>lru := drop n (lru c),
      cache_data := fmdrop_set (set (take n (lru c))) (cache_data c)\<rparr>"
    using evictLoop_drop [of "lru c" "cache_data c" "maxEntries c"] assms
    by (simp add: evictOldest_def n_def)
  have parts: "set (take n (lru c)) \<inter> set (drop n (lru c)) = {}"
    "set (take n (lru c)) \<union> set (drop n (lru c)) = set (lru c)"
    using assms(1) by (metis append_take_drop_id distinct_append) (metis append_take_drop_id set_append)
  have "int (length (drop n (lru c))) \<le> maxEntries c"
    using assms(3) by (simp add: n_def)
  with parts show "cacheInv (evictOldest c)"
    using assms by (auto simp: ev cacheInv_def fmdom_drop_set_iff)
  have "map (\<lambda>x. (x, the (fmlookup (fmdrop_set (set (take n (lru c))) (cache_data c)) x)))
        (drop n (lru c)) =
      map (\<lambda>x. (x, the (fmlookup (cache_data c) x))) (drop n (lru c))"
    using parts by auto
  then show "bindings (evictOldest c) = newest (nat (maxEntries c)) (bindings c)"
    by (simp add: ev bindings_def newest_def n_def drop_map)
qed

lemma SetEntry_maxEntries [simp]: "maxEntries (SetEntry c k v ttl et t t') = maxEntries c"
  by (simp add: SetEntry_def Let_def evictOldest_def split: option.split prod.split)

lemma SetEntry_state:
  assumes inv: "cacheInv c" and pos: "0 < ttl" "0 < capTTL c ttl et"
  shows "cacheInv (SetEntry c k v ttl et t t')"
    "bindings (SetEntry c k v ttl et t t') =
       lruPut (nat (maxEntries c)) k
         \<lparr>ce_value = v, cachedAt = t', expiresAt = t + capTTL c ttl et, entryType = et\<rparr> (bindings c)"
proof -
  define e where "e = \<lparr>ce_value = v, cachedAt = t', expiresAt = t + capTTL c ttl et, entryType = et\<rparr>"
  have *: "cacheInv (SetEntry c k v ttl et t t') \<and>
    bindings (SetEntry c k v ttl et t t') = lruPut (nat (maxEntries c)) k e (bindings c)"
  proof (cases "fmlookup (cache_data c) k")
    case None
    define c' where "c' = c\<lparr>lru := lru c @ [k], cache_data := fmupd k e (cache_data c)\<rparr>"
    from inv None have fresh: "k \<notin> set (lru c)"
      by (auto simp: cacheInv_def fmdom_notI)
    have set: "SetEntry c k v ttl et t t' = evictOldest c'"
      using None pos by (simp add: SetEntry_def Let_def c'_def e_def)
    have "bindings c' = forget k (bindings c) @ [(k, e)]"
      using bindings_insert [OF inv, of k e] fresh by (simp add: bindings_def c'_def remove1_idem)
    moreover have "distinct (lru c')" "set (lru c') = fset (fmdom (cache_data c'))" "0 < maxEntries c'"
      "maxEntries c' = maxEntries c"
      using inv fresh by (auto simp: c'_def cacheInv_def)
    ultimately show ?thesis
      using evictOldest_state [of c'] by (simp add: set lruPut_def)
  next
    case (Some old)
    then have mem: "k \<in> set (lru c)"
      using inv fmlookup_dom [OF Some] by (auto simp: cacheInv_def)
    have set: "SetEntry c k v ttl et t t' =
        c\<lparr>cache_data := fmupd k e (cache_data c), lru := MoveToBack k (lru c)\<rparr>"
      using Some pos by (simp add: SetEntry_def Let_def e_def)
    have keeps: "cacheInv (SetEntry c k v ttl et t t')"
      using inv mem by (auto simp: set cacheInv_def MoveToBack_perm)
    have b: "bindings (SetEntry c k v ttl et t t') = forget k (bindings c) @ [(k, e)]"
      using bindings_insert [OF inv, of k e] by (simp add: set bindings_def MoveToBack_def)
    have "length (bindings (SetEntry c k v ttl et t t')) \<le> nat (maxEntries c)"
      using keeps by (simp add: cacheInv_def bindings_def nat_le_iff le_nat_iff)
    then have "lruPut (nat (maxEntries c)) k e (bindings c) = bindings (SetEntry c k v ttl et t t')"
      by (simp only: lruPut_def newest_all b)
    with keeps show ?thesis by simp
  qed
  then show "cacheInv (SetEntry c k v ttl et t t')" by simp
  from * show "bindings (SetEntry c k v ttl et t t') = lruPut (nat (maxEntries c)) k
     \<lparr>ce_value = v, cachedAt = t', expiresAt = t + capTTL c ttl et, entryType = et\<rparr> (bindings c)"
    by (simp add: e_def)
qed

lemma SetEntry_rejected:
  "ttl \<le> 0 \<or> capTTL c ttl et \<le> 0 \<Longrightarrow> SetEntry c k v ttl et t t' = c"
  by (auto simp: SetEntry_def Let_def)

lemma cacheInv_SetEntry: "cacheInv c \<Longrightarrow> cacheInv (SetEntry c k v ttl et t t')"
  using SetEntry_state(1) SetEntry_rejected by (metis not_le_imp_less)

section \<open>What a lookup returns\<close>

lemma GetWithAge_Some_iff:
  "fst (GetWithAge c k now) = Some (v, age, et) \<longleftrightarrow>
   (\<exists>e. fmlookup (cache_data c) k = Some e \<and> now < expiresAt e \<and>
      v = ce_value e \<and> age = Sub now (cachedAt e) \<and> et = entryType e)"
  by (auto simp: GetWithAge_def Let_def After_def split: option.split)

lemma Get_Some_iff:
  "fst (Get c k now) = Some (v, et) \<longleftrightarrow>
   (\<exists>e. fmlookup (cache_data c) k = Some e \<and> now < expiresAt e \<and>
      v = ce_value e \<and> et = entryType e)"
  by (auto simp: Get_def After_def split: option.split)

lemma map_of_newest:
  assumes "map_of (newest m xs) k = Some e" "distinct (map fst xs)"
  shows "map_of xs k = Some e"
  using assms set_newest by (fastforce simp: map_of_eq_Some_iff newest_def distinct_map
      simp flip: drop_map dest: map_of_SomeD)

lemma map_of_forget: "map_of (forget k xs) k' = (if k' = k then None else map_of xs k')"
  by (induction xs) (auto simp: forget_def)

lemma distinct_forget: "distinct (map fst xs) \<Longrightarrow> distinct (map fst (forget k xs))"
  by (auto simp: forget_def distinct_map inj_on_def)

lemma distinct_forget_snoc:
  "distinct (map fst xs) \<Longrightarrow> distinct (map fst (forget k xs @ [(k, e)]))"
  using distinct_forget [of xs k] by (auto simp: forget_def)

lemma distinct_newest: "distinct (map f xs) \<Longrightarrow> distinct (map f (newest m xs))"
  by (simp add: newest_def distinct_drop flip: drop_map)

lemma distinct_bindings: "cacheInv c \<Longrightarrow> distinct (map fst (bindings c))"
  by (simp add: bindings_def cacheInv_def o_def)

lemma map_of_lruPut_same: "0 < m \<Longrightarrow> distinct (map fst xs) \<Longrightarrow> map_of (lruPut m k e xs) k = Some e"
proof -
  assume m: "0 < m" and d: "distinct (map fst xs)"
  have "(k, e) \<in> set (newest m (forget k xs @ [(k, e)]))"
    using m by (simp add: newest_def)
  moreover have "distinct (map fst (newest m (forget k xs @ [(k, e)])))"
    using d by (intro distinct_newest distinct_forget_snoc)
  ultimately show ?thesis by (simp add: lruPut_def)
qed

lemma map_of_lruPut_other:
  assumes "distinct (map fst xs)" "map_of (lruPut m k e xs) k' = Some e'" "k' \<noteq> k"
  shows "map_of xs k' = Some e'"
proof -
  from map_of_newest [OF assms(2) [unfolded lruPut_def] distinct_forget_snoc [OF assms(1)]] assms(3)
  show ?thesis by (simp add: map_add_def map_of_forget split: option.splits if_splits)
qed

lemma lookup_SetEntry:
  assumes "cacheInv c" "0 < ttl" "0 < capTTL c ttl et"
  shows "fmlookup (cache_data (SetEntry c k v ttl et t t')) k =
    Some \<lparr>ce_value = v, cachedAt = t', expiresAt = t + capTTL c ttl et, entryType = et\<rparr>"
  using SetEntry_state [OF assms, of k v t t'] assms(1) distinct_bindings [OF assms(1)]
  by (simp add: map_of_lruPut_same cacheInv_def flip: map_of_bindings)

lemma lookup_SetEntry_other:
  assumes "cacheInv c" "fmlookup (cache_data (SetEntry c k v ttl et t t')) k' = Some e" "k' \<noteq> k"
  shows "fmlookup (cache_data c) k' = Some e"
proof (cases "ttl \<le> 0 \<or> capTTL c ttl et \<le> 0")
  case True
  with assms(2) show ?thesis by (simp add: SetEntry_rejected)
next
  case False
  then have "cacheInv (SetEntry c k v ttl et t t')"
    "bindings (SetEntry c k v ttl et t t') = lruPut (nat (maxEntries c)) k
       \<lparr>ce_value = v, cachedAt = t', expiresAt = t + capTTL c ttl et, entryType = et\<rparr> (bindings c)"
    using SetEntry_state [OF assms(1)] by auto
  with assms map_of_lruPut_other [OF distinct_bindings [OF assms(1)] _ assms(3)] show ?thesis
    by (metis map_of_bindings)
qed

lemma capTTL_le: "capTTL c ttl et \<le> (if et = CachePositive then maxTTL c else max 0 (maxNegativeTTL c))"
  by (cases et) (auto simp: capTTL_def)

lemma capTTL_le_ttl: "0 \<le> ttl \<Longrightarrow> capTTL c ttl et \<le> ttl"
  by (cases et) (auto simp: capTTL_def)

lemma lookup_GetWithAge_D:
  "fmlookup (cache_data (snd (GetWithAge c k now))) k' = Some e \<Longrightarrow>
   fmlookup (cache_data c) k' = Some e"
  by (auto simp: GetWithAge_def Let_def countMiss_def dropKey_def touch_def
      split: option.splits if_splits)

section \<open>Ages and time to live\<close>

text \<open>
  Every stored entry expires at most \<open>maxTTL\<close> (or \<open>maxNegativeTTL\<close>) after it was
  cached, provided the clock does not run backwards between the two readings of \<open>Set\<close>.
\<close>

definition entryBound :: "('k, 'v) TTLCache \<Rightarrow> 'v cacheEntry \<Rightarrow> bool" where
  "entryBound c e \<longleftrightarrow> expiresAt e \<le> cachedAt e +
     (if entryType e = CachePositive then maxTTL c else max 0 (maxNegativeTTL c))"

definition timeInv :: "('k, 'v) TTLCache \<Rightarrow> bool" where
  "timeInv c \<longleftrightarrow> (\<forall>k e. fmlookup (cache_data c) k = Some e \<longrightarrow> entryBound c e)"

lemma timeInv_New: "timeInv (NewTTLCache m)"
  by (simp add: timeInv_def NewTTLCache_def)

lemma caps_SetEntry [simp]:
  "maxTTL (SetEntry c k v ttl et t t') = maxTTL c"
  "maxNegativeTTL (SetEntry c k v ttl et t t') = maxNegativeTTL c"
  by (simp_all add: SetEntry_def Let_def evictOldest_def split: option.split prod.split)

lemma caps_GetWithAge [simp]:
  "maxTTL (snd (GetWithAge c k now)) = maxTTL c"
  "maxNegativeTTL (snd (GetWithAge c k now)) = maxNegativeTTL c"
  by (simp_all add: GetWithAge_def Let_def countMiss_def dropKey_def touch_def split: option.split)

lemma timeInv_GetWithAge: "timeInv c \<Longrightarrow> timeInv (snd (GetWithAge c k now))"
  unfolding timeInv_def entryBound_def caps_GetWithAge by (blast dest: lookup_GetWithAge_D)

lemma timeInv_SetEntry:
  assumes "cacheInv c" "timeInv c" "t \<le> t'"
  shows "timeInv (SetEntry c k v ttl et t t')"
proof (cases "ttl \<le> 0 \<or> capTTL c ttl et \<le> 0")
  case True
  with assms show ?thesis by (simp add: SetEntry_rejected)
next
  case False
  show ?thesis
    unfolding timeInv_def entryBound_def caps_SetEntry
  proof (intro allI impI)
    fix k' e assume e: "fmlookup (cache_data (SetEntry c k v ttl et t t')) k' = Some e"
    show "expiresAt e \<le> cachedAt e +
        (if entryType e = CachePositive then maxTTL c else max 0 (maxNegativeTTL c))"
    proof (cases "k' = k")
      case True
      with e False lookup_SetEntry [OF assms(1)] have
        "e = \<lparr>ce_value = v, cachedAt = t', expiresAt = t + capTTL c ttl et, entryType = et\<rparr>"
        by simp
      with capTTL_le [of c ttl et] assms(3) show ?thesis by simp
    next
      case False
      from lookup_SetEntry_other [OF assms(1) e this] assms(2) show ?thesis
        by (simp add: timeInv_def entryBound_def)
    qed
  qed
qed

lemma GetWithAge_age_bound:
  assumes "timeInv c" "fst (GetWithAge c k now) = Some (v, age, et)"
    "0 \<le> maxTTL c" "0 \<le> maxNegativeTTL c"
  shows "age < (if et = CachePositive then maxTTL c else maxNegativeTTL c)"
proof -
  from assms(2) obtain e where e: "fmlookup (cache_data c) k = Some e" "now < expiresAt e"
    "age = Sub now (cachedAt e)" "et = entryType e"
    by (auto simp: GetWithAge_Some_iff)
  with assms(1,3,4) have "now < cachedAt e + (if et = CachePositive then maxTTL c else maxNegativeTTL c)"
    by (fastforce simp: timeInv_def entryBound_def)
  moreover have "minDuration < (if et = CachePositive then maxTTL c else maxNegativeTTL c)"
    using assms(3,4) by (simp add: duration_defs)
  ultimately show ?thesis
    unfolding e(3) by (rule Sub_less [rotated])
qed

section \<open>The contract a client relies on\<close>

text \<open>
  A client of the cache never looks inside it: it needs that a lookup only returns
  what is held for that key, that a lookup adds nothing, and that a store adds nothing
  but the stored value. Under these laws any relation between keys and values that the
  client establishes when it stores is guaranteed when it reads.
\<close>

locale answer_cache =
  fixes look :: "'c \<Rightarrow> 'k \<Rightarrow> instant \<Rightarrow> ('v \<times> duration \<times> CacheEntryType) option \<times> 'c"
    and store :: "'c \<Rightarrow> 'k \<Rightarrow> 'v \<Rightarrow> duration \<Rightarrow> CacheEntryType \<Rightarrow> instant \<Rightarrow> instant \<Rightarrow> 'c"
    and ok :: "'c \<Rightarrow> bool"
    and held :: "'c \<Rightarrow> 'k \<Rightarrow> 'v \<Rightarrow> bool"
  assumes look_held: "ok c \<Longrightarrow> fst (look c k t) = Some (v, a, et) \<Longrightarrow> held c k v"
    and look_ok: "ok c \<Longrightarrow> ok (snd (look c k t))"
    and look_mono: "ok c \<Longrightarrow> held (snd (look c k t)) k' v \<Longrightarrow> held c k' v"
    and store_ok: "ok c \<Longrightarrow> ok (store c k v ttl et t t')"
    and store_held: "ok c \<Longrightarrow> held (store c k v ttl et t t') k' v' \<Longrightarrow> (k' = k \<and> v' = v) \<or> held c k' v'"
begin

definition soundFor :: "('k \<Rightarrow> 'v \<Rightarrow> bool) \<Rightarrow> 'c \<Rightarrow> bool" where
  "soundFor P c \<longleftrightarrow> ok c \<and> (\<forall>k v. held c k v \<longrightarrow> P k v)"

lemma soundFor_look: "soundFor P c \<Longrightarrow> soundFor P (snd (look c k t))"
  using look_ok look_mono by (auto simp: soundFor_def)

lemma soundFor_store: "soundFor P c \<Longrightarrow> P k v \<Longrightarrow> soundFor P (store c k v ttl et t t')"
  unfolding soundFor_def using store_ok store_held by metis

lemma look_sound: "soundFor P c \<Longrightarrow> fst (look c k t) = Some (v, a, et) \<Longrightarrow> P k v"
  using look_held by (auto simp: soundFor_def)

end

definition holds :: "('k, 'v) TTLCache \<Rightarrow> 'k \<Rightarrow> 'v \<Rightarrow> bool" where
  "holds c k v \<longleftrightarrow> (\<exists>e. fmlookup (cache_data c) k = Some e \<and> ce_value e = v)"

lemma holds_SetEntry:
  assumes "cacheInv c" "holds (SetEntry c k v ttl et t t') k' v'"
  shows "k' = k \<and> v' = v \<or> holds c k' v'"
proof (cases "k' = k \<and> \<not> (ttl \<le> 0 \<or> capTTL c ttl et \<le> 0)")
  case True
  with assms show ?thesis by (auto simp: holds_def lookup_SetEntry)
next
  case False
  with assms show ?thesis
    by (metis SetEntry_rejected holds_def lookup_SetEntry_other)
qed

interpretation ttl: answer_cache GetWithAge SetEntry cacheInv holds
proof
  show "cacheInv c \<Longrightarrow> fst (GetWithAge c k t) = Some (v, a, et) \<Longrightarrow> holds c k v"
    for c :: "('a, 'b) TTLCache" and k t v a et
    by (auto simp: GetWithAge_Some_iff holds_def)
  show "cacheInv c \<Longrightarrow> holds (snd (GetWithAge c k t)) k' v \<Longrightarrow> holds c k' v"
    for c :: "('a, 'b) TTLCache" and k t k' v
    by (auto simp: holds_def dest: lookup_GetWithAge_D)
qed (auto intro: cacheInv_GetWithAge cacheInv_SetEntry dest: holds_SetEntry)

lemma holds_New [simp]: "\<not> holds (NewTTLCache m) k v"
  by (simp add: holds_def NewTTLCache_def)

end
