(* ===== verification/Resolver.thy ===== *)
theory Resolver
  imports Dns_Edns TTL_Cache
begin

text \<open>
  \<open>internal/resolvers/types.go\<close> and \<open>internal/resolvers/chained.go\<close>: the resolver
  interface, the transaction-ID patch every answer goes through, and the chain that
  tries resolvers in order. A resolver is a state-passing function over the state
  that it shares with the others; reading the context's error is an operation of the
  same kind, since the context may be cancelled between two steps. The interface is
  the locale \<open>resolver\<close>; its client is the query handler.
\<close>

unbundle bit_operations_syntax

section \<open>Types\<close>

text \<open>
  The errors of the \<open>resolvers\<close> package. \<open>NetErr b\<close> is an error of Go's network
  library and \<open>CtxErr b\<close> the error of a context that is done, with \<open>b\<close> telling
  whether \<open>errors.As\<close> finds a \<open>net.Error\<close> in its chain.
\<close>

datatype resolve_error =
    CtxErr bool
  | DnsErr dns_error
  | NetErr bool
  | TCPLengthInvalid nat
  | NoResolverCouldAnswer
  | ErrNoCustomDNS
  | NoQuestionInRequest
  | NameNotConfigured
  | NoMatchingAddress
  | InvalidIPFor string string
  | UpstreamUnparsable dns_error
  | NoQuestionSection
  | QNameMismatch string string
  | QTypeMismatch uint16 uint16
  | QClassMismatch uint16 uint16
  | NoUpstreamAvailable
  | ResolverPanic

record Result =
  ResponseBytes :: bytes
  Source :: string

record QuestionKey =
  QName :: string
  QType :: uint16
  QClass :: uint16

type_synonym 's ctx = "'s \<Rightarrow> resolve_error option \<times> 's"
type_synonym 's resolve = "'s \<Rightarrow> Packet \<Rightarrow> bytes \<Rightarrow> (resolve_error + Result) \<times> 's"

section \<open>Transaction IDs\<close>

definition PatchTransactionID :: "bytes \<Rightarrow> uint16 \<Rightarrow> bytes" where
  "PatchTransactionID msg txid =
     (if length msg < 2 then msg
      else if msg ! 0 = ucast (drop_bit 8 txid) \<and> msg ! 1 = ucast txid then msg
      else msg[0 := ucast (drop_bit 8 txid), 1 := ucast txid])"

lemma PatchTransactionID_eq:
  assumes "2 \<le> length msg"
  shows "PatchTransactionID msg txid = PutUint16 txid @ drop 2 msg"
proof -
  from assms obtain a b rest where "msg = a # b # rest"
    by (cases msg; cases "tl msg") auto
  then show ?thesis by (auto simp: PatchTransactionID_def PutUint16_def)
qed

lemma PatchTransactionID_short: "length msg < 2 \<Longrightarrow> PatchTransactionID msg txid = msg"
  by (simp add: PatchTransactionID_def)

lemma length_PatchTransactionID [simp]: "length (PatchTransactionID msg txid) = length msg"
  by (cases "2 \<le> length msg") (simp_all add: PatchTransactionID_eq PatchTransactionID_short)

lemma drop_PatchTransactionID: "2 \<le> n \<Longrightarrow> drop n (PatchTransactionID msg txid) = drop n msg"
  by (cases "2 \<le> length msg") (simp_all add: PatchTransactionID_eq PatchTransactionID_short)

lemma PatchTransactionID_twice:
  "PatchTransactionID (PatchTransactionID msg a) b = PatchTransactionID msg b"
  by (cases "2 \<le> length msg") (simp_all add: PatchTransactionID_eq PatchTransactionID_short)

text \<open>A message carries a transaction ID when its first two bytes are that ID.\<close>

definition carriesID :: "uint16 \<Rightarrow> bytes \<Rightarrow> bool" where
  "carriesID i bs \<longleftrightarrow> 2 \<le> length bs \<and> take 2 bs = PutUint16 i"

lemma carriesID_Patch: "2 \<le> length msg \<Longrightarrow> carriesID i (PatchTransactionID msg i)"
  by (simp add: carriesID_def PatchTransactionID_eq)

lemma ParseHeader_ID:
  assumes "ParseHeader bs 0 = Inr (h, off)" "carriesID i bs"
  shows "ID h = i"
proof -
  from assms(2) have "slice bs 0 2 = PutUint16 i" by (simp add: carriesID_def slice_def)
  with assms(1) show ?thesis by (auto simp: ParseHeader_def split: if_splits)
qed

lemma ParseHeader_carriesID:
  assumes "ParseHeader bs 0 = Inr (h, off)" shows "carriesID (ID h) bs"
proof -
  have len: "HeaderSize \<le> length bs" and id: "ID h = Uint16 (slice bs 0 2)"
    using assms by (auto simp: ParseHeader_def split: if_splits)
  have "PutUint16 (Uint16 (slice bs 0 2)) = slice bs 0 2"
    using len by (intro PutUint16_Uint16) (simp add: HeaderSize_def)
  with len id show ?thesis by (simp add: carriesID_def HeaderSize_def slice_def)
qed

lemma Header_Marshal_carriesID:
  assumes "Header_Marshal h = Inr hb" shows "carriesID (ID h) (hb @ rest)"
  using assms by (auto simp: Header_Marshal_def carriesID_def)

lemma Packet_Marshal_carriesID:
  assumes "Packet_Marshal p = Inr bs" shows "carriesID (ID (p_Header p)) bs"
proof -
  obtain hb rest where "Header_Marshal (countedHeader p) = Inr hb" "bs = hb @ rest"
    using Packet_Marshal_parts [OF assms] by metis
  with Header_Marshal_carriesID [of "countedHeader p"] show ?thesis
    by (simp add: countedHeader_def)
qed

section \<open>The chain\<close>

fun chainLoop :: "'s ctx \<Rightarrow> 's resolve list \<Rightarrow> resolve_error option \<Rightarrow> 's resolve" where
  "chainLoop ctxErr [] lastErr s req reqBytes =
     (Inl (case lastErr of None \<Rightarrow> NoResolverCouldAnswer | Some e \<Rightarrow> e), s)"
| "chainLoop ctxErr (r # rs) lastErr s req reqBytes =
     (case ctxErr s of
        (Some e, s1) \<Rightarrow> (Inl e, s1)
      | (None, s1) \<Rightarrow>
          (case r s1 req reqBytes of
             (Inr res, s2) \<Rightarrow> (Inr res, s2)
           | (Inl err, s2) \<Rightarrow> chainLoop ctxErr rs (Some err) s2 req reqBytes))"

definition Chained_Resolve :: "'s ctx \<Rightarrow> 's resolve list \<Rightarrow> 's resolve" where
  "Chained_Resolve ctxErr rs s req reqBytes = chainLoop ctxErr rs None s req reqBytes"

text \<open>\<open>Close\<close> of the chain: every child is closed, the last error is returned.\<close>

fun closeAll :: "('s \<Rightarrow> 'e option \<times> 's) list \<Rightarrow> 'e option \<Rightarrow> 's \<Rightarrow> 'e option \<times> 's" where
  "closeAll [] lastErr s = (lastErr, s)"
| "closeAll (c # cs) lastErr s =
     (case c s of (None, s1) \<Rightarrow> closeAll cs lastErr s1 | (Some e, s1) \<Rightarrow> closeAll cs (Some e) s1)"

definition Chained_Close :: "('s \<Rightarrow> 'e option \<times> 's) list \<Rightarrow> 's \<Rightarrow> 'e option \<times> 's" where
  "Chained_Close cs s = closeAll cs None s"

section \<open>The interface\<close>

text \<open>
  What a resolver promises: on a request with exactly one question it keeps the
  invariant of the shared state, never panics, and every answer it returns satisfies
  \<open>answers\<close>, a relation between request and response bytes that implies that the
  response carries the transaction ID of the request.
\<close>

definition singleQuestion :: "Packet \<Rightarrow> bool" where
  "singleQuestion req \<longleftrightarrow> length (p_Questions req) = 1"

locale answering =
  fixes I :: "'s \<Rightarrow> bool"
    and answers :: "Packet \<Rightarrow> bytes \<Rightarrow> bool"
    and r :: "'s resolve"
  assumes keeps: "I s \<Longrightarrow> singleQuestion req \<Longrightarrow> I (snd (r s req b))"
    and no_panic: "I s \<Longrightarrow> singleQuestion req \<Longrightarrow> fst (r s req b) \<noteq> Inl ResolverPanic"
    and answer: "I s \<Longrightarrow> singleQuestion req \<Longrightarrow> fst (r s req b) = Inr res \<Longrightarrow>
      answers req (ResponseBytes res)"
begin

lemma outcome:
  assumes "I s" "singleQuestion req" "r s req b = (x, s')"
  shows "I s' \<and> x \<noteq> Inl ResolverPanic \<and> (\<forall>res. x = Inr res \<longrightarrow> answers req (ResponseBytes res))"
  using keeps [OF assms(1,2), of b] no_panic [OF assms(1,2), of b] answer [OF assms(1,2), of b]
    assms(3) by simp

end

text \<open>What the context promises: reading it keeps the invariant.\<close>

locale context_reader =
  fixes I :: "'s \<Rightarrow> bool" and ctxErr :: "'s ctx"
  assumes ctx_keeps: "I s \<Longrightarrow> I (snd (ctxErr s))"
    and ctx_no_panic: "I s \<Longrightarrow> fst (ctxErr s) \<noteq> Some ResolverPanic"
begin

lemma ctx_outcome:
  assumes "I s" "ctxErr s = (x, s')" shows "I s' \<and> x \<noteq> Some ResolverPanic"
  using ctx_keeps [OF assms(1)] ctx_no_panic [OF assms(1)] assms(2) by simp

lemma chainLoop_OK:
  assumes "\<forall>r \<in> set rs. answering I answers r" "I s" "singleQuestion req" "lastErr \<noteq> Some ResolverPanic"
    "chainLoop ctxErr rs lastErr s req b = (x, s')"
  shows "I s' \<and> x \<noteq> Inl ResolverPanic \<and> (\<forall>res. x = Inr res \<longrightarrow> answers req (ResponseBytes res))"
  using assms
proof (induction rs arbitrary: s lastErr)
  case Nil
  then show ?case by (auto split: option.splits)
next
  case (Cons r rs)
  obtain c s1 where c: "ctxErr s = (c, s1)" by force
  note c' = ctx_outcome [OF Cons.prems(2) c]
  show ?case
  proof (cases c)
    case (Some e)
    with Cons.prems c c' show ?thesis by auto
  next
    case None
    obtain y s2 where y: "r s1 req b = (y, s2)" by force
    have "answering I answers r" using Cons.prems(1) by simp
    note y' = answering.outcome [OF this conjunct1 [OF c'] Cons.prems(3) y]
    show ?thesis
    proof (cases y)
      case (Inr res)
      with None c y Cons.prems(5) y' show ?thesis by auto
    next
      case (Inl e)
      with None c y Cons.prems(5) have "chainLoop ctxErr rs (Some e) s2 req b = (x, s')" by simp
      with Cons.IH [OF _ conjunct1 [OF y'] Cons.prems(3), of "Some e"] Cons.prems(1) y' Inl
      show ?thesis by simp
    qed
  qed
qed

lemma Chained_answering:
  assumes "\<forall>r \<in> set rs. answering I answers r"
  shows "answering I answers (Chained_Resolve ctxErr rs)"
proof
  fix s req b assume *: "I s" "singleQuestion req"
  obtain x s' where "Chained_Resolve ctxErr rs s req b = (x, s')" by force
  with chainLoop_OK [OF assms *, of None b]
  show "I (snd (Chained_Resolve ctxErr rs s req b))"
    "fst (Chained_Resolve ctxErr rs s req b) \<noteq> Inl ResolverPanic"
    "\<And>res. fst (Chained_Resolve ctxErr rs s req b) = Inr res \<Longrightarrow> answers req (ResponseBytes res)"
    by (simp_all add: Chained_Resolve_def)
qed

end

end
