(* ===== verification/Response_Cache.thy ===== *)
theory Response_Cache
  imports Resolver
begin

text \<open>
  The functions of \<open>internal/resolvers/forwarding_resolver.go\<close> that look at message
  bytes: checking an upstream response against the request, deciding how long it may
  be cached, and ageing the TTLs of a cached message. The ageing walk edits raw bytes
  without parsing the packet; it is shown equal to ageing the parsed records and
  marshalling again, and its unsigned subtraction is characterised where it wraps.
\<close>

unbundle bit_operations_syntax

section \<open>Validation\<close>

definition equalDNSNames :: "go_unicode \<Rightarrow> string \<Rightarrow> string \<Rightarrow> bool" where
  "equalDNSNames uc a b = EqualFold uc (TrimSuffix a ''.'') (TrimSuffix b ''.'')"

definition validateResponse :: "go_unicode \<Rightarrow> Packet \<Rightarrow> bytes \<Rightarrow> resolve_error + unit" where
  "validateResponse uc req respBytes =
     (case ParsePacket uc respBytes of
        Inl e \<Rightarrow> Inl (UpstreamUnparsable e)
      | Inr resp \<Rightarrow>
          if p_Questions resp = [] then Inl NoQuestionSection
          else
            (case p_Questions req of
               [] \<Rightarrow> Inl ResolverPanic
             | reqQ # _ \<Rightarrow>
                 (let resQ = p_Questions resp ! 0 in
                  if \<not> equalDNSNames uc (q_Name reqQ) (q_Name resQ)
                    then Inl (QNameMismatch (q_Name reqQ) (q_Name resQ))
                  else if q_Type reqQ \<noteq> q_Type resQ
                    then Inl (QTypeMismatch (q_Type reqQ) (q_Type resQ))
                  else if q_Class reqQ \<noteq> q_Class resQ
                    then Inl (QClassMismatch (q_Class reqQ) (q_Class resQ))
                  else Inr ())))"

section \<open>Cache decisions\<close>

record cacheDecision =
  ttlSeconds :: int
  cd_entryType :: CacheEntryType

definition MaxInt :: int where
  "MaxInt = 2 ^ 63 - 1"

fun findMinimumLoop :: "Record list \<Rightarrow> int \<Rightarrow> bool \<Rightarrow> int \<times> bool" where
  "findMinimumLoop [] minTTL found = (minTTL, found)"
| "findMinimumLoop (a # as) minTTL found =
     (let ttl = rr_TTL (Record_Header a) in
      if ttl = 0 then findMinimumLoop as minTTL found
      else if uint ttl < minTTL then findMinimumLoop as (uint ttl) True
      else findMinimumLoop as minTTL found)"

definition findMinimumTTL :: "Record list \<Rightarrow> int" where
  "findMinimumTTL answers =
     (let (minTTL, found) = findMinimumLoop answers MaxInt False
      in if \<not> found then 0 else minTTL)"

text \<open>
  The authority loop of \<open>extractSOAMinimum\<close>: a record that is not an opaque SOA is
  skipped, a decoding error ends the loop, a SOA too short for the fallback is skipped.
\<close>

fun soaMinimumLoop :: "Record list \<Rightarrow> int" where
  "soaMinimumLoop [] = 0"
| "soaMinimumLoop (r # rs) =
     (if Record_Type r \<noteq> TypeSOA then soaMinimumLoop rs
      else
        (case r of
           OpaqueRecord h t (BytesData b) \<Rightarrow>
             (case DecodeName b 0 of
                Inl _ \<Rightarrow> 0
              | Inr (_, off1) \<Rightarrow>
                  (case DecodeName b off1 of
                     Inl _ \<Rightarrow> 0
                   | Inr (_, off) \<Rightarrow>
                       if off + 20 \<le> length b then uint (Uint32 (slice b (off + 16) (off + 20)))
                       else if length b \<ge> 4 then uint (Uint32 (slice b (length b - 4) (length b)))
                       else soaMinimumLoop rs))
         | _ \<Rightarrow> soaMinimumLoop rs))"

definition extractSOAMinimum :: "Packet \<Rightarrow> int" where
  "extractSOAMinimum resp = soaMinimumLoop (p_Authorities resp)"

definition analyzeCacheDecision :: "go_unicode \<Rightarrow> bytes \<Rightarrow> cacheDecision" where
  "analyzeCacheDecision uc respBytes =
     (case ParsePacket uc respBytes of
        Inl _ \<Rightarrow> \<lparr>ttlSeconds = 0, cd_entryType = CachePositive\<rparr>
      | Inr resp \<Rightarrow>
          (let rcode = RCodeFromFlags (Flags (p_Header resp)) in
           if rcode = RCodeServFail then \<lparr>ttlSeconds = 30, cd_entryType = CacheSERVFAIL\<rparr>
           else if rcode = RCodeNXDomain then
             (let ttl = extractSOAMinimum resp
              in \<lparr>ttlSeconds = (if ttl \<le> 0 then 300 else ttl), cd_entryType = CacheNXDOMAIN\<rparr>)
           else if rcode \<noteq> RCodeNoError then \<lparr>ttlSeconds = 0, cd_entryType = CachePositive\<rparr>
           else if p_Answers resp = [] then
             (let ttl = extractSOAMinimum resp
              in \<lparr>ttlSeconds = (if ttl \<le> 0 then 300 else ttl), cd_entryType = CacheNODATA\<rparr>)
           else \<lparr>ttlSeconds = findMinimumTTL (p_Answers resp), cd_entryType = CachePositive\<rparr>))"

section \<open>Ageing a cached message\<close>

text \<open>
  \<open>uint32(age.Seconds())\<close>. The float is exact to the second for every age below
  \<open>2 ^ 22\<close> seconds, and a cache entry never gets older than a day.
\<close>

definition ageInSeconds :: "duration \<Rightarrow> uint32" where
  "ageInSeconds age = word_of_int (age div Second)"

fun skipQuestions :: "nat \<Rightarrow> bytes \<Rightarrow> nat \<Rightarrow> nat option" where
  "skipQuestions 0 msg off = Some off"
| "skipQuestions (Suc n) msg off =
     (case DecodeName msg off of
        Inl _ \<Rightarrow> None
      | Inr (_, off1) \<Rightarrow> if off1 + 4 > length msg then None else skipQuestions n msg (off1 + 4))"

text \<open>\<open>max(uint32(1), oldTTL-ageSeconds)\<close>: the subtraction is modulo \<open>2 ^ 32\<close>.\<close>

definition agedTTL :: "uint32 \<Rightarrow> uint32 \<Rightarrow> uint32" where
  "agedTTL ageSeconds oldTTL = max 1 (oldTTL - ageSeconds)"

fun adjustRecords :: "uint32 \<Rightarrow> nat \<Rightarrow> bytes \<Rightarrow> nat \<Rightarrow> bytes option" where
  "adjustRecords ageSeconds 0 adjusted off = Some adjusted"
| "adjustRecords ageSeconds (Suc n) adjusted off =
     (case DecodeName adjusted off of
        Inl _ \<Rightarrow> None
      | Inr (_, off1) \<Rightarrow>
          if off1 + 10 > length adjusted then None
          else
            (let recordType = Uint16 (slice adjusted off1 (off1 + 2));
                 off2 = off1 + 4;
                 adjusted' =
                   (if recordType \<noteq> TypeOPT then
                      overwrite adjusted off2
                        (PutUint32 (agedTTL ageSeconds (Uint32 (slice adjusted off2 (off2 + 4)))))
                    else adjusted);
                 off3 = off2 + 4
             in if off3 + 2 > length adjusted' then None
                else
                  (let rdlen = unat (Uint16 (slice adjusted' off3 (off3 + 2)));
                       off4 = off3 + 2
                   in if off4 + rdlen > length adjusted' then None
                      else adjustRecords ageSeconds n adjusted' (off4 + rdlen))))"

definition adjustTTLs :: "bytes \<Rightarrow> duration \<Rightarrow> bytes" where
  "adjustTTLs respBytes age =
     (if length respBytes < HeaderSize \<or> age \<le> 0 then respBytes
      else
        (let ageSeconds = ageInSeconds age in
         if ageSeconds = 0 then respBytes
         else
           (let qdcount = unat (Uint16 (slice respBytes 4 6));
                ancount = unat (Uint16 (slice respBytes 6 8));
                nscount = unat (Uint16 (slice respBytes 8 10));
                arcount = unat (Uint16 (slice respBytes 10 12))
            in case skipQuestions qdcount respBytes HeaderSize of
                 None \<Rightarrow> respBytes
               | Some off \<Rightarrow>
                   (case adjustRecords ageSeconds (ancount + nscount + arcount) respBytes off of
                      None \<Rightarrow> respBytes
                    | Some adjusted \<Rightarrow> adjusted))))"

section \<open>Facts about validation\<close>

lemma validateResponse_Inr_iff:
  "validateResponse uc req bs = Inr u \<longleftrightarrow>
   (\<exists>resp q qs q' qs'. ParsePacket uc bs = Inr resp \<and> p_Questions req = q # qs \<and>
      p_Questions resp = q' # qs' \<and> equalDNSNames uc (q_Name q) (q_Name q') \<and>
      q_Type q = q_Type q' \<and> q_Class q = q_Class q')"
  by (auto simp: validateResponse_def Let_def neq_Nil_conv split: sum.split list.split)

lemma validateResponse_no_panic:
  "p_Questions req \<noteq> [] \<Longrightarrow> validateResponse uc req bs \<noteq> Inl ResolverPanic"
  by (auto simp: validateResponse_def Let_def split: sum.split list.split)

lemma validateResponse_length:
  assumes "validateResponse uc req bs = Inr u" shows "HeaderSize \<le> length bs"
proof -
  from assms obtain resp where "ParsePacket uc bs = Inr resp"
    by (auto simp: validateResponse_Inr_iff)
  from ParsePacket_counts_bounded [OF this] show ?thesis by simp
qed

text \<open>Validation looks at nothing of the request but its first question.\<close>

lemma validateResponse_question:
  "p_Questions req \<noteq> [] \<Longrightarrow> p_Questions req' \<noteq> [] \<Longrightarrow>
   hd (p_Questions req) = hd (p_Questions req') \<Longrightarrow>
   validateResponse uc req bs = validateResponse uc req' bs"
  by (cases "p_Questions req"; cases "p_Questions req'") (simp_all add: validateResponse_def split: sum.split)

section \<open>Facts about cache decisions\<close>

definition positiveTTLs :: "Record list \<Rightarrow> int set" where
  "positiveTTLs rs = {uint (rr_TTL (Record_Header r)) | r. r \<in> set rs} - {0}"

lemma positiveTTLs_simps:
  "positiveTTLs [] = {}"
  "positiveTTLs (r # rs) = (if rr_TTL (Record_Header r) = 0 then positiveTTLs rs
     else insert (uint (rr_TTL (Record_Header r))) (positiveTTLs rs))"
  by (auto simp: positiveTTLs_def uint_0_iff)

lemma finite_positiveTTLs [simp]: "finite (positiveTTLs rs)"
  by (induction rs) (simp_all add: positiveTTLs_simps)

lemma uint32_less_MaxInt: "uint (t :: uint32) < MaxInt"
  using uint_lt2p [of t] by (simp add: MaxInt_def)

lemma findMinimumLoop_eq:
  "findMinimumLoop rs m f =
   (Min (insert m (positiveTTLs rs)), f \<or> (\<exists>t \<in> positiveTTLs rs. t < m))"
proof (induction rs arbitrary: m f)
  case (Cons r rs)
  let ?t = "uint (rr_TTL (Record_Header r))" and ?S = "positiveTTLs rs"
  have "Min (insert m (insert ?t ?S)) = Min (insert (if ?t < m then ?t else m) ?S)"
  proof (cases "?S = {}")
    case False
    then have "Min (insert m (insert ?t ?S)) = min (min m ?t) (Min ?S)"
      by (simp add: min.assoc)
    also have "\<dots> = Min (insert (min m ?t) ?S)"
      using False by (intro Min.insert [symmetric]) simp_all
    also have "min m ?t = (if ?t < m then ?t else m)" by simp
    finally show ?thesis .
  qed (simp add: min_def)
  then show ?case
    using Cons [of ?t True] Cons [of m f] by (auto simp: positiveTTLs_simps Let_def)
qed (simp add: positiveTTLs_simps)

lemma findMinimumTTL_eq:
  "findMinimumTTL rs = (if positiveTTLs rs = {} then 0 else Min (positiveTTLs rs))"
proof -
  have "t < MaxInt" if "t \<in> positiveTTLs rs" for t
    using that uint32_less_MaxInt by (auto simp: positiveTTLs_def)
  moreover from this have "Min (insert MaxInt (positiveTTLs rs)) = Min (positiveTTLs rs)"
    if "positiveTTLs rs \<noteq> {}"
    using that by (simp add: Min_insert2 min_def) (metis Min_in finite_positiveTTLs not_less)
  ultimately show ?thesis
    by (auto simp: findMinimumTTL_def findMinimumLoop_eq)
qed

lemma soaMinimumLoop_bounds: "0 \<le> soaMinimumLoop rs \<and> soaMinimumLoop rs < 2 ^ 32"
proof (induction rs)
  case (Cons r rs)
  have u: "0 \<le> uint w \<and> uint w < 2 ^ 32" for w :: uint32
    using uint_lt2p [of w] by simp
  show ?case
    using Cons u by (auto split: Record.split opaque_data.split sum.split simp del: power_numeral)
qed simp

lemma findMinimumTTL_bounds: "0 \<le> findMinimumTTL rs \<and> findMinimumTTL rs < 2 ^ 32"
proof (cases "positiveTTLs rs = {}")
  case False
  then have "Min (positiveTTLs rs) \<in> positiveTTLs rs" by simp
  then obtain w :: uint32 where "Min (positiveTTLs rs) = uint w"
    by (auto simp: positiveTTLs_def)
  with False uint_lt2p [of w] show ?thesis by (simp add: findMinimumTTL_eq)
qed (simp add: findMinimumTTL_eq)

text \<open>\<open>time.Duration(ttlSeconds) * time.Second\<close> never overflows an \<open>int64\<close>.\<close>

lemma analyzeCacheDecision_bounds:
  "0 \<le> ttlSeconds (analyzeCacheDecision uc bs) \<and> ttlSeconds (analyzeCacheDecision uc bs) < 2 ^ 32"
  using soaMinimumLoop_bounds [simplified] findMinimumTTL_bounds [simplified]
  by (simp add: analyzeCacheDecision_def extractSOAMinimum_def Let_def split: sum.split)

section \<open>Facts about ageing\<close>

lemma agedTTL_exact:
  assumes "ageSeconds \<le> ttl"
  shows "unat (agedTTL ageSeconds ttl) = max 1 (unat ttl - unat ageSeconds)"
proof -
  have "unat (ttl - ageSeconds) = unat ttl - unat ageSeconds"
    using assms by (rule unat_sub)
  then show ?thesis
    by (auto simp: agedTTL_def max_def word_le_nat_alt)
qed

text \<open>A record whose TTL is smaller than the age gets a TTL close to \<open>2 ^ 32\<close>.\<close>

lemma agedTTL_wraps:
  assumes "ttl < ageSeconds"
  shows "unat (agedTTL ageSeconds ttl) = 2 ^ 32 - (unat ageSeconds - unat ttl)"
proof -
  have lt: "unat ttl < unat ageSeconds" using assms by (simp add: word_less_nat_alt)
  have b: "unat ageSeconds < 2 ^ 32" using unsigned_less [of ageSeconds, where 'a = nat] by simp
  have "ttl - ageSeconds = word_of_nat (2 ^ 32 - (unat ageSeconds - unat ttl))"
    using lt b by (simp add: of_nat_diff)
  moreover have "2 ^ 32 - (unat ageSeconds - unat ttl) < 2 ^ LENGTH(32)"
    using lt by simp
  ultimately have u: "unat (ttl - ageSeconds) = 2 ^ 32 - (unat ageSeconds - unat ttl)"
    by (simp add: unat_of_nat)
  then have "1 \<le> unat (ttl - ageSeconds)" using b by simp
  with u show ?thesis by (simp add: agedTTL_def max_def word_le_nat_alt)
qed

text \<open>One round of the walk, as a relation between the message before and after.\<close>

definition ageAt :: "uint32 \<Rightarrow> bytes \<Rightarrow> nat \<Rightarrow> bytes" where
  "ageAt a msg off =
     (if Uint16 (slice msg off (off + 2)) \<noteq> TypeOPT then
        overwrite msg (off + 4) (PutUint32 (agedTTL a (Uint32 (slice msg (off + 4) (off + 8)))))
      else msg)"

lemma length_ageAt: "off + 10 \<le> length msg \<Longrightarrow> length (ageAt a msg off) = length msg"
  by (simp add: ageAt_def)

lemma take_ageAt: "n \<le> off + 4 \<Longrightarrow> off + 10 \<le> length msg \<Longrightarrow> take n (ageAt a msg off) = take n msg"
  by (simp add: ageAt_def overwrite_def)

lemma slice_ageAt:
  "off + 10 \<le> length msg \<Longrightarrow> off + 8 \<le> i \<Longrightarrow> slice (ageAt a msg off) i j = slice msg i j"
  by (auto simp: ageAt_def intro: slice_overwrite_after)

lemma adjustRecords_Suc_iff:
  "adjustRecords a (Suc n) msg off = Some msg' \<longleftrightarrow>
   (\<exists>nm off1 rdlen. DecodeName msg off = Inr (nm, off1) \<and>
      rdlen = unat (Uint16 (slice msg (off1 + 8) (off1 + 10))) \<and>
      off1 + 10 + rdlen \<le> length msg \<and>
      adjustRecords a n (ageAt a msg off1) (off1 + 10 + rdlen) = Some msg')"
proof (cases "DecodeName msg off")
  case (Inr r)
  obtain nm off1 where r: "r = (nm, off1)" by (cases r)
  show ?thesis
  proof (cases "off1 + 10 \<le> length msg")
    case True
    have eq: "(if Uint16 (slice msg off1 (off1 + 2)) \<noteq> TypeOPT then
        overwrite msg (off1 + 4) (PutUint32 (agedTTL a (Uint32 (slice msg (off1 + 4) (off1 + 4 + 4)))))
      else msg) = ageAt a msg off1"
      by (simp add: ageAt_def ac_simps)
    have "slice (ageAt a msg off1) (off1 + 8) (off1 + 10) = slice msg (off1 + 8) (off1 + 10)"
      using True by (intro slice_ageAt) simp_all
    with True show ?thesis
      by (simp add: Inr r Let_def eq length_ageAt) (auto simp: ac_simps)
  qed (simp add: Inr r)
qed simp

lemma length_adjustRecords:
  "adjustRecords a n msg off = Some msg' \<Longrightarrow> length msg' = length msg"
proof (induction n arbitrary: msg off)
  case (Suc n)
  then show ?case by (auto simp only: adjustRecords_Suc_iff length_ageAt dest: Suc.IH)
qed simp

lemma take_adjustRecords:
  "adjustRecords a n msg off = Some msg' \<Longrightarrow> take off msg' = take off msg"
proof (induction n arbitrary: msg off)
  case (Suc n)
  then obtain nm off1 rdlen where d: "DecodeName msg off = Inr (nm, off1)"
    and le: "off1 + 10 + rdlen \<le> length msg"
    and rec: "adjustRecords a n (ageAt a msg off1) (off1 + 10 + rdlen) = Some msg'"
    by (auto simp only: adjustRecords_Suc_iff)
  have "off \<le> off1" using DecodeName_progress [OF d] by simp
  then have "take off msg' = take off (take (off1 + 10 + rdlen) msg')" by simp
  also have "\<dots> = take off (ageAt a msg off1)"
    using \<open>off \<le> off1\<close> by (simp add: Suc.IH [OF rec])
  also have "\<dots> = take off msg"
    using \<open>off \<le> off1\<close> le by (intro take_ageAt) simp_all
  finally show ?case .
qed simp

lemma length_adjustTTLs [simp]: "length (adjustTTLs msg age) = length msg"
  by (auto simp: adjustTTLs_def Let_def split: option.split dest: length_adjustRecords)

lemma skipQuestions_le: "skipQuestions n msg off = Some off' \<Longrightarrow> off \<le> off'"
proof (induction n arbitrary: off)
  case (Suc n)
  then obtain nm off1 where d: "DecodeName msg off = Inr (nm, off1)"
    and "skipQuestions n msg (off1 + 4) = Some off'"
    by (auto split: sum.splits if_splits)
  with Suc.IH [of "off1 + 4"] DecodeName_progress [OF d] show ?case by simp
qed simp

text \<open>Ageing keeps the header, hence transaction ID, flags and counts.\<close>

lemma take_adjustTTLs: "take HeaderSize (adjustTTLs msg age) = take HeaderSize msg"
proof -
  have "take HeaderSize m = take HeaderSize msg"
    if "skipQuestions q msg HeaderSize = Some off" "adjustRecords a n msg off = Some m" for q off a n m
  proof -
    have "take HeaderSize m = take HeaderSize (take off m)"
      using skipQuestions_le [OF that(1)] by (simp add: min_absorb1)
    then show ?thesis
      using skipQuestions_le [OF that(1)] by (simp add: take_adjustRecords [OF that(2)] min_absorb1)
  qed
  then show ?thesis by (auto simp: adjustTTLs_def Let_def split: option.split)
qed

subsection \<open>Ageing bytes is ageing records\<close>

definition ageRecord :: "uint32 \<Rightarrow> Record \<Rightarrow> Record" where
  "ageRecord a r =
     (if Record_Type r = TypeOPT then r
      else SetHeader r ((Record_Header r)\<lparr>rr_TTL := agedTTL a (rr_TTL (Record_Header r))\<rparr>))"

definition agePacket :: "uint32 \<Rightarrow> Packet \<Rightarrow> Packet" where
  "agePacket a p = p\<lparr>p_Answers := map (ageRecord a) (p_Answers p),
     p_Authorities := map (ageRecord a) (p_Authorities p),
     p_Additionals := map (ageRecord a) (p_Additionals p)\<rparr>"

lemma SetHeader_simps [simp]:
  "Record_Type (SetHeader r h) = Record_Type r"
  "Record_Header (SetHeader r h) = h"
  "MarshalRData (SetHeader r h) = MarshalRData r"
  by (cases r; simp)+

lemma adjustRecords_one:
  assumes "MarshalRecord r = Inr b"
  obtains b' where "MarshalRecord (ageRecord a r) = Inr b'" "length b' = length b"
    "\<forall>pre post n. adjustRecords a (Suc n) (pre @ b @ post) (length pre) =
      adjustRecords a n (pre @ b' @ post) (length (pre @ b'))"
proof -
  let ?h = "Record_Header r" and ?t = "Record_Type r"
  from assms obtain name rdata where rd: "MarshalRData r = Inr rdata"
    and len: "length rdata \<le> 65535"
    and nm: "(if ?t \<noteq> TypeOPT then EncodeName (rr_Name ?h) else Inr [0]) = Inr name"
    and b: "b = name @ PutUint16 ?t @ PutUint16 (rr_Class ?h) @ PutUint32 (rr_TTL ?h) @
      PutUint16 (ClampIntToUint16 (int (length rdata))) @ rdata"
    and dec: "\<forall>pre post. DecodeName (pre @ name @ post) (length pre) =
      Inr (if ?t = TypeOPT then '''' else trimDot (rr_Name ?h), length pre + length name)"
    by (rule MarshalRecord_wire)
  define ttl where "ttl = (if ?t = TypeOPT then rr_TTL ?h else agedTTL a (rr_TTL ?h))"
  define b' where "b' = name @ PutUint16 ?t @ PutUint16 (rr_Class ?h) @ PutUint32 ttl @
      PutUint16 (ClampIntToUint16 (int (length rdata))) @ rdata"
  have m: "MarshalRecord (ageRecord a r) = Inr b'"
    using nm rd len by (simp add: MarshalRecord_def marshalRecordWithRData_def ageRecord_def b'_def
        ttl_def split: if_splits)
  have step: "adjustRecords a (Suc n) (pre @ b @ post) (length pre) =
      adjustRecords a n (pre @ b' @ post) (length (pre @ b'))" for pre post n
  proof -
    let ?msg = "pre @ b @ post" and ?off = "length pre + length name"
    have sl: "slice ?msg ?off (?off + 2) = PutUint16 ?t"
      "slice ?msg (?off + 4) (?off + 8) = PutUint32 (rr_TTL ?h)"
      "slice ?msg (?off + 8) (?off + 10) = PutUint16 (ClampIntToUint16 (int (length rdata)))"
      by (simp_all add: b slice_def)
    have "overwrite ?msg (?off + 4) (PutUint32 ttl) = pre @ b' @ post"
      using overwrite_at [of "?off + 4" "pre @ name @ PutUint16 ?t @ PutUint16 (rr_Class ?h)"
          "PutUint32 (rr_TTL ?h)" "PutUint32 ttl"
          "PutUint16 (ClampIntToUint16 (int (length rdata))) @ rdata @ post"]
      by (simp add: b b'_def)
    then have age: "ageAt a ?msg ?off = pre @ b' @ post"
      by (cases "?t = TypeOPT") (simp_all add: ageAt_def sl ttl_def, simp add: b b'_def ttl_def)
    have dec': "DecodeName ?msg (length pre) =
        Inr (if ?t = TypeOPT then '''' else trimDot (rr_Name ?h), ?off)"
      using dec by (simp add: b)
    have rdlen: "unat (Uint16 (slice ?msg (?off + 8) (?off + 10))) = length rdata"
      by (simp add: sl(3) unat_Clamp_length [OF len])
    have bounds: "?off + 10 + length rdata \<le> length ?msg" "length (pre @ b') = ?off + 10 + length rdata"
      by (simp_all add: b b'_def)
    have "adjustRecords a (Suc n) ?msg (length pre) = Some m' \<longleftrightarrow>
        adjustRecords a n (pre @ b' @ post) (length (pre @ b')) = Some m'" for m'
      unfolding adjustRecords_Suc_iff dec' using rdlen age bounds by (auto simp: add.assoc)
    then show ?thesis by (metis option.exhaust)
  qed
  show thesis by (rule that [OF m]) (use step in \<open>simp_all add: b b'_def\<close>)
qed

lemma adjustRecords_Marshal:
  assumes "appendAll MarshalRecord [] rs = Inr bs"
  obtains bs' where "appendAll MarshalRecord [] (map (ageRecord a) rs) = Inr bs'"
    "length bs' = length bs"
    "\<forall>pre post n. adjustRecords a (length rs + n) (pre @ bs @ post) (length pre) =
      adjustRecords a n (pre @ bs' @ post) (length (pre @ bs'))"
  using assms
proof (induction rs arbitrary: bs thesis)
  case (Cons r rs)
  from Cons.prems(2) obtain b rest where r: "MarshalRecord r = Inr b"
    and rs: "appendAll MarshalRecord [] rs = Inr rest" and bs: "bs = b @ rest"
    by (auto simp: appendAll_Cons_Inr simp del: appendAll.simps)
  obtain b' where b': "MarshalRecord (ageRecord a r) = Inr b'" "length b' = length b"
    and step: "\<forall>pre post n. adjustRecords a (Suc n) (pre @ b @ post) (length pre) =
      adjustRecords a n (pre @ b' @ post) (length (pre @ b'))"
    by (rule adjustRecords_one [OF r, of a])
  obtain rest' where rest': "appendAll MarshalRecord [] (map (ageRecord a) rs) = Inr rest'"
    "length rest' = length rest"
    and steps: "\<forall>pre post n. adjustRecords a (length rs + n) (pre @ rest @ post) (length pre) =
      adjustRecords a n (pre @ rest' @ post) (length (pre @ rest'))"
    by (rule Cons.IH [OF _ rs])
  have "appendAll MarshalRecord [] (map (ageRecord a) (r # rs)) = Inr (b' @ rest')"
    using b'(1) rest'(1) by (simp add: appendAll_Cons_Inr del: appendAll.simps)
  moreover have "adjustRecords a (length (r # rs) + n) (pre @ bs @ post) (length pre) =
      adjustRecords a n (pre @ (b' @ rest') @ post) (length (pre @ b' @ rest'))" for pre post n
    using step [rule_format, of "length rs + n" pre "rest @ post"]
      steps [rule_format, of n "pre @ b'" post] by (simp add: bs)
  ultimately show ?case
    using Cons.prems(1) b'(2) rest'(2) bs by simp
qed simp

lemma skipQuestions_Marshal:
  assumes "appendAll Question_Marshal [] qs = Inr bs"
  shows "skipQuestions (length qs) (pre @ bs @ post) (length pre) = Some (length (pre @ bs))"
  using assms
proof (induction qs arbitrary: pre bs)
  case (Cons q qs)
  from Cons.prems obtain b rest where q: "Question_Marshal q = Inr b"
    and rs: "appendAll Question_Marshal [] qs = Inr rest" and bs: "bs = b @ rest"
    by (auto simp: appendAll_Cons_Inr simp del: appendAll.simps)
  from q obtain nm where nm: "EncodeName (q_Name q) = Inr nm"
    and b: "b = nm @ PutUint16 (q_Type q) @ PutUint16 (q_Class q)"
    by (auto simp: Question_Marshal_def andThen_Inr_iff)
  have "DecodeName (pre @ bs @ post) (length pre) = Inr (trimDot (q_Name q), length pre + length nm)"
    using DecodeName_EncodeName [OF nm, of pre] by (simp add: bs b)
  moreover have "skipQuestions (length qs) (pre @ bs @ post) (length pre + length nm + 4) =
      Some (length (pre @ bs))"
    using Cons.IH [OF rs, of "pre @ b"] by (simp add: bs b ac_simps)
  ultimately show ?case by (simp add: bs b)
qed simp

lemma adjustTTLs_Marshal:
  assumes m: "Packet_Marshal p = Inr bs" and wf: "wfPacket p"
    and age: "0 < age" "ageInSeconds age \<noteq> 0"
  shows "Packet_Marshal (agePacket (ageInSeconds age) p) = Inr (adjustTTLs bs age)"
proof -
  let ?a = "ageInSeconds age"
  obtain hb q an ns ar where hb: "Header_Marshal (countedHeader p) = Inr hb"
    and q: "appendAll Question_Marshal [] (p_Questions p) = Inr q"
    and an: "appendAll MarshalRecord [] (p_Answers p) = Inr an"
    and ns: "appendAll MarshalRecord [] (p_Authorities p) = Inr ns"
    and ar: "appendAll MarshalRecord [] (p_Additionals p) = Inr ar"
    and bs: "bs = hb @ q @ an @ ns @ ar"
    by (rule Packet_Marshal_parts [OF m])
  obtain an' where an': "appendAll MarshalRecord [] (map (ageRecord ?a) (p_Answers p)) = Inr an'"
    and "length an' = length an"
    and s1: "\<forall>pre post n. adjustRecords ?a (length (p_Answers p) + n) (pre @ an @ post) (length pre) =
      adjustRecords ?a n (pre @ an' @ post) (length (pre @ an'))"
    by (rule adjustRecords_Marshal [OF an])
  obtain ns' where ns': "appendAll MarshalRecord [] (map (ageRecord ?a) (p_Authorities p)) = Inr ns'"
    and "length ns' = length ns"
    and s2: "\<forall>pre post n. adjustRecords ?a (length (p_Authorities p) + n) (pre @ ns @ post) (length pre) =
      adjustRecords ?a n (pre @ ns' @ post) (length (pre @ ns'))"
    by (rule adjustRecords_Marshal [OF ns])
  obtain ar' where ar': "appendAll MarshalRecord [] (map (ageRecord ?a) (p_Additionals p)) = Inr ar'"
    and "length ar' = length ar"
    and s3: "\<forall>pre post n. adjustRecords ?a (length (p_Additionals p) + n) (pre @ ar @ post) (length pre) =
      adjustRecords ?a n (pre @ ar' @ post) (length (pre @ ar'))"
    by (rule adjustRecords_Marshal [OF ar])
  have hl: "length hb = HeaderSize" by (rule length_Header_Marshal [OF hb])
  have counts: "Uint16 (slice bs 4 6) = QDCount (countedHeader p)"
    "Uint16 (slice bs 6 8) = ANCount (countedHeader p)"
    "Uint16 (slice bs 8 10) = NSCount (countedHeader p)"
    "Uint16 (slice bs 10 12) = ARCount (countedHeader p)"
    using ParseHeader_fields ParseHeader_Marshal [OF hb, of "[]" "q @ an @ ns @ ar"]
    by (simp_all add: bs)
  have n: "unat (QDCount (countedHeader p)) = length (p_Questions p)"
    "unat (ANCount (countedHeader p)) = length (p_Answers p)"
    "unat (NSCount (countedHeader p)) = length (p_Authorities p)"
    "unat (ARCount (countedHeader p)) = length (p_Additionals p)"
    using wf by (simp_all add: countedHeader_def wfPacket_def unat_Clamp_length)
  have "skipQuestions (length (p_Questions p)) bs HeaderSize = Some (length (hb @ q))"
    using skipQuestions_Marshal [OF q, of hb "an @ ns @ ar"] by (simp add: bs hl)
  moreover have "adjustRecords ?a (length (p_Answers p) + length (p_Authorities p) +
      length (p_Additionals p)) bs (length (hb @ q)) = Some (hb @ q @ an' @ ns' @ ar')"
    using s1 [rule_format, of "length (p_Authorities p) + length (p_Additionals p)" "hb @ q" "ns @ ar"]
      s2 [rule_format, of "length (p_Additionals p)" "hb @ q @ an'" ar]
      s3 [rule_format, of 0 "hb @ q @ an' @ ns'" "[]"]
    by (simp add: bs add.assoc)
  ultimately have "adjustTTLs bs age = hb @ q @ an' @ ns' @ ar'"
    using age by (simp add: adjustTTLs_def Let_def counts n) (simp add: bs hl)
  moreover have "Packet_Marshal (agePacket ?a p) = Inr (hb @ q @ an' @ ns' @ ar')"
    using hb q an' ns' ar' by (intro Packet_Marshal_of_parts) (simp_all add: agePacket_def countedHeader_def)
  ultimately show ?thesis by simp
qed

end
