(* ===== verification/Forwarding.thy ===== *)
theory Forwarding
  imports Response_Cache
begin

text \<open>
  \<open>internal/resolvers/forwarding_resolver.go\<close>: the forwarding resolver with its
  cache, health tracking, connection pools, retries and failover.

  The network, the clock and the request's context are outside the repository: they
  are the fields of the parameter \<open>env\<close>, operations on an uninterpreted world \<open>'w\<close>
  that every call may change. A connection is a number handed out by a dial. The
  state of the resolver is the record \<open>ForwardingResolver\<close>; the operations pass the
  pair of that record and the world. Calls of one goroutine are modelled here as
  functions; the interleaving of several goroutines is in the theory on singleflight.
\<close>

unbundle bit_operations_syntax

section \<open>State\<close>

definition maxUpstreams :: nat where "maxUpstreams = 3"
definition upstreamRecoveryDuration :: duration where "upstreamRecoveryDuration = Hour"
definition DefaultCacheMaxEntries :: int where "DefaultCacheMaxEntries = 20000"
definition DefaultUDPPoolSize :: int where "DefaultUDPPoolSize = 256"
definition DefaultUDPTimeout :: duration where "DefaultUDPTimeout = 3 * Second"
definition DefaultTCPTimeout :: duration where "DefaultTCPTimeout = 5 * Second"
definition DefaultMaxRetries :: int where "DefaultMaxRetries = 3"

record cacheKey =
  key_q :: QuestionKey
  key_up :: string

record inflightCall =
  call_done :: bool
  call_resp :: bytes
  call_err :: "resolve_error option"

type_synonym conn = nat

record ForwardingResolver =
  upstreams :: "string list"
  udpTimeout :: duration
  recvSize :: nat
  tcpFallback :: bool
  tcpTimeout :: duration
  maxRetries :: int
  ednsUDPSize :: int
  ednsEnabled :: bool
  fwd_cache :: "(cacheKey, bytes) TTLCache"
  inflight :: "(cacheKey, inflightCall) fmap"
  upstreamFailedAt :: "(string, instant) fmap"
  udpPools :: "(string, conn list) fmap"
  poolSize :: int

definition NewForwardingResolver ::
  "string list \<Rightarrow> int \<Rightarrow> int \<Rightarrow> bool \<Rightarrow> duration \<Rightarrow> duration \<Rightarrow> int \<Rightarrow> ForwardingResolver" where
  "NewForwardingResolver ups pool cacheMax fallback udpT tcpT retries =
     \<lparr>upstreams = take maxUpstreams (if ups = [] then [''8.8.8.8''] else ups),
      udpTimeout = (if udpT \<le> 0 then DefaultUDPTimeout else udpT),
      recvSize = 4096,
      tcpFallback = fallback,
      tcpTimeout = (if tcpT \<le> 0 then DefaultTCPTimeout else tcpT),
      maxRetries = (if retries \<le> 0 then DefaultMaxRetries else retries),
      ednsUDPSize = int EDNSDefaultUDPPayloadSize,
      ednsEnabled = True,
      fwd_cache = NewTTLCache (if cacheMax \<le> 0 then DefaultCacheMaxEntries else cacheMax),
      inflight = fmempty,
      upstreamFailedAt = fmempty,
      udpPools = fmempty,
      poolSize = (if pool \<le> 0 then DefaultUDPPoolSize else pool)\<rparr>"

section \<open>The environment\<close>

record 'w env =
  env_now :: "'w \<Rightarrow> instant \<times> 'w"
  env_ctxErr :: "'w \<Rightarrow> bool option \<times> 'w"
  env_ctxDone :: "'w \<Rightarrow> bool \<times> 'w"
  env_ctxDeadline :: "'w \<Rightarrow> instant option"
  env_pick :: "'w \<Rightarrow> bool \<times> 'w"
  env_resolveUDPAddr :: "string \<Rightarrow> 'w \<Rightarrow> bool option \<times> 'w"
  env_dialUDP :: "string \<Rightarrow> 'w \<Rightarrow> (bool + conn) \<times> 'w"
  env_setDeadline :: "conn \<Rightarrow> instant \<Rightarrow> 'w \<Rightarrow> 'w"
  env_write :: "conn \<Rightarrow> bytes \<Rightarrow> 'w \<Rightarrow> bool option \<times> 'w"
  env_read :: "conn \<Rightarrow> nat \<Rightarrow> 'w \<Rightarrow> (bool + bytes) \<times> 'w"
  env_close :: "conn \<Rightarrow> 'w \<Rightarrow> 'w"
  env_dialTCP :: "string \<Rightarrow> duration \<Rightarrow> 'w \<Rightarrow> (bool + conn) \<times> 'w"
  env_readFull :: "conn \<Rightarrow> nat \<Rightarrow> 'w \<Rightarrow> (bool + bytes) \<times> 'w"

text \<open>
  A network operation fails with a flag telling whether the error is a \<open>net.Error\<close>.
  \<open>ctx.Err()\<close> is \<open>env_ctxErr\<close>, with the same flag when it is not nil;
  \<open>env_ctxDone\<close> waits for the context to end and gives the flag of its error; \<open>env_pick\<close> resolves a \<open>select\<close> with two ready
  cases.
\<close>

type_synonym 'w fwd = "ForwardingResolver \<times> 'w"

definition onWorld :: "('w \<Rightarrow> 'a \<times> 'w) \<Rightarrow> 'w fwd \<Rightarrow> 'a \<times> 'w fwd" where
  "onWorld op s = (let (x, w) = op (snd s) in (x, (fst s, w)))"

definition worldDo :: "('w \<Rightarrow> 'w) \<Rightarrow> 'w fwd \<Rightarrow> 'w fwd" where
  "worldDo op s = (fst s, op (snd s))"

section \<open>Health tracking\<close>

definition canTryUpstream :: "'w env \<Rightarrow> string \<Rightarrow> 'w fwd \<Rightarrow> bool \<times> 'w fwd" where
  "canTryUpstream env up s =
     (case fmlookup (upstreamFailedAt (fst s)) up of
        None \<Rightarrow> (True, s)
      | Some failedAt \<Rightarrow>
          (let (t, s1) = onWorld (env_now env) s in
           if Sub t failedAt \<ge> upstreamRecoveryDuration then
             (True, ((fst s1)\<lparr>upstreamFailedAt := fmdrop up (upstreamFailedAt (fst s1))\<rparr>, snd s1))
           else (False, s1)))"

fun selectLoop :: "'w env \<Rightarrow> string list \<Rightarrow> 'w fwd \<Rightarrow> string option \<times> 'w fwd" where
  "selectLoop env [] s = (None, s)"
| "selectLoop env (u # us) s =
     (let (ok, s1) = canTryUpstream env u s in if ok then (Some u, s1) else selectLoop env us s1)"

definition selectUpstream :: "'w env \<Rightarrow> 'w fwd \<Rightarrow> (resolve_error + string) \<times> 'w fwd" where
  "selectUpstream env s =
     (case selectLoop env (upstreams (fst s)) s of
        (Some u, s1) \<Rightarrow> (Inr u, s1)
      | (None, s1) \<Rightarrow>
          (let s2 = ((fst s1)\<lparr>upstreamFailedAt := fmempty\<rparr>, snd s1)
           in case upstreams (fst s2) of [] \<Rightarrow> (Inl ResolverPanic, s2) | u # _ \<Rightarrow> (Inr u, s2)))"

definition markFailed :: "'w env \<Rightarrow> string \<Rightarrow> 'w fwd \<Rightarrow> 'w fwd" where
  "markFailed env up s =
     (case fmlookup (upstreamFailedAt (fst s)) up of
        Some _ \<Rightarrow> s
      | None \<Rightarrow>
          (let (t, s1) = onWorld (env_now env) s
           in ((fst s1)\<lparr>upstreamFailedAt := fmupd up t (upstreamFailedAt (fst s1))\<rparr>, snd s1)))"

definition markHealthy :: "string \<Rightarrow> 'w fwd \<Rightarrow> 'w fwd" where
  "markHealthy up s =
     ((fst s)\<lparr>upstreamFailedAt := fmdrop up (upstreamFailedAt (fst s))\<rparr>, snd s)"

section \<open>Connections\<close>

definition poolOf :: "string \<Rightarrow> ForwardingResolver \<Rightarrow> conn list" where
  "poolOf up f = (case fmlookup (udpPools f) up of None \<Rightarrow> [] | Some cs \<Rightarrow> cs)"

definition setPool :: "string \<Rightarrow> conn list \<Rightarrow> 'w fwd \<Rightarrow> 'w fwd" where
  "setPool up cs s = ((fst s)\<lparr>udpPools := fmupd up cs (udpPools (fst s))\<rparr>, snd s)"

text \<open>The pre-dial loop: a failed dial leaves a partial pool.\<close>

fun predial :: "'w env \<Rightarrow> string \<Rightarrow> nat \<Rightarrow> 'w fwd \<Rightarrow> 'w fwd" where
  "predial env up 0 s = s"
| "predial env up (Suc n) s =
     (case onWorld (env_dialUDP env up) s of
        (Inl _, s1) \<Rightarrow> s1
      | (Inr c, s1) \<Rightarrow> predial env up n (setPool up (poolOf up (fst s1) @ [c]) s1))"

definition ensurePool :: "'w env \<Rightarrow> string \<Rightarrow> 'w fwd \<Rightarrow> resolve_error option \<times> 'w fwd" where
  "ensurePool env up s =
     (case fmlookup (udpPools (fst s)) up of
        Some _ \<Rightarrow> (None, s)
      | None \<Rightarrow>
          (let s1 = setPool up [] s in
           case onWorld (env_resolveUDPAddr env up) s1 of
             (Some b, s2) \<Rightarrow> (Some (NetErr b), s2)
           | (None, s2) \<Rightarrow> (None, predial env up (nat (poolSize (fst s2))) s2)))"

definition acquireConnection ::
  "'w env \<Rightarrow> string \<Rightarrow> 'w fwd \<Rightarrow> (resolve_error + conn \<times> bool) \<times> 'w fwd" where
  "acquireConnection env up s =
     (let (cancelled, s1) = onWorld (env_ctxErr env) s;
          (preferPool, s2) = (if cancelled \<noteq> None \<and> poolOf up (fst s1) \<noteq> []
             then onWorld (env_pick env) s1 else (cancelled = None, s1))
      in case poolOf up (fst s2) of
           c # cs \<Rightarrow>
             if preferPool then (Inr (c, True), setPool up cs s2)
             else (Inl (CtxErr (the cancelled)), s2)
         | [] \<Rightarrow>
             (case cancelled of
                Some b \<Rightarrow> (Inl (CtxErr b), s2)
              | None \<Rightarrow>
                  (case onWorld (env_resolveUDPAddr env up) s2 of
                     (Some b, s3) \<Rightarrow> (Inl (NetErr b), s3)
                   | (None, s3) \<Rightarrow>
                       (case onWorld (env_dialUDP env up) s3 of
                          (Inl b, s4) \<Rightarrow> (Inl (NetErr b), s4)
                        | (Inr c, s4) \<Rightarrow> (Inr (c, False), s4)))))"

definition releaseConnection ::
  "'w env \<Rightarrow> string \<Rightarrow> conn \<Rightarrow> bool \<Rightarrow> bool \<Rightarrow> 'w fwd \<Rightarrow> 'w fwd" where
  "releaseConnection env up c fromPool connOK s =
     (if \<not> connOK then worldDo (env_close env c) s
      else if \<not> fromPool then worldDo (env_close env c) s
      else if int (length (poolOf up (fst s))) < poolSize (fst s)
        then setPool up (poolOf up (fst s) @ [c]) s
      else worldDo (env_close env c) s)"

text \<open>\<open>Close\<close>: every pooled connection is closed and the pools are forgotten.\<close>

definition ForwardingResolver_Close :: "'w env \<Rightarrow> string list \<Rightarrow> 'w fwd \<Rightarrow> 'w fwd" where
  "ForwardingResolver_Close env order s =
     (let s1 = fold (\<lambda>up s. fold (\<lambda>c. worldDo (env_close env c)) (poolOf up (fst s)) s) order s
      in ((fst s1)\<lparr>udpPools := fmempty\<rparr>, snd s1))"

section \<open>Queries\<close>

fun isTimeoutError :: "resolve_error \<Rightarrow> bool" where
  "isTimeoutError (NetErr b) = b"
| "isTimeoutError (CtxErr b) = b"
| "isTimeoutError _ = False"

text \<open>
  \<open>queryUpstreamTCP\<close>: the deferred \<open>conn.Close\<close> runs on every path after the dial.
\<close>

definition tcpExchange :: "'w env \<Rightarrow> conn \<Rightarrow> bytes \<Rightarrow> 'w fwd \<Rightarrow> (resolve_error + bytes) \<times> 'w fwd" where
  "tcpExchange env c req s =
     (case onWorld (env_write env c (PutUint16 (ClampIntToUint16 (int (length req))))) s of
        (Some b, s1) \<Rightarrow> (Inl (NetErr b), s1)
      | (None, s1) \<Rightarrow>
     (case onWorld (env_write env c req) s1 of
        (Some b, s2) \<Rightarrow> (Inl (NetErr b), s2)
      | (None, s2) \<Rightarrow>
     (case onWorld (env_readFull env c 2) s2 of
        (Inl b, s3) \<Rightarrow> (Inl (NetErr b), s3)
      | (Inr lenBytes, s3) \<Rightarrow>
          (let respLen = unat (Uint16 lenBytes) in
           if respLen = 0 \<or> respLen > 65535 then (Inl (TCPLengthInvalid respLen), s3)
           else
             (case onWorld (env_readFull env c respLen) s3 of
                (Inl b, s4) \<Rightarrow> (Inl (NetErr b), s4)
              | (Inr resp, s4) \<Rightarrow> (Inr resp, s4))))))"

definition queryUpstreamTCP ::
  "'w env \<Rightarrow> bytes \<Rightarrow> string \<Rightarrow> duration \<Rightarrow> 'w fwd \<Rightarrow> (resolve_error + bytes) \<times> 'w fwd" where
  "queryUpstreamTCP env req host timeout s =
     (case onWorld (env_dialTCP env host timeout) s of
        (Inl b, s1) \<Rightarrow> (Inl (NetErr b), s1)
      | (Inr c, s1) \<Rightarrow> (let (r, s2) = tcpExchange env c req s1 in (r, worldDo (env_close env c) s2)))"

text \<open>
  \<open>queryOneAttempt\<close> between acquiring and releasing the connection: the result, and
  \<open>connOK\<close> for the deferred release.
\<close>

definition udpExchange ::
  "'w env \<Rightarrow> string \<Rightarrow> bytes \<Rightarrow> conn \<Rightarrow> 'w fwd \<Rightarrow> ((resolve_error + bytes) \<times> bool) \<times> 'w fwd" where
  "udpExchange env up req c s =
     (let (t, s1) = onWorld (env_now env) s;
          d = t + udpTimeout (fst s1);
          deadline = (case env_ctxDeadline env (snd s1) of
                        Some cd \<Rightarrow> if Before cd d then cd else d | None \<Rightarrow> d);
          s2 = worldDo (env_setDeadline env c deadline) s1
      in case onWorld (env_write env c req) s2 of
           (Some b, s3) \<Rightarrow> ((Inl (NetErr b), False), s3)
         | (None, s3) \<Rightarrow>
             (case onWorld (env_read env c (recvSize (fst s3))) s3 of
                (Inl b, s4) \<Rightarrow> ((Inl (NetErr b), False), s4)
              | (Inr resp, s4) \<Rightarrow>
                  if tcpFallback (fst s4) \<and> IsTruncated resp then
                    (let (r, s5) = queryUpstreamTCP env req up (tcpTimeout (fst s4)) s4
                     in ((r, True), s5))
                  else ((Inr resp, True), s4)))"

definition queryOneAttempt ::
  "'w env \<Rightarrow> string \<Rightarrow> bytes \<Rightarrow> 'w fwd \<Rightarrow> (resolve_error + bytes) \<times> 'w fwd" where
  "queryOneAttempt env up req s =
     (case acquireConnection env up s of
        (Inl e, s1) \<Rightarrow> (Inl e, s1)
      | (Inr (c, fromPool), s1) \<Rightarrow>
          (let ((r, connOK), s2) = udpExchange env up req c s1
           in (r, releaseConnection env up c fromPool connOK s2)))"

fun queryLoop ::
  "'w env \<Rightarrow> string \<Rightarrow> bytes \<Rightarrow> nat \<Rightarrow> resolve_error option \<Rightarrow> 'w fwd \<Rightarrow>
     (resolve_error + bytes) \<times> 'w fwd" where
  "queryLoop env up req 0 lastErr s =
     ((case lastErr of None \<Rightarrow> Inr [] | Some e \<Rightarrow> Inl e), s)"
| "queryLoop env up req (Suc n) lastErr s =
     (case onWorld (env_ctxErr env) s of
        (Some b, s1) \<Rightarrow> (Inl (CtxErr b), s1)
      | (None, s1) \<Rightarrow>
          (case queryOneAttempt env up req s1 of
             (Inr resp, s2) \<Rightarrow> (Inr resp, s2)
           | (Inl e, s2) \<Rightarrow>
               if \<not> isTimeoutError e then (Inl e, s2)
               else queryLoop env up req n (Some e) s2))"

definition queryOne :: "'w env \<Rightarrow> string \<Rightarrow> bytes \<Rightarrow> 'w fwd \<Rightarrow> (resolve_error + bytes) \<times> 'w fwd" where
  "queryOne env up req s =
     (case ensurePool env up s of
        (Some e, s1) \<Rightarrow> (Inl e, s1)
      | (None, s1) \<Rightarrow> queryLoop env up req (nat (maxRetries (fst s1))) None s1)"

definition prepareQueryBytes :: "ForwardingResolver \<Rightarrow> Packet \<Rightarrow> bytes \<Rightarrow> bytes" where
  "prepareQueryBytes f req reqBytes =
     (if length reqBytes < 2 then reqBytes
      else
        (let out = reqBytes[0 := 0, 1 := 0] in
         if ednsEnabled f then
           (case ExtractOPT (p_Additionals req) of
              Some opt \<Rightarrow>
                if DNSSECOk opt then out else AddEDNSToRequestBytes req out (ednsUDPSize f)
            | None \<Rightarrow> AddEDNSToRequestBytes req out (ednsUDPSize f))
         else out))"

fun findUpstreamFrom :: "nat \<Rightarrow> string list \<Rightarrow> string \<Rightarrow> nat" where
  "findUpstreamFrom i [] up = 0"
| "findUpstreamFrom i (u # us) up = (if u = up then i else findUpstreamFrom (i + 1) us up)"

definition findUpstreamIndex :: "ForwardingResolver \<Rightarrow> string \<Rightarrow> nat" where
  "findUpstreamIndex f up = findUpstreamFrom 0 (upstreams f) up"

definition normalizeQuestionKey :: "Packet \<Rightarrow> QuestionKey" where
  "normalizeQuestionKey req =
     (case p_Questions req of
        [] \<Rightarrow> \<lparr>QName = '''', QType = 0, QClass = 0\<rparr>
      | q # _ \<Rightarrow> \<lparr>QName = q_Name q, QType = q_Type q, QClass = q_Class q\<rparr>)"

definition cacheKeyOf :: "ForwardingResolver \<Rightarrow> Packet \<Rightarrow> string \<Rightarrow> cacheKey" where
  "cacheKeyOf f req up =
     \<lparr>key_q = normalizeQuestionKey req, key_up = (if up \<noteq> '''' then up else upstreams f ! 0)\<rparr>"

definition storeInCache :: "go_unicode \<Rightarrow> 'w env \<Rightarrow> cacheKey \<Rightarrow> bytes \<Rightarrow> 'w fwd \<Rightarrow> 'w fwd" where
  "storeInCache uc env key resp s =
     (let decision = analyzeCacheDecision uc resp in
      if ttlSeconds decision \<le> 0 then s
      else
        (let (t, s1) = onWorld (env_now env) s;
             (t', s2) = onWorld (env_now env) s1
         in ((fst s2)\<lparr>fwd_cache := SetEntry (fwd_cache (fst s2)) key resp
               (ttlSeconds decision * Second) (cd_entryType decision) t t'\<rparr>, snd s2)))"

fun failover ::
  "go_unicode \<Rightarrow> 'w env \<Rightarrow> cacheKey \<Rightarrow> Packet \<Rightarrow> bytes \<Rightarrow> string list \<Rightarrow>
     resolve_error option \<Rightarrow> 'w fwd \<Rightarrow> (resolve_error + bytes) \<times> 'w fwd" where
  "failover uc env key req queryBytes [] lastErr s =
     (Inl (case lastErr of Some e \<Rightarrow> e | None \<Rightarrow> NoUpstreamAvailable), s)"
| "failover uc env key req queryBytes (u # us) lastErr s =
     (case onWorld (env_ctxErr env) s of
        (Some b, s1) \<Rightarrow> (Inl (CtxErr b), s1)
      | (None, s1) \<Rightarrow>
          (let (ok, s2) = canTryUpstream env u s1 in
           if \<not> ok then failover uc env key req queryBytes us lastErr s2
           else
             (case queryOne env u queryBytes s2 of
                (Inl e, s3) \<Rightarrow>
                  failover uc env key req queryBytes us (Some e) (markFailed env u s3)
              | (Inr resp, s3) \<Rightarrow>
                  (let s4 = markHealthy u s3 in
                   case validateResponse uc req resp of
                     Inl e \<Rightarrow> (Inl e, s4)
                   | Inr _ \<Rightarrow>
                       (let norm = PatchTransactionID resp 0
                        in (Inr norm, storeInCache uc env key norm s4))))))"

text \<open>The order of the attempts: all upstreams, round-robin from the preferred one.\<close>

definition attemptOrder :: "ForwardingResolver \<Rightarrow> string \<Rightarrow> string list" where
  "attemptOrder f up =
     (let ups = upstreams f; start = findUpstreamIndex f up
      in map (\<lambda>j. ups ! ((start + j) mod length ups)) [0..<length ups])"

definition queryAndCache ::
  "go_unicode \<Rightarrow> 'w env \<Rightarrow> cacheKey \<Rightarrow> Packet \<Rightarrow> bytes \<Rightarrow> 'w fwd \<Rightarrow>
     (resolve_error + bytes) \<times> 'w fwd" where
  "queryAndCache uc env key req reqBytes s =
     (let queryBytes = prepareQueryBytes (fst s) req reqBytes
      in failover uc env key req queryBytes (attemptOrder (fst s) (key_up key)) None s)"

section \<open>Resolve\<close>

text \<open>
  The cache lookup, the leader's publication of a result and the removal of the call,
  as separate definitions because several goroutines interleave between them.
\<close>

definition cacheLookup ::
  "'w env \<Rightarrow> cacheKey \<Rightarrow> 'w fwd \<Rightarrow> (bytes \<times> duration \<times> CacheEntryType) option \<times> 'w fwd" where
  "cacheLookup env key s =
     (let (t, s1) = onWorld (env_now env) s;
          (hit, c) = GetWithAge (fwd_cache (fst s1)) key t
      in (hit, ((fst s1)\<lparr>fwd_cache := c\<rparr>, snd s1)))"

definition cachedResult :: "uint16 \<Rightarrow> bytes \<Rightarrow> duration \<Rightarrow> Result" where
  "cachedResult txid v age =
     \<lparr>ResponseBytes = PatchTransactionID (adjustTTLs v age) txid, Source = ''upstream-cache''\<rparr>"

definition callOutcome :: "uint16 \<Rightarrow> inflightCall \<Rightarrow> resolve_error + Result" where
  "callOutcome txid call =
     (case call_err call of
        Some e \<Rightarrow> Inl e
      | None \<Rightarrow> Inr \<lparr>ResponseBytes = PatchTransactionID (call_resp call) txid,
                      Source = ''upstream-inflight''\<rparr>)"

definition newCall :: inflightCall where
  "newCall = \<lparr>call_done = False, call_resp = [], call_err = None\<rparr>"

definition finishCall :: "resolve_error + bytes \<Rightarrow> inflightCall" where
  "finishCall r =
     (case r of
        Inl e \<Rightarrow> \<lparr>call_done = True, call_resp = [], call_err = Some e\<rparr>
      | Inr resp \<Rightarrow> \<lparr>call_done = True, call_resp = resp, call_err = None\<rparr>)"

definition setInflight ::
  "((cacheKey, inflightCall) fmap \<Rightarrow> (cacheKey, inflightCall) fmap) \<Rightarrow> 'w fwd \<Rightarrow> 'w fwd" where
  "setInflight g s = ((fst s)\<lparr>inflight := g (inflight (fst s))\<rparr>, snd s)"

definition leaderResult :: "uint16 \<Rightarrow> resolve_error + bytes \<Rightarrow> resolve_error + Result" where
  "leaderResult txid r =
     (case r of
        Inl e \<Rightarrow> Inl e
      | Inr resp \<Rightarrow> Inr \<lparr>ResponseBytes = PatchTransactionID resp txid, Source = ''upstream''\<rparr>)"

definition ForwardingResolver_Resolve ::
  "go_unicode \<Rightarrow> 'w env \<Rightarrow> 'w fwd resolve" where
  "ForwardingResolver_Resolve uc env s req reqBytes =
     (let txid = ID (p_Header req) in
      case selectUpstream env s of
        (Inl e, s1) \<Rightarrow> (Inl e, s1)
      | (Inr up, s1) \<Rightarrow>
          (let key = cacheKeyOf (fst s1) req up in
           case cacheLookup env key s1 of
             (Some (v, age, _), s2) \<Rightarrow> (Inr (cachedResult txid v age), s2)
           | (None, s2) \<Rightarrow>
               (case onWorld (env_ctxErr env) s2 of
                  (Some b, s3) \<Rightarrow> (Inl (CtxErr b), s3)
                | (None, s3) \<Rightarrow>
                    (case fmlookup (inflight (fst s3)) key of
                       Some call \<Rightarrow>
                         if call_done call then (callOutcome txid call, s3)
                         else (let (b, s4) = onWorld (env_ctxDone env) s3 in (Inl (CtxErr b), s4))
                     | None \<Rightarrow>
                         (let s4 = setInflight (fmupd key newCall) s3;
                              (r, s5) = queryAndCache uc env key req reqBytes s4;
                              s6 = setInflight (fmupd key (finishCall r)) s5;
                              s7 = setInflight (fmdrop key) s6
                          in (leaderResult txid r, s7))))))"

section \<open>Frames\<close>

text \<open>
  Everything before the cache is written touches only the failure times and the pools.
\<close>

definition sameCore :: "ForwardingResolver \<Rightarrow> ForwardingResolver \<Rightarrow> bool" where
  "sameCore f f' \<longleftrightarrow>
     f' = f\<lparr>upstreamFailedAt := upstreamFailedAt f', udpPools := udpPools f'\<rparr>"

lemma sameCore_refl [simp]: "sameCore f f"
  by (simp add: sameCore_def)

lemma sameCore_trans: "sameCore f g \<Longrightarrow> sameCore g h \<Longrightarrow> sameCore f h"
  unfolding sameCore_def by (cases f; cases g; cases h) simp

lemma sameCore_upd [simp]:
  "sameCore f (f\<lparr>upstreamFailedAt := x\<rparr>)" "sameCore f (f\<lparr>udpPools := y\<rparr>)"
  by (simp_all add: sameCore_def)

lemma sameCore_fields:
  assumes "sameCore f f'"
  shows "upstreams f' = upstreams f" "fwd_cache f' = fwd_cache f" "inflight f' = inflight f"
    "maxRetries f' = maxRetries f" "poolSize f' = poolSize f"
    "ednsEnabled f' = ednsEnabled f" "ednsUDPSize f' = ednsUDPSize f"
proof -
  have eq: "f' = f\<lparr>upstreamFailedAt := upstreamFailedAt f', udpPools := udpPools f'\<rparr>"
    using assms by (simp add: sameCore_def)
  show "upstreams f' = upstreams f" "fwd_cache f' = fwd_cache f" "inflight f' = inflight f"
    "maxRetries f' = maxRetries f" "poolSize f' = poolSize f"
    "ednsEnabled f' = ednsEnabled f" "ednsUDPSize f' = ednsUDPSize f"
    by (subst eq, simp)+
qed

lemma onWorld_core [simp]: "fst (snd (onWorld op s)) = fst s"
  by (simp add: onWorld_def split: prod.split)

lemma onWorld_D: "onWorld op s = (x, s') \<Longrightarrow> fst s' = fst s"
  using onWorld_core [of op s] by simp

lemma worldDo_core [simp]: "fst (worldDo op s) = fst s"
  by (simp add: worldDo_def)

lemma setPool_core: "fst s = f \<Longrightarrow> sameCore f (fst (setPool up cs s))"
  by (auto simp: setPool_def)

lemma canTryUpstream_core: "sameCore (fst s) (fst (snd (canTryUpstream env u s)))"
  by (auto simp: canTryUpstream_def Let_def split: option.split prod.split dest: onWorld_D)

lemma markFailed_core: "sameCore (fst s) (fst (markFailed env u s))"
  by (auto simp: markFailed_def Let_def split: option.split prod.split dest: onWorld_D)

lemma markHealthy_core: "sameCore (fst s) (fst (markHealthy u s))"
  by (simp add: markHealthy_def)

lemma selectLoop_core: "selectLoop env us s = (x, s') \<Longrightarrow> sameCore (fst s) (fst s')"
proof (induction us arbitrary: s)
  case (Cons u us)
  obtain ok s1 where c: "canTryUpstream env u s = (ok, s1)" by (rule prod.exhaust)
  with canTryUpstream_core [of s env u] have "sameCore (fst s) (fst s1)" by simp
  with Cons.IH [of s1] Cons.prems c show ?case by (auto split: if_splits intro: sameCore_trans)
qed simp

lemma selectUpstream_core: "selectUpstream env s = (x, s') \<Longrightarrow> sameCore (fst s) (fst s')"
  by (auto simp: selectUpstream_def Let_def dest!: selectLoop_core intro: sameCore_trans
      split: prod.splits option.splits list.splits)

lemma predial_core: "sameCore (fst s) (fst (predial env up n s))"
proof (induction n arbitrary: s)
  case (Suc n)
  obtain x s1 where d: "onWorld (env_dialUDP env up) s = (x, s1)" by (rule prod.exhaust)
  note onWorld_D [OF d]
  with Suc [of "setPool up (poolOf up (fst s1) @ [c]) s1" for c] d show ?case
    by (auto split: sum.split intro: sameCore_trans [OF setPool_core [of s1]])
qed simp

lemma ensurePool_core: "ensurePool env up s = (x, s') \<Longrightarrow> sameCore (fst s) (fst s')"
  by (auto simp: ensurePool_def Let_def dest!: onWorld_D split: option.splits prod.splits
      simp: setPool_def intro: sameCore_trans [OF _ predial_core])

lemma acquireConnection_core: "acquireConnection env up s = (x, s') \<Longrightarrow> sameCore (fst s) (fst s')"
  by (auto simp: acquireConnection_def Let_def setPool_def dest!: onWorld_D
      split: prod.splits list.splits if_splits option.splits sum.splits)

lemma releaseConnection_core: "sameCore (fst s) (fst (releaseConnection env up c a b s))"
  by (simp add: releaseConnection_def setPool_core)

lemma tcpExchange_core: "tcpExchange env c req s = (x, s') \<Longrightarrow> fst s' = fst s"
  by (auto simp: tcpExchange_def Let_def dest!: onWorld_D
      split: prod.splits if_splits option.splits sum.splits)

lemma queryUpstreamTCP_core: "queryUpstreamTCP env req h t s = (x, s') \<Longrightarrow> fst s' = fst s"
  by (auto simp: queryUpstreamTCP_def Let_def dest!: onWorld_D tcpExchange_core
      split: prod.splits sum.splits)

lemma udpExchange_core: "udpExchange env up req c s = (x, s') \<Longrightarrow> fst s' = fst s"
  by (auto simp: udpExchange_def Let_def dest!: onWorld_D queryUpstreamTCP_core
      split: prod.splits if_splits option.splits sum.splits)

lemma queryOneAttempt_core: "queryOneAttempt env up req s = (x, s') \<Longrightarrow> sameCore (fst s) (fst s')"
  by (auto simp: queryOneAttempt_def Let_def dest!: acquireConnection_core udpExchange_core
      split: prod.splits sum.splits intro: sameCore_trans [OF _ releaseConnection_core])

lemma queryLoop_core: "queryLoop env up req n e s = (x, s') \<Longrightarrow> sameCore (fst s) (fst s')"
proof (induction n arbitrary: e s)
  case (Suc n)
  then show ?case
    by (auto dest!: onWorld_D queryOneAttempt_core split: prod.splits option.splits sum.splits if_splits
        intro: sameCore_trans)
qed simp

lemma queryOne_core: "queryOne env up req s = (x, s') \<Longrightarrow> sameCore (fst s) (fst s')"
  by (auto simp: queryOne_def dest!: ensurePool_core queryLoop_core split: prod.splits option.splits
      intro: sameCore_trans)

section \<open>What the resolver answers\<close>

text \<open>
  A cached message was validated against a request with the question of its key, and
  is stored with transaction ID 0. An answer is a message validated against the very
  request, its TTLs aged, carrying the request's transaction ID.
\<close>

definition cachedFor :: "go_unicode \<Rightarrow> cacheKey \<Rightarrow> bytes \<Rightarrow> bool" where
  "cachedFor uc key v \<longleftrightarrow>
     (\<exists>req m. p_Questions req \<noteq> [] \<and> normalizeQuestionKey req = key_q key \<and>
        validateResponse uc req m = Inr () \<and> v = PatchTransactionID m 0)"

definition upstreamAnswer :: "go_unicode \<Rightarrow> Packet \<Rightarrow> bytes \<Rightarrow> bool" where
  "upstreamAnswer uc req bs \<longleftrightarrow>
     (\<exists>m age. validateResponse uc req m = Inr () \<and>
        bs = PatchTransactionID (adjustTTLs (PatchTransactionID m 0) age) (ID (p_Header req)))"

definition fwdInv :: "go_unicode \<Rightarrow> ForwardingResolver \<Rightarrow> bool" where
  "fwdInv uc f \<longleftrightarrow> upstreams f \<noteq> [] \<and> 0 < maxRetries f \<and> inflight f = fmempty \<and>
     ttl.soundFor (cachedFor uc) (fwd_cache f)"

lemma fwdInv_core: "fwdInv uc f \<Longrightarrow> sameCore f f' \<Longrightarrow> fwdInv uc f'"
  by (simp add: fwdInv_def sameCore_fields)

lemma fwdInv_New: "fwdInv uc (NewForwardingResolver ups pool cm fb ut tt mr)"
  by (auto simp: fwdInv_def NewForwardingResolver_def maxUpstreams_def DefaultMaxRetries_def
      ttl.soundFor_def cacheInv_New)

lemma upstreamAnswer_carriesID:
  assumes "upstreamAnswer uc req bs" shows "carriesID (ID (p_Header req)) bs"
proof -
  from assms obtain m age where v: "validateResponse uc req m = Inr ()"
    and bs: "bs = PatchTransactionID (adjustTTLs (PatchTransactionID m 0) age) (ID (p_Header req))"
    by (auto simp: upstreamAnswer_def)
  have "2 \<le> length m" using validateResponse_length [OF v] by (simp add: HeaderSize_def)
  then show ?thesis unfolding bs by (intro carriesID_Patch) simp
qed

lemma adjustTTLs_zero [simp]: "adjustTTLs m 0 = m"
  by (simp add: adjustTTLs_def)

lemma normalizeQuestionKey_validate:
  assumes "normalizeQuestionKey req = normalizeQuestionKey req'"
    "p_Questions req \<noteq> []" "p_Questions req' \<noteq> []"
  shows "validateResponse uc req m = validateResponse uc req' m"
  using assms by (intro validateResponse_question)
    (auto simp: normalizeQuestionKey_def neq_Nil_conv)

lemma cachedFor_answer:
  assumes "cachedFor uc key v" "normalizeQuestionKey req = key_q key" "p_Questions req \<noteq> []"
  shows "upstreamAnswer uc req (PatchTransactionID (adjustTTLs v age) (ID (p_Header req)))"
  using assms normalizeQuestionKey_validate unfolding cachedFor_def upstreamAnswer_def by metis

lemma canTryUpstream_D: "canTryUpstream env u s = (ok, s') \<Longrightarrow> sameCore (fst s) (fst s')"
  using canTryUpstream_core [of s env u] by simp

lemma acquireConnection_no_panic: "acquireConnection env up s = (x, s') \<Longrightarrow> x \<noteq> Inl ResolverPanic"
  by (auto simp: acquireConnection_def Let_def split: prod.splits sum.splits list.splits if_splits
      option.splits)

lemma queryUpstreamTCP_no_panic: "queryUpstreamTCP env req h t s = (x, s') \<Longrightarrow> x \<noteq> Inl ResolverPanic"
  by (auto simp: queryUpstreamTCP_def tcpExchange_def Let_def split: prod.splits sum.splits
      if_splits option.splits)

lemma udpExchange_no_panic: "udpExchange env up req c s = ((x, b), s') \<Longrightarrow> x \<noteq> Inl ResolverPanic"
  by (auto simp: udpExchange_def Let_def dest: queryUpstreamTCP_no_panic
      split: prod.splits sum.splits if_splits option.splits)

lemma queryOneAttempt_no_panic: "queryOneAttempt env up req s = (x, s') \<Longrightarrow> x \<noteq> Inl ResolverPanic"
  by (auto simp: queryOneAttempt_def Let_def dest: acquireConnection_no_panic udpExchange_no_panic
      split: prod.splits sum.splits)

lemma queryLoop_no_panic:
  "queryLoop env up req n e s = (x, s') \<Longrightarrow> e \<noteq> Some ResolverPanic \<Longrightarrow> x \<noteq> Inl ResolverPanic"
proof (induction n arbitrary: e s)
  case (Suc n)
  obtain c s1 where c: "onWorld (env_ctxErr env) s = (c, s1)" by (rule prod.exhaust)
  obtain y s2 where y: "queryOneAttempt env up req s1 = (y, s2)" by (rule prod.exhaust)
  from queryOneAttempt_no_panic [OF y] Suc.IH [of _ s2] Suc.prems c y show ?case
    by (auto split: option.splits sum.splits if_splits)
qed (auto split: option.splits)

lemma queryOne_no_panic:
  assumes "queryOne env up req s = (x, s')" shows "x \<noteq> Inl ResolverPanic"
proof -
  obtain e s1 where e: "ensurePool env up s = (e, s1)" by (rule prod.exhaust)
  then have "e \<noteq> Some ResolverPanic"
    by (auto simp: ensurePool_def Let_def split: option.splits prod.splits)
  with e assms queryLoop_no_panic [of env up req _ None s1 x s'] show ?thesis
    by (auto simp: queryOne_def split: option.splits)
qed

text \<open>Storing a validated message keeps the cache sound for its key.\<close>

definition cacheSound :: "go_unicode \<Rightarrow> ForwardingResolver \<Rightarrow> bool" where
  "cacheSound uc f \<longleftrightarrow> ttl.soundFor (cachedFor uc) (fwd_cache f)"

lemma cacheSound_core: "cacheSound uc f \<Longrightarrow> sameCore f f' \<Longrightarrow> cacheSound uc f'"
  by (simp add: cacheSound_def sameCore_fields)

lemma storeInCache_sound:
  assumes "cacheSound uc (fst s)" "cachedFor uc key v"
  shows "cacheSound uc (fst (storeInCache uc env key v s))"
  using assms by (auto simp: storeInCache_def Let_def cacheSound_def dest!: onWorld_D
      intro: ttl.soundFor_store split: prod.split)

lemma storeInCache_fields [simp]:
  "upstreams (fst (storeInCache uc env key v s)) = upstreams (fst s)"
  "inflight (fst (storeInCache uc env key v s)) = inflight (fst s)"
  "maxRetries (fst (storeInCache uc env key v s)) = maxRetries (fst s)"
  by (auto simp: storeInCache_def Let_def dest!: onWorld_D split: prod.split)

definition keepsConfig :: "ForwardingResolver \<Rightarrow> ForwardingResolver \<Rightarrow> bool" where
  "keepsConfig f f' \<longleftrightarrow>
     upstreams f' = upstreams f \<and> inflight f' = inflight f \<and> maxRetries f' = maxRetries f"

lemma keepsConfig_core: "sameCore f f' \<Longrightarrow> keepsConfig f f'"
  by (simp add: keepsConfig_def sameCore_fields)

lemma keepsConfig_trans: "keepsConfig f g \<Longrightarrow> keepsConfig g h \<Longrightarrow> keepsConfig f h"
  by (simp add: keepsConfig_def)

lemma failover_sound:
  assumes "p_Questions req \<noteq> []" "normalizeQuestionKey req = key_q key"
    "cacheSound uc (fst s)" "e \<noteq> Some ResolverPanic"
    "failover uc env key req qb us e s = (x, s')"
  shows "cacheSound uc (fst s') \<and> keepsConfig (fst s) (fst s') \<and> x \<noteq> Inl ResolverPanic \<and>
    (\<forall>v. x = Inr v \<longrightarrow> (\<exists>m. validateResponse uc req m = Inr () \<and> v = PatchTransactionID m 0))"
  using assms(3-)
proof (induction us arbitrary: e s)
  case Nil
  then show ?case by (auto simp: keepsConfig_def split: option.splits)
next
  case (Cons u us)
  obtain c s1 where c: "onWorld (env_ctxErr env) s = (c, s1)" by (rule prod.exhaust)
  obtain ok s2 where ok: "canTryUpstream env u s1 = (ok, s2)" by (rule prod.exhaust)
  obtain y s3 where y: "queryOne env u qb s2 = (y, s3)" by (rule prod.exhaust)
  have f1: "fst s1 = fst s" by (rule onWorld_D [OF c])
  have s2: "sameCore (fst s) (fst s2)" using canTryUpstream_D [OF ok] f1 by simp
  have s3: "sameCore (fst s) (fst s3)" using sameCore_trans [OF s2 queryOne_core [OF y]] .
  have panic: "y \<noteq> Inl ResolverPanic" by (rule queryOne_no_panic [OF y])
  consider (ctx) b where "c = Some b" | (skip) "c = None" "\<not> ok"
    | (failed) err where "c = None" "ok" "y = Inl err"
    | (answered) resp where "c = None" "ok" "y = Inr resp"
    by (cases c; cases ok; cases y) auto
  then show ?case
  proof cases
    case ctx
    with Cons.prems c f1 show ?thesis by (auto simp: keepsConfig_def)
  next
    case skip
    then have "failover uc env key req qb us e s2 = (x, s')" using Cons.prems(3) c ok by simp
    with Cons.IH [of s2 e] cacheSound_core [OF Cons.prems(1) s2] Cons.prems(2)
      keepsConfig_trans [OF keepsConfig_core [OF s2]] show ?thesis by blast
  next
    case failed
    have core: "sameCore (fst s) (fst (markFailed env u s3))"
      by (rule sameCore_trans [OF s3 markFailed_core])
    from failed have "failover uc env key req qb us (Some err) (markFailed env u s3) = (x, s')"
      using Cons.prems(3) c ok y by simp
    with Cons.IH [of "markFailed env u s3" "Some err"] cacheSound_core [OF Cons.prems(1) core]
      failed(3) panic keepsConfig_trans [OF keepsConfig_core [OF core]]
    show ?thesis by blast
  next
    case answered
    let ?s4 = "markHealthy u s3"
    have core: "sameCore (fst s) (fst ?s4)" by (rule sameCore_trans [OF s3 markHealthy_core])
    note sound = cacheSound_core [OF Cons.prems(1) core]
    show ?thesis
    proof (cases "validateResponse uc req resp")
      case (Inl err)
      then have "err \<noteq> ResolverPanic" using validateResponse_no_panic [OF assms(1), of uc resp] by auto
      with Inl answered Cons.prems(3) c ok y sound keepsConfig_core [OF core] show ?thesis by auto
    next
      case (Inr u')
      then have "cachedFor uc key (PatchTransactionID resp 0)"
        using assms(1,2) by (auto simp: cachedFor_def)
      from storeInCache_sound [OF sound this, of env] Inr answered Cons.prems(3) c ok y
        keepsConfig_core [OF core] show ?thesis
        by (auto simp: keepsConfig_def Let_def)
    qed
  qed
qed

lemma fwdInv_sound: "fwdInv uc f \<longleftrightarrow> upstreams f \<noteq> [] \<and> 0 < maxRetries f \<and> inflight f = fmempty \<and>
   cacheSound uc f"
  by (simp add: fwdInv_def cacheSound_def)

lemma selectUpstream_no_panic:
  "upstreams (fst s) \<noteq> [] \<Longrightarrow> selectUpstream env s = (x, s') \<Longrightarrow> x \<noteq> Inl ResolverPanic"
  by (auto simp: selectUpstream_def Let_def sameCore_fields dest!: selectLoop_core
      split: prod.splits option.splits list.splits)

lemma cacheLookup_sound:
  assumes "cacheLookup env key s = (hit, s')" "cacheSound uc (fst s)"
  shows "cacheSound uc (fst s')" "keepsConfig (fst s) (fst s')"
    "hit = Some (v, age, et) \<Longrightarrow> cachedFor uc key v"
proof -
  obtain t s1 where t: "onWorld (env_now env) s = (t, s1)" by (rule prod.exhaust)
  obtain h c where g: "GetWithAge (fwd_cache (fst s1)) key t = (h, c)" by (rule prod.exhaust)
  from assms(1) have s': "hit = h" "s' = ((fst s1)\<lparr>fwd_cache := c\<rparr>, snd s1)"
    by (simp_all add: cacheLookup_def t g)
  have f: "fst s1 = fst s" by (rule onWorld_D [OF t])
  have snd: "ttl.soundFor (cachedFor uc) (fwd_cache (fst s1))"
    using assms(2) f by (simp add: cacheSound_def)
  show "cacheSound uc (fst s')"
    using ttl.soundFor_look [OF snd, of key t] g s' by (simp add: cacheSound_def)
  show "keepsConfig (fst s) (fst s')" using s' f by (simp add: keepsConfig_def)
  show "cachedFor uc key v" if "hit = Some (v, age, et)"
    using ttl.look_sound [OF snd, of key t v age et] g s' that by simp
qed

lemma queryAndCache_sound:
  assumes "p_Questions req \<noteq> []" "normalizeQuestionKey req = key_q key" "cacheSound uc (fst s)"
    "queryAndCache uc env key req b s = (x, s')"
  shows "cacheSound uc (fst s') \<and> keepsConfig (fst s) (fst s') \<and> x \<noteq> Inl ResolverPanic \<and>
    (\<forall>v. x = Inr v \<longrightarrow> (\<exists>m. validateResponse uc req m = Inr () \<and> v = PatchTransactionID m 0))"
  using assms failover_sound [OF assms(1,2,3), of None] by (simp add: queryAndCache_def Let_def)

lemma leaderResult_answer:
  assumes "validateResponse uc req m = Inr ()"
    "leaderResult (ID (p_Header req)) (Inr (PatchTransactionID m 0)) = Inr res"
  shows "upstreamAnswer uc req (ResponseBytes res)"
  unfolding upstreamAnswer_def
  by (rule exI [of _ m], rule exI [of _ 0])
    (use assms in \<open>auto simp: leaderResult_def\<close>)

lemma Forwarding_outcome:
  assumes inv: "fwdInv uc (fst s)" and q: "singleQuestion req"
    and run: "ForwardingResolver_Resolve uc env s req b = (x, s')"
  shows "fwdInv uc (fst s') \<and> x \<noteq> Inl ResolverPanic \<and>
    (\<forall>res. x = Inr res \<longrightarrow> upstreamAnswer uc req (ResponseBytes res))"
proof -
  have ne: "p_Questions req \<noteq> []" using q by (auto simp: singleQuestion_def)
  obtain u s1 where u: "selectUpstream env s = (u, s1)" by (rule prod.exhaust)
  have up: "upstreams (fst s) \<noteq> []" using inv by (simp add: fwdInv_def)
  note c1 = selectUpstream_core [OF u]
  note inv1 = fwdInv_core [OF inv c1]
  show ?thesis
  proof (cases u)
    case (Inl e)
    with run u inv1 selectUpstream_no_panic [OF up u] show ?thesis
      by (auto simp: ForwardingResolver_Resolve_def)
  next
    case (Inr up)
    define key where "key = cacheKeyOf (fst s1) req up"
    have kq: "normalizeQuestionKey req = key_q key" by (simp add: key_def cacheKeyOf_def)
    obtain hit s2 where h: "cacheLookup env key s1 = (hit, s2)" by (rule prod.exhaust)
    note cl = cacheLookup_sound [OF h inv1 [unfolded fwdInv_sound, THEN conjunct2, THEN conjunct2, THEN conjunct2]]
    have inv2: "fwdInv uc (fst s2)"
      using inv1 cl(1,2) by (simp add: fwdInv_sound keepsConfig_def)
    obtain c s3 where c: "onWorld (env_ctxErr env) s2 = (c, s3)" by (rule prod.exhaust)
    have f3: "fst s3 = fst s2" by (rule onWorld_D [OF c])
    consider (hit) v age et where "hit = Some (v, age, et)" | (ctx) e where "hit = None" "c = Some e"
      | (lead) "hit = None" "c = None"
      by (cases hit; cases c) auto
    then show ?thesis
    proof cases
      case hit
      with cl(3) kq ne have "upstreamAnswer uc req
          (PatchTransactionID (adjustTTLs v age) (ID (p_Header req)))"
        by (intro cachedFor_answer) auto
      with run u Inr key_def h hit inv2 show ?thesis
        by (auto simp: ForwardingResolver_Resolve_def cachedResult_def)
    next
      case ctx
      with run u Inr key_def h c inv2 f3 show ?thesis
        by (auto simp: ForwardingResolver_Resolve_def)
    next
      case lead
      define s4 where "s4 = setInflight (fmupd key newCall) s3"
      obtain r s5 where r: "queryAndCache uc env key req b s4 = (r, s5)" by (rule prod.exhaust)
      have empty: "inflight (fst s3) = fmempty" using inv2 f3 by (simp add: fwdInv_def)
      have sound4: "cacheSound uc (fst s4)"
        using inv2 f3 by (simp add: s4_def setInflight_def fwdInv_sound cacheSound_def)
      note qs = queryAndCache_sound [OF ne kq sound4 r]
      have x: "x = leaderResult (ID (p_Header req)) r"
        and s': "s' = setInflight (fmdrop key) (setInflight (fmupd key (finishCall r)) s5)"
        using run u Inr h lead c empty r
        by (simp_all add: ForwardingResolver_Resolve_def Let_def key_def [symmetric] s4_def [symmetric])
      have "inflight (fst s5) = fmupd key newCall fmempty" "cacheSound uc (fst s5)"
        "upstreams (fst s5) = upstreams (fst s2)" "maxRetries (fst s5) = maxRetries (fst s2)"
        using qs empty f3 by (simp_all add: keepsConfig_def s4_def setInflight_def)
      moreover have "fmdrop key (fmupd key c' (fmupd key newCall fmempty)) = fmempty" for c'
        by (rule fmap_ext) simp
      ultimately have "fwdInv uc (fst s')"
        using inv2 by (simp add: s' setInflight_def fwdInv_sound cacheSound_def)
      moreover have "x \<noteq> Inl ResolverPanic" using qs x by (auto simp: leaderResult_def split: sum.splits)
      moreover have "upstreamAnswer uc req (ResponseBytes res)" if "x = Inr res" for res
      proof -
        from that x obtain v where v: "r = Inr v" by (cases r) (auto simp: leaderResult_def)
        with qs obtain m where m: "validateResponse uc req m = Inr ()" "v = PatchTransactionID m 0"
          by blast
        from leaderResult_answer [OF m(1)] that x v m(2) show ?thesis by simp
      qed
      ultimately show ?thesis by blast
    qed
  qed
qed

interpretation forwarding: answering "\<lambda>s. fwdInv uc (fst s)" "upstreamAnswer uc"
  "ForwardingResolver_Resolve uc env" for uc env
proof
  fix s :: "'a fwd" and req b
  assume *: "fwdInv uc (fst s)" "singleQuestion req"
  obtain x s' where run: "ForwardingResolver_Resolve uc env s req b = (x, s')" by (rule prod.exhaust)
  from Forwarding_outcome [OF * run]
  show "fwdInv uc (fst (snd (ForwardingResolver_Resolve uc env s req b)))"
    "fst (ForwardingResolver_Resolve uc env s req b) \<noteq> Inl ResolverPanic"
    "\<And>res. fst (ForwardingResolver_Resolve uc env s req b) = Inr res \<Longrightarrow>
      upstreamAnswer uc req (ResponseBytes res)"
    by (simp_all add: run)
qed

section \<open>Failover order, health and outgoing queries\<close>

lemma findUpstreamFrom_less: "us \<noteq> [] \<Longrightarrow> findUpstreamFrom i us up < i + length us"
proof (induction us arbitrary: i)
  case (Cons u us)
  then show ?case
  proof (cases "us = []")
    case False
    with Cons.IH [of "i + 1"] show ?thesis by auto
  qed simp
qed simp

lemma findUpstreamFrom_mem: "up \<in> set us \<Longrightarrow>
   i \<le> findUpstreamFrom i us up \<and> us ! (findUpstreamFrom i us up - i) = up"
proof (induction us arbitrary: i)
  case (Cons u us)
  then show ?case
  proof (cases "u = up")
    case False
    with Cons.prems Cons.IH [of "i + 1"] have "i + 1 \<le> findUpstreamFrom (i + 1) us up"
      "us ! (findUpstreamFrom (i + 1) us up - (i + 1)) = up" by auto
    with False show ?thesis by (simp add: nth_Cons')
  qed simp
qed simp

lemma attemptOrder_rotate: "attemptOrder f up = rotate (findUpstreamIndex f up) (upstreams f)"
  by (rule nth_equalityI) (auto simp: attemptOrder_def Let_def nth_rotate)

lemma attemptOrder_first:
  assumes "up \<in> set (upstreams f)" shows "attemptOrder f up \<noteq> [] \<and> hd (attemptOrder f up) = up"
proof -
  have ne: "upstreams f \<noteq> []" using assms by auto
  have "findUpstreamIndex f up < length (upstreams f)"
    using findUpstreamFrom_less [OF ne, of 0 up] by (simp add: findUpstreamIndex_def)
  with findUpstreamFrom_mem [OF assms, of 0] ne show ?thesis
    by (simp add: attemptOrder_rotate hd_rotate_conv_nth findUpstreamIndex_def)
qed

lemma set_attemptOrder: "set (attemptOrder f up) = set (upstreams f)"
  by (simp add: attemptOrder_rotate)

text \<open>An upstream that failed is skipped for the recovery time and tried afterwards.\<close>

lemma fmlookup_markFailed:
  assumes "onWorld (env_now env) s = (t, s1)" "fmlookup (upstreamFailedAt (fst s)) up = None"
  shows "fmlookup (upstreamFailedAt (fst (markFailed env up s))) up = Some t"
  using assms by (simp add: markFailed_def)

lemma markFailed_keeps_first:
  assumes "fmlookup (upstreamFailedAt (fst s)) up = Some t0"
  shows "markFailed env up s = s"
  using assms by (simp add: markFailed_def)

lemma canTryUpstream_failed:
  assumes "fmlookup (upstreamFailedAt (fst s)) up = Some t0" "onWorld (env_now env) s = (t, s1)"
  shows "fst (canTryUpstream env up s) \<longleftrightarrow> t0 + Hour \<le> t"
proof -
  have "Hour \<le> Sub t t0 \<longleftrightarrow> Hour \<le> t - t0" by (rule Sub_ge_iff) (simp_all add: duration_defs)
  with assms show ?thesis by (auto simp: canTryUpstream_def upstreamRecoveryDuration_def)
qed

lemma canTryUpstream_recovers:
  assumes "fst (canTryUpstream env up s)"
  shows "fmlookup (upstreamFailedAt (fst (snd (canTryUpstream env up s)))) up = None"
  using assms by (auto simp: canTryUpstream_def Let_def split: option.splits prod.splits if_splits)

lemma prepareQueryBytes_zero_id:
  assumes "2 \<le> length b" shows "carriesID 0 (prepareQueryBytes f req b)"
proof -
  have p0: "PutUint16 0 = [0, 0]" by (simp add: PutUint16_def)
  from assms obtain x y rest where b: "b = x # y # rest"
    by (cases b; cases "tl b") auto
  have "carriesID 0 (AddEDNSToRequestBytes req (b[0 := 0, 1 := 0]) n)" for n
    by (auto simp: AddEDNSToRequestBytes_def carriesID_def Let_def overwrite_def p0 b split: option.split)
  moreover have "carriesID 0 (b[0 := 0, 1 := 0])" by (simp add: carriesID_def p0 b)
  ultimately show ?thesis
    using assms by (simp add: prepareQueryBytes_def Let_def split: option.split)
qed

end
