(* ===== verification/Singleflight.thy ===== *)
theory Singleflight
  imports Forwarding
begin

text \<open>
  Concurrent calls of \<open>ForwardingResolver.Resolve\<close> (forwarding_resolver.go, lines 197 to
  245): every goroutine is a program counter, and one step is one critical section or
  one blocking operation of the Go code, so any interleaving of the goroutines is a
  path of the step relation. In-flight calls live in a store, since a waiter keeps its
  pointer after the leader has removed the call from the map. The step \<open>query\<close> runs
  the leader's whole upstream query; other goroutines only meet it through the cache,
  the health map and the pools, each of which the Go code guards with its own mutex.

  The invariant shows that there is at most one leader per cache key, that no waiter is
  left without a leader or a finished call, and that what any goroutine returns was
  validated against its own request.
\<close>

section \<open>Goroutines\<close>

datatype pc =
    Idle
  | Entry Packet bytes
  | Selected Packet bytes cacheKey
  | Missed Packet bytes cacheKey
  | Checked Packet bytes cacheKey
  | Waiting Packet nat
  | Leading Packet bytes cacheKey nat
  | Queried Packet cacheKey nat "resolve_error + bytes"
  | Published Packet cacheKey nat "resolve_error + bytes"
  | Returned Packet "resolve_error + Result"

record 'w flight =
  fl_sys :: "'w fwd"
  fl_inflight :: "(cacheKey, nat) fmap"
  fl_calls :: "nat \<Rightarrow> inflightCall"
  fl_next :: nat
  fl_callKey :: "nat \<Rightarrow> cacheKey"
  fl_threads :: "nat \<Rightarrow> pc"

text \<open>\<open>fl_callKey\<close> is a history variable: the key a call was created for.\<close>

definition setPc :: "nat \<Rightarrow> pc \<Rightarrow> 'w flight \<Rightarrow> 'w flight" where
  "setPc g p F = F\<lparr>fl_threads := (fl_threads F)(g := p)\<rparr>"

inductive flight_step :: "go_unicode \<Rightarrow> 'w env \<Rightarrow> 'w flight \<Rightarrow> 'w flight \<Rightarrow> bool"
  for uc :: go_unicode and env :: "'w env"
where
  spawn: "fl_threads F g = Idle \<Longrightarrow> singleQuestion req \<Longrightarrow>
    flight_step uc env F (setPc g (Entry req b) F)"
| select_error: "fl_threads F g = Entry req b \<Longrightarrow> selectUpstream env (fl_sys F) = (Inl e, s1) \<Longrightarrow>
    flight_step uc env F (setPc g (Returned req (Inl e)) (F\<lparr>fl_sys := s1\<rparr>))"
| select: "fl_threads F g = Entry req b \<Longrightarrow> selectUpstream env (fl_sys F) = (Inr up, s1) \<Longrightarrow>
    flight_step uc env F
      (setPc g (Selected req b (cacheKeyOf (fst s1) req up)) (F\<lparr>fl_sys := s1\<rparr>))"
| hit: "fl_threads F g = Selected req b key \<Longrightarrow>
    cacheLookup env key (fl_sys F) = (Some (v, age, et), s1) \<Longrightarrow>
    flight_step uc env F
      (setPc g (Returned req (Inr (cachedResult (ID (p_Header req)) v age))) (F\<lparr>fl_sys := s1\<rparr>))"
| miss: "fl_threads F g = Selected req b key \<Longrightarrow> cacheLookup env key (fl_sys F) = (None, s1) \<Longrightarrow>
    flight_step uc env F (setPc g (Missed req b key) (F\<lparr>fl_sys := s1\<rparr>))"
| cancelled: "fl_threads F g = Missed req b key \<Longrightarrow>
    onWorld (env_ctxErr env) (fl_sys F) = (Some e, s1) \<Longrightarrow>
    flight_step uc env F (setPc g (Returned req (Inl (CtxErr e))) (F\<lparr>fl_sys := s1\<rparr>))"
| checked: "fl_threads F g = Missed req b key \<Longrightarrow>
    onWorld (env_ctxErr env) (fl_sys F) = (None, s1) \<Longrightarrow>
    flight_step uc env F (setPc g (Checked req b key) (F\<lparr>fl_sys := s1\<rparr>))"
| join: "fl_threads F g = Checked req b key \<Longrightarrow> fmlookup (fl_inflight F) key = Some c \<Longrightarrow>
    flight_step uc env F (setPc g (Waiting req c) F)"
| lead: "fl_threads F g = Checked req b key \<Longrightarrow> fmlookup (fl_inflight F) key = None \<Longrightarrow>
    flight_step uc env F
      (setPc g (Leading req b key (fl_next F))
        (F\<lparr>fl_inflight := fmupd key (fl_next F) (fl_inflight F),
           fl_calls := (fl_calls F)(fl_next F := newCall),
           fl_callKey := (fl_callKey F)(fl_next F := key),
           fl_next := fl_next F + 1\<rparr>))"
| query: "fl_threads F g = Leading req b key c \<Longrightarrow>
    queryAndCache uc env key req b (fl_sys F) = (r, s1) \<Longrightarrow>
    flight_step uc env F (setPc g (Queried req key c r) (F\<lparr>fl_sys := s1\<rparr>))"
| publish: "fl_threads F g = Queried req key c r \<Longrightarrow>
    flight_step uc env F
      (setPc g (Published req key c r) (F\<lparr>fl_calls := (fl_calls F)(c := finishCall r)\<rparr>))"
| remove: "fl_threads F g = Published req key c r \<Longrightarrow>
    flight_step uc env F
      (setPc g (Returned req (leaderResult (ID (p_Header req)) r))
        (F\<lparr>fl_inflight := fmdrop key (fl_inflight F)\<rparr>))"
| wake: "fl_threads F g = Waiting req c \<Longrightarrow> call_done (fl_calls F c) \<Longrightarrow>
    flight_step uc env F
      (setPc g (Returned req (callOutcome (ID (p_Header req)) (fl_calls F c))) F)"
| give_up: "fl_threads F g = Waiting req c \<Longrightarrow>
    onWorld (env_ctxDone env) (fl_sys F) = (e, s1) \<Longrightarrow>
    flight_step uc env F (setPc g (Returned req (Inl (CtxErr e))) (F\<lparr>fl_sys := s1\<rparr>))"

definition flight_init :: "'w fwd \<Rightarrow> 'w flight" where
  "flight_init s = \<lparr>fl_sys = s, fl_inflight = fmempty, fl_calls = (\<lambda>_. newCall), fl_next = 0,
     fl_callKey = (\<lambda>_. \<lparr>key_q = \<lparr>QName = '''', QType = 0, QClass = 0\<rparr>, key_up = ''''\<rparr>),
     fl_threads = (\<lambda>_. Idle)\<rparr>"

section \<open>Invariant\<close>

fun leads :: "pc \<Rightarrow> (cacheKey \<times> nat) option" where
  "leads (Leading req b k c) = Some (k, c)"
| "leads (Queried req k c r) = Some (k, c)"
| "leads (Published req k c r) = Some (k, c)"
| "leads _ = None"

text \<open>The calls of which a goroutine has not yet published the result.\<close>

fun pendingCall :: "pc \<Rightarrow> nat option" where
  "pendingCall (Leading req b k c) = Some c"
| "pendingCall (Queried req k c r) = Some c"
| "pendingCall _ = None"

fun waitsFor :: "pc \<Rightarrow> nat option" where
  "waitsFor (Waiting req c) = Some c"
| "waitsFor _ = None"

text \<open>What a goroutine knows of its own request, key and result.\<close>

fun goodPc :: "go_unicode \<Rightarrow> (nat \<Rightarrow> cacheKey) \<Rightarrow> pc \<Rightarrow> bool" where
  "goodPc uc ck Idle = True"
| "goodPc uc ck (Entry req b) = singleQuestion req"
| "goodPc uc ck (Selected req b k) = (singleQuestion req \<and> normalizeQuestionKey req = key_q k)"
| "goodPc uc ck (Missed req b k) = (singleQuestion req \<and> normalizeQuestionKey req = key_q k)"
| "goodPc uc ck (Checked req b k) = (singleQuestion req \<and> normalizeQuestionKey req = key_q k)"
| "goodPc uc ck (Waiting req c) = (singleQuestion req \<and> normalizeQuestionKey req = key_q (ck c))"
| "goodPc uc ck (Leading req b k c) =
     (singleQuestion req \<and> normalizeQuestionKey req = key_q k \<and> ck c = k)"
| "goodPc uc ck (Queried req k c r) =
     (singleQuestion req \<and> normalizeQuestionKey req = key_q k \<and> ck c = k \<and> r \<noteq> Inl ResolverPanic \<and>
      (\<forall>v. r = Inr v \<longrightarrow> cachedFor uc k v))"
| "goodPc uc ck (Published req k c r) =
     (singleQuestion req \<and> normalizeQuestionKey req = key_q k \<and> ck c = k \<and> r \<noteq> Inl ResolverPanic \<and>
      (\<forall>v. r = Inr v \<longrightarrow> cachedFor uc k v))"
| "goodPc uc ck (Returned req x) =
     (x \<noteq> Inl ResolverPanic \<and> (\<forall>res. x = Inr res \<longrightarrow> upstreamAnswer uc req (ResponseBytes res)))"

definition goodCall :: "go_unicode \<Rightarrow> cacheKey \<Rightarrow> inflightCall \<Rightarrow> bool" where
  "goodCall uc k call \<longleftrightarrow> call_err call \<noteq> Some ResolverPanic \<and>
     (call_done call \<longrightarrow> call_err call = None \<longrightarrow> cachedFor uc k (call_resp call))"

definition sysInv :: "go_unicode \<Rightarrow> 'w fwd \<Rightarrow> bool" where
  "sysInv uc s \<longleftrightarrow> upstreams (fst s) \<noteq> [] \<and> cacheSound uc (fst s)"

text \<open>\<open>owner F k c\<close>: some goroutine leads call \<open>c\<close> for key \<open>k\<close>.\<close>

definition owner :: "'w flight \<Rightarrow> cacheKey \<Rightarrow> nat \<Rightarrow> bool" where
  "owner F k c \<longleftrightarrow> (\<exists>g. leads (fl_threads F g) = Some (k, c))"

definition oneLeader :: "'w flight \<Rightarrow> bool" where
  "oneLeader F \<longleftrightarrow>
     (\<forall>g h k c c'. leads (fl_threads F g) = Some (k, c) \<longrightarrow>
        leads (fl_threads F h) = Some (k, c') \<longrightarrow> g = h)"

definition registered :: "'w flight \<Rightarrow> bool" where
  "registered F \<longleftrightarrow> (\<forall>k c. fmlookup (fl_inflight F) k = Some c \<longleftrightarrow> owner F k c)"

definition allocated :: "'w flight \<Rightarrow> bool" where
  "allocated F \<longleftrightarrow>
     (\<forall>g k c. leads (fl_threads F g) = Some (k, c) \<longrightarrow> c < fl_next F \<and> fl_callKey F c = k) \<and>
     (\<forall>g c. waitsFor (fl_threads F g) = Some c \<longrightarrow> c < fl_next F)"

definition attended :: "'w flight \<Rightarrow> bool" where
  "attended F \<longleftrightarrow>
     (\<forall>c < fl_next F. call_done (fl_calls F c) \<or> (\<exists>h. pendingCall (fl_threads F h) = Some c))"

definition flightInv :: "go_unicode \<Rightarrow> 'w flight \<Rightarrow> bool" where
  "flightInv uc F \<longleftrightarrow> sysInv uc (fl_sys F) \<and>
     (\<forall>g. goodPc uc (fl_callKey F) (fl_threads F g)) \<and>
     (\<forall>c. goodCall uc (fl_callKey F c) (fl_calls F c)) \<and>
     oneLeader F \<and> registered F \<and> allocated F \<and> attended F"

lemma flightInv_init: "fwdInv uc (fst s) \<Longrightarrow> flightInv uc (flight_init s)"
  by (simp add: flightInv_def flight_init_def sysInv_def fwdInv_sound oneLeader_def registered_def
      owner_def allocated_def attended_def goodCall_def newCall_def)

text \<open>Steps that neither take, publish nor drop a call.\<close>

lemma flightInv_local:
  assumes inv: "flightInv uc F" and p: "leads p = leads (fl_threads F g)"
    "pendingCall p = pendingCall (fl_threads F g)" "\<forall>c. waitsFor p = Some c \<longrightarrow> c < fl_next F"
    "goodPc uc (fl_callKey F) p" and s: "sysInv uc s"
  shows "flightInv uc (setPc g p (F\<lparr>fl_sys := s\<rparr>))"
proof -
  let ?F = "setPc g p (F\<lparr>fl_sys := s\<rparr>)"
  have l: "leads (fl_threads ?F h) = leads (fl_threads F h)"
    "pendingCall (fl_threads ?F h) = pendingCall (fl_threads F h)" for h
    using p by (simp_all add: setPc_def)
  have "oneLeader ?F" "registered ?F" "attended ?F"
    using inv unfolding flightInv_def oneLeader_def registered_def owner_def attended_def l
    by (simp_all add: setPc_def)
  moreover have "allocated ?F"
    using inv p(3) unfolding flightInv_def allocated_def l by (auto simp: setPc_def)
  ultimately show ?thesis
    using inv p(4) s by (simp add: flightInv_def setPc_def)
qed

lemma goodPc_fresh:
  assumes "goodPc uc ck p" "\<forall>k c. leads p = Some (k, c) \<longrightarrow> c < n" "\<forall>c. waitsFor p = Some c \<longrightarrow> c < n"
  shows "goodPc uc (ck(n := k)) p"
  using assms by (cases p) auto

lemma flightInv_lead:
  assumes inv: "flightInv uc F" and g: "fl_threads F g = Checked req b key"
    and free: "fmlookup (fl_inflight F) key = None"
  shows "flightInv uc (setPc g (Leading req b key (fl_next F))
        (F\<lparr>fl_inflight := fmupd key (fl_next F) (fl_inflight F),
           fl_calls := (fl_calls F)(fl_next F := newCall),
           fl_callKey := (fl_callKey F)(fl_next F := key),
           fl_next := fl_next F + 1\<rparr>))" (is "flightInv uc ?F")
proof -
  from inv have parts: "oneLeader F" "registered F" "allocated F" "attended F"
    by (simp_all add: flightInv_def)
  have threads: "fl_threads ?F h = (if h = g then Leading req b key (fl_next F) else fl_threads F h)" for h
    by (simp add: setPc_def)
  have nolead: "leads (fl_threads F h) \<noteq> Some (key, c)" for h c
    using parts(2) free by (metis option.distinct(1) owner_def registered_def)
  have gnone: "leads (fl_threads F g) = None" "pendingCall (fl_threads F g) = None"
    using g by simp_all
  have "oneLeader ?F"
    using parts(1) nolead unfolding oneLeader_def threads by (auto split: if_splits)
  moreover have "registered ?F"
    unfolding registered_def owner_def threads
  proof (intro allI iffI)
    fix k c assume "fmlookup (fl_inflight ?F) k = Some c"
    then show "\<exists>h. leads (if h = g then Leading req b key (fl_next F) else fl_threads F h) = Some (k, c)"
      using parts(2) gnone unfolding registered_def owner_def
      by (cases "k = key") (auto simp: setPc_def intro: exI [of _ g], metis option.distinct(1))
  next
    fix k c assume "\<exists>h. leads (if h = g then Leading req b key (fl_next F) else fl_threads F h) = Some (k, c)"
    then show "fmlookup (fl_inflight ?F) k = Some c"
      using parts(2) nolead unfolding registered_def owner_def
      by (cases "k = key") (auto simp: setPc_def split: if_splits)
  qed
  moreover have "allocated ?F"
    using parts(3) unfolding allocated_def threads by (auto simp: setPc_def less_Suc_eq)
  moreover have "attended ?F"
    unfolding attended_def threads
  proof (intro allI impI)
    fix c assume "c < fl_next ?F"
    then consider "c = fl_next F" | "c < fl_next F" by (auto simp: setPc_def less_Suc_eq)
    then show "call_done (fl_calls ?F c) \<or>
      (\<exists>h. pendingCall (if h = g then Leading req b key (fl_next F) else fl_threads F h) = Some c)"
    proof cases
      case 1
      then show ?thesis by (auto intro: exI [of _ g])
    next
      case 2
      with parts(4) gnone show ?thesis
        unfolding attended_def by (auto simp: setPc_def) (metis option.distinct(1))
    qed
  qed
  moreover have "goodPc uc (fl_callKey ?F) (fl_threads ?F h)" for h
  proof (cases "h = g")
    case True
    have "goodPc uc (fl_callKey F) (Checked req b key)" using inv g by (metis flightInv_def)
    with True show ?thesis by (simp add: setPc_def)
  next
    case False
    have "goodPc uc (fl_callKey F) (fl_threads F h)" using inv by (simp add: flightInv_def)
    with parts(3) have "goodPc uc ((fl_callKey F)(fl_next F := key)) (fl_threads F h)"
      by (intro goodPc_fresh) (auto simp: allocated_def)
    with False show ?thesis by (simp add: setPc_def)
  qed
  moreover have "goodCall uc (fl_callKey ?F c) (fl_calls ?F c)" for c
    using inv by (auto simp: flightInv_def setPc_def goodCall_def newCall_def)
  ultimately show ?thesis using inv by (simp add: flightInv_def setPc_def)
qed

lemma flightInv_publish:
  assumes inv: "flightInv uc F" and g: "fl_threads F g = Queried req key c r"
  shows "flightInv uc (setPc g (Published req key c r)
    (F\<lparr>fl_calls := (fl_calls F)(c := finishCall r)\<rparr>))" (is "flightInv uc ?F")
proof -
  from inv have parts: "oneLeader F" "registered F" "allocated F" "attended F"
    by (simp_all add: flightInv_def)
  have threads: "fl_threads ?F h = (if h = g then Published req key c r else fl_threads F h)" for h
    by (simp add: setPc_def)
  have good: "goodPc uc (fl_callKey F) (Queried req key c r)"
    using inv g by (metis flightInv_def)
  have l: "leads (fl_threads ?F h) = leads (fl_threads F h)"
    "waitsFor (fl_threads ?F h) = waitsFor (fl_threads F h)" for h
    using g by (simp_all add: threads)
  have same: "fl_inflight ?F = fl_inflight F" "fl_next ?F = fl_next F" "fl_callKey ?F = fl_callKey F"
    "fl_sys ?F = fl_sys F" "fl_calls ?F = (fl_calls F)(c := finishCall r)"
    by (simp_all add: setPc_def)
  have "oneLeader ?F" "registered ?F" "allocated ?F"
    using parts(1-3) unfolding oneLeader_def registered_def owner_def allocated_def l same .
  moreover have "attended ?F"
    unfolding attended_def same threads
  proof (intro allI impI)
    fix d assume d: "d < fl_next F"
    show "call_done (((fl_calls F)(c := finishCall r)) d) \<or>
      (\<exists>h. pendingCall (if h = g then Published req key c r else fl_threads F h) = Some d)"
    proof (cases "d = c")
      case True
      then show ?thesis by (simp add: finishCall_def split: sum.split)
    next
      case False
      from parts(4) d consider "call_done (fl_calls F d)" | h where "pendingCall (fl_threads F h) = Some d"
        unfolding attended_def by blast
      then show ?thesis
      proof cases
        case (2 h)
        then have "h \<noteq> g" using g False by auto
        with 2 show ?thesis by (auto intro: exI [of _ h])
      qed (use False in simp)
    qed
  qed
  moreover have "goodPc uc (fl_callKey F) (fl_threads ?F h)" for h
    using inv good by (simp add: threads flightInv_def)
  moreover have "goodCall uc (fl_callKey F d) (((fl_calls F)(c := finishCall r)) d)" for d
    using inv good by (auto simp: flightInv_def goodCall_def finishCall_def split: sum.split)
  ultimately show ?thesis using inv by (simp add: flightInv_def same)
qed

lemma flightInv_remove:
  assumes inv: "flightInv uc F" and g: "fl_threads F g = Published req key c r"
  shows "flightInv uc (setPc g (Returned req (leaderResult (ID (p_Header req)) r))
    (F\<lparr>fl_inflight := fmdrop key (fl_inflight F)\<rparr>))" (is "flightInv uc ?F")
proof -
  let ?p = "Returned req (leaderResult (ID (p_Header req)) r)"
  from inv have parts: "oneLeader F" "registered F" "allocated F" "attended F"
    by (simp_all add: flightInv_def)
  have threads: "fl_threads ?F h = (if h = g then ?p else fl_threads F h)" for h
    by (simp add: setPc_def)
  have same: "fl_inflight ?F = fmdrop key (fl_inflight F)" "fl_next ?F = fl_next F"
    "fl_callKey ?F = fl_callKey F" "fl_sys ?F = fl_sys F" "fl_calls ?F = fl_calls F"
    by (simp_all add: setPc_def)
  have lg: "leads (fl_threads F g) = Some (key, c)" using g by simp
  then have others: "leads (fl_threads F h) = Some (key, c') \<Longrightarrow> h = g" for h c'
    using parts(1) unfolding oneLeader_def by metis
  have "oneLeader ?F" "allocated ?F"
    using parts(1,3) unfolding oneLeader_def allocated_def same threads by (auto split: if_splits)
  moreover have "registered ?F"
    unfolding registered_def owner_def same threads
  proof (intro allI iffI)
    fix k c' assume "fmlookup (fmdrop key (fl_inflight F)) k = Some c'"
    then have k: "k \<noteq> key" "fmlookup (fl_inflight F) k = Some c'" by (auto split: if_splits)
    then obtain h where h: "leads (fl_threads F h) = Some (k, c')"
      using parts(2) unfolding registered_def owner_def by blast
    then have "h \<noteq> g" using lg k(1) by auto
    with h show "\<exists>h. leads (if h = g then ?p else fl_threads F h) = Some (k, c')"
      by (auto intro: exI [of _ h])
  next
    fix k c' assume "\<exists>h. leads (if h = g then ?p else fl_threads F h) = Some (k, c')"
    then obtain h where h: "h \<noteq> g" "leads (fl_threads F h) = Some (k, c')"
      by (auto split: if_splits)
    then have "k \<noteq> key" using others by auto
    moreover have "fmlookup (fl_inflight F) k = Some c'"
      using h parts(2) unfolding registered_def owner_def by blast
    ultimately show "fmlookup (fmdrop key (fl_inflight F)) k = Some c'" by simp
  qed
  moreover have "attended ?F"
    unfolding attended_def same threads
  proof (intro allI impI)
    fix d assume "d < fl_next F"
    with parts(4) consider "call_done (fl_calls F d)" | h where "pendingCall (fl_threads F h) = Some d"
      unfolding attended_def by blast
    then show "call_done (fl_calls F d) \<or> (\<exists>h. pendingCall (if h = g then ?p else fl_threads F h) = Some d)"
    proof cases
      case (2 h)
      then have "h \<noteq> g" using g by auto
      with 2 show ?thesis by (auto intro: exI [of _ h])
    qed simp
  qed
  moreover have "goodPc uc (fl_callKey F) ?p"
  proof -
    have gp: "goodPc uc (fl_callKey F) (Published req key c r)" using inv g by (metis flightInv_def)
    then have ne: "p_Questions req \<noteq> []" by (auto simp: singleQuestion_def)
    show ?thesis
    proof (cases r)
      case (Inr v)
      with gp cachedFor_answer [of uc key v req 0] ne show ?thesis
        by (simp add: leaderResult_def)
    qed (use gp in \<open>simp add: leaderResult_def\<close>)
  qed
  then have "goodPc uc (fl_callKey F) (fl_threads ?F h)" for h
    using inv by (simp add: threads flightInv_def)
  ultimately show ?thesis using inv by (simp add: flightInv_def same)
qed

lemma sysInv_selectUpstream:
  "sysInv uc s \<Longrightarrow> selectUpstream env s = (x, s') \<Longrightarrow> sysInv uc s' \<and> x \<noteq> Inl ResolverPanic"
  using selectUpstream_core [of env s x s'] selectUpstream_no_panic [of s env x s']
  by (auto simp: sysInv_def sameCore_fields intro: cacheSound_core)

lemma sysInv_cacheLookup:
  "sysInv uc s \<Longrightarrow> cacheLookup env key s = (x, s') \<Longrightarrow> sysInv uc s'"
  using cacheLookup_sound(1,2) [of env key s x s' uc] by (simp add: keepsConfig_def sysInv_def)

lemma sysInv_onWorld: "sysInv uc s \<Longrightarrow> onWorld op s = (x, s') \<Longrightarrow> sysInv uc s'"
  using onWorld_D [of op s x s'] by (simp add: sysInv_def)

lemma singleQuestion_ne: "singleQuestion req \<Longrightarrow> p_Questions req \<noteq> []"
  by (auto simp: singleQuestion_def)

lemma callOutcome_good:
  assumes "goodCall uc k call" "call_done call" "singleQuestion req" "normalizeQuestionKey req = key_q k"
  shows "goodPc uc ck (Returned req (callOutcome (ID (p_Header req)) call))"
proof (cases "call_err call")
  case None
  with assms cachedFor_answer [of uc k "call_resp call" req 0] singleQuestion_ne [OF assms(3)]
  show ?thesis by (simp add: callOutcome_def goodCall_def)
next
  case (Some e)
  with assms show ?thesis by (auto simp: callOutcome_def goodCall_def)
qed

text \<open>A step that only moves one goroutine and the shared resolver state.\<close>

lemma flightInv_setPc:
  assumes "flightInv uc F" "leads p = leads (fl_threads F g)"
    "pendingCall p = pendingCall (fl_threads F g)" "\<forall>c. waitsFor p = Some c \<longrightarrow> c < fl_next F"
    "goodPc uc (fl_callKey F) p"
  shows "flightInv uc (setPc g p F)"
  using flightInv_local [OF assms, of "fl_sys F"] assms(1) by (simp add: flightInv_def)

lemma flightInv_step:
  assumes "flight_step uc env F F'" "flightInv uc F"
  shows "flightInv uc F'"
  using assms
proof (induction rule: flight_step.induct)
  case (select_error F g req b e s1)
  then show ?case
    using sysInv_selectUpstream [of uc "fl_sys F" env] by (intro flightInv_local) (auto simp: flightInv_def)
next
  case (select F g req b up s1)
  have "goodPc uc (fl_callKey F) (Entry req b)" using select by (metis flightInv_def)
  then show ?case
    using select sysInv_selectUpstream [of uc "fl_sys F" env]
    by (intro flightInv_local) (auto simp: flightInv_def cacheKeyOf_def)
next
  case (hit F g req b key v age et s1)
  have gp: "goodPc uc (fl_callKey F) (Selected req b key)" using hit by (metis flightInv_def)
  have sys: "sysInv uc (fl_sys F)" using hit by (simp add: flightInv_def)
  then have "cachedFor uc key v" using cacheLookup_sound(3) [OF hit(2)] by (auto simp: sysInv_def)
  from cachedFor_answer [OF this] gp have
    "upstreamAnswer uc req (ResponseBytes (cachedResult (ID (p_Header req)) v age))"
    by (simp add: cachedResult_def singleQuestion_ne)
  with hit sys sysInv_cacheLookup [OF sys hit(2)] show ?case by (intro flightInv_local) auto
next
  case (miss F g req b key s1)
  have "goodPc uc (fl_callKey F) (Selected req b key)" using miss by (metis flightInv_def)
  with miss show ?case
    using sysInv_cacheLookup [of uc "fl_sys F" env key] by (intro flightInv_local) (auto simp: flightInv_def)
next
  case (cancelled F g req b key e s1)
  then have "sysInv uc s1" unfolding flightInv_def by (blast intro: sysInv_onWorld)
  with cancelled show ?case by (intro flightInv_local) auto
next
  case (checked F g req b key s1)
  have "goodPc uc (fl_callKey F) (Missed req b key)" using checked by (metis flightInv_def)
  moreover have "sysInv uc s1" using checked unfolding flightInv_def by (blast intro: sysInv_onWorld)
  ultimately show ?case using checked by (intro flightInv_local) auto
next
  case (join F g req b key c)
  have gp: "goodPc uc (fl_callKey F) (Checked req b key)" using join by (metis flightInv_def)
  obtain h where "leads (fl_threads F h) = Some (key, c)"
    using join by (auto simp: flightInv_def registered_def owner_def)
  then have "c < fl_next F" "fl_callKey F c = key"
    using join by (auto simp: flightInv_def allocated_def)
  with join gp show ?case by (intro flightInv_setPc) auto
next
  case (query F g req b key c r s1)
  have gp: "goodPc uc (fl_callKey F) (Leading req b key c)" using query by (metis flightInv_def)
  have sys: "sysInv uc (fl_sys F)" using query by (simp add: flightInv_def)
  from gp sys queryAndCache_sound [OF _ _ _ query(2)]
  have qs: "sysInv uc s1" "r \<noteq> Inl ResolverPanic"
    "\<forall>v. r = Inr v \<longrightarrow> (\<exists>m. validateResponse uc req m = Inr () \<and> v = PatchTransactionID m 0)"
    by (auto simp: sysInv_def keepsConfig_def singleQuestion_ne)
  then have "\<forall>v. r = Inr v \<longrightarrow> cachedFor uc key v"
    using gp unfolding cachedFor_def by (metis goodPc.simps(7) singleQuestion_ne)
  with query gp qs show ?case by (intro flightInv_local) auto
next
  case (wake F g req c)
  have gp: "goodPc uc (fl_callKey F) (Waiting req c)" using wake by (metis flightInv_def)
  have "goodCall uc (fl_callKey F c) (fl_calls F c)" using wake by (simp add: flightInv_def)
  from callOutcome_good [OF this wake(2)] gp
  have "goodPc uc (fl_callKey F) (Returned req (callOutcome (ID (p_Header req)) (fl_calls F c)))"
    by simp
  with wake show ?case by (intro flightInv_setPc) auto
next
  case (give_up F g req c e s1)
  then have "sysInv uc s1" unfolding flightInv_def by (blast intro: sysInv_onWorld)
  with give_up show ?case by (intro flightInv_local) auto
next
  case (lead F g req b key)
  then show ?case by (intro flightInv_lead)
qed (auto intro: flightInv_setPc flightInv_publish flightInv_remove)

section \<open>Reachable states\<close>

definition flight_reachable :: "go_unicode \<Rightarrow> 'w env \<Rightarrow> 'w fwd \<Rightarrow> 'w flight \<Rightarrow> bool" where
  "flight_reachable uc env s F \<longleftrightarrow> (flight_step uc env)\<^sup>*\<^sup>* (flight_init s) F"

lemma flight_reachable_inv:
  assumes "flight_reachable uc env s F" "fwdInv uc (fst s)"
  shows "flightInv uc F"
  using assms(1) unfolding flight_reachable_def
proof (induction rule: rtranclp_induct)
  case base
  show ?case by (rule flightInv_init [OF assms(2)])
next
  case (step F F')
  then show ?case by (blast intro: flightInv_step)
qed

lemma flight_one_leader:
  assumes "flightInv uc F" "leads (fl_threads F g) = Some (k, c)" "leads (fl_threads F h) = Some (k, c')"
  shows "g = h"
  using assms unfolding flightInv_def oneLeader_def by blast

lemma flight_waiter_progress:
  assumes "flightInv uc F" "fl_threads F g = Waiting req c"
  shows "call_done (fl_calls F c) \<or> (\<exists>h. pendingCall (fl_threads F h) = Some c)"
  using assms unfolding flightInv_def allocated_def attended_def by (metis waitsFor.simps(1))

text \<open>
  A leader is never blocked: two of its steps lead to a state in which the waiters of
  its call can return.
\<close>

lemma publish_done:
  assumes "fl_threads F h = Queried req k c r" "g \<noteq> h"
  shows "\<exists>F'. flight_step uc env F F' \<and> fl_threads F' g = fl_threads F g \<and> call_done (fl_calls F' c)"
  by (rule exI, rule conjI, rule flight_step.publish [OF assms(1)])
    (use assms(2) in \<open>simp add: setPc_def finishCall_def split: sum.split\<close>)

lemma leader_finishes:
  assumes "pendingCall (fl_threads F h) = Some c" "g \<noteq> h"
  shows "\<exists>F'. (flight_step uc env)\<^sup>*\<^sup>* F F' \<and> fl_threads F' g = fl_threads F g \<and>
    call_done (fl_calls F' c)"
proof (cases "fl_threads F h")
  case (Leading req b k c')
  obtain r s1 where r: "queryAndCache uc env k req b (fl_sys F) = (r, s1)" by (rule prod.exhaust)
  define F1 where "F1 = setPc h (Queried req k c r) (F\<lparr>fl_sys := s1\<rparr>)"
  have step: "flight_step uc env F F1"
    unfolding F1_def using Leading assms(1) by (intro flight_step.query [OF _ r]) simp
  have "fl_threads F1 h = Queried req k c r" by (simp add: F1_def setPc_def)
  from publish_done [OF this assms(2), of uc env] obtain F2 where "flight_step uc env F1 F2"
    "fl_threads F2 g = fl_threads F1 g" "call_done (fl_calls F2 c)" by blast
  moreover have "fl_threads F1 g = fl_threads F g" using assms(2) by (simp add: F1_def setPc_def)
  ultimately show ?thesis using step by (metis converse_rtranclp_into_rtranclp rtranclp.rtrancl_refl)
next
  case (Queried req k c' r)
  with assms(1) have "fl_threads F h = Queried req k c r" by simp
  from publish_done [OF this assms(2)] show ?thesis by blast
qed (use assms in auto)

lemma waiter_wakes:
  assumes "flightInv uc F" "fl_threads F g = Waiting req c"
  shows "\<exists>F'. (flight_step uc env)\<^sup>*\<^sup>* F F' \<and>
    fl_threads F' g = Returned req (callOutcome (ID (p_Header req)) (fl_calls F' c))"
proof -
  have "\<exists>F1. (flight_step uc env)\<^sup>*\<^sup>* F F1 \<and> fl_threads F1 g = Waiting req c \<and> call_done (fl_calls F1 c)"
    using flight_waiter_progress [OF assms]
  proof
    assume "\<exists>h. pendingCall (fl_threads F h) = Some c"
    then obtain h where h: "pendingCall (fl_threads F h) = Some c" by blast
    then have "g \<noteq> h" using assms(2) by auto
    from leader_finishes [OF h this] assms(2) show ?thesis by auto
  qed (use assms(2) in blast)
  then obtain F1 where F1: "(flight_step uc env)\<^sup>*\<^sup>* F F1" "fl_threads F1 g = Waiting req c"
    "call_done (fl_calls F1 c)" by blast
  show ?thesis
    by (rule exI, rule conjI, rule rtranclp.rtrancl_into_rtrancl [OF F1(1) flight_step.wake [OF F1(2,3)]])
      (simp add: setPc_def)
qed

end
