(* ===== verification/Domain_Trie.thy ===== *)
theory Domain_Trie
  imports GoStrings "HOL-Library.AList"
begin

text \<open>
  \<open>internal/filtering/trie.go\<close>: the label trie behind whitelist and blacklist, and the
  exact-match domain set. A node's child map is an association list with distinct
  keys (Go maps have no order, and no operation depends on one). The reference
  semantics of a trie is the pair of sets of label paths at which the end flag and the
  wildcard flag are set; every operation is shown to act on these sets as it should,
  and the locale \<open>domain_store\<close> collects what the policy engine relies on.
\<close>

section \<open>Definitions\<close>

datatype trieNode = Node (children: "(string \<times> trieNode) list") (isEnd: bool) (isWild: bool)

record DomainTrie =
  trie_root :: trieNode
  trie_size :: int

definition newTrieNode :: trieNode where
  "newTrieNode = Node [] False False"

definition NewDomainTrie :: DomainTrie where
  "NewDomainTrie = \<lparr>trie_root = newTrieNode, trie_size = 0\<rparr>"

definition normalizeDomain :: "go_unicode \<Rightarrow> string \<Rightarrow> string" where
  "normalizeDomain uc domain = TrimSuffix (ToLower uc (TrimSpace uc domain)) ''.''"

text \<open>The in-place reversal loop over the first half of the labels.\<close>

definition swapEnds :: "nat \<Rightarrow> nat \<Rightarrow> 'a list \<Rightarrow> 'a list" where
  "swapEnds n i xs = xs[i := xs ! (n - 1 - i), n - 1 - i := xs ! i]"

definition reversedLabels :: "string \<Rightarrow> string list" where
  "reversedLabels domain =
     (let labels = Split CHR ''.'' domain; n = length labels
      in fold (swapEnds n) [0..<n div 2] labels)"

definition childAt :: "string \<Rightarrow> trieNode \<Rightarrow> trieNode option" where
  "childAt l n = map_of (children n) l"

definition childOrNew :: "string \<Rightarrow> trieNode \<Rightarrow> trieNode" where
  "childOrNew l n = (case childAt l n of None \<Rightarrow> newTrieNode | Some c \<Rightarrow> c)"

definition setChild :: "string \<Rightarrow> trieNode \<Rightarrow> trieNode \<Rightarrow> trieNode" where
  "setChild l c n = Node (AList.update l c (children n)) (isEnd n) (isWild n)"

definition dropChild :: "string \<Rightarrow> trieNode \<Rightarrow> trieNode" where
  "dropChild l n = Node (AList.delete l (children n)) (isEnd n) (isWild n)"

text \<open>The walk of \<open>Add\<close>: the new node, and whether the size grows.\<close>

fun addLabels :: "string list \<Rightarrow> bool \<Rightarrow> trieNode \<Rightarrow> trieNode \<times> bool" where
  "addLabels [] wildcard n = (Node (children n) True (isWild n \<or> wildcard), \<not> isEnd n)"
| "addLabels (l # ls) wildcard n =
     (let (c, grew) = addLabels ls wildcard (childOrNew l n) in (setChild l c n, grew))"

definition Trie_Add :: "go_unicode \<Rightarrow> DomainTrie \<Rightarrow> string \<Rightarrow> bool \<Rightarrow> DomainTrie" where
  "Trie_Add uc t domain0 wildcard =
     (let domain = normalizeDomain uc domain0 in
      if domain = '''' then t
      else
        (let labels = reversedLabels domain in
         if labels = [] then t
         else
           (let (n, grew) = addLabels labels wildcard (trie_root t)
            in \<lparr>trie_root = n, trie_size = trie_size t + (if grew then 1 else 0)\<rparr>)))"

fun containsLoop :: "trieNode \<Rightarrow> string list \<Rightarrow> bool" where
  "containsLoop n [] = isEnd n"
| "containsLoop n (l # ls) =
     (case childAt l n of
        None \<Rightarrow> False
      | Some c \<Rightarrow> if isWild c \<and> ls \<noteq> [] then True else containsLoop c ls)"

definition Trie_Contains :: "go_unicode \<Rightarrow> DomainTrie \<Rightarrow> string \<Rightarrow> bool" where
  "Trie_Contains uc t domain0 =
     (let domain = normalizeDomain uc domain0 in
      if domain = '''' then False
      else
        (let labels = reversedLabels domain in
         if labels = [] then False else containsLoop (trie_root t) labels))"

definition Trie_Size :: "DomainTrie \<Rightarrow> int" where
  "Trie_Size t = trie_size t"

text \<open>
  \<open>Remove\<close> walks down, clears the flags and prunes bottom-up until a node still has
  structure; \<^const>\<open>None\<close> is the result \<open>false\<close>.
\<close>

definition prunable :: "trieNode \<Rightarrow> bool" where
  "prunable n \<longleftrightarrow> children n = [] \<and> \<not> isEnd n \<and> \<not> isWild n"

fun removeLabels :: "string list \<Rightarrow> trieNode \<Rightarrow> trieNode option" where
  "removeLabels [] n = (if \<not> isEnd n then None else Some (Node (children n) False False))"
| "removeLabels (l # ls) n =
     (case childAt l n of
        None \<Rightarrow> None
      | Some c \<Rightarrow>
          (case removeLabels ls c of
             None \<Rightarrow> None
           | Some c' \<Rightarrow> Some (if prunable c' then dropChild l n else setChild l c' n)))"

definition Trie_Remove :: "go_unicode \<Rightarrow> DomainTrie \<Rightarrow> string \<Rightarrow> bool \<times> DomainTrie" where
  "Trie_Remove uc t domain0 =
     (let domain = normalizeDomain uc domain0 in
      if domain = '''' then (False, t)
      else
        (let labels = reversedLabels domain in
         if labels = [] then (False, t)
         else
           (case removeLabels labels (trie_root t) of
              None \<Rightarrow> (False, t)
            | Some n \<Rightarrow> (True, \<lparr>trie_root = n, trie_size = trie_size t - 1\<rparr>))))"

definition Trie_Clear :: "DomainTrie \<Rightarrow> DomainTrie" where
  "Trie_Clear t = t\<lparr>trie_root := newTrieNode, trie_size := 0\<rparr>"

lemma size_children [simp]: "size_list (size_prod (\<lambda>_. 0) size) (children n) < size n"
  by (cases n) simp

text \<open>\<open>mergeNode\<close> over the source node's children, with the number of new entries.\<close>

function mergeChildren :: "trieNode \<Rightarrow> (string \<times> trieNode) list \<Rightarrow> trieNode \<times> nat" where
  "mergeChildren dst [] = (dst, 0)"
| "mergeChildren dst ((label, srcChild) # rest) =
     (let dstChild = childOrNew label dst;
          grew = isEnd srcChild \<and> \<not> isEnd dstChild;
          dstChild1 = Node (children dstChild) (isEnd dstChild \<or> isEnd srcChild)
                        (isWild dstChild \<or> isWild srcChild);
          (dstChild2, n) = mergeChildren dstChild1 (children srcChild);
          (dst', m) = mergeChildren (setChild label dstChild2 dst) rest
      in (dst', (if grew then 1 else 0) + n + m))"
  by pat_completeness auto
termination
  by (relation "measure (\<lambda>(_, cs). size_list (size_prod (\<lambda>_. 0) size) cs)") (auto simp: less_SucI trans_less_add1)

definition Trie_Merge :: "DomainTrie \<Rightarrow> DomainTrie \<Rightarrow> DomainTrie" where
  "Trie_Merge t other =
     (let (n, k) = mergeChildren (trie_root t) (children (trie_root other))
      in \<lparr>trie_root = n, trie_size = trie_size t + int k\<rparr>)"

record DomainSet =
  set_domains :: "string set"

definition NewDomainSet :: DomainSet where
  "NewDomainSet = \<lparr>set_domains = {}\<rparr>"

definition Set_Add :: "go_unicode \<Rightarrow> DomainSet \<Rightarrow> string \<Rightarrow> DomainSet" where
  "Set_Add uc s domain0 =
     (let domain = normalizeDomain uc domain0
      in if domain = '''' then s else s\<lparr>set_domains := insert domain (set_domains s)\<rparr>)"

definition Set_Contains :: "go_unicode \<Rightarrow> DomainSet \<Rightarrow> string \<Rightarrow> bool" where
  "Set_Contains uc s domain0 =
     (let domain = normalizeDomain uc domain0
      in if domain = '''' then False else domain \<in> set_domains s)"

definition Set_Size :: "DomainSet \<Rightarrow> nat" where
  "Set_Size s = card (set_domains s)"

definition Set_Clear :: "DomainSet \<Rightarrow> DomainSet" where
  "Set_Clear s = s\<lparr>set_domains := {}\<rparr>"

section \<open>Labels\<close>

lemma length_swapEnds [simp]: "length (swapEnds n i xs) = length xs"
  by (simp add: swapEnds_def)

lemma length_swap_loop [simp]: "length (fold (swapEnds n) is xs) = length xs"
  by (induction "is" arbitrary: xs) simp_all

lemma nth_swapEnds:
  assumes "length xs = n" "i < n" "j < n"
  shows "swapEnds n i xs ! j = (if j = i \<or> j = n - 1 - i then xs ! (n - 1 - j) else xs ! j)"
  using assms by (auto simp: swapEnds_def nth_list_update)

lemma swap_loop_nth:
  assumes "n = length xs" "k \<le> n div 2" "j < n"
  shows "fold (swapEnds n) [0..<k] xs ! j =
      (if j < k \<or> n - 1 - j < k then xs ! (n - 1 - j) else xs ! j)"
  using assms(2,3)
proof (induction k arbitrary: j)
  case (Suc k)
  let ?ys = "fold (swapEnds n) [0..<k] xs"
  have k: "k < n div 2" "k < n" using Suc.prems by simp_all
  have step: "fold (swapEnds n) [0..<Suc k] xs = swapEnds n k ?ys" by simp
  have "swapEnds n k ?ys ! j = (if j = k \<or> j = n - 1 - k then ?ys ! (n - 1 - j) else ?ys ! j)"
    using k Suc.prems assms(1) by (intro nth_swapEnds) simp_all
  moreover have "?ys ! j' = (if j' < k \<or> n - 1 - j' < k then xs ! (n - 1 - j') else xs ! j')"
    if "j' < n" for j' using Suc.IH that k by simp
  moreover have "(j = k \<or> j = n - 1 - k) = (j = k \<or> n - 1 - j = k)" using Suc.prems k by auto
  ultimately show ?case
    unfolding step using Suc.prems k by (auto simp: less_Suc_eq)
qed simp

lemma reversedLabels_eq: "reversedLabels d = rev (Split CHR ''.'' d)"
proof -
  let ?xs = "Split CHR ''.'' d"
  let ?n = "length ?xs"
  let ?f = "fold (swapEnds ?n) [0..<?n div 2] ?xs"
  have "?f ! j = rev ?xs ! j" if j: "j < ?n" for j
  proof -
    have "?f ! j = (if j < ?n div 2 \<or> ?n - 1 - j < ?n div 2 then ?xs ! (?n - 1 - j) else ?xs ! j)"
      using swap_loop_nth [of ?n ?xs "?n div 2" j] j by simp
    moreover have "?n - 1 - j = j" if "\<not> (j < ?n div 2 \<or> ?n - 1 - j < ?n div 2)"
      using that j by linarith
    ultimately show ?thesis using j by (auto simp: rev_nth)
  qed
  then show ?thesis
    by (simp add: reversedLabels_def Let_def list_eq_iff_nth_eq)
qed

section \<open>Semantics: flags at paths\<close>

fun nodeAt :: "trieNode \<Rightarrow> string list \<Rightarrow> trieNode option" where
  "nodeAt n [] = Some n"
| "nodeAt n (l # ls) = (case childAt l n of None \<Rightarrow> None | Some c \<Rightarrow> nodeAt c ls)"

definition endAt :: "trieNode \<Rightarrow> string list \<Rightarrow> bool" where
  "endAt n p \<longleftrightarrow> (case nodeAt n p of None \<Rightarrow> False | Some m \<Rightarrow> isEnd m)"

definition wildAt :: "trieNode \<Rightarrow> string list \<Rightarrow> bool" where
  "wildAt n p \<longleftrightarrow> (case nodeAt n p of None \<Rightarrow> False | Some m \<Rightarrow> isWild m)"

lemma flags_Nil [simp]: "endAt n [] = isEnd n" "wildAt n [] = isWild n"
  by (simp_all add: endAt_def wildAt_def)

lemma flags_Cons:
  "endAt n (l # p) = (case childAt l n of None \<Rightarrow> False | Some c \<Rightarrow> endAt c p)"
  "wildAt n (l # p) = (case childAt l n of None \<Rightarrow> False | Some c \<Rightarrow> wildAt c p)"
  by (simp_all add: endAt_def wildAt_def split: option.split)

lemma flags_new [simp]: "\<not> endAt newTrieNode p" "\<not> wildAt newTrieNode p"
  by (cases p; simp add: flags_Cons newTrieNode_def childAt_def)+

lemma flags_childOrNew:
  "endAt n (l # p) = endAt (childOrNew l n) p" "wildAt n (l # p) = wildAt (childOrNew l n) p"
  by (simp_all add: flags_Cons childOrNew_def split: option.split)

lemma childAt_setChild [simp]: "childAt l' (setChild l c n) = (if l' = l then Some c else childAt l' n)"
  by (simp add: childAt_def setChild_def update_conv)

lemma childAt_dropChild [simp]: "childAt l' (dropChild l n) = (if l' = l then None else childAt l' n)"
  by (simp add: childAt_def dropChild_def delete_conv)

lemma node_setChild [simp]:
  "isEnd (setChild l c n) = isEnd n" "isWild (setChild l c n) = isWild n"
  "isEnd (dropChild l n) = isEnd n" "isWild (dropChild l n) = isWild n"
  by (simp_all add: setChild_def dropChild_def)

lemma childAt_Node [simp]: "childAt l (Node (children n) e w) = childAt l n"
  by (simp add: childAt_def)

lemma addLabels_flags:
  assumes "addLabels p w n = (n', grew)"
  shows "endAt n' q \<longleftrightarrow> q = p \<or> endAt n q" "wildAt n' q \<longleftrightarrow> (q = p \<and> w) \<or> wildAt n q"
    "grew \<longleftrightarrow> \<not> endAt n p"
proof -
  have "(endAt n' q \<longleftrightarrow> q = p \<or> endAt n q) \<and> (wildAt n' q \<longleftrightarrow> (q = p \<and> w) \<or> wildAt n q) \<and>
      (grew \<longleftrightarrow> \<not> endAt n p)" for q
    using assms
  proof (induction p arbitrary: n n' q)
    case Nil
    then show ?case by (cases q) (auto simp: flags_Cons)
  next
    case (Cons l p)
    from Cons.prems obtain c where c: "addLabels p w (childOrNew l n) = (c, grew)" "n' = setChild l c n"
      by (auto split: prod.splits)
    note IH = Cons.IH [OF c(1)]
    show ?case
    proof (cases q)
      case Nil
      then show ?thesis using c(2) IH by (simp add: flags_childOrNew)
    next
      case (Cons l' q')
      then show ?thesis
        using c(2) IH by (cases "l' = l") (simp_all add: flags_Cons(1,2) [of "setChild l c n"]
            flags_childOrNew [of n], simp_all add: flags_Cons flip: flags_childOrNew)
    qed
  qed
  then show "endAt n' q \<longleftrightarrow> q = p \<or> endAt n q" "wildAt n' q \<longleftrightarrow> (q = p \<and> w) \<or> wildAt n q"
    "grew \<longleftrightarrow> \<not> endAt n p" by blast+
qed

lemma removeLabels_None_iff: "removeLabels p n = None \<longleftrightarrow> \<not> endAt n p"
  by (induction p n rule: removeLabels.induct) (auto simp: flags_Cons split: option.splits)

lemma prunable_flags: "prunable n \<Longrightarrow> \<not> endAt n p \<and> \<not> wildAt n p"
  by (cases p) (auto simp: prunable_def flags_Cons childAt_def)

lemma removeLabels_flags:
  assumes "removeLabels p n = Some n'"
  shows "(endAt n' q \<longleftrightarrow> q \<noteq> p \<and> endAt n q) \<and> (wildAt n' q \<longleftrightarrow> q \<noteq> p \<and> wildAt n q)"
  using assms
proof (induction p arbitrary: n n' q)
  case Nil
  then show ?case by (cases q) (auto simp: flags_Cons split: if_splits)
next
  case (Cons l p)
  from Cons.prems obtain c c' where c: "childAt l n = Some c" "removeLabels p c = Some c'"
    "n' = (if prunable c' then dropChild l n else setChild l c' n)"
    by (auto split: option.splits)
  note IH = Cons.IH [OF c(2)]
  show ?case
  proof (cases q)
    case Nil
    then show ?thesis using c(3) by simp
  next
    case (Cons l' q')
    then show ?thesis
      using c IH [of q'] prunable_flags [of c' q'] by (cases "l' = l") (auto simp: flags_Cons)
  qed
qed

lemma containsLoop_iff:
  "containsLoop n p \<longleftrightarrow> endAt n p \<or> (\<exists>k. 0 < k \<and> k < length p \<and> wildAt n (take k p))"
proof (induction p arbitrary: n)
  case (Cons l ls)
  show ?case
  proof (cases "childAt l n")
    case None
    then have "\<not> wildAt n (take k (l # ls))" if "0 < k" for k
      using that by (cases k) (auto simp: flags_Cons)
    with None show ?thesis by (auto simp: flags_Cons)
  next
    case (Some c)
    have "(\<exists>k. 0 < k \<and> k < length (l # ls) \<and> wildAt n (take k (l # ls))) \<longleftrightarrow>
        (\<exists>k. k < length ls \<and> wildAt c (take k ls))"
      using Some by (auto simp: flags_Cons gr0_conv_Suc)
    also have "\<dots> \<longleftrightarrow> (ls \<noteq> [] \<and> isWild c) \<or> (\<exists>k. 0 < k \<and> k < length ls \<and> wildAt c (take k ls))"
      by (metis bot_nat_0.not_eq_extremum flags_Nil(2) length_greater_0_conv take_0)
    finally show ?thesis using Some Cons.IH [of c] by (auto simp: flags_Cons)
  qed
qed simp

section \<open>Well-formed tries\<close>

text \<open>Distinct keys in every child map, and a wildcard only where an entry ends.\<close>

lemma size_child: "(l, c) \<in> set cs \<Longrightarrow> size c < Suc (size_list (size_prod (\<lambda>_. 0) size) cs)"
  by (induction cs) (auto simp: less_SucI)

function wfNode :: "trieNode \<Rightarrow> bool" where
  "wfNode (Node cs e w) \<longleftrightarrow> distinct (map fst cs) \<and> (w \<longrightarrow> e) \<and> (\<forall>p \<in> set cs. wfNode (snd p))"
  by pat_completeness auto
termination
  by (relation "measure size") (auto intro: size_child)

definition wfChildren :: "(string \<times> trieNode) list \<Rightarrow> bool" where
  "wfChildren cs \<longleftrightarrow> distinct (map fst cs) \<and> (\<forall>p \<in> set cs. wfNode (snd p))"

lemma wfNode_iff: "wfNode n \<longleftrightarrow> wfChildren (children n) \<and> (isWild n \<longrightarrow> isEnd n)"
  by (cases n) (auto simp: wfChildren_def)

declare wfNode.simps [simp del]

lemma wfNode_Node: "wfNode (Node cs e w) \<longleftrightarrow> wfChildren cs \<and> (w \<longrightarrow> e)"
  by (simp add: wfNode_iff)

lemma wfChildren_update:
  assumes "wfChildren cs" "wfNode c" shows "wfChildren (AList.update l c cs)"
proof -
  have "set (AList.update l c cs) \<subseteq> insert (l, c) (set cs)"
    by (induction cs) auto
  with assms show ?thesis by (auto simp: wfChildren_def distinct_update)
qed

lemma wfNode_setChild: "wfNode n \<Longrightarrow> wfNode c \<Longrightarrow> wfNode (setChild l c n)"
  by (simp add: wfNode_iff [of n] setChild_def wfNode_Node wfChildren_update)

lemma wfNode_dropChild: "wfNode n \<Longrightarrow> wfNode (dropChild l n)"
proof -
  assume "wfNode n"
  moreover have "set (AList.delete l (children n)) \<subseteq> set (children n)"
    by (auto simp: AList.delete_eq)
  ultimately show ?thesis
    by (auto simp: wfNode_iff [of n] dropChild_def wfNode_Node wfChildren_def distinct_delete)
qed

lemma wfNode_childAt: "wfNode n \<Longrightarrow> childAt l n = Some c \<Longrightarrow> wfNode c"
  by (auto simp: wfNode_iff [of n] wfChildren_def childAt_def dest: map_of_SomeD)

lemma wfNode_new: "wfNode newTrieNode"
  by (simp add: newTrieNode_def wfNode.simps)

lemma wfNode_childOrNew: "wfNode n \<Longrightarrow> wfNode (childOrNew l n)"
  by (auto simp: childOrNew_def wfNode_new intro: wfNode_childAt split: option.split)

lemma wfNode_flags:
  "wfNode n \<Longrightarrow> (w \<longrightarrow> e) \<Longrightarrow> wfNode (Node (children n) e w)"
  by (simp add: wfNode_iff)

lemma wfNode_addLabels: "wfNode n \<Longrightarrow> wfNode (fst (addLabels p w n))"
proof (induction p arbitrary: n)
  case (Cons l p)
  obtain c g where c: "addLabels p w (childOrNew l n) = (c, g)" by (rule prod.exhaust)
  from Cons.IH [OF wfNode_childOrNew [OF Cons.prems, of l]] c Cons.prems show ?case
    by (simp add: wfNode_setChild)
qed (simp add: wfNode_flags)

lemma wfNode_removeLabels: "removeLabels p n = Some n' \<Longrightarrow> wfNode n \<Longrightarrow> wfNode n'"
proof (induction p arbitrary: n n')
  case (Cons l p)
  then obtain c c' where c: "childAt l n = Some c" "removeLabels p c = Some c'"
    "n' = (if prunable c' then dropChild l n else setChild l c' n)"
    by (auto split: option.splits)
  with Cons.IH [OF c(2)] wfNode_childAt [OF Cons.prems(2) c(1)] Cons.prems(2) show ?case
    by (simp add: wfNode_setChild wfNode_dropChild)
qed (auto simp: wfNode_flags split: if_splits)

section \<open>Merging\<close>

definition orAt :: "(trieNode \<Rightarrow> string list \<Rightarrow> bool) \<Rightarrow> (string \<times> trieNode) list \<Rightarrow> string list \<Rightarrow> bool" where
  "orAt f cs q \<longleftrightarrow> (\<exists>l q' c. q = l # q' \<and> map_of cs l = Some c \<and> f c q')"

lemma orAt_children: "q \<noteq> [] \<Longrightarrow> orAt endAt (children n) q = endAt n q"
  "q \<noteq> [] \<Longrightarrow> orAt wildAt (children n) q = wildAt n q"
  by (cases q; auto simp: orAt_def flags_Cons childAt_def split: option.splits)+

lemma orAt_Cons:
  "orAt f ((l, c) # cs) (l' # q) \<longleftrightarrow> (if l' = l then f c q else orAt f cs (l' # q))"
  "\<not> orAt f cs []"
  by (auto simp: orAt_def)

lemma orAt_fresh: "l \<notin> fst ` set cs \<Longrightarrow> \<not> orAt f cs (l # q)"
  by (auto simp: orAt_def dest: map_of_SomeD) (metis fst_conv image_eqI map_of_SomeD)

lemma mergeChildren_flags:
  assumes "wfChildren cs" "mergeChildren dst cs = (n, k)"
  shows "(endAt n q \<longleftrightarrow> endAt dst q \<or> orAt endAt cs q) \<and> (wildAt n q \<longleftrightarrow> wildAt dst q \<or> orAt wildAt cs q)"
  using assms
proof (induction dst cs arbitrary: n k q rule: mergeChildren.induct)
  case (1 dst)
  then show ?case by (auto simp: orAt_def)
next
  case (2 dst label src rest)
  define d where "d = childOrNew label dst"
  define d1 where "d1 = Node (children d) (isEnd d \<or> isEnd src) (isWild d \<or> isWild src)"
  obtain d2 k1 where d2: "mergeChildren d1 (children src) = (d2, k1)" by (rule prod.exhaust)
  obtain k2 where rest: "mergeChildren (setChild label d2 dst) rest = (n, k2)"
    using "2.prems"(2) d2 by (auto simp: d1_def d_def Let_def split: prod.splits)
  have wf: "wfChildren (children src)" "wfChildren rest" "label \<notin> fst ` set rest"
    using "2.prems"(1) by (auto simp: wfChildren_def wfNode_iff [of src])
  have child: "endAt d2 q' \<longleftrightarrow> endAt d1 q' \<or> orAt endAt (children src) q'"
    "wildAt d2 q' \<longleftrightarrow> wildAt d1 q' \<or> orAt wildAt (children src) q'" for q'
    using "2.IH"(1) [OF _ _ _ wf(1) d2 [unfolded d1_def d_def]] by (simp_all add: d1_def d_def)
  have d1f: "endAt d2 q' \<longleftrightarrow> endAt d q' \<or> endAt src q'" "wildAt d2 q' \<longleftrightarrow> wildAt d q' \<or> wildAt src q'" for q'
    unfolding child by (cases q'; simp add: d1_def orAt_children orAt_Cons(2) flags_Cons)+
  have restf: "endAt n q \<longleftrightarrow> endAt (setChild label d2 dst) q \<or> orAt endAt rest q"
    "wildAt n q \<longleftrightarrow> wildAt (setChild label d2 dst) q \<or> orAt wildAt rest q" for q
    using "2.IH"(2) [OF refl refl refl d2 [unfolded d1_def d_def, symmetric] refl wf(2) rest] by simp_all
  show ?case
  proof (cases q)
    case Nil
    then show ?thesis using restf [of "[]"] by (simp add: orAt_Cons(2))
  next
    case (Cons l' q')
    show ?thesis
    proof (cases "l' = label")
      case True
      then show ?thesis
        unfolding restf Cons using orAt_fresh [OF wf(3)]
        by (simp add: orAt_Cons(1) flags_Cons(1,2) [of "setChild label d2 dst"] d1f d_def
            flags_childOrNew [of dst])
    next
      case False
      then show ?thesis unfolding restf Cons by (simp add: orAt_Cons(1) flags_Cons)
    qed
  qed
qed

text \<open>The number of new entries is counted exactly.\<close>

definition entries :: "trieNode \<Rightarrow> string list set" where
  "entries n = {p. endAt n p}"

lemma entries_setChild:
  "entries (setChild l c n) =
   (entries n - (#) l ` entries (childOrNew l n)) \<union> (#) l ` entries c"
proof (rule set_eqI)
  fix q show "q \<in> entries (setChild l c n) \<longleftrightarrow>
      q \<in> (entries n - (#) l ` entries (childOrNew l n)) \<union> (#) l ` entries c"
  proof (cases q)
    case (Cons l' q')
    then show ?thesis
      by (cases "l' = l")
        (auto simp: entries_def flags_Cons(1) [of "setChild l c n"] flags_childOrNew(1) [of n l]
           flags_Cons(1) [of n l'])
  qed (auto simp: entries_def)
qed

lemma card_entries_setChild:
  assumes "finite (entries n)" "finite (entries c)"
  shows "finite (entries (setChild l c n))"
    "card (entries (setChild l c n)) + card (entries (childOrNew l n)) = card (entries n) + card (entries c)"
proof -
  let ?old = "(#) l ` entries (childOrNew l n)" and ?new = "(#) l ` entries c"
  have sub: "?old \<subseteq> entries n" by (auto simp: entries_def flags_childOrNew(1))
  have disj: "(entries n - ?old) \<inter> ?new = {}" by (auto simp: entries_def flags_childOrNew(1))
  have cards: "card ?old = card (entries (childOrNew l n))" "card ?new = card (entries c)"
    by (simp_all add: card_image)
  show "finite (entries (setChild l c n))" using assms by (simp add: entries_setChild)
  have "card (entries (setChild l c n)) = card (entries n - ?old) + card ?new"
    using assms disj by (simp add: entries_setChild card_Un_disjoint)
  moreover have "card (entries n - ?old) + card ?old = card (entries n)"
    using sub assms(1) by (metis card_Diff_subset card_mono diff_add finite_subset)
  ultimately show "card (entries (setChild l c n)) + card (entries (childOrNew l n)) =
      card (entries n) + card (entries c)" using cards by simp
qed

lemma finite_entries_childOrNew:
  assumes "finite (entries n)" shows "finite (entries (childOrNew l n))"
proof -
  have "(#) l ` entries (childOrNew l n) \<subseteq> entries n" by (auto simp: entries_def flags_childOrNew(1))
  with assms have "finite ((#) l ` entries (childOrNew l n))" by (rule rev_finite_subset)
  then show ?thesis by (rule finite_imageD) simp
qed

lemma mergeChildren_count:
  assumes "mergeChildren dst cs = (n, k)" "finite (entries dst)"
  shows "finite (entries n) \<and> card (entries n) = card (entries dst) + k"
  using assms
proof (induction dst cs arbitrary: n k rule: mergeChildren.induct)
  case (2 dst label src rest)
  define d where "d = childOrNew label dst"
  define d1 where "d1 = Node (children d) (isEnd d \<or> isEnd src) (isWild d \<or> isWild src)"
  obtain d2 k1 where d2: "mergeChildren d1 (children src) = (d2, k1)" by (rule prod.exhaust)
  obtain k2 where rest: "mergeChildren (setChild label d2 dst) rest = (n, k2)"
    and k: "k = (if isEnd src \<and> \<not> isEnd d then 1 else 0) + k1 + k2"
    using "2.prems"(1) d2 by (auto simp: d1_def d_def Let_def split: prod.splits)
  have fin: "finite (entries d)" unfolding d_def by (rule finite_entries_childOrNew [OF "2.prems"(2)])
  have e1: "entries d1 = (if isEnd src then insert [] (entries d) else entries d)"
  proof (rule set_eqI)
    fix q show "q \<in> entries d1 \<longleftrightarrow> q \<in> (if isEnd src then insert [] (entries d) else entries d)"
      by (cases q) (auto simp: entries_def d1_def flags_Cons)
  qed
  have nil: "[] \<in> entries d \<longleftrightarrow> isEnd d" by (simp add: entries_def)
  have c1: "finite (entries d1)"
    "card (entries d1) = card (entries d) + (if isEnd src \<and> \<not> isEnd d then 1 else 0)"
    using fin nil by (auto simp: e1 card_insert_if)
  have c2: "finite (entries d2)" "card (entries d2) = card (entries d1) + k1"
    using "2.IH"(1) [OF refl refl refl d2 [unfolded d1_def d_def]] c1(1) by (simp_all add: d1_def d_def)
  note sc = card_entries_setChild [OF "2.prems"(2) c2(1), of label, folded d_def]
  have "finite (entries n) \<and> card (entries n) = card (entries (setChild label d2 dst)) + k2"
    using "2.IH"(2) [OF refl refl refl d2 [unfolded d1_def d_def, symmetric] refl rest sc(1)] .
  with sc(2) c2(2) c1(2) k show ?case by simp
qed simp

lemma wfNode_mergeChildren:
  assumes "mergeChildren dst cs = (n, k)" "wfNode dst" "wfChildren cs"
  shows "wfNode n"
  using assms
proof (induction dst cs arbitrary: n k rule: mergeChildren.induct)
  case (2 dst label src rest)
  define d where "d = childOrNew label dst"
  define d1 where "d1 = Node (children d) (isEnd d \<or> isEnd src) (isWild d \<or> isWild src)"
  obtain d2 k1 where d2: "mergeChildren d1 (children src) = (d2, k1)" by (rule prod.exhaust)
  obtain k2 where rest: "mergeChildren (setChild label d2 dst) rest = (n, k2)"
    using "2.prems"(1) d2 by (auto simp: d1_def d_def Let_def split: prod.splits)
  have wf: "wfNode src" "wfChildren rest" using "2.prems"(3) by (auto simp: wfChildren_def)
  have "wfNode d" unfolding d_def by (rule wfNode_childOrNew [OF "2.prems"(2)])
  with wf(1) have d1: "wfNode d1" by (auto simp: d1_def wfNode_Node wfNode_iff)
  have "wfNode d2"
    using "2.IH"(1) [OF refl refl refl d2 [unfolded d1_def d_def]] d1 wf(1)
    by (simp add: d1_def d_def wfNode_iff [of src])
  then show ?case
    using "2.IH"(2) [OF refl refl refl d2 [unfolded d1_def d_def, symmetric] refl rest]
      wfNode_setChild [OF "2.prems"(2)] wf(2) by simp
qed simp

section \<open>The contract of a domain store\<close>

text \<open>
  A domain store is described by two sets of label paths (top-level label first): the
  entries, and the entries that also match everything below them. \<open>path\<close> is the path
  of a domain name, undefined for a name that is empty after normalisation.
\<close>

locale domain_store =
  fixes ok :: "'d \<Rightarrow> bool" and path :: "string \<Rightarrow> string list option"
    and exact :: "'d \<Rightarrow> string list set" and wild :: "'d \<Rightarrow> string list set"
    and add :: "'d \<Rightarrow> string \<Rightarrow> bool \<Rightarrow> 'd" and remove :: "'d \<Rightarrow> string \<Rightarrow> 'd"
    and contains :: "'d \<Rightarrow> string \<Rightarrow> bool"
  assumes add_ok: "ok d \<Longrightarrow> ok (add d x w)"
    and remove_ok: "ok d \<Longrightarrow> ok (remove d x)"
    and wild_exact: "ok d \<Longrightarrow> wild d \<subseteq> exact d"
    and root_free: "ok d \<Longrightarrow> [] \<notin> exact d"
    and contains_path: "ok d \<Longrightarrow> contains d x \<longleftrightarrow>
      (\<exists>p. path x = Some p \<and> (p \<in> exact d \<or> (\<exists>k. 0 < k \<and> k < length p \<and> take k p \<in> wild d)))"
    and add_exact: "ok d \<Longrightarrow> exact (add d x w) = exact d \<union> set_option (path x)"
    and add_wild: "ok d \<Longrightarrow> wild (add d x w) = wild d \<union> (if w then set_option (path x) else {})"
    and remove_exact: "ok d \<Longrightarrow> exact (remove d x) = exact d - set_option (path x)"
    and remove_wild: "ok d \<Longrightarrow> wild (remove d x) = wild d - set_option (path x)"
begin

lemma contains_iff:
  assumes "ok d"
  shows "contains d x \<longleftrightarrow>
    (\<exists>p. path x = Some p \<and> (p \<in> exact d \<or> (\<exists>q \<in> wild d. strict_prefix q p)))"
proof -
  have "(\<exists>k. 0 < k \<and> k < length p \<and> take k p \<in> wild d) \<longleftrightarrow> (\<exists>q \<in> wild d. strict_prefix q p)" for p
  proof
    assume "\<exists>k. 0 < k \<and> k < length p \<and> take k p \<in> wild d"
    then show "\<exists>q \<in> wild d. strict_prefix q p"
      by (metis length_take min.absorb4 order_less_irrefl strict_prefixI take_is_prefix)
  next
    assume "\<exists>q \<in> wild d. strict_prefix q p"
    then obtain q where q: "q \<in> wild d" "strict_prefix q p" by blast
    then have "q \<noteq> []" using wild_exact [OF assms] root_free [OF assms] by auto
    moreover have "length q < length p" "take (length q) p = q"
      using q(2) by (auto simp: prefix_length_less prefix_def strict_prefix_def)
    ultimately show "\<exists>k. 0 < k \<and> k < length p \<and> take k p \<in> wild d"
      using q(1) by (intro exI [of _ "length q"]) simp
  qed
  then show ?thesis by (simp add: contains_path [OF assms])
qed

lemma add_covers:
  assumes "ok d" "path x = Some p" "path y = Some q" "prefix p q"
  shows "contains (add d x True) y"
  using assms by (auto simp: contains_iff add_ok add_exact add_wild strict_prefix_def)

lemma add_mono: "ok d \<Longrightarrow> contains d y \<Longrightarrow> contains (add d x w) y"
  by (auto simp: contains_iff add_ok add_exact add_wild)

lemma add_only:
  assumes "ok d" "contains (add d x w) y" "\<not> contains d y"
  shows "\<exists>p q. path x = Some p \<and> path y = Some q \<and> prefix p q \<and> (w \<or> p = q)"
  using assms by (auto simp: contains_iff add_ok add_exact add_wild strict_prefix_def split: if_splits)

lemma remove_self:
  assumes "ok d" "path x = Some p" "contains (remove d x) x"
  shows "\<exists>q \<in> wild d. strict_prefix q p"
  using assms by (auto simp: contains_iff remove_ok remove_exact remove_wild)

lemma remove_other:
  assumes "ok d" "path x = Some p" "path y = Some q" "\<not> prefix p q"
  shows "contains (remove d x) y \<longleftrightarrow> contains d y"
  using assms by (auto simp: contains_iff remove_ok remove_exact remove_wild strict_prefix_def)

end

subsection \<open>The trie is a domain store\<close>

definition domainPath :: "go_unicode \<Rightarrow> string \<Rightarrow> string list option" where
  "domainPath uc x = (let d = normalizeDomain uc x in if d = '''' then None else Some (rev (Split CHR ''.'' d)))"

definition exactPaths :: "DomainTrie \<Rightarrow> string list set" where
  "exactPaths t = entries (trie_root t)"

definition wildPaths :: "DomainTrie \<Rightarrow> string list set" where
  "wildPaths t = {p. wildAt (trie_root t) p}"

definition trieInv :: "DomainTrie \<Rightarrow> bool" where
  "trieInv t \<longleftrightarrow> wfNode (trie_root t) \<and> \<not> isEnd (trie_root t) \<and> finite (exactPaths t) \<and>
     trie_size t = int (card (exactPaths t))"

lemma domainPath_Some: "domainPath uc x = Some p \<Longrightarrow> p \<noteq> [] \<and> reversedLabels (normalizeDomain uc x) = p"
  by (auto simp: domainPath_def Let_def reversedLabels_eq split: if_splits)

lemma domainPath_None: "domainPath uc x = None \<longleftrightarrow> normalizeDomain uc x = ''''"
  by (simp add: domainPath_def Let_def)

lemma trieInv_New: "trieInv NewDomainTrie" "exactPaths NewDomainTrie = {}" "wildPaths NewDomainTrie = {}"
  by (simp_all add: trieInv_def NewDomainTrie_def exactPaths_def entries_def wildPaths_def wfNode_new)
    (simp add: newTrieNode_def)

lemma Trie_Add_step:
  assumes "domainPath uc x = Some p" "addLabels p w (trie_root t) = (n, grew)"
  shows "Trie_Add uc t x w = \<lparr>trie_root = n, trie_size = trie_size t + (if grew then 1 else 0)\<rparr>"
proof -
  have "normalizeDomain uc x \<noteq> ''''" using assms(1) by (auto simp: domainPath_def)
  with assms domainPath_Some [OF assms(1)] show ?thesis by (simp add: Trie_Add_def)
qed

lemma Trie_Add_skip: "domainPath uc x = None \<Longrightarrow> Trie_Add uc t x w = t"
  by (simp add: Trie_Add_def domainPath_None)

lemma Trie_Add_paths:
  "exactPaths (Trie_Add uc t x w) = exactPaths t \<union> set_option (domainPath uc x)"
  "wildPaths (Trie_Add uc t x w) = wildPaths t \<union> (if w then set_option (domainPath uc x) else {})"
proof -
  have "exactPaths (Trie_Add uc t x w) = exactPaths t \<union> set_option (domainPath uc x) \<and>
    wildPaths (Trie_Add uc t x w) = wildPaths t \<union> (if w then set_option (domainPath uc x) else {})"
  proof (cases "domainPath uc x")
    case (Some p)
    obtain n grew where a: "addLabels p w (trie_root t) = (n, grew)" by (rule prod.exhaust)
    then show ?thesis
      using Some by (auto simp: Trie_Add_step [OF Some a] exactPaths_def entries_def wildPaths_def
          addLabels_flags [OF a])
  qed (simp add: Trie_Add_skip)
  then show "exactPaths (Trie_Add uc t x w) = exactPaths t \<union> set_option (domainPath uc x)"
    "wildPaths (Trie_Add uc t x w) = wildPaths t \<union> (if w then set_option (domainPath uc x) else {})"
    by blast+
qed

lemma trieInv_Add:
  assumes "trieInv t" shows "trieInv (Trie_Add uc t x w)"
proof (cases "domainPath uc x")
  case (Some p)
  obtain n grew where a: "addLabels p w (trie_root t) = (n, grew)" by (rule prod.exhaust)
  note step = Trie_Add_step [OF Some a] and paths = Trie_Add_paths [of uc t x w]
  have "wfNode n" using wfNode_addLabels [of "trie_root t" p w] assms a by (simp add: trieInv_def)
  moreover have "\<not> isEnd n"
    using addLabels_flags(1) [OF a, of "[]"] domainPath_Some [OF Some] assms by (auto simp: trieInv_def)
  moreover have "trie_size (Trie_Add uc t x w) = int (card (exactPaths (Trie_Add uc t x w)))"
  proof -
    have "p \<in> exactPaths t \<longleftrightarrow> \<not> grew"
      using addLabels_flags(3) [OF a] by (simp add: exactPaths_def entries_def)
    with assms show ?thesis
      unfolding paths(1) Some by (simp add: step trieInv_def card_insert_if)
  qed
  moreover have "finite (exactPaths (Trie_Add uc t x w))"
    using assms unfolding paths(1) Some by (simp add: trieInv_def)
  ultimately show ?thesis by (simp add: trieInv_def step)
qed (use assms in \<open>simp add: Trie_Add_skip\<close>)

lemma wfNode_wild_end: "wfNode n \<Longrightarrow> wildAt n p \<Longrightarrow> endAt n p"
proof (induction p arbitrary: n)
  case (Cons l p)
  then show ?case by (auto simp: flags_Cons split: option.splits dest: wfNode_childAt)
qed (simp add: wfNode_iff)

lemma trieInv_wild_exact: "trieInv t \<Longrightarrow> wildPaths t \<subseteq> exactPaths t"
  by (auto simp: trieInv_def wildPaths_def exactPaths_def entries_def intro: wfNode_wild_end)

lemma Trie_Remove_cases:
  assumes "trieInv t"
  obtains (absent) "Trie_Remove uc t x = (False, t)" "exactPaths t \<inter> set_option (domainPath uc x) = {}"
  | (present) p n where "domainPath uc x = Some p" "p \<in> exactPaths t"
      "removeLabels p (trie_root t) = Some n"
      "Trie_Remove uc t x = (True, \<lparr>trie_root = n, trie_size = trie_size t - 1\<rparr>)"
proof (cases "domainPath uc x")
  case None
  then show thesis using absent None [unfolded domainPath_None] by (simp add: Trie_Remove_def)
next
  case (Some p)
  have ne: "normalizeDomain uc x \<noteq> ''''" using Some by (auto simp: domainPath_def)
  show thesis
  proof (cases "removeLabels p (trie_root t)")
    case None
    with ne Some domainPath_Some [OF Some] removeLabels_None_iff [of p "trie_root t"] show thesis
      by (intro absent) (auto simp: Trie_Remove_def exactPaths_def entries_def)
  next
    case (Some n)
    with ne \<open>domainPath uc x = Some p\<close> domainPath_Some [OF \<open>domainPath uc x = Some p\<close>]
      removeLabels_None_iff [of p "trie_root t"] show thesis
      by (intro present [of p n]) (auto simp: Trie_Remove_def exactPaths_def entries_def)
  qed
qed

lemma Trie_Remove_paths:
  assumes "trieInv t"
  shows "exactPaths (snd (Trie_Remove uc t x)) = exactPaths t - set_option (domainPath uc x)"
    "wildPaths (snd (Trie_Remove uc t x)) = wildPaths t - set_option (domainPath uc x)"
proof -
  have "exactPaths (snd (Trie_Remove uc t x)) = exactPaths t - set_option (domainPath uc x) \<and>
    wildPaths (snd (Trie_Remove uc t x)) = wildPaths t - set_option (domainPath uc x)"
    using assms
  proof (cases rule: Trie_Remove_cases [where uc = uc and x = x])
    case absent
    with trieInv_wild_exact [OF assms] show ?thesis by auto
  next
    case (present p n)
    with removeLabels_flags [OF present(3)] show ?thesis
      by (auto simp: exactPaths_def entries_def wildPaths_def)
  qed
  then show "exactPaths (snd (Trie_Remove uc t x)) = exactPaths t - set_option (domainPath uc x)"
    "wildPaths (snd (Trie_Remove uc t x)) = wildPaths t - set_option (domainPath uc x)" by blast+
qed

lemma trieInv_Remove:
  assumes "trieInv t" shows "trieInv (snd (Trie_Remove uc t x))"
  using assms
proof (cases rule: Trie_Remove_cases [where uc = uc and x = x])
  case (present p n)
  have ex: "exactPaths (snd (Trie_Remove uc t x)) = exactPaths t - {p}"
    using Trie_Remove_paths(1) [OF assms, of uc x] present(1) by simp
  have "card (exactPaths t) > 0" using assms present(2) by (auto simp: trieInv_def card_gt_0_iff)
  then have "trie_size t - 1 = int (card (exactPaths t - {p}))"
    using assms present(2) by (simp add: trieInv_def)
  moreover have "wfNode n" using wfNode_removeLabels [OF present(3)] assms by (simp add: trieInv_def)
  moreover have "\<not> isEnd n"
    using removeLabels_flags [OF present(3), of "[]"] assms by (auto simp: trieInv_def)
  ultimately show ?thesis
    using assms ex present(4) by (simp add: trieInv_def)
qed (use assms in simp)

lemma Trie_Contains_iff:
  "Trie_Contains uc t x \<longleftrightarrow> (\<exists>p. domainPath uc x = Some p \<and>
     (p \<in> exactPaths t \<or> (\<exists>k. 0 < k \<and> k < length p \<and> take k p \<in> wildPaths t)))"
proof (cases "domainPath uc x")
  case None
  then show ?thesis using None [unfolded domainPath_None] by (simp add: Trie_Contains_def)
next
  case (Some p)
  have "normalizeDomain uc x \<noteq> ''''" using Some by (auto simp: domainPath_def)
  with Some domainPath_Some [OF Some] show ?thesis
    by (simp add: Trie_Contains_def containsLoop_iff exactPaths_def entries_def wildPaths_def)
qed

interpretation trie: domain_store trieInv "domainPath uc" exactPaths wildPaths
  "Trie_Add uc" "\<lambda>t x. snd (Trie_Remove uc t x)" "Trie_Contains uc" for uc
proof unfold_locales
  show "trieInv d \<Longrightarrow> [] \<notin> exactPaths d" for d
    by (simp add: trieInv_def exactPaths_def entries_def)
qed (simp_all add: Trie_Add_paths Trie_Remove_paths Trie_Contains_iff trieInv_Add trieInv_Remove
      trieInv_wild_exact)

lemma Trie_Merge_paths:
  assumes "trieInv t" "trieInv u"
  shows "exactPaths (Trie_Merge t u) = exactPaths t \<union> exactPaths u"
    "wildPaths (Trie_Merge t u) = wildPaths t \<union> wildPaths u" "trieInv (Trie_Merge t u)"
proof -
  obtain n k where m: "mergeChildren (trie_root t) (children (trie_root u)) = (n, k)" by (rule prod.exhaust)
  have res: "Trie_Merge t u = \<lparr>trie_root = n, trie_size = trie_size t + int k\<rparr>"
    by (simp add: Trie_Merge_def m)
  have wfc: "wfChildren (children (trie_root u))" using assms(2) by (simp add: trieInv_def wfNode_iff)
  have root: "\<not> isEnd (trie_root u)" "\<not> isWild (trie_root u)"
    using assms(2) by (auto simp: trieInv_def wfNode_iff)
  have or: "orAt endAt (children (trie_root u)) q = endAt (trie_root u) q"
    "orAt wildAt (children (trie_root u)) q = wildAt (trie_root u) q" for q
    using root by (cases "q = []"; simp add: orAt_children orAt_Cons(2))+
  note flags = mergeChildren_flags [OF wfc m, unfolded or]
  show ex: "exactPaths (Trie_Merge t u) = exactPaths t \<union> exactPaths u"
    "wildPaths (Trie_Merge t u) = wildPaths t \<union> wildPaths u"
    by (auto simp: res exactPaths_def entries_def wildPaths_def flags)
  have "finite (entries n) \<and> card (entries n) = card (entries (trie_root t)) + k"
    using assms(1) by (intro mergeChildren_count [OF m]) (simp add: trieInv_def exactPaths_def)
  moreover have "wfNode n" using wfNode_mergeChildren [OF m _ wfc] assms(1) by (simp add: trieInv_def)
  moreover have "\<not> isEnd n" using flags [of "[]"] root assms(1) by (simp add: trieInv_def)
  ultimately show "trieInv (Trie_Merge t u)"
    using assms(1) by (simp add: trieInv_def res exactPaths_def)
qed

end
