(* ===== verification/List_Parser.thy ===== *)
theory List_Parser
  imports Domain_Trie Dns_Name
begin

text \<open>
  \<open>internal/filtering/parser.go\<close>: blocklist parsing. The input is the text the reader
  delivers and whether reading failed; opening a file or fetching a URL is the
  parameter of \<open>ParseURL\<close>. \<open>bufio.Scanner\<close> and the range over the runes of a string
  are the language's, and are written out.
\<close>

unbundle bit_operations_syntax

section \<open>Go: lines and runes\<close>

definition dropCR :: "string \<Rightarrow> string" where
  "dropCR s = (if s \<noteq> [] \<and> byteOf (last s) = 0x0D then butlast s else s)"

definition newline :: char where
  "newline = charOf 0x0A"

text \<open>
  \<open>bufio.ScanLines\<close> with a buffer of at most \<open>1024*1024\<close> bytes: a line that does not
  fit is an error, an empty last line is not reported.
\<close>

definition maxLine :: nat where
  "maxLine = 1024 * 1024"

definition scanLines :: "string \<Rightarrow> string list option" where
  "scanLines text0 =
     (let parts = Split newline text0;
          lines = (if last parts = [] then butlast parts else parts)
      in if list_ex (\<lambda>l. length l \<ge> maxLine) lines then None else Some (map dropCR lines))"

definition contByte :: "byte \<Rightarrow> bool" where
  "contByte b \<longleftrightarrow> 0x80 \<le> b \<and> b \<le> 0xBF"

definition low6 :: "byte \<Rightarrow> nat" where
  "low6 b = unat (b AND 0x3F)"

text \<open>One step of \<open>range\<close> over a string: the rune (\<open>0xFFFD\<close> when the bytes are not
  UTF-8) and the number of bytes it takes.\<close>

fun decodeRune :: "bytes \<Rightarrow> nat \<times> nat" where
  "decodeRune [] = (0xFFFD, 0)"
| "decodeRune (b0 # bs) =
     (let bad = (0xFFFD, 1) in
      if b0 < 0x80 then (unat b0, 1)
      else if 0xC2 \<le> b0 \<and> b0 \<le> 0xDF then
        (case bs of
           b1 # _ \<Rightarrow> if contByte b1 then (unat (b0 AND 0x1F) * 64 + low6 b1, 2) else bad
         | _ \<Rightarrow> bad)
      else if 0xE0 \<le> b0 \<and> b0 \<le> 0xEF then
        (case bs of
           b1 # b2 # _ \<Rightarrow>
             if contByte b1 \<and> contByte b2 \<and> (b0 = 0xE0 \<longrightarrow> 0xA0 \<le> b1) \<and> (b0 = 0xED \<longrightarrow> b1 \<le> 0x9F)
             then ((unat (b0 AND 0x0F) * 64 + low6 b1) * 64 + low6 b2, 3) else bad
         | _ \<Rightarrow> bad)
      else if 0xF0 \<le> b0 \<and> b0 \<le> 0xF4 then
        (case bs of
           b1 # b2 # b3 # _ \<Rightarrow>
             if contByte b1 \<and> contByte b2 \<and> contByte b3 \<and>
                (b0 = 0xF0 \<longrightarrow> 0x90 \<le> b1) \<and> (b0 = 0xF4 \<longrightarrow> b1 \<le> 0x8F)
             then (((unat (b0 AND 0x07) * 64 + low6 b1) * 64 + low6 b2) * 64 + low6 b3, 4) else bad
         | _ \<Rightarrow> bad)
      else bad)"

function runes :: "bytes \<Rightarrow> nat list" where
  "runes bs = (if bs = [] then [] else fst (decodeRune bs) # runes (drop (max 1 (snd (decodeRune bs))) bs))"
  by pat_completeness auto
termination
  by (relation "measure length") auto

declare runes.simps [simp del]

section \<open>The parser\<close>

datatype ListFormat = FormatAuto | FormatDomains | FormatHosts | FormatAdblock

record Parser =
  IgnoreComments :: bool
  TrimWhitespace :: bool
  Timeout :: int

definition NewParser :: Parser where
  "NewParser = \<lparr>IgnoreComments = True, TrimWhitespace = True, Timeout = 60000\<rparr>"

definition SetTimeout :: "Parser \<Rightarrow> int \<Rightarrow> Parser" where
  "SetTimeout p ms = p\<lparr>Timeout := ms\<rparr>"

definition isAlphaNum :: "byte \<Rightarrow> bool" where
  "isAlphaNum c \<longleftrightarrow> (c \<ge> 0x61 \<and> c \<le> 0x7A) \<or> (c \<ge> 0x41 \<and> c \<le> 0x5A) \<or> (c \<ge> 0x30 \<and> c \<le> 0x39)"

definition validLabel :: "string \<Rightarrow> bool" where
  "validLabel label \<longleftrightarrow>
     \<not> (label = '''' \<or> length label > 63) \<and>
     \<not> (\<not> isAlphaNum (byteOf (label ! 0)) \<or> \<not> isAlphaNum (byteOf (label ! (length label - 1)))) \<and>
     list_all (\<lambda>c. \<not> (\<not> isAlphaNum (word_of_nat c) \<and> c \<noteq> 0x2D)) (runes (bytesOf label))"

definition isValidDomain :: "string \<Rightarrow> bool" where
  "isValidDomain domain \<longleftrightarrow>
     \<not> (domain = '''' \<or> length domain > 253) \<and> CHR ''.'' \<in> set domain \<and>
     list_all validLabel (Split CHR ''.'' domain)"

definition isComment :: "string \<Rightarrow> bool" where
  "isComment line \<longleftrightarrow> HasPrefix line ''#'' \<or> HasPrefix line ''!''"

definition detectFormat :: "go_unicode \<Rightarrow> string \<Rightarrow> ListFormat" where
  "detectFormat uc line0 =
     (let line = TrimSpace uc line0 in
      if isComment line then FormatAuto
      else if HasPrefix line ''||'' then FormatAdblock
      else if HasPrefix line ''0.0.0.0'' \<or> HasPrefix line ''127.0.0.1'' then FormatHosts
      else FormatDomains)"

definition parseAdblockLine :: "go_unicode \<Rightarrow> string \<Rightarrow> string \<times> bool" where
  "parseAdblockLine uc line =
     (if HasPrefix line ''@@'' then ('''', False)
      else if \<not> HasPrefix line ''||'' then ('''', False)
      else
        (let domain = cutAt CHR ''$'' (cutAt CHR ''^'' (TrimPrefix line ''||'')) in
         if CHR ''/'' \<in> set domain then ('''', False)
         else if CHR ''*'' \<in> set domain then ('''', False)
         else
           (let d = normalizeDomain uc domain in
            if d = '''' \<or> \<not> isValidDomain d then ('''', False) else (d, True))))"

definition parseHostsLine :: "go_unicode \<Rightarrow> string \<Rightarrow> string \<times> bool" where
  "parseHostsLine uc line0 =
     (let line = TrimSpace uc (cutAt CHR ''#'' line0) in
      if line = '''' then ('''', False)
      else
        (let fields = Fields uc line in
         if length fields < 2 then ('''', False)
         else
           (let ip = fields ! 0 in
            if ip \<noteq> ''0.0.0.0'' \<and> ip \<noteq> ''127.0.0.1'' then ('''', False)
            else
              (let domain = normalizeDomain uc (fields ! 1) in
               if domain = '''' \<or> \<not> isValidDomain domain then ('''', False)
               else if domain = ''localhost'' \<or> domain = ''localhost.localdomain'' then ('''', False)
               else (domain, True)))))"

definition parseDomainsLine :: "go_unicode \<Rightarrow> string \<Rightarrow> string \<times> bool" where
  "parseDomainsLine uc line =
     (let domain = normalizeDomain uc (TrimSpace uc (cutAt CHR ''#'' line))
      in if domain = '''' \<or> \<not> isValidDomain domain then ('''', False) else (domain, True))"

definition parseLine :: "go_unicode \<Rightarrow> Parser \<Rightarrow> string \<Rightarrow> ListFormat \<Rightarrow> string \<times> bool" where
  "parseLine uc p line format =
     (if line = '''' then ('''', False)
      else if IgnoreComments p \<and> isComment line then ('''', False)
      else
        (case format of
           FormatAdblock \<Rightarrow> parseAdblockLine uc line
         | FormatHosts \<Rightarrow> parseHostsLine uc line
         | FormatDomains \<Rightarrow> parseDomainsLine uc line
         | FormatAuto \<Rightarrow> parseDomainsLine uc line))"

text \<open>The scan loop: the format detected on one line is kept for the next.\<close>

fun parseLines :: "go_unicode \<Rightarrow> Parser \<Rightarrow> string list \<Rightarrow> ListFormat \<Rightarrow> DomainTrie \<Rightarrow> DomainTrie" where
  "parseLines uc p [] format trie = trie"
| "parseLines uc p (raw # rest) format trie =
     (let line = (if TrimWhitespace p then TrimSpace uc raw else raw) in
      if line = '''' then parseLines uc p rest format trie
      else
        (let format' = (if format = FormatAuto then detectFormat uc line else format);
             (domain, wildcard) = parseLine uc p line format'
         in parseLines uc p rest format'
              (if domain \<noteq> '''' then Trie_Add uc trie domain wildcard else trie)))"

datatype parser_error = ReadError | BuildRequestError | FetchError | HTTPError string

text \<open>\<open>Parse\<close> of what a reader delivers: the text, and whether reading ended in an error.\<close>

definition Parse ::
  "go_unicode \<Rightarrow> Parser \<Rightarrow> string \<times> bool \<Rightarrow> ListFormat \<Rightarrow> parser_error + DomainTrie" where
  "Parse uc p input format =
     (case scanLines (fst input) of
        None \<Rightarrow> Inl ReadError
      | Some lines \<Rightarrow>
          if snd input then Inl ReadError else Inr (parseLines uc p lines format NewDomainTrie))"

text \<open>\<open>ParseURL\<close> over a parameter \<open>fetch\<close> for the HTTP client, given the timeout.\<close>

definition ParseURL ::
  "go_unicode \<Rightarrow> (int \<Rightarrow> string \<Rightarrow> parser_error + string \<times> bool) \<Rightarrow> Parser \<Rightarrow> string \<Rightarrow> ListFormat \<Rightarrow>
     parser_error + DomainTrie" where
  "ParseURL uc fetch p url format =
     (let timeout = (if Timeout p * 1000000 \<le> 0 then 60000000000 else Timeout p * 1000000) in
      case fetch timeout url of
        Inl e \<Rightarrow> Inl e
      | Inr body \<Rightarrow> Parse uc p body format)"

definition ParseDomainsSlice :: "go_unicode \<Rightarrow> string list \<Rightarrow> DomainTrie" where
  "ParseDomainsSlice uc domains =
     fold (\<lambda>domain0 trie.
             let domain = normalizeDomain uc domain0
             in if domain \<noteq> '''' \<and> isValidDomain domain then Trie_Add uc trie domain True else trie)
       domains NewDomainTrie"

section \<open>What is parsed is valid\<close>

lemma parseLine_valid:
  assumes "parseLine uc p line format = (d, w)" "d \<noteq> ''''"
  shows "isValidDomain d \<and> w"
  using assms
  by (auto simp: parseLine_def parseAdblockLine_def parseHostsLine_def parseDomainsLine_def Let_def
      split: if_splits ListFormat.splits)

lemma validLabel_length: "validLabel l \<Longrightarrow> 0 < length l \<and> length l \<le> 63"
  by (auto simp: validLabel_def)

lemma trieInv_parseLines: "trieInv t \<Longrightarrow> trieInv (parseLines uc p ls f t)"
  by (induction ls arbitrary: f t) (auto simp: Let_def trieInv_Add split: prod.split)

lemma trieInv_Parse: "Parse uc p input format = Inr t \<Longrightarrow> trieInv t"
  by (auto simp: Parse_def trieInv_New intro: trieInv_parseLines split: option.splits if_splits)

text \<open>Every entry of a parsed list is a valid domain name and matches its subdomains.\<close>

lemma parseLines_entries:
  assumes "wildPaths t = exactPaths t"
    "\<forall>q \<in> exactPaths t. \<exists>d. isValidDomain d \<and> domainPath uc d = Some q"
  shows "wildPaths (parseLines uc p ls f t) = exactPaths (parseLines uc p ls f t) \<and>
    (\<forall>q \<in> exactPaths (parseLines uc p ls f t). \<exists>d. isValidDomain d \<and> domainPath uc d = Some q)"
  using assms
proof (induction ls arbitrary: f t)
  case (Cons raw rest)
  define line where "line = (if TrimWhitespace p then TrimSpace uc raw else raw)"
  define f' where "f' = (if f = FormatAuto then detectFormat uc line else f)"
  obtain d w where d: "parseLine uc p line f' = (d, w)" by (rule prod.exhaust)
  define t' where "t' = (if d \<noteq> '''' then Trie_Add uc t d w else t)"
  have "wildPaths t' = exactPaths t' \<and> (\<forall>q \<in> exactPaths t'. \<exists>d. isValidDomain d \<and> domainPath uc d = Some q)"
    using Cons.prems parseLine_valid [OF d] by (auto simp: t'_def Trie_Add_paths)
  note IH = Cons.IH [OF conjunct1 [OF this] conjunct2 [OF this], of f']
  have "parseLines uc p (raw # rest) f t =
      (if line = '''' then parseLines uc p rest f t else parseLines uc p rest f' t')"
    by (simp add: Let_def line_def [symmetric] f'_def [symmetric] d t'_def)
  with IH Cons.IH [OF Cons.prems, of f] show ?case by simp
qed simp

lemma Parse_entries:
  assumes "Parse uc p input format = Inr t"
  shows "wildPaths t = exactPaths t"
    "q \<in> exactPaths t \<Longrightarrow> \<exists>d. isValidDomain d \<and> domainPath uc d = Some q"
  using assms parseLines_entries [of NewDomainTrie uc p _ format]
  by (auto simp: Parse_def trieInv_New split: option.splits if_splits)

text \<open>A valid ASCII domain name can be encoded on the wire.\<close>

lemma sum_Split: "sum_list (map (\<lambda>l. length l + 1) (Split c s)) = length s + 1"
proof (induction s)
  case (Cons x xs)
  obtain y ys where "Split c xs = y # ys" by (meson Split_not_Nil neq_Nil_conv)
  with Cons show ?case by auto
qed simp

lemma Split_snoc: "Split c (s @ [c]) = Split c s @ [[]]"
proof (induction s)
  case (Cons x xs)
  obtain y ys where "Split c xs = y # ys" by (meson Split_not_Nil neq_Nil_conv)
  with Cons show ?case by auto
qed simp

lemma last_Split_dot: "s \<noteq> [] \<Longrightarrow> last s = c \<Longrightarrow> last (Split c s) = []"
  by (metis Split_snoc append_butlast_last_id last_snoc)

lemma set_Split: "l \<in> set (Split c s) \<Longrightarrow> set l \<subseteq> set s"
proof (induction s arbitrary: l)
  case (Cons x xs)
  obtain y ys where ys: "Split c xs = y # ys" by (meson Split_not_Nil neq_Nil_conv)
  have "set y \<subseteq> set xs" using Cons.IH [of y] ys by simp
  moreover have "l' \<in> set ys \<Longrightarrow> set l' \<subseteq> set xs" for l' using Cons.IH [of l'] ys by simp
  ultimately show ?case using Cons.prems ys by (auto split: if_splits)
qed simp

lemma isValidDomain_EncodeName:
  assumes "isValidDomain d" "ascii d"
  shows "\<exists>bs. EncodeName d = Inr bs"
proof -
  have d: "d \<noteq> []" "length d \<le> 253" "list_all validLabel (Split CHR ''.'' d)"
    using assms(1) by (auto simp: isValidDomain_def)
  have "last (Split CHR ''.'' d) \<noteq> []"
    using d(3) validLabel_length by (metis Split_not_Nil last_in_set length_0_conv less_nat_zero_code list_all_iff)
  then have "last d \<noteq> CHR ''.''" using last_Split_dot [OF d(1)] by metis
  then have t: "trimDot d = d" using d(1) by (subst trimDot.simps) simp
  have "ascii l" if "l \<in> set (Split CHR ''.'' d)" for l
    using set_Split [OF that] assms(2) by (auto simp: ascii_def list_all_iff)
  then have ok: "list_all labelOK (Split CHR ''.'' d)"
    using d(3) validLabel_length by (force simp: list_all_iff labelOK_def)
  have "length (wireLabels (Split CHR ''.'' d) @ [0]) \<le> 255"
    using d(2) by (simp add: length_wireLabels sum_Split del: One_nat_def add_2_eq_Suc)
  with t ok d(1) show ?thesis by (auto simp: EncodeName_Inr_iff)
qed

end
