(* ===== verification/Policy.thy ===== *)
theory Policy
  imports List_Parser GoTime
begin

text \<open>
  \<open>internal/filtering/policy.go\<close>: the policy engine. Its background goroutines are
  modelled by their bodies: \<open>loadBlocklists\<close> for the start-up load and \<open>refreshTick\<close>
  for one tick of the refresh loop. Fetching a list is a parameter. The lemmas on
  which domains are blocked come from the locale \<open>domain_store\<close> through its
  interpretation \<open>trie\<close>.
\<close>

section \<open>State and operations\<close>

datatype Action = ActionAllow | ActionBlock | ActionLog

fun Action_String :: "Action \<Rightarrow> string" where
  "Action_String ActionAllow = ''allow''"
| "Action_String ActionBlock = ''block''"
| "Action_String ActionLog = ''log''"

record PolicyResult =
  res_Action :: Action
  res_Rule :: string
  res_ListName :: string

record ListSource =
  src_Name :: string
  src_URL :: string
  src_Format :: ListFormat
  src_LastUpdate :: instant
  src_LastError :: "parser_error option"
  src_DomainCount :: int

record BlocklistURL =
  bl_Name :: string
  bl_URL :: string
  bl_Format :: ListFormat

record PolicyEngineConfig =
  cfg_Enabled :: bool
  cfg_BlockAction :: Action
  cfg_LogBlocked :: bool
  cfg_LogAllowed :: bool
  cfg_WhitelistDomains :: "string list"
  cfg_BlacklistDomains :: "string list"
  cfg_BlocklistURLs :: "BlocklistURL list"
  cfg_RefreshInterval :: duration

text \<open>\<open>pe_refreshStop\<close> is the stop channel: absent, open (False) or closed (True).\<close>

record PolicyEngine =
  pe_whitelist :: DomainTrie
  pe_blacklist :: DomainTrie
  pe_queriesTotal :: uint64
  pe_queriesBlocked :: uint64
  pe_queriesAllowed :: uint64
  pe_listSources :: "(string, ListSource) fmap"
  pe_enabled :: bool
  pe_blockAction :: Action
  pe_logBlocked :: bool
  pe_logAllowed :: bool
  pe_ticking :: bool
  pe_refreshStop :: "bool option"

definition NewPolicyEngine :: "go_unicode \<Rightarrow> PolicyEngineConfig \<Rightarrow> PolicyEngine" where
  "NewPolicyEngine uc cfg =
     (let addAll = \<lambda>ds t. fold (\<lambda>d t. Trie_Add uc t d True) ds t;
          refreshing = (cfg_RefreshInterval cfg > 0 \<and> cfg_BlocklistURLs cfg \<noteq> [])
      in \<lparr>pe_whitelist = addAll (cfg_WhitelistDomains cfg) NewDomainTrie,
          pe_blacklist = addAll (cfg_BlacklistDomains cfg) NewDomainTrie,
          pe_queriesTotal = 0, pe_queriesBlocked = 0, pe_queriesAllowed = 0,
          pe_listSources = fmempty, pe_enabled = cfg_Enabled cfg,
          pe_blockAction = cfg_BlockAction cfg, pe_logBlocked = cfg_LogBlocked cfg,
          pe_logAllowed = cfg_LogAllowed cfg, pe_ticking = refreshing,
          pe_refreshStop = (if refreshing then Some False else None)\<rparr>)"

text \<open>\<open>loadBlocklist\<close>, with the clock reading and what \<open>ParseURL\<close> returned.\<close>

type_synonym fetcher = "int \<Rightarrow> string \<Rightarrow> parser_error + string \<times> bool"

definition loadBlocklist ::
  "go_unicode \<Rightarrow> fetcher \<Rightarrow> Parser \<Rightarrow> instant \<Rightarrow> BlocklistURL \<Rightarrow> PolicyEngine \<Rightarrow> PolicyEngine" where
  "loadBlocklist uc fetch p now bl pe =
     (let source = \<lparr>src_Name = bl_Name bl, src_URL = bl_URL bl, src_Format = bl_Format bl,
                    src_LastUpdate = now, src_LastError = None, src_DomainCount = 0\<rparr>
      in case ParseURL uc fetch p (bl_URL bl) (bl_Format bl) of
           Inl e \<Rightarrow>
             pe\<lparr>pe_listSources :=
                  fmupd (bl_Name bl) (source\<lparr>src_LastError := Some e\<rparr>) (pe_listSources pe)\<rparr>
         | Inr t \<Rightarrow>
             pe\<lparr>pe_blacklist := Trie_Merge (pe_blacklist pe) t,
                pe_listSources :=
                  fmupd (bl_Name bl) (source\<lparr>src_DomainCount := Trie_Size t\<rparr>) (pe_listSources pe)\<rparr>)"

definition loadBlocklists ::
  "go_unicode \<Rightarrow> fetcher \<Rightarrow> Parser \<Rightarrow> (BlocklistURL \<times> instant) list \<Rightarrow> PolicyEngine \<Rightarrow> PolicyEngine" where
  "loadBlocklists uc fetch p urls pe =
     fold (\<lambda>(bl, now). loadBlocklist uc fetch p now bl) urls pe"

definition refreshTick ::
  "go_unicode \<Rightarrow> fetcher \<Rightarrow> Parser \<Rightarrow> BlocklistURL list \<Rightarrow> PolicyEngine \<Rightarrow> PolicyEngine" where
  "refreshTick uc fetch p urls pe =
     (let newBlacklist =
        fold (\<lambda>bl t. case ParseURL uc fetch p (bl_URL bl) (bl_Format bl) of
                       Inl _ \<Rightarrow> t | Inr u \<Rightarrow> Trie_Merge t u) urls NewDomainTrie
      in pe\<lparr>pe_blacklist := newBlacklist\<rparr>)"

definition Evaluate :: "go_unicode \<Rightarrow> PolicyEngine \<Rightarrow> string \<Rightarrow> PolicyResult \<times> PolicyEngine" where
  "Evaluate uc pe0 domain =
     (let pe = pe0\<lparr>pe_queriesTotal := pe_queriesTotal pe0 + 1\<rparr> in
      if \<not> pe_enabled pe then
        (\<lparr>res_Action = ActionAllow, res_Rule = '''', res_ListName = ''''\<rparr>,
         pe\<lparr>pe_queriesAllowed := pe_queriesAllowed pe + 1\<rparr>)
      else if Trie_Contains uc (pe_whitelist pe) domain then
        (\<lparr>res_Action = ActionAllow, res_Rule = domain, res_ListName = ''whitelist''\<rparr>,
         pe\<lparr>pe_queriesAllowed := pe_queriesAllowed pe + 1\<rparr>)
      else if Trie_Contains uc (pe_blacklist pe) domain then
        (\<lparr>res_Action = pe_blockAction pe, res_Rule = domain, res_ListName = ''blacklist''\<rparr>,
         pe\<lparr>pe_queriesBlocked := pe_queriesBlocked pe + 1\<rparr>)
      else
        (\<lparr>res_Action = ActionAllow, res_Rule = '''', res_ListName = ''''\<rparr>,
         pe\<lparr>pe_queriesAllowed := pe_queriesAllowed pe + 1\<rparr>))"

definition EvaluateWithContext ::
  "go_unicode \<Rightarrow> bool \<Rightarrow> PolicyEngine \<Rightarrow> string \<Rightarrow> PolicyResult option \<times> PolicyEngine" where
  "EvaluateWithContext uc ctxDone pe domain =
     (if ctxDone then (None, pe) else (let (r, pe') = Evaluate uc pe domain in (Some r, pe')))"

definition AddToWhitelist :: "go_unicode \<Rightarrow> PolicyEngine \<Rightarrow> string \<Rightarrow> PolicyEngine" where
  "AddToWhitelist uc pe domain = pe\<lparr>pe_whitelist := Trie_Add uc (pe_whitelist pe) domain True\<rparr>"

definition AddToBlacklist :: "go_unicode \<Rightarrow> PolicyEngine \<Rightarrow> string \<Rightarrow> PolicyEngine" where
  "AddToBlacklist uc pe domain = pe\<lparr>pe_blacklist := Trie_Add uc (pe_blacklist pe) domain True\<rparr>"

definition RemoveFromWhitelist :: "go_unicode \<Rightarrow> PolicyEngine \<Rightarrow> string \<Rightarrow> PolicyEngine" where
  "RemoveFromWhitelist uc pe domain =
     pe\<lparr>pe_whitelist := snd (Trie_Remove uc (pe_whitelist pe) domain)\<rparr>"

definition RemoveFromBlacklist :: "go_unicode \<Rightarrow> PolicyEngine \<Rightarrow> string \<Rightarrow> PolicyEngine" where
  "RemoveFromBlacklist uc pe domain =
     pe\<lparr>pe_blacklist := snd (Trie_Remove uc (pe_blacklist pe) domain)\<rparr>"

definition SetEnabled :: "PolicyEngine \<Rightarrow> bool \<Rightarrow> PolicyEngine" where
  "SetEnabled pe enabled = pe\<lparr>pe_enabled := enabled\<rparr>"

record PolicyStats =
  st_QueriesTotal :: uint64
  st_QueriesBlocked :: uint64
  st_QueriesAllowed :: uint64
  st_WhitelistSize :: int
  st_BlacklistSize :: int
  st_Enabled :: bool

definition PolicyEngine_Stats :: "PolicyEngine \<Rightarrow> PolicyStats" where
  "PolicyEngine_Stats pe =
     \<lparr>st_QueriesTotal = pe_queriesTotal pe, st_QueriesBlocked = pe_queriesBlocked pe,
      st_QueriesAllowed = pe_queriesAllowed pe, st_WhitelistSize = Trie_Size (pe_whitelist pe),
      st_BlacklistSize = Trie_Size (pe_blacklist pe), st_Enabled = pe_enabled pe\<rparr>"

text \<open>\<open>ListInfo\<close> returns the sources in the unspecified order of a Go map.\<close>

definition ListInfo :: "PolicyEngine \<Rightarrow> ListSource set" where
  "ListInfo pe = fmran' (pe_listSources pe)"

text \<open>\<open>Close\<close>: closing an already closed stop channel panics (\<^const>\<open>None\<close>).\<close>

definition PolicyEngine_Close :: "PolicyEngine \<Rightarrow> PolicyEngine option" where
  "PolicyEngine_Close pe =
     (let pe1 = pe\<lparr>pe_ticking := False\<rparr> in
      case pe_refreshStop pe1 of
        None \<Rightarrow> Some pe1
      | Some False \<Rightarrow> Some (pe1\<lparr>pe_refreshStop := Some True\<rparr>)
      | Some True \<Rightarrow> None)"

section \<open>Invariant\<close>

definition policyInv :: "PolicyEngine \<Rightarrow> bool" where
  "policyInv pe \<longleftrightarrow> trieInv (pe_whitelist pe) \<and> trieInv (pe_blacklist pe) \<and>
     pe_queriesTotal pe = pe_queriesBlocked pe + pe_queriesAllowed pe"

lemma trieInv_fold_Add: "trieInv t \<Longrightarrow> trieInv (fold (\<lambda>d t. Trie_Add uc t d True) ds t)"
  by (induction ds arbitrary: t) (simp_all add: trieInv_Add)

lemma policyInv_New: "policyInv (NewPolicyEngine uc cfg)"
  by (simp add: policyInv_def NewPolicyEngine_def Let_def trieInv_fold_Add trieInv_New)

lemma trieInv_ParseURL: "ParseURL uc fetch p u f = Inr t \<Longrightarrow> trieInv t"
  by (auto simp: ParseURL_def Let_def intro: trieInv_Parse split: sum.splits)

lemma policyInv_loadBlocklist: "policyInv pe \<Longrightarrow> policyInv (loadBlocklist uc fetch p now bl pe)"
  by (auto simp: policyInv_def loadBlocklist_def Let_def Trie_Merge_paths(3) trieInv_ParseURL
      split: sum.split)

lemma trieInv_refresh:
  "trieInv t \<Longrightarrow> trieInv (fold (\<lambda>bl t. case ParseURL uc fetch p (bl_URL bl) (bl_Format bl) of
     Inl _ \<Rightarrow> t | Inr u \<Rightarrow> Trie_Merge t u) urls t)"
  by (induction urls arbitrary: t)
    (auto simp: Trie_Merge_paths(3) trieInv_ParseURL split: sum.split)

lemma policyInv_refreshTick: "policyInv pe \<Longrightarrow> policyInv (refreshTick uc fetch p urls pe)"
  by (simp add: policyInv_def refreshTick_def trieInv_refresh trieInv_New)

lemma policyInv_Evaluate: "policyInv pe \<Longrightarrow> policyInv (snd (Evaluate uc pe d))"
  by (auto simp: policyInv_def Evaluate_def Let_def)

lemma policyInv_updates:
  "policyInv pe \<Longrightarrow> policyInv (AddToWhitelist uc pe d)"
  "policyInv pe \<Longrightarrow> policyInv (AddToBlacklist uc pe d)"
  "policyInv pe \<Longrightarrow> policyInv (RemoveFromWhitelist uc pe d)"
  "policyInv pe \<Longrightarrow> policyInv (RemoveFromBlacklist uc pe d)"
  "policyInv pe \<Longrightarrow> policyInv (SetEnabled pe b)"
  by (simp_all add: policyInv_def AddToWhitelist_def AddToBlacklist_def RemoveFromWhitelist_def
      RemoveFromBlacklist_def SetEnabled_def trieInv_Add trieInv_Remove)

section \<open>Decisions\<close>

definition listed :: "go_unicode \<Rightarrow> DomainTrie \<Rightarrow> string \<Rightarrow> bool" where
  "listed uc t d \<longleftrightarrow>
     (\<exists>p. domainPath uc d = Some p \<and> (p \<in> exactPaths t \<or> (\<exists>q \<in> wildPaths t. strict_prefix q p)))"

lemma Trie_Contains_listed: "trieInv t \<Longrightarrow> Trie_Contains uc t d \<longleftrightarrow> listed uc t d"
  by (simp add: trie.contains_iff listed_def)

lemma Evaluate_blocks_iff:
  assumes "policyInv pe"
  shows "res_ListName (fst (Evaluate uc pe d)) = ''blacklist'' \<longleftrightarrow>
     pe_enabled pe \<and> \<not> listed uc (pe_whitelist pe) d \<and> listed uc (pe_blacklist pe) d"
  using assms by (auto simp: Evaluate_def Let_def policyInv_def Trie_Contains_listed)

lemma Evaluate_action:
  assumes "policyInv pe"
  shows "res_Action (fst (Evaluate uc pe d)) =
    (if pe_enabled pe \<and> \<not> listed uc (pe_whitelist pe) d \<and> listed uc (pe_blacklist pe) d
     then pe_blockAction pe else ActionAllow)"
  using assms by (auto simp: Evaluate_def Let_def policyInv_def Trie_Contains_listed)

lemma listed_Add: "trieInv t \<Longrightarrow> domainPath uc x = Some p \<Longrightarrow> domainPath uc y = Some q \<Longrightarrow>
   prefix p q \<Longrightarrow> listed uc (Trie_Add uc t x True) y"
  using trie.add_covers [of t uc x p y q] by (simp add: Trie_Contains_listed trieInv_Add)

lemma AddToBlacklist_blocks:
  assumes "policyInv pe" "pe_enabled pe" "domainPath uc x = Some p" "domainPath uc y = Some q"
    "prefix p q" "\<not> listed uc (pe_whitelist pe) y"
  shows "res_Action (fst (Evaluate uc (AddToBlacklist uc pe x) y)) = pe_blockAction pe"
  using assms listed_Add [of "pe_blacklist pe" uc x p y q] policyInv_updates(2) [OF assms(1), of uc x]
  by (simp add: Evaluate_action) (simp add: AddToBlacklist_def policyInv_def)

lemma AddToWhitelist_allows:
  assumes "policyInv pe" "domainPath uc x = Some p" "domainPath uc y = Some q" "prefix p q"
  shows "res_Action (fst (Evaluate uc (AddToWhitelist uc pe x) y)) = ActionAllow"
  using assms listed_Add [of "pe_whitelist pe" uc x p y q] policyInv_updates(1) [OF assms(1), of uc x]
  by (simp add: Evaluate_action) (simp add: AddToWhitelist_def policyInv_def)

text \<open>A refresh forgets every entry that no fetched list contains.\<close>

lemma refreshTick_only_fetched:
  assumes "q \<in> exactPaths (pe_blacklist (refreshTick uc fetch p urls pe))"
  shows "\<exists>bl \<in> set urls. \<exists>t. ParseURL uc fetch p (bl_URL bl) (bl_Format bl) = Inr t \<and> q \<in> exactPaths t"
proof -
  let ?f = "\<lambda>bl t. case ParseURL uc fetch p (bl_URL bl) (bl_Format bl) of
     Inl _ \<Rightarrow> t | Inr u \<Rightarrow> Trie_Merge t u"
  have "q \<in> exactPaths t \<or> (\<exists>bl \<in> set us. \<exists>u. ParseURL uc fetch p (bl_URL bl) (bl_Format bl) = Inr u \<and>
      q \<in> exactPaths u)" if "trieInv t" "q \<in> exactPaths (fold ?f us t)" for us t
    using that
  proof (induction us arbitrary: t)
    case (Cons bl us)
    show ?case
    proof (cases "ParseURL uc fetch p (bl_URL bl) (bl_Format bl)")
      case (Inl e)
      with Cons show ?thesis by auto
    next
      case (Inr u)
      note u = trieInv_ParseURL [OF Inr]
      have "trieInv (Trie_Merge t u)" using Cons.prems(1) u by (rule Trie_Merge_paths(3))
      with Cons.IH [of "Trie_Merge t u"] Cons.prems Inr u show ?thesis
        by (auto simp: Trie_Merge_paths)
    qed
  qed simp
  from this [OF trieInv_New(1), of urls] assms show ?thesis
    by (simp add: refreshTick_def trieInv_New)
qed

end
