(* ===== verification/Filtering_Resolver.thy ===== *)
theory Filtering_Resolver
  imports Resolver Policy
begin

text \<open>
  \<open>internal/resolvers/filtering_resolver.go\<close>: the resolver that asks the policy
  before anything else and answers blocked names itself with NXDOMAIN. The policy and
  the next resolver work on one shared state: \<open>evaluate\<close> is \<open>f.policy.Evaluate\<close> and
  \<open>nxt\<close> is \<open>f.next.Resolve\<close> there. The locale \<open>policy_check\<close> is what the filter needs
  of the policy.
\<close>

unbundle bit_operations_syntax

section \<open>Operations\<close>

definition buildBlockedFlags :: "uint16 \<Rightarrow> uint16" where
  "buildBlockedFlags reqFlags =
     (let flags = (push_bit 15 1 :: uint16);
          flags = flags OR (reqFlags AND 0x7800);
          flags = (if reqFlags AND push_bit 8 1 \<noteq> 0
                   then (flags OR push_bit 8 1) OR push_bit 7 1 else flags)
      in flags OR RCodeNXDomain)"

definition buildBlockedResponse :: "Packet \<Rightarrow> Packet" where
  "buildBlockedResponse req =
     \<lparr>p_Header = \<lparr>ID = ID (p_Header req), Flags = buildBlockedFlags (Flags (p_Header req)),
                 QDCount = 0, ANCount = 0, NSCount = 0, ARCount = 0\<rparr>,
      p_Questions = p_Questions req, p_Answers = [], p_Authorities = [], p_Additionals = []\<rparr>"

definition blockedResult :: "Packet \<Rightarrow> resolve_error + Result" where
  "blockedResult req =
     (case Packet_Marshal (buildBlockedResponse req) of
        Inl e \<Rightarrow> Inl (DnsErr e)
      | Inr b \<Rightarrow> Inr \<lparr>ResponseBytes = b, Source = ''filtered-blocked''\<rparr>)"

definition FilteringResolver_Resolve ::
  "('s \<Rightarrow> string \<Rightarrow> PolicyResult \<times> 's) \<Rightarrow> 's resolve \<Rightarrow> 's resolve" where
  "FilteringResolver_Resolve evaluate nxt s req reqBytes =
     (case p_Questions req of
        [] \<Rightarrow> nxt s req reqBytes
      | q # _ \<Rightarrow>
          (let (result, s1) = evaluate s (q_Name q) in
           case res_Action result of
             ActionBlock \<Rightarrow> (blockedResult req, s1)
           | ActionLog \<Rightarrow> nxt s1 req reqBytes
           | ActionAllow \<Rightarrow> nxt s1 req reqBytes))"

definition FilteringResolver_Close ::
  "('s \<Rightarrow> 'e option \<times> 's) \<Rightarrow> ('s \<Rightarrow> 'e option \<times> 's) \<Rightarrow> 's \<Rightarrow> 'e option \<times> 's" where
  "FilteringResolver_Close closePolicy closeNext s =
     (let (err, s1) = closePolicy s; (nextErr, s2) = closeNext s1
      in (if nextErr \<noteq> None \<and> err = None then nextErr else err, s2))"

section \<open>The blocked response\<close>

lemma bit_opcode: "bit (0x7800 :: uint16) n \<longleftrightarrow> 11 \<le> n \<and> n < 15"
proof -
  have eq: "(0x7800 :: uint16) = push_bit 11 (mask 4)"
    by (simp add: push_bit_eq_mult mask_eq_exp_minus_1)
  show ?thesis unfolding eq by (auto simp: bit_push_bit_iff bit_mask_iff)
qed

lemma bit_NXDomain: "bit RCodeNXDomain n \<longleftrightarrow> n < 2"
proof -
  have eq: "RCodeNXDomain = mask 2" by (simp add: RCodeNXDomain_def mask_eq_exp_minus_1)
  show ?thesis unfolding eq by (auto simp: bit_mask_iff)
qed

lemma buildBlockedFlags_bits:
  "bit (buildBlockedFlags f) n \<longleftrightarrow>
     n = 15 \<or> n < 2 \<or> (11 \<le> n \<and> n < 15 \<and> bit f n) \<or> ((n = 7 \<or> n = 8) \<and> bit f 8)"
proof -
  have rd: "f AND push_bit 8 1 \<noteq> 0 \<longleftrightarrow> bit f 8"
    using and_exp_eq_0_iff_not_bit [of f 8] by simp
  have pb: "bit (push_bit k 1 :: uint16) n \<longleftrightarrow> n = k \<and> k < 16" for k
    by (auto simp: bit_exp_iff)
  have "bit (buildBlockedFlags f) n \<longleftrightarrow> n = 15 \<or> (bit f n \<and> 11 \<le> n \<and> n < 15) \<or>
      (bit f 8 \<and> (n = 8 \<or> n = 7)) \<or> n < 2"
    by (cases "bit f 8") (simp_all only: buildBlockedFlags_def Let_def rd if_True if_False bit_or_iff
        bit_and_iff pb bit_opcode bit_NXDomain, auto)
  then show ?thesis by auto
qed

text \<open>
  What a client reads: a response with the request's ID, RCODE NXDOMAIN, the request's
  questions and no records.
\<close>

definition blockedAnswer :: "Packet \<Rightarrow> bytes \<Rightarrow> bool" where
  "blockedAnswer req bs \<longleftrightarrow>
     (\<forall>uc. \<exists>p. ParsePacket uc bs = Inr p \<and> ID (p_Header p) = ID (p_Header req) \<and>
        IsResponse (p_Header p) \<and> RCodeFromFlags (Flags (p_Header p)) = RCodeNXDomain \<and>
        p_Questions p = map normQuestion (p_Questions req) \<and>
        p_Answers p = [] \<and> p_Authorities p = [] \<and> p_Additionals p = [])"

lemma blockedFlags_rcode: "RCodeFromFlags (buildBlockedFlags f) = RCodeNXDomain"
  by (rule bit_word_eqI)
    (auto simp: RCodeFromFlags_def bit_and_iff bit_RCodeMask buildBlockedFlags_bits bit_NXDomain)

lemma blockedResult_answer:
  assumes "length (p_Questions req) \<le> 65535" "blockedResult req = Inr res"
  shows "blockedAnswer req (ResponseBytes res)"
proof -
  have "Packet_Marshal (buildBlockedResponse req) = Inr (ResponseBytes res)"
    using assms(2) by (auto simp: blockedResult_def split: sum.splits)
  moreover have "wfPacket (buildBlockedResponse req)"
    using assms(1) by (simp add: wfPacket_def buildBlockedResponse_def)
  ultimately have "ParsePacket uc (ResponseBytes res) = Inr (normPacket (buildBlockedResponse req))" for uc
    using ParsePacket_Marshal [of _ _ uc "[]"] by simp
  then show ?thesis
    by (simp add: blockedAnswer_def normPacket_def countedHeader_def buildBlockedResponse_def
        flag_bits buildBlockedFlags_bits blockedFlags_rcode)
qed

lemma blockedResult_carriesID:
  "blockedResult req = Inr res \<Longrightarrow> carriesID (ID (p_Header req)) (ResponseBytes res)"
  using Packet_Marshal_carriesID [of "buildBlockedResponse req"]
  by (auto simp: blockedResult_def buildBlockedResponse_def split: sum.splits)

lemma blockedResult_no_panic: "blockedResult req \<noteq> Inl ResolverPanic"
  by (simp add: blockedResult_def split: sum.split)

section \<open>The filter as a resolver\<close>

locale policy_check =
  fixes I :: "'s \<Rightarrow> bool" and evaluate :: "'s \<Rightarrow> string \<Rightarrow> PolicyResult \<times> 's"
    and blocks :: "'s \<Rightarrow> string \<Rightarrow> bool"
  assumes evaluate_keeps: "I s \<Longrightarrow> I (snd (evaluate s d))"
    and evaluate_blocks: "I s \<Longrightarrow> res_Action (fst (evaluate s d)) = ActionBlock \<longleftrightarrow> blocks s d"
begin

lemma Filtering_blocked:
  assumes "I s" "p_Questions req = q # qs" "blocks s (q_Name q)"
  shows "fst (FilteringResolver_Resolve evaluate nxt s req b) = blockedResult req"
  using assms evaluate_blocks [of s "q_Name q"]
  by (cases "evaluate s (q_Name q)") (simp add: FilteringResolver_Resolve_def)

lemma Filtering_passes:
  assumes "I s" "p_Questions req = q # qs" "\<not> blocks s (q_Name q)"
  shows "FilteringResolver_Resolve evaluate nxt s req b = nxt (snd (evaluate s (q_Name q))) req b"
  using assms evaluate_blocks [of s "q_Name q"]
  by (cases "evaluate s (q_Name q)")
    (auto simp: FilteringResolver_Resolve_def split: Action.split)

lemma Filtering_answering:
  assumes "answering I answers nxt"
  shows "answering I (\<lambda>req bs. blockedAnswer req bs \<or> answers req bs)
    (FilteringResolver_Resolve evaluate nxt)"
proof
  fix s req b assume I: "I s" and q: "singleQuestion req"
  obtain x where x: "p_Questions req = [x]"
    using q by (cases "p_Questions req") (auto simp: singleQuestion_def)
  let ?s1 = "snd (evaluate s (q_Name x))"
  have I1: "I ?s1" using I by (rule evaluate_keeps)
  note n = answering.keeps [OF assms I1 q] answering.no_panic [OF assms I1 q]
    answering.answer [OF assms I1 q]
  have split: "FilteringResolver_Resolve evaluate nxt s req b =
    (if blocks s (q_Name x) then (blockedResult req, ?s1) else nxt ?s1 req b)"
    using Filtering_passes [OF I x] evaluate_blocks [OF I, of "q_Name x"]
    by (cases "evaluate s (q_Name x)") (auto simp: FilteringResolver_Resolve_def x)
  show "I (snd (FilteringResolver_Resolve evaluate nxt s req b))"
    using I1 n(1) by (simp add: split)
  show "fst (FilteringResolver_Resolve evaluate nxt s req b) \<noteq> Inl ResolverPanic"
    using blockedResult_no_panic n(2) by (simp add: split)
  show "blockedAnswer req (ResponseBytes res) \<or> answers req (ResponseBytes res)"
    if "fst (FilteringResolver_Resolve evaluate nxt s req b) = Inr res" for res
    using that n(3) [of b res] blockedResult_answer [of req res] x
    by (simp add: split split: if_splits)
qed

end

end
