(* ===== verification/GoStrconv.thy ===== *)
theory GoStrconv
  imports GoStrings
begin

text \<open>
  Go's \<open>strconv\<close> package as the sources use it: \<open>Itoa\<close> and \<open>Atoi\<close> on 64-bit ints,
  with the fact that the second inverts the first.
\<close>

definition digitChar :: "nat \<Rightarrow> char" where
  "digitChar d = char_of (48 + d)"

fun natDigits :: "nat \<Rightarrow> string" where
  "natDigits n = (if n < 10 then [digitChar n] else natDigits (n div 10) @ [digitChar (n mod 10)])"

declare natDigits.simps [simp del]

definition Itoa :: "int \<Rightarrow> string" where
  "Itoa i = (if i < 0 then CHR ''-'' # natDigits (nat (- i)) else natDigits (nat i))"

definition digitValue :: "char \<Rightarrow> nat option" where
  "digitValue c =
     (let n = of_char c in if 48 \<le> n \<and> n \<le> (57 :: nat) then Some (n - 48) else None)"

fun parseDigits :: "string \<Rightarrow> nat \<Rightarrow> nat option" where
  "parseDigits [] acc = Some acc"
| "parseDigits (c # cs) acc =
     (case digitValue c of None \<Rightarrow> None | Some d \<Rightarrow> parseDigits cs (10 * acc + d))"

text \<open>\<open>Atoi\<close>: an optional sign, at least one digit, and a value in the \<open>int64\<close> range.\<close>

definition Atoi :: "string \<Rightarrow> int option" where
  "Atoi s =
     (let (neg, ds) = (case s of
          [] \<Rightarrow> (False, [])
        | c # cs \<Rightarrow> if c = CHR ''-'' then (True, cs) else if c = CHR ''+'' then (False, cs)
                   else (False, s))
      in if ds = [] then None
         else
           (case parseDigits ds 0 of
              None \<Rightarrow> None
            | Some n \<Rightarrow>
                (let v = (if neg then - int n else int n)
                 in if - (2 ^ 63) \<le> v \<and> v < 2 ^ 63 then Some v else None)))"

section \<open>Round trip\<close>

lemma of_char_digitChar: "d < 10 \<Longrightarrow> of_char (digitChar d) = 48 + d" for d :: nat
  by (simp add: digitChar_def)

lemma digitValue_digitChar: "d < 10 \<Longrightarrow> digitValue (digitChar d) = Some d"
  by (simp add: digitValue_def of_char_digitChar)

lemma parseDigits_snoc:
  "parseDigits (cs @ [c]) acc =
     (case parseDigits cs acc of None \<Rightarrow> None
      | Some n \<Rightarrow> (case digitValue c of None \<Rightarrow> None | Some d \<Rightarrow> Some (10 * n + d)))"
  by (induction cs arbitrary: acc) (auto split: option.split)

lemma parseDigits_natDigits: "parseDigits (natDigits n) 0 = Some n"
proof (induction n rule: natDigits.induct)
  case (1 n)
  show ?case
  proof (cases "n < 10")
    case True
    then show ?thesis by (subst natDigits.simps) (simp add: digitValue_digitChar)
  next
    case False
    then show ?thesis
      using 1 by (subst natDigits.simps) (simp add: parseDigits_snoc digitValue_digitChar)
  qed
qed

lemma set_natDigits: "c \<in> set (natDigits n) \<Longrightarrow> \<exists>d < 10. c = digitChar d"
proof (induction n rule: natDigits.induct)
  case (1 n)
  then show ?case
    by (subst (asm) (2) natDigits.simps) (auto split: if_splits intro: exI [of _ "n mod 10"])
qed

lemma natDigits_not_Nil [simp]: "natDigits n \<noteq> []"
  by (subst natDigits.simps) simp

lemma digitChar_sign: "d < 10 \<Longrightarrow> digitChar d \<noteq> CHR ''-'' \<and> digitChar d \<noteq> CHR ''+''"
proof -
  assume "d < 10"
  moreover have "of_char (CHR ''-'') = (45 :: nat)" "of_char (CHR ''+'') = (43 :: nat)" by code_simp+
  ultimately show ?thesis using of_char_digitChar [of d] by force
qed

lemma Atoi_Itoa:
  assumes "- (2 ^ 63) \<le> i" "i < 2 ^ 63" shows "Atoi (Itoa i) = Some i"
proof -
  obtain c cs where n: "natDigits (nat i) = c # cs" by (meson natDigits_not_Nil neq_Nil_conv)
  then have "c \<noteq> CHR ''-'' \<and> c \<noteq> CHR ''+''"
    using set_natDigits [of c "nat i"] digitChar_sign by auto
  with assms n parseDigits_natDigits [of "nat i"] parseDigits_natDigits [of "nat (- i)"] show ?thesis
    by (auto simp: Atoi_def Itoa_def)
qed

text \<open>The text of a number is ASCII without capitals and without spaces.\<close>

lemma digitChar_facts:
  assumes "d < 10"
  shows "asciiChar (digitChar d)" "lowerChar (digitChar d) = digitChar d" "\<not> asciiSpace (digitChar d)"
proof -
  have "list_all (\<lambda>d. asciiChar (digitChar d) \<and> lowerChar (digitChar d) = digitChar d \<and>
      \<not> asciiSpace (digitChar d)) [0..<10]"
    by code_simp
  with assms show "asciiChar (digitChar d)" "lowerChar (digitChar d) = digitChar d"
    "\<not> asciiSpace (digitChar d)"
    by (simp_all add: list_all_iff)
qed

lemma natDigits_plain:
  "ascii (natDigits n)" "map lowerChar (natDigits n) = natDigits n"
  "trimBoth asciiSpace (natDigits n) = natDigits n"
proof -
  have *: "asciiChar c \<and> lowerChar c = c \<and> \<not> asciiSpace c" if "c \<in> set (natDigits n)" for c
    using set_natDigits [OF that] digitChar_facts by auto
  show "ascii (natDigits n)" using * by (simp add: ascii_def list_all_iff)
  show "map lowerChar (natDigits n) = natDigits n" using * by (intro map_idI) simp
  have "dropWhile asciiSpace (natDigits n) = natDigits n"
    using * by (cases "natDigits n") simp_all
  moreover have "dropWhile asciiSpace (rev (natDigits n)) = rev (natDigits n)"
    using * by (cases "rev (natDigits n)") (force simp flip: set_rev [of "natDigits n"])+
  ultimately show "trimBoth asciiSpace (natDigits n) = natDigits n" by (simp add: trimBoth_def)
qed

end
