(* ===== verification/GoNetip.thy ===== *)
theory GoNetip
  imports GoStrconv
begin

text \<open>
  Go's \<open>net/netip\<close> as the custom DNS resolver and the rate limiter use it: addresses,
  their textual parser, and prefix masks. An address is the zero \<open>Addr\<close>, four bytes, or
  sixteen bytes with a zone.
\<close>

unbundle bit_operations_syntax

datatype Addr = ZeroAddr | V4 bytes | V6 bytes string

fun Is4 :: "Addr \<Rightarrow> bool" where
  "Is4 (V4 _) = True"
| "Is4 _ = False"

fun Is6 :: "Addr \<Rightarrow> bool" where
  "Is6 (V6 _ _) = True"
| "Is6 _ = False"

fun AsSlice :: "Addr \<Rightarrow> bytes" where
  "AsSlice ZeroAddr = []"
| "AsSlice (V4 b) = b"
| "AsSlice (V6 b _) = b"

definition v4Mapped :: bytes where
  "v4Mapped = replicate 10 0 @ [0xFF, 0xFF]"

definition AddrFromSlice :: "bytes \<Rightarrow> Addr option" where
  "AddrFromSlice b =
     (if length b = 4 then Some (V4 b) else if length b = 16 then Some (V6 b '''') else None)"

fun Unmap :: "Addr \<Rightarrow> Addr" where
  "Unmap (V6 b z) = (if take 12 b = v4Mapped then V4 (drop 12 b) else V6 b z)"
| "Unmap a = a"

section \<open>Parsing\<close>

definition digitVal :: "char \<Rightarrow> nat option" where
  "digitVal c = (let n = unat (byteOf c) in if 48 \<le> n \<and> n \<le> 57 then Some (n - 48) else None)"

definition hexVal :: "char \<Rightarrow> nat option" where
  "hexVal c =
     (let n = unat (byteOf c) in
      if 48 \<le> n \<and> n \<le> 57 then Some (n - 48)
      else if 97 \<le> n \<and> n \<le> 102 then Some (n - 87)
      else if 65 \<le> n \<and> n \<le> 70 then Some (n - 55)
      else None)"

text \<open>
  The scan of \<open>parseIPv4Fields\<close>: the fields so far, the value and number of digits of
  the current one. A dot may not come first, last or twice, a field has no leading
  zero and is at most 255.
\<close>

fun ipv4Fields :: "string \<Rightarrow> bytes \<Rightarrow> nat \<Rightarrow> nat \<Rightarrow> bytes option" where
  "ipv4Fields [] fs val digLen =
     (if length fs = 3 \<and> digLen > 0 then Some (fs @ [word_of_nat val]) else None)"
| "ipv4Fields (c # cs) fs val digLen =
     (case digitVal c of
        Some d \<Rightarrow>
          if digLen = 1 \<and> val = 0 then None
          else if val * 10 + d > 255 then None
          else ipv4Fields cs fs (val * 10 + d) (digLen + 1)
      | None \<Rightarrow>
          if c = CHR ''.'' \<and> digLen > 0 \<and> cs \<noteq> [] \<and> length fs < 3
          then ipv4Fields cs (fs @ [word_of_nat val]) 0 0
          else None)"

definition parseIPv4 :: "string \<Rightarrow> Addr option" where
  "parseIPv4 s = map_option V4 (ipv4Fields s [] 0 0)"

text \<open>Up to four hexadecimal digits: the value, how many, and the rest.\<close>

fun hexField :: "string \<Rightarrow> nat \<Rightarrow> nat \<Rightarrow> (nat \<times> nat \<times> string) option" where
  "hexField [] acc off = Some (acc, off, [])"
| "hexField (c # cs) acc off =
     (case hexVal c of
        None \<Rightarrow> Some (acc, off, c # cs)
      | Some d \<Rightarrow> if off > 3 then None else hexField cs (acc * 16 + d) (off + 1))"

lemma hexField_length: "hexField s acc off = Some (a, n, rest) \<Longrightarrow> off \<le> n \<and> length rest + n = length s + off"
  by (induction s acc off rule: hexField.induct) (auto split: option.splits if_splits)

text \<open>
  The loop of \<open>parseIPv6\<close>: the bytes so far and the position of the ellipsis. The
  result is the bytes and the ellipsis when the whole text has been read.
\<close>

function ipv6Loop :: "string \<Rightarrow> bytes \<Rightarrow> nat option \<Rightarrow> (bytes \<times> nat option) option" where
  "ipv6Loop s ip ell =
     (if length ip \<ge> 16 then (if s = [] then Some (ip, ell) else None)
      else
        (case hexField s 0 0 of
           None \<Rightarrow> None
         | Some (acc, off, rest) \<Rightarrow>
             if off = 0 then None
             else if rest \<noteq> [] \<and> hd rest = CHR ''.'' then
               (if ell = None \<and> length ip \<noteq> 12 then None
                else if length ip + 4 > 16 then None
                else (case ipv4Fields s [] 0 0 of None \<Rightarrow> None | Some f \<Rightarrow> Some (ip @ f, ell)))
             else
               (let ip' = ip @ [word_of_nat (acc div 256), word_of_nat acc] in
                if rest = [] then Some (ip', ell)
                else if hd rest \<noteq> CHR '':'' then None
                else if length rest = 1 then None
                else
                  (let s' = tl rest in
                   if hd s' = CHR '':'' then
                     (if ell \<noteq> None then None
                      else if tl s' = [] then Some (ip', Some (length ip'))
                      else ipv6Loop (tl s') ip' (Some (length ip')))
                   else ipv6Loop s' ip' ell))))"
  by pat_completeness auto
termination
  by (relation "measure (\<lambda>(s, _, _). length s)") (auto dest!: hexField_length)

declare ipv6Loop.simps [simp del]

definition expandEllipsis :: "bytes \<Rightarrow> nat option \<Rightarrow> bytes option" where
  "expandEllipsis ip ell =
     (if length ip < 16 then
        (case ell of
           None \<Rightarrow> None
         | Some e \<Rightarrow> Some (take e ip @ replicate (16 - length ip) 0 @ drop e ip))
      else if ell \<noteq> None then None
      else Some ip)"

definition parseIPv6 :: "string \<Rightarrow> Addr option" where
  "parseIPv6 inp =
     (let s = takeWhile (\<lambda>c. c \<noteq> CHR ''%'') inp;
          hasZone = (CHR ''%'' \<in> set inp);
          zone = drop (length s + 1) inp
      in if hasZone \<and> zone = '''' then None
         else
           (let lead = (take 2 s = ''::'');
                s1 = (if lead then drop 2 s else s);
                ell = (if lead then Some 0 else None)
            in if lead \<and> s1 = '''' then Some (V6 (replicate 16 0) zone)
               else
                 (case ipv6Loop s1 [] ell of
                    None \<Rightarrow> None
                  | Some (ip, ell') \<Rightarrow> map_option (\<lambda>b. V6 b zone) (expandEllipsis ip ell'))))"

text \<open>\<open>ParseAddr\<close>: the first separator decides the family.\<close>

definition ParseAddr :: "string \<Rightarrow> Addr option" where
  "ParseAddr s =
     (case find (\<lambda>c. c = CHR ''.'' \<or> c = CHR '':'' \<or> c = CHR ''%'') s of
        None \<Rightarrow> None
      | Some c \<Rightarrow>
          if c = CHR ''.'' then parseIPv4 s else if c = CHR '':'' then parseIPv6 s else None)"

section \<open>Well-formed addresses\<close>

fun wfAddr :: "Addr \<Rightarrow> bool" where
  "wfAddr ZeroAddr = True"
| "wfAddr (V4 b) = (length b = 4)"
| "wfAddr (V6 b z) = (length b = 16)"

lemma ipv4Fields_length: "ipv4Fields s f v n = Some b \<Longrightarrow> length b = 4"
  by (induction s f v n rule: ipv4Fields.induct) (auto split: option.splits if_splits)

lemma ipv6Loop_length:
  "ipv6Loop s ip ell = Some (b, e) \<Longrightarrow> even (length ip) \<Longrightarrow> length ip \<le> 16 \<Longrightarrow>
   (\<forall>x. ell = Some x \<longrightarrow> x \<le> length ip) \<Longrightarrow>
   length b \<le> 16 \<and> (\<forall>x. e = Some x \<longrightarrow> x \<le> length b)"
proof (induction s ip ell arbitrary: b e rule: ipv6Loop.induct)
  case (1 s ip ell)
  show ?case
  proof (cases "length ip \<ge> 16")
    case True
    with "1.prems" show ?thesis by (auto simp: ipv6Loop.simps [of s ip] split: if_splits)
  next
    case False
    with "1.prems"(2) have short: "length ip + 2 \<le> 16" by presburger
    obtain acc off rest where h: "hexField s 0 0 = Some (acc, off, rest)"
      using "1.prems"(1) False by (auto simp: ipv6Loop.simps [of s ip] split: option.splits)
    let ?ip = "ip @ [word_of_nat (acc div 256), word_of_nat acc]"
    have ev: "even (length ?ip)" "length ?ip \<le> 16" using "1.prems"(2) short by simp_all
    have ell: "\<forall>x. ell = Some x \<longrightarrow> x \<le> length ?ip" using "1.prems"(4) by auto
    let ?colon = "off \<noteq> 0 \<and> \<not> (rest \<noteq> [] \<and> hd rest = CHR ''.'') \<and> rest \<noteq> [] \<and> hd rest = CHR '':'' \<and>
      length rest \<noteq> 1"
    consider (v4) f where "ipv4Fields s [] 0 0 = Some f" "b = ip @ f" "e = ell" "length ip + 4 \<le> 16"
      | (stop) "b = ?ip" "e = ell \<or> e = Some (length ?ip)"
      | (ellipsis) "?colon" "hd (tl rest) = CHR '':''" "ell = None" "tl (tl rest) \<noteq> []"
          "ipv6Loop (tl (tl rest)) ?ip (Some (length ?ip)) = Some (b, e)"
      | (more) "?colon" "hd (tl rest) \<noteq> CHR '':''" "ipv6Loop (tl rest) ?ip ell = Some (b, e)"
      using "1.prems"(1) [unfolded ipv6Loop.simps [of s ip]] False h
      by (auto simp: Let_def not_less split: if_splits option.splits)
    then show ?thesis
    proof cases
      case v4
      with ipv4Fields_length [OF v4(1)] "1.prems"(4) show ?thesis by auto
    next
      case stop
      with ev ell show ?thesis by auto
    next
      case ellipsis
      then have c: "off \<noteq> 0" "\<not> (rest \<noteq> [] \<and> hd rest = CHR ''.'')" "rest \<noteq> []"
        "\<not> hd rest \<noteq> CHR '':''" "length rest \<noteq> 1" by simp_all
      from "1.IH"(1) [OF False h refl refl c(1,2) refl c(3-5) refl ellipsis(2) _ ellipsis(4) _ ev]
        ellipsis show ?thesis by simp
    next
      case more
      then have c: "off \<noteq> 0" "\<not> (rest \<noteq> [] \<and> hd rest = CHR ''.'')" "rest \<noteq> []"
        "\<not> hd rest \<noteq> CHR '':''" "length rest \<noteq> 1" by simp_all
      from "1.IH"(2) [OF False h refl refl c(1,2) refl c(3-5) refl more(2) more(3) ev ell]
      show ?thesis .
    qed
  qed
qed

lemma parseIPv6_wf: "parseIPv6 s = Some a \<Longrightarrow> wfAddr a"
  using ipv6Loop_length
  by (fastforce simp: parseIPv6_def expandEllipsis_def Let_def split: if_splits option.splits prod.splits)

lemma ParseAddr_wf: "ParseAddr s = Some a \<Longrightarrow> wfAddr a"
  by (auto simp: ParseAddr_def parseIPv4_def dest: ipv4Fields_length parseIPv6_wf
      split: option.splits if_splits)

lemma ParseAddr_not_zero: "ParseAddr s \<noteq> Some ZeroAddr"
  by (auto simp: ParseAddr_def parseIPv4_def parseIPv6_def Let_def split: option.splits if_splits)

lemma AsSlice_length: "wfAddr a \<Longrightarrow> a \<noteq> ZeroAddr \<Longrightarrow> length (AsSlice a) = (if Is4 a then 4 else 16)"
  by (cases a) auto

section \<open>Text form and prefixes\<close>

definition string4 :: "bytes \<Rightarrow> string" where
  "string4 b = joinWith CHR ''.'' (map (\<lambda>x. Itoa (int (unat x))) b)"

definition hexDigit :: "nat \<Rightarrow> char" where
  "hexDigit d = (if d < 10 then digitChar d else char_of (87 + d))"

fun hexText :: "nat \<Rightarrow> string" where
  "hexText n = (if n < 16 then [hexDigit n] else hexText (n div 16) @ [hexDigit (n mod 16)])"

declare hexText.simps [simp del]

fun groups6 :: "bytes \<Rightarrow> nat list" where
  "groups6 (a # b # rest) = (256 * unat a + unat b) # groups6 rest"
| "groups6 _ = []"

text \<open>The zero run that \<open>::\<close> replaces: the first longest of at least two groups.\<close>

definition zeroRun :: "nat list \<Rightarrow> nat \<Rightarrow> nat" where
  "zeroRun gs i = length (takeWhile (\<lambda>g. g = 0) (drop i gs))"

definition longestRun :: "nat list \<Rightarrow> (nat \<times> nat) option" where
  "longestRun gs =
     fold (\<lambda>i best. let l = zeroRun gs i in
             if l \<ge> 2 \<and> (case best of None \<Rightarrow> True | Some (s, e) \<Rightarrow> l > e - s) then Some (i, i + l) else best)
       [0..<length gs] None"

definition string6 :: "bytes \<Rightarrow> string \<Rightarrow> string" where
  "string6 b zone =
     (let gs = groups6 b;
          txt = (\<lambda>xs. joinWith CHR '':'' (map hexText xs));
          body = (case longestRun gs of
                    None \<Rightarrow> txt gs
                  | Some (s, e) \<Rightarrow> txt (take s gs) @ ''::'' @ txt (drop e gs))
      in if zone \<noteq> '''' then body @ CHR ''%'' # zone else body)"

definition Is4In6 :: "Addr \<Rightarrow> bool" where
  "Is4In6 a = (case a of V6 b z \<Rightarrow> take 12 b = v4Mapped | _ \<Rightarrow> False)"

definition Addr_String :: "Addr \<Rightarrow> string" where
  "Addr_String a =
     (case a of
        ZeroAddr \<Rightarrow> ''invalid IP''
      | V4 b \<Rightarrow> string4 b
      | V6 b zone \<Rightarrow>
          if Is4In6 a then
            ''::ffff:'' @ string4 (drop 12 b) @ (if zone \<noteq> '''' then CHR ''%'' # zone else '''')
          else string6 b zone)"

text \<open>\<open>Addr.Prefix\<close> masks the address and drops the zone; only whole bytes are masked here.\<close>

datatype IPPrefix = InvalidPrefix | Prefix Addr nat

definition maskBytes :: "nat \<Rightarrow> bytes \<Rightarrow> bytes" where
  "maskBytes n b = take n b @ replicate (length b - n) 0"

definition Addr_Prefix :: "Addr \<Rightarrow> nat \<Rightarrow> IPPrefix option" where
  "Addr_Prefix a bits =
     (case a of
        ZeroAddr \<Rightarrow> Some InvalidPrefix
      | V4 b \<Rightarrow> if bits > 32 then None else Some (Prefix (V4 (maskBytes (bits div 8) b)) bits)
      | V6 b zone \<Rightarrow> if bits > 128 then None else Some (Prefix (V6 (maskBytes (bits div 8) b) '''') bits))"

fun Prefix_String :: "IPPrefix \<Rightarrow> string" where
  "Prefix_String InvalidPrefix = ''invalid Prefix''"
| "Prefix_String (Prefix a bits) = Addr_String a @ CHR ''/'' # Itoa (int bits)"

lemma natDigits_inj: "natDigits a = natDigits b \<Longrightarrow> a = b"
  by (metis option.inject parseDigits_natDigits)

lemma natDigits_no_sep:
  assumes "c \<in> {CHR ''.'', CHR ''/'', CHR '':''}" shows "c \<notin> set (natDigits n)"
proof
  assume "c \<in> set (natDigits n)"
  then obtain d where "d < 10" "c = digitChar d" using set_natDigits by blast
  moreover have "of_char CHR ''.'' = (46 :: nat)" "of_char CHR ''/'' = (47 :: nat)" "of_char CHR '':'' = (58 :: nat)"
    by code_simp+
  ultimately show False using assms of_char_digitChar [of d] by force
qed

lemma string4_inj:
  assumes "string4 a = string4 b" "a \<noteq> []" "b \<noteq> []" shows "a = b"
proof -
  have i: "Itoa (int (unat x)) = natDigits (unat x)" for x :: byte by (simp add: Itoa_def)
  have "Split CHR ''.'' (string4 b) = map (\<lambda>x. natDigits (unat x)) b" if "b \<noteq> []" for b :: bytes
    unfolding string4_def i using that by (intro Split_joinWith) (auto simp: natDigits_no_sep)
  with assms have "map (\<lambda>x. natDigits (unat x)) a = map (\<lambda>x. natDigits (unat x)) b" by metis
  moreover have "inj (\<lambda>x :: byte. natDigits (unat x))"
    by (intro injI) (metis natDigits_inj word_unat_eq_iff)
  ultimately show ?thesis by (metis inj_map_eq_map)
qed

end
