(* ===== verification/Custom_DNS.thy ===== *)
theory Custom_DNS
  imports Resolver GoNetip
begin

text \<open>
  \<open>internal/resolvers/custom_dns_resolver.go\<close> and
  \<open>internal/resolvers/reloadable_custom_dns.go\<close>: answers from configured hosts and
  aliases. The Go maps handed to the constructor are association lists in the order
  the runtime happens to range over them.
\<close>

unbundle bit_operations_syntax

section \<open>State and operations\<close>

record CustomDNSResolver =
  cr_hosts :: "(string, Addr list) fmap"
  cr_cnames :: "(string, string) fmap"

definition normalizeName :: "go_unicode \<Rightarrow> string \<Rightarrow> string" where
  "normalizeName uc name = TrimSuffix (ToLower uc (TrimSpace uc name)) ''.''"

fun parseIPs :: "go_unicode \<Rightarrow> string \<Rightarrow> string list \<Rightarrow> resolve_error + Addr list" where
  "parseIPs uc name [] = Inr []"
| "parseIPs uc name (ip # ips) =
     (case ParseAddr (TrimSpace uc ip) of
        None \<Rightarrow> Inl (InvalidIPFor name ip)
      | Some a \<Rightarrow> andThen (parseIPs uc name ips) (\<lambda>as. Inr (a # as)))"

fun addHosts ::
  "go_unicode \<Rightarrow> (string \<times> string list) list \<Rightarrow> (string, Addr list) fmap \<Rightarrow>
     resolve_error + (string, Addr list) fmap" where
  "addHosts uc [] m = Inr m"
| "addHosts uc ((name, ips) # rest) m =
     andThen (parseIPs uc name ips) (\<lambda>addrs.
       addHosts uc rest (if addrs \<noteq> [] then fmupd (normalizeName uc name) addrs m else m))"

definition NewCustomDNSResolver ::
  "go_unicode \<Rightarrow> (string \<times> string list) list \<Rightarrow> (string \<times> string) list \<Rightarrow>
     resolve_error + CustomDNSResolver" where
  "NewCustomDNSResolver uc hosts cnames =
     andThen (addHosts uc hosts fmempty) (\<lambda>hs.
       Inr \<lparr>cr_hosts = hs,
            cr_cnames = fold (\<lambda>(alias, target). fmupd (normalizeName uc alias) (normalizeName uc target))
              cnames fmempty\<rparr>)"

definition matchesQueryType :: "Addr \<Rightarrow> uint16 \<Rightarrow> bool" where
  "matchesQueryType addr qtype =
     (if qtype = TypeA then Is4 addr else if qtype = TypeAAAA then Is6 addr else False)"

definition buildCustomDNSFlags :: "uint16 \<Rightarrow> uint16" where
  "buildCustomDNSFlags reqFlags = QRFlag OR AAFlag"

definition customHeader :: "Packet \<Rightarrow> Header" where
  "customHeader req =
     \<lparr>ID = ID (p_Header req), Flags = buildCustomDNSFlags (Flags (p_Header req)),
      QDCount = 0, ANCount = 0, NSCount = 0, ARCount = 0\<rparr>"

definition ipRecords :: "string \<Rightarrow> Question \<Rightarrow> Addr list \<Rightarrow> Record list" where
  "ipRecords name q addrs =
     map (\<lambda>a. NewIPRecord (NewRRHeader name (q_Class q) 3600) (AsSlice a))
       (filter (\<lambda>a. matchesQueryType a (q_Type q)) addrs)"

definition marshalCustom :: "Packet \<Rightarrow> resolve_error + Result" where
  "marshalCustom resp =
     (case Packet_Marshal resp of
        Inl e \<Rightarrow> Inl (DnsErr e)
      | Inr b \<Rightarrow> Inr \<lparr>ResponseBytes = b, Source = ''custom-dns''\<rparr>)"

definition cnamePacket :: "go_unicode \<Rightarrow> CustomDNSResolver \<Rightarrow> Packet \<Rightarrow> Question \<Rightarrow> string \<Rightarrow> Packet" where
  "cnamePacket uc r req q target =
     \<lparr>p_Header = customHeader req, p_Questions = [q],
      p_Answers = [NewNameRecord (NewRRHeader (q_Name q) (q_Class q) 3600) TypeCNAME target],
      p_Authorities = [],
      p_Additionals =
        (if q_Type q = TypeA \<or> q_Type q = TypeAAAA then
           (case fmlookup (cr_hosts r) (normalizeName uc target) of
              Some addrs \<Rightarrow> ipRecords target q addrs
            | None \<Rightarrow> [])
         else [])\<rparr>"

definition buildCNAMEResponse ::
  "go_unicode \<Rightarrow> CustomDNSResolver \<Rightarrow> Packet \<Rightarrow> Question \<Rightarrow> string \<Rightarrow> resolve_error + Result" where
  "buildCNAMEResponse uc r req q target = marshalCustom (cnamePacket uc r req q target)"

definition addressPacket :: "Packet \<Rightarrow> Question \<Rightarrow> Addr list \<Rightarrow> Packet" where
  "addressPacket req q addrs =
     \<lparr>p_Header = customHeader req, p_Questions = [q],
      p_Answers = ipRecords (q_Name q) q addrs, p_Authorities = [], p_Additionals = []\<rparr>"

definition buildAddressResponse :: "Packet \<Rightarrow> Question \<Rightarrow> Addr list \<Rightarrow> resolve_error + Result" where
  "buildAddressResponse req q addrs =
     (if ipRecords (q_Name q) q addrs = [] then Inl NoMatchingAddress
      else marshalCustom (addressPacket req q addrs))"

definition CustomDNS_Resolve :: "go_unicode \<Rightarrow> CustomDNSResolver \<Rightarrow> Packet \<Rightarrow> resolve_error + Result" where
  "CustomDNS_Resolve uc r req =
     (case p_Questions req of
        [] \<Rightarrow> Inl NoQuestionInRequest
      | q # _ \<Rightarrow>
          (let qname = normalizeName uc (q_Name q) in
           case fmlookup (cr_cnames r) qname of
             Some target \<Rightarrow> buildCNAMEResponse uc r req q target
           | None \<Rightarrow>
               (case fmlookup (cr_hosts r) qname of
                  Some addrs \<Rightarrow> buildAddressResponse req q addrs
                | None \<Rightarrow> Inl NameNotConfigured)))"

definition CustomDNS_ContainsDomain :: "go_unicode \<Rightarrow> CustomDNSResolver \<Rightarrow> string \<Rightarrow> bool" where
  "CustomDNS_ContainsDomain uc r name =
     (let normalized = normalizeName uc name
      in fmlookup (cr_hosts r) normalized \<noteq> None \<or> fmlookup (cr_cnames r) normalized \<noteq> None)"

definition CustomDNS_IsEmpty :: "CustomDNSResolver \<Rightarrow> bool" where
  "CustomDNS_IsEmpty r \<longleftrightarrow> fcard (fmdom (cr_hosts r)) = 0 \<and> fcard (fmdom (cr_cnames r)) = 0"

text \<open>The reloadable wrapper: a pointer that may be nil, replaced atomically.\<close>

type_synonym Reloadable = "CustomDNSResolver option"

definition Reloadable_Resolve :: "go_unicode \<Rightarrow> Reloadable \<Rightarrow> Packet \<Rightarrow> resolve_error + Result" where
  "Reloadable_Resolve uc rr req =
     (case rr of
        None \<Rightarrow> Inl ErrNoCustomDNS
      | Some r \<Rightarrow> if CustomDNS_IsEmpty r then Inl ErrNoCustomDNS else CustomDNS_Resolve uc r req)"

definition Reload :: "Reloadable \<Rightarrow> Reloadable \<Rightarrow> Reloadable" where
  "Reload rr newResolver = newResolver"

definition Reloadable_IsEmpty :: "Reloadable \<Rightarrow> bool" where
  "Reloadable_IsEmpty rr = (case rr of None \<Rightarrow> True | Some r \<Rightarrow> CustomDNS_IsEmpty r)"

definition Reloadable_ContainsDomain :: "go_unicode \<Rightarrow> Reloadable \<Rightarrow> string \<Rightarrow> bool" where
  "Reloadable_ContainsDomain uc rr name =
     (case rr of None \<Rightarrow> False | Some r \<Rightarrow> CustomDNS_ContainsDomain uc r name)"

section \<open>Answers\<close>

text \<open>A custom answer is the marshalled form of an authoritative response to the question.\<close>

definition customAnswer :: "Packet \<Rightarrow> bytes \<Rightarrow> bool" where
  "customAnswer req bs \<longleftrightarrow>
     (\<exists>p. Packet_Marshal p = Inr bs \<and> wfPacket p \<and> ID (p_Header p) = ID (p_Header req) \<and>
        Authoritative (p_Header p) \<and> IsResponse (p_Header p) \<and>
        RCodeFromFlags (Flags (p_Header p)) = RCodeNoError \<and>
        p_Questions p = [hd (p_Questions req)] \<and> p_Answers p \<noteq> [] \<and>
        (\<forall>r \<in> set (p_Answers p). rr_Name (Record_Header r) = q_Name (hd (p_Questions req))))"

text \<open>Configuration bounds: at most 65535 addresses per name, addresses as parsed.\<close>

definition customInv :: "CustomDNSResolver \<Rightarrow> bool" where
  "customInv r \<longleftrightarrow> (\<forall>n as. fmlookup (cr_hosts r) n = Some as \<longrightarrow>
     as \<noteq> [] \<and> length as \<le> 65535 \<and> list_all (\<lambda>a. wfAddr a \<and> a \<noteq> ZeroAddr) as)"

lemma customFlags:
  "bit (buildCustomDNSFlags f) 15" "bit (buildCustomDNSFlags f) 10"
  "RCodeFromFlags (buildCustomDNSFlags f) = RCodeNoError"
  by (simp_all add: buildCustomDNSFlags_def flag_defs RCodeFromFlags_def rcode_defs)

lemma length_ipRecords: "length (ipRecords n q as) \<le> length as"
  by (simp add: ipRecords_def)

lemma wf_ipRecords: "list_all wfRecord (ipRecords n q as)"
  by (simp add: ipRecords_def list_all_iff NewIPRecord_def)

lemma customAnswer_of_packet:
  assumes "Packet_Marshal p = Inr bs" "wfPacket p" "p_Header p = customHeader req"
    "p_Questions p = [hd (p_Questions req)]" "p_Answers p \<noteq> []"
    "\<forall>r \<in> set (p_Answers p). rr_Name (Record_Header r) = q_Name (hd (p_Questions req))"
  shows "customAnswer req bs"
  unfolding customAnswer_def
  by (intro exI [of _ p]) (use assms in \<open>simp add: flag_bits customHeader_def customFlags\<close>)

lemma CustomDNS_answers:
  assumes inv: "customInv r" and run: "CustomDNS_Resolve uc r req = Inr res"
  shows "customAnswer req (ResponseBytes res)"
proof -
  from run obtain q qs where q: "p_Questions req = q # qs"
    by (cases "p_Questions req") (auto simp: CustomDNS_Resolve_def)
  let ?n = "normalizeName uc (q_Name q)"
  show ?thesis
  proof (cases "fmlookup (cr_cnames r) ?n")
    case (Some target)
    have add: "length (p_Additionals (cnamePacket uc r req q target)) \<le> 65535"
    proof (cases "fmlookup (cr_hosts r) (normalizeName uc target)")
      case (Some as)
      then have "length as \<le> 65535" using inv by (simp add: customInv_def)
      with length_ipRecords [of target q as] show ?thesis
        by (simp add: cnamePacket_def Some)
    qed (simp add: cnamePacket_def)
    have "list_all wfRecord (p_Additionals (cnamePacket uc r req q target))"
      by (simp add: cnamePacket_def wf_ipRecords split: option.split)
    with add have "wfPacket (cnamePacket uc r req q target)"
      by (simp add: wfPacket_def) (simp add: cnamePacket_def NewNameRecord_def isNameType_def)
    moreover have "Packet_Marshal (cnamePacket uc r req q target) = Inr (ResponseBytes res)"
      using run q Some
      by (auto simp: CustomDNS_Resolve_def Let_def buildCNAMEResponse_def marshalCustom_def split: sum.splits)
    ultimately show ?thesis
      by (intro customAnswer_of_packet [of "cnamePacket uc r req q target"])
        (simp_all add: cnamePacket_def q NewNameRecord_def NewRRHeader_def)
  next
    case None
    then obtain as where as: "fmlookup (cr_hosts r) ?n = Some as"
      and ne: "ipRecords (q_Name q) q as \<noteq> []"
      and m: "Packet_Marshal (addressPacket req q as) = Inr (ResponseBytes res)"
      using run q
      by (auto simp: CustomDNS_Resolve_def Let_def buildAddressResponse_def marshalCustom_def
          split: option.splits sum.splits if_splits)
    have "length (ipRecords (q_Name q) q as) \<le> 65535"
      using inv as length_ipRecords [of "q_Name q" q as] by (force simp: customInv_def)
    then have "wfPacket (addressPacket req q as)"
      by (simp add: wfPacket_def addressPacket_def wf_ipRecords)
    with m ne show ?thesis
      by (intro customAnswer_of_packet [of "addressPacket req q as"])
        (auto simp: addressPacket_def q ipRecords_def NewIPRecord_def NewRRHeader_def)
  qed
qed

text \<open>The record types of the answers to address queries.\<close>

lemma ipRecords_type:
  assumes "r \<in> set (ipRecords n q as)" "list_all (\<lambda>a. wfAddr a \<and> a \<noteq> ZeroAddr) as"
    "\<forall>a \<in> set as. Is6 a \<longrightarrow> take 12 (AsSlice a) \<noteq> v4InV6Prefix"
  shows "Record_Type r = q_Type q"
proof -
  from assms(1) obtain a where a: "a \<in> set as" "matchesQueryType a (q_Type q)"
    and r: "r = NewIPRecord (NewRRHeader n (q_Class q) 3600) (AsSlice a)"
    by (auto simp: ipRecords_def)
  from a assms(2) have wf: "wfAddr a" "a \<noteq> ZeroAddr" by (auto simp: list_all_iff)
  from a(2) have "(Is4 a \<and> q_Type q = TypeA) \<or> (Is6 a \<and> q_Type q = TypeAAAA)"
    by (auto simp: matchesQueryType_def split: if_splits)
  then show ?thesis
    using wf assms(3) a(1) by (cases a) (auto simp: r NewIPRecord_def To4_def)
qed

lemma CustomDNS_no_panic: "CustomDNS_Resolve uc r req \<noteq> Inl ResolverPanic"
  by (auto simp: CustomDNS_Resolve_def Let_def buildCNAMEResponse_def buildAddressResponse_def
      marshalCustom_def split: list.split option.split sum.split)

lemma Reloadable_no_panic: "Reloadable_Resolve uc rr req \<noteq> Inl ResolverPanic"
  by (simp add: Reloadable_Resolve_def CustomDNS_no_panic split: option.split)

lemma Reloadable_answers:
  assumes "\<forall>r. rr = Some r \<longrightarrow> customInv r" "Reloadable_Resolve uc rr req = Inr res"
  shows "customAnswer req (ResponseBytes res)"
  using assms CustomDNS_answers by (auto simp: Reloadable_Resolve_def split: option.splits if_splits)

lemma customAnswer_carriesID: "customAnswer req bs \<Longrightarrow> carriesID (ID (p_Header req)) bs"
  unfolding customAnswer_def by (metis Packet_Marshal_carriesID)

section \<open>Building the configuration\<close>

lemma parseIPs_wf:
  "parseIPs uc n ips = Inr as \<Longrightarrow> length as = length ips \<and> list_all (\<lambda>a. wfAddr a \<and> a \<noteq> ZeroAddr) as"
proof (induction ips arbitrary: as)
  case (Cons ip ips)
  then obtain a rest where a: "ParseAddr (TrimSpace uc ip) = Some a" and r: "parseIPs uc n ips = Inr rest"
    and as: "as = a # rest"
    by (auto simp: andThen_Inr_iff split: option.splits)
  have "wfAddr a" "a \<noteq> ZeroAddr" using ParseAddr_wf [OF a] ParseAddr_not_zero a by auto
  with Cons.IH [OF r] show ?case by (simp add: as)
qed simp

end
