(* ===== verification/Config.thy ===== *)
theory Config
  imports GoStrconv
begin

text \<open>
  \<open>internal/config/types.go\<close> and \<open>internal/config/config.go\<close>: the configuration
  structures and their validation. Floating-point settings are rationals; the Go maps
  of the custom DNS section are association lists in the order the runtime ranges over
  them. \<open>Validate\<close> mutates its receiver also on the paths that return an error, so it
  returns both.
\<close>

section \<open>Types\<close>

datatype WorkersMode = WorkersAuto | WorkersFixed

definition WorkersAutoStr :: string where "WorkersAutoStr = ''auto''"

record WorkerSetting =
  ws_Mode :: WorkersMode
  ws_Value :: int

definition WorkerSetting_String :: "WorkerSetting \<Rightarrow> string" where
  "WorkerSetting_String w =
     (if ws_Mode w = WorkersAuto then WorkersAutoStr else Itoa (ws_Value w))"

record ServerConfig =
  sc_Host :: string
  sc_Port :: int
  sc_Workers :: WorkerSetting
  sc_WorkersRaw :: string
  sc_MaxConcurrency :: int
  sc_UpstreamSocketPoolSize :: int
  sc_EnableTCP :: bool
  sc_TCPFallback :: bool

record UpstreamConfig =
  uc_Servers :: "string list"
  uc_UDPTimeout :: string
  uc_TCPTimeout :: string
  uc_MaxRetries :: int

record CustomDNSConfig =
  cd_Hosts :: "(string \<times> string list) list"
  cd_CNAMEs :: "(string \<times> string) list"

record LoggingConfig =
  lc_Level :: string
  lc_Structured :: bool
  lc_StructuredFormat :: string
  lc_IncludePID :: bool
  lc_ExtraFields :: "(string, string) fmap option"

record BlocklistConfig =
  bc_Name :: string
  bc_URL :: string
  bc_Format :: string

record FilteringConfig =
  fc_Enabled :: bool
  fc_LogBlocked :: bool
  fc_LogAllowed :: bool
  fc_WhitelistDomains :: "string list"
  fc_BlacklistDomains :: "string list"
  fc_Blocklists :: "BlocklistConfig list"
  fc_RefreshInterval :: string

record RateLimitConfig =
  rc_CleanupSeconds :: rat
  rc_MaxIPEntries :: int
  rc_MaxPrefixEntries :: int
  rc_GlobalQPS :: rat
  rc_GlobalBurst :: int
  rc_PrefixQPS :: rat
  rc_PrefixBurst :: int
  rc_IPQPS :: rat
  rc_IPBurst :: int

record APIConfig =
  ac_Enabled :: bool
  ac_Host :: string
  ac_Port :: int
  ac_APIKey :: string

definition ClusterModeStandalone :: string where "ClusterModeStandalone = ''standalone''"
definition ClusterModePrimary :: string where "ClusterModePrimary = ''primary''"
definition ClusterModeSecondary :: string where "ClusterModeSecondary = ''secondary''"

record ClusterConfig =
  cc_Mode :: string
  cc_NodeID :: string
  cc_PrimaryURL :: string
  cc_SharedSecret :: string
  cc_SyncInterval :: string
  cc_SyncTimeout :: string

record Config =
  Server :: ServerConfig
  Upstream :: UpstreamConfig
  CustomDNS :: CustomDNSConfig
  Logging :: LoggingConfig
  Filtering :: FilteringConfig
  RateLimit :: RateLimitConfig
  API :: APIConfig
  Cluster :: ClusterConfig

datatype config_error = ServerPortRange | APIPortRange

section \<open>Validation\<close>

definition autoWorkers :: WorkerSetting where
  "autoWorkers = \<lparr>ws_Mode = WorkersAuto, ws_Value = 0\<rparr>"

definition parseWorkers :: "go_unicode \<Rightarrow> string \<Rightarrow> WorkerSetting" where
  "parseWorkers uc raw0 =
     (let raw = TrimSpace uc (ToLower uc raw0) in
      if raw = '''' \<or> raw = ''auto'' then autoWorkers
      else
        (case Atoi raw of
           Some n \<Rightarrow> if n > 0 then \<lparr>ws_Mode = WorkersFixed, ws_Value = n\<rparr> else autoWorkers
         | None \<Rightarrow> autoWorkers))"

definition ParseWorkers :: "go_unicode \<Rightarrow> ServerConfig \<Rightarrow> ServerConfig" where
  "ParseWorkers uc s =
     (let raw = TrimSpace uc (ToLower uc (sc_WorkersRaw s)) in
      if raw = '''' \<or> raw = WorkersAutoStr then s\<lparr>sc_Workers := autoWorkers\<rparr>
      else
        (case Atoi raw of
           Some n \<Rightarrow>
             if n > 0 then s\<lparr>sc_Workers := \<lparr>ws_Mode = WorkersFixed, ws_Value = n\<rparr>\<rparr>
             else s\<lparr>sc_Workers := autoWorkers\<rparr>
         | None \<Rightarrow> s\<lparr>sc_Workers := autoWorkers\<rparr>))"

definition normalizeServers :: "string list \<Rightarrow> string list" where
  "normalizeServers ups =
     (let servers = (if ups = [] then [''8.8.8.8''] else ups)
      in if length servers > 3 then take 3 servers else servers)"

definition normalizeLogging :: "go_unicode \<Rightarrow> LoggingConfig \<Rightarrow> LoggingConfig" where
  "normalizeLogging uc l =
     l\<lparr>lc_Level := ToUpper uc (if lc_Level l = '''' then ''INFO'' else lc_Level l),
       lc_StructuredFormat := (if lc_StructuredFormat l = '''' then ''json'' else lc_StructuredFormat l),
       lc_ExtraFields := (case lc_ExtraFields l of None \<Rightarrow> Some fmempty | Some m \<Rightarrow> Some m)\<rparr>"

definition normalizeConfig :: "go_unicode \<Rightarrow> Config \<Rightarrow> Config" where
  "normalizeConfig uc cfg =
     cfg\<lparr>Upstream := (Upstream cfg)\<lparr>uc_Servers := normalizeServers (uc_Servers (Upstream cfg))\<rparr>,
         Logging := normalizeLogging uc (Logging cfg),
         Filtering := (Filtering cfg)\<lparr>fc_RefreshInterval :=
           (if fc_RefreshInterval (Filtering cfg) = '''' then ''24h''
            else fc_RefreshInterval (Filtering cfg))\<rparr>,
         API := (API cfg)\<lparr>ac_Host :=
           (if ac_Host (API cfg) = '''' then ''0.0.0.0'' else ac_Host (API cfg))\<rparr>\<rparr>"

definition Validate :: "go_unicode \<Rightarrow> Config \<Rightarrow> config_error option \<times> Config" where
  "Validate uc cfg =
     (if sc_Port (Server cfg) \<le> 0 \<or> sc_Port (Server cfg) > 65535 then (Some ServerPortRange, cfg)
      else
        (let c1 = normalizeConfig uc cfg in
         if ac_Enabled (API c1) \<and> (ac_Port (API c1) \<le> 0 \<or> ac_Port (API c1) > 65535)
         then (Some APIPortRange, c1)
         else (None, c1\<lparr>Server := (Server c1)\<lparr>sc_Workers :=
                 parseWorkers uc (sc_WorkersRaw (Server c1))\<rparr>\<rparr>)))"

section \<open>Properties\<close>

lemma parseWorkers_eq_ParseWorkers:
  "sc_Workers (ParseWorkers uc s) = parseWorkers uc (sc_WorkersRaw s)"
  by (simp add: ParseWorkers_def parseWorkers_def Let_def WorkersAutoStr_def split: option.split)

definition wfWorkers :: "WorkerSetting \<Rightarrow> bool" where
  "wfWorkers w \<longleftrightarrow> (case ws_Mode w of WorkersAuto \<Rightarrow> ws_Value w = 0
     | WorkersFixed \<Rightarrow> 0 < ws_Value w \<and> ws_Value w < 2 ^ 63)"

lemma wfWorkers_parse: "wfWorkers (parseWorkers uc raw)"
proof -
  have "v < 2 ^ 63" if "Atoi s = Some v" for s v
    using that by (auto simp: Atoi_def Let_def split: list.splits if_splits option.splits)
  then show ?thesis
    by (auto simp: parseWorkers_def Let_def autoWorkers_def wfWorkers_def split: option.split)
qed

lemma auto_plain: "TrimSpace uc (ToLower uc ''auto'') = ''auto''"
proof -
  have a: "ascii ''auto''" "map lowerChar ''auto'' = ''auto''" "trimBoth asciiSpace ''auto'' = ''auto''"
    by code_simp+
  show ?thesis by (simp only: ToLower_def TrimSpace_def a if_True)
qed

lemma parseWorkers_String: "wfWorkers w \<Longrightarrow> parseWorkers uc (WorkerSetting_String w) = w"
proof (cases "ws_Mode w")
  case WorkersAuto
  assume "wfWorkers w"
  with WorkersAuto show ?thesis
    by (cases w) (simp add: wfWorkers_def WorkerSetting_String_def WorkersAutoStr_def
        parseWorkers_def auto_plain autoWorkers_def)
next
  case WorkersFixed
  assume "wfWorkers w"
  with WorkersFixed have v: "0 < ws_Value w" "ws_Value w < 2 ^ 63" by (simp_all add: wfWorkers_def)
  have i: "Itoa (ws_Value w) = natDigits (nat (ws_Value w))" using v(1) by (simp add: Itoa_def)
  have at: "Atoi (natDigits (nat (ws_Value w))) = Some (ws_Value w)"
    using Atoi_Itoa [of "ws_Value w"] v i by simp
  have "Atoi ''auto'' = None" by code_simp
  with at have ne: "natDigits (nat (ws_Value w)) \<noteq> ''auto''" by (metis option.discI)
  have p: "TrimSpace uc (ToLower uc (natDigits n)) = natDigits n" for n
    by (simp only: ToLower_def TrimSpace_def natDigits_plain if_True)
  show ?thesis
    using WorkersFixed v(1) ne at
    by (cases w) (use i in \<open>simp add: WorkerSetting_String_def parseWorkers_def p\<close>)
qed

text \<open>What a validated configuration guarantees to the server.\<close>

definition validConfig :: "Config \<Rightarrow> bool" where
  "validConfig cfg \<longleftrightarrow>
     1 \<le> sc_Port (Server cfg) \<and> sc_Port (Server cfg) \<le> 65535 \<and>
     uc_Servers (Upstream cfg) \<noteq> [] \<and> length (uc_Servers (Upstream cfg)) \<le> 3 \<and>
     lc_StructuredFormat (Logging cfg) \<noteq> '''' \<and> lc_ExtraFields (Logging cfg) \<noteq> None \<and>
     fc_RefreshInterval (Filtering cfg) \<noteq> '''' \<and> ac_Host (API cfg) \<noteq> '''' \<and>
     (ac_Enabled (API cfg) \<longrightarrow> 1 \<le> ac_Port (API cfg) \<and> ac_Port (API cfg) \<le> 65535) \<and>
     wfWorkers (sc_Workers (Server cfg))"

lemma normalizeServers_shape:
  "normalizeServers ups \<noteq> []" "length (normalizeServers ups) \<le> 3"
  "ups \<noteq> [] \<Longrightarrow> normalizeServers ups = take 3 ups"
  by (auto simp: normalizeServers_def Let_def)

lemma normalizeLogging_fields:
  "lc_StructuredFormat (normalizeLogging uc l) \<noteq> []" "lc_ExtraFields (normalizeLogging uc l) \<noteq> None"
  by (simp_all add: normalizeLogging_def split: option.split)

lemma normalizeConfig_fields [simp]:
  "Server (normalizeConfig uc cfg) = Server cfg"
  "uc_Servers (Upstream (normalizeConfig uc cfg)) = normalizeServers (uc_Servers (Upstream cfg))"
  "Logging (normalizeConfig uc cfg) = normalizeLogging uc (Logging cfg)"
  "fc_RefreshInterval (Filtering (normalizeConfig uc cfg)) \<noteq> []"
  "ac_Host (API (normalizeConfig uc cfg)) \<noteq> []"
  "ac_Enabled (API (normalizeConfig uc cfg)) = ac_Enabled (API cfg)"
  "ac_Port (API (normalizeConfig uc cfg)) = ac_Port (API cfg)"
  by (simp_all add: normalizeConfig_def)

lemma Validate_accepts_iff:
  "fst (Validate uc cfg) = None \<longleftrightarrow>
     1 \<le> sc_Port (Server cfg) \<and> sc_Port (Server cfg) \<le> 65535 \<and>
     (ac_Enabled (API cfg) \<longrightarrow> 1 \<le> ac_Port (API cfg) \<and> ac_Port (API cfg) \<le> 65535)"
  by (auto simp: Validate_def Let_def)

lemma Validate_accepted:
  assumes "Validate uc cfg = (None, cfg')"
  shows "cfg' = (normalizeConfig uc cfg)\<lparr>Server := (Server cfg)\<lparr>sc_Workers :=
    parseWorkers uc (sc_WorkersRaw (Server cfg))\<rparr>\<rparr>"
  using assms by (simp add: Validate_def Let_def split: if_splits)

lemma Validate_valid:
  assumes "Validate uc cfg = (None, cfg')" shows "validConfig cfg'"
  using Validate_accepts_iff [of uc cfg] assms
  by (simp add: Validate_accepted [OF assms] validConfig_def normalizeServers_shape
      normalizeLogging_fields wfWorkers_parse)

lemma upperChar_idem: "upperChar (upperChar c) = upperChar c"
  and ascii_upperChar: "asciiChar (upperChar c) = asciiChar c"
proof -
  have "\<not> 0x61 \<le> b - 32" "b - 32 \<le> 0x7F" "b \<le> 0x7F" if "0x61 \<le> b" "b \<le> 0x7A" for b :: byte
  proof -
    have "unat (b - 32) = unat b - 32" using that unat_sub [of 32 b] by (simp add: word_le_nat_alt)
    with that show "\<not> 0x61 \<le> b - 32" "b - 32 \<le> 0x7F" "b \<le> 0x7F"
      by (simp_all add: word_le_nat_alt)
  qed
  then show "upperChar (upperChar c) = upperChar c" "asciiChar (upperChar c) = asciiChar c"
    by (simp_all add: upperChar_def asciiChar_def Let_def)
qed

lemma ToUpper_idem: "ascii s \<Longrightarrow> ToUpper uc (ToUpper uc s) = ToUpper uc s"
  by (simp add: ToUpper_def ascii_def list_all_iff upperChar_idem ascii_upperChar o_def)

lemma normalizeServers_idem: "normalizeServers (normalizeServers ups) = normalizeServers ups"
  by (simp add: normalizeServers_def Let_def)

lemma normalizeLogging_idem:
  assumes "ascii (lc_Level l)"
  shows "normalizeLogging uc (normalizeLogging uc l) = normalizeLogging uc l"
proof -
  have info: "ascii ''INFO''" by code_simp
  have up: "ToUpper uc (ToUpper uc s) = ToUpper uc s" "ToUpper uc s = [] \<longleftrightarrow> s = []" if "ascii s" for s
    using that ToUpper_idem by (simp_all add: ToUpper_def)
  show ?thesis
    using up [OF assms] up [OF info] by (cases l) (simp add: normalizeLogging_def split: option.split)
qed

lemma normalizeConfig_idem:
  assumes "ascii (lc_Level (Logging cfg))"
  shows "normalizeConfig uc (normalizeConfig uc cfg) = normalizeConfig uc cfg"
  using normalizeLogging_idem [OF assms]
  by (simp add: normalizeConfig_def normalizeServers_idem)

lemma Validate_idem:
  assumes "Validate uc cfg = (None, cfg')" "ascii (lc_Level (Logging cfg))"
  shows "Validate uc cfg' = (None, cfg')"
proof -
  let ?w = "\<lambda>c. c\<lparr>Server := (Server cfg)\<lparr>sc_Workers := parseWorkers uc (sc_WorkersRaw (Server cfg))\<rparr>\<rparr>"
  have c': "cfg' = ?w (normalizeConfig uc cfg)" by (rule Validate_accepted [OF assms(1)])
  have comm: "normalizeConfig uc (?w c) = ?w (normalizeConfig uc c)" for c
    by (simp add: normalizeConfig_def)
  have "normalizeConfig uc cfg' = cfg'"
    by (simp add: c' comm normalizeConfig_idem [OF assms(2)])
  moreover have "fst (Validate uc cfg') = None"
    using Validate_valid [OF assms(1)] by (auto simp: Validate_accepts_iff validConfig_def)
  ultimately show ?thesis
    by (auto simp: Validate_def Let_def c' split: if_splits)
qed

end
