(* ===== verification/Runner.thy ===== *)
theory Runner
  imports Filtering_Resolver Custom_DNS Forwarding Config
begin

text \<open>
  \<open>internal/server/runner.go\<close>: sizing, the policy engine built from the configuration,
  the reloadable custom names and the resolver chain
  filtering, custom DNS, forwarding. All resolvers of the chain work on one shared
  state, the record \<open>hydra\<close>; each is lifted to it here, and the three interfaces
  \<open>answering\<close>, \<open>context_reader\<close> and \<open>policy_check\<close> are interpreted on
  the lifted operations. \<open>hydra_step\<close> interleaves queries with what the management API
  and the refresh loop do to the shared state. \<open>time.ParseDuration\<close> is the argument
  \<open>pd\<close>, with \<^const>\<open>None\<close> for an error.
\<close>

section \<open>Sizing\<close>

definition configureRuntime :: "Config \<Rightarrow> int \<Rightarrow> int" where
  "configureRuntime cfg gomaxprocs =
     (let baseProcs = (if gomaxprocs \<le> 0 then 1 else gomaxprocs) in
      if ws_Mode (sc_Workers (Server cfg)) = WorkersFixed then
        (let w = (if ws_Value (sc_Workers (Server cfg)) \<le> 0 then 1 else ws_Value (sc_Workers (Server cfg)))
         in if w < baseProcs then w else baseProcs)
      else baseProcs)"

definition calculateMaxConcurrency :: "Config \<Rightarrow> int \<Rightarrow> int" where
  "calculateMaxConcurrency cfg procs =
     (let maxConc = sc_MaxConcurrency (Server cfg) in
      if maxConc \<le> 0 then
        (let c = (if procs \<le> 0 then 1 else procs) in max (min (c * 256) 2048) 1)
      else maxConc)"

definition calculateUpstreamPoolSize :: "Config \<Rightarrow> int \<Rightarrow> int" where
  "calculateUpstreamPoolSize cfg maxConc =
     (let upPool = sc_UpstreamSocketPoolSize (Server cfg)
      in if upPool \<le> 0 then min (max maxConc 64) 1024 else upPool)"

section \<open>The policy engine of a configuration\<close>

definition blocklistFormat :: "string \<Rightarrow> ListFormat" where
  "blocklistFormat f =
     (if f = ''adblock'' then FormatAdblock else if f = ''hosts'' then FormatHosts
      else if f = ''domains'' then FormatDomains else FormatAuto)"

definition policyConfig :: "(string \<Rightarrow> duration option) \<Rightarrow> Config \<Rightarrow> PolicyEngineConfig" where
  "policyConfig pd cfg =
     (let f = Filtering cfg in
      \<lparr>cfg_Enabled = fc_Enabled f, cfg_BlockAction = ActionBlock, cfg_LogBlocked = fc_LogBlocked f,
       cfg_LogAllowed = fc_LogAllowed f, cfg_WhitelistDomains = fc_WhitelistDomains f,
       cfg_BlacklistDomains = fc_BlacklistDomains f,
       cfg_BlocklistURLs = map (\<lambda>bl. \<lparr>bl_Name = bc_Name bl, bl_URL = bc_URL bl,
          bl_Format = blocklistFormat (bc_Format bl)\<rparr>) (fc_Blocklists f),
       cfg_RefreshInterval =
         (if fc_RefreshInterval f \<noteq> '''' then
            (case pd (fc_RefreshInterval f) of Some d \<Rightarrow> d | None \<Rightarrow> 24 * Hour)
          else 24 * Hour)\<rparr>)"

definition BuildPolicyEngine ::
  "go_unicode \<Rightarrow> (string \<Rightarrow> duration option) \<Rightarrow> Config option \<Rightarrow> PolicyEngine option" where
  "BuildPolicyEngine uc pd c =
     (case c of None \<Rightarrow> None | Some cfg \<Rightarrow> Some (NewPolicyEngine uc (policyConfig pd cfg)))"

section \<open>Shared state\<close>

record 'w hydra =
  hy_policy :: PolicyEngine
  hy_custom :: Reloadable
  hy_fwd :: ForwardingResolver
  hy_world :: 'w

definition initCustomDNS :: "go_unicode \<Rightarrow> Config \<Rightarrow> Reloadable \<Rightarrow> Reloadable" where
  "initCustomDNS uc cfg rr =
     (if cd_Hosts (CustomDNS cfg) = [] \<and> cd_CNAMEs (CustomDNS cfg) = [] then Reload rr None
      else
        (case NewCustomDNSResolver uc (cd_Hosts (CustomDNS cfg)) (cd_CNAMEs (CustomDNS cfg)) of
           Inl _ \<Rightarrow> rr
         | Inr r \<Rightarrow> Reload rr (Some r)))"

definition ReloadCustomDNS :: "go_unicode \<Rightarrow> Config \<Rightarrow> Reloadable \<Rightarrow> resolve_error option \<times> Reloadable" where
  "ReloadCustomDNS uc cfg rr =
     (if cd_Hosts (CustomDNS cfg) = [] \<and> cd_CNAMEs (CustomDNS cfg) = [] then (None, Reload rr None)
      else
        (case NewCustomDNSResolver uc (cd_Hosts (CustomDNS cfg)) (cd_CNAMEs (CustomDNS cfg)) of
           Inl e \<Rightarrow> (Some e, rr)
         | Inr r \<Rightarrow> (None, Reload rr (Some r))))"

text \<open>A duration that does not parse is 0, and \<open>NewForwardingResolver\<close> replaces it.\<close>

definition newForwarder :: "(string \<Rightarrow> duration option) \<Rightarrow> Config \<Rightarrow> int \<Rightarrow> ForwardingResolver" where
  "newForwarder pd cfg upPool =
     (let dur = \<lambda>s. case pd s of Some d \<Rightarrow> d | None \<Rightarrow> 0 in
      NewForwardingResolver (uc_Servers (Upstream cfg)) upPool 0 (sc_TCPFallback (Server cfg))
        (dur (uc_UDPTimeout (Upstream cfg))) (dur (uc_TCPTimeout (Upstream cfg)))
        (uc_MaxRetries (Upstream cfg)))"

text \<open>The state \<open>RunWithContext\<close> builds before it starts the servers.\<close>

definition startHydra ::
  "go_unicode \<Rightarrow> (string \<Rightarrow> duration option) \<Rightarrow> Config \<Rightarrow> int \<Rightarrow> PolicyEngine option \<Rightarrow> 'w \<Rightarrow> 'w hydra" where
  "startHydra uc pd cfg gomaxprocs injected w =
     (let maxConc = calculateMaxConcurrency cfg (configureRuntime cfg gomaxprocs);
          upPool = calculateUpstreamPoolSize cfg maxConc
      in \<lparr>hy_policy = (case injected of Some pe \<Rightarrow> pe | None \<Rightarrow> NewPolicyEngine uc (policyConfig pd cfg)),
          hy_custom = initCustomDNS uc cfg None,
          hy_fwd = newForwarder pd cfg upPool, hy_world = w\<rparr>)"

section \<open>The chain\<close>

definition policyEvaluate :: "go_unicode \<Rightarrow> 'w hydra \<Rightarrow> string \<Rightarrow> PolicyResult \<times> 'w hydra" where
  "policyEvaluate uc s d = (let (r, pe) = Evaluate uc (hy_policy s) d in (r, s\<lparr>hy_policy := pe\<rparr>))"

definition customResolve :: "go_unicode \<Rightarrow> 'w hydra resolve" where
  "customResolve uc s req b = (Reloadable_Resolve uc (hy_custom s) req, s)"

definition fwdResolve :: "go_unicode \<Rightarrow> 'w env \<Rightarrow> 'w hydra resolve" where
  "fwdResolve uc env s req b =
     (let (r, fw) = ForwardingResolver_Resolve uc env (hy_fwd s, hy_world s) req b
      in (r, s\<lparr>hy_fwd := fst fw, hy_world := snd fw\<rparr>))"

definition readContext :: "'w env \<Rightarrow> 'w hydra ctx" where
  "readContext env s =
     (let (x, w) = env_ctxErr env (hy_world s) in (map_option CtxErr x, s\<lparr>hy_world := w\<rparr>))"

definition buildResolverChain :: "go_unicode \<Rightarrow> 'w env \<Rightarrow> 'w hydra resolve" where
  "buildResolverChain uc env =
     FilteringResolver_Resolve (policyEvaluate uc)
       (Chained_Resolve (readContext env) [customResolve uc, fwdResolve uc env])"

section \<open>Sizes\<close>

lemma calculateMaxConcurrency_pos: "1 \<le> calculateMaxConcurrency cfg procs"
  by (simp add: calculateMaxConcurrency_def Let_def)

lemma calculateMaxConcurrency_auto:
  "sc_MaxConcurrency (Server cfg) \<le> 0 \<Longrightarrow> calculateMaxConcurrency cfg procs \<le> 2048"
  by (simp add: calculateMaxConcurrency_def Let_def)

lemma calculateUpstreamPoolSize_bounds:
  "1 \<le> calculateUpstreamPoolSize cfg m"
  "sc_UpstreamSocketPoolSize (Server cfg) \<le> 0 \<Longrightarrow>
    64 \<le> calculateUpstreamPoolSize cfg m \<and> calculateUpstreamPoolSize cfg m \<le> 1024"
  by (auto simp: calculateUpstreamPoolSize_def Let_def)

lemma configureRuntime_bounds:
  "0 < g \<Longrightarrow> 1 \<le> configureRuntime cfg g \<and> configureRuntime cfg g \<le> g"
  by (simp add: configureRuntime_def Let_def)

section \<open>Invariant\<close>

definition customOK :: "Reloadable \<Rightarrow> bool" where
  "customOK rr \<longleftrightarrow> (\<forall>r. rr = Some r \<longrightarrow> customInv r)"

definition hydraInv :: "go_unicode \<Rightarrow> 'w hydra \<Rightarrow> bool" where
  "hydraInv uc s \<longleftrightarrow> policyInv (hy_policy s) \<and> customOK (hy_custom s) \<and> fwdInv uc (hy_fwd s)"

text \<open>The configuration file bounds the addresses of a name by what fits in a message.\<close>

definition hostsBounded :: "Config \<Rightarrow> bool" where
  "hostsBounded cfg \<longleftrightarrow> (\<forall>(n, ips) \<in> set (cd_Hosts (CustomDNS cfg)). length ips \<le> 65535)"

lemma hydraInv_policy: "hydraInv uc s \<Longrightarrow> policyInv pe \<Longrightarrow> hydraInv uc (s\<lparr>hy_policy := pe\<rparr>)"
  by (simp add: hydraInv_def)

lemma hydraInv_custom: "hydraInv uc s \<Longrightarrow> customOK rr \<Longrightarrow> hydraInv uc (s\<lparr>hy_custom := rr\<rparr>)"
  by (simp add: hydraInv_def)

lemma hydraInv_world: "hydraInv uc (s\<lparr>hy_world := w\<rparr>) = hydraInv uc s"
  by (simp add: hydraInv_def)

section \<open>Answers of the chain\<close>

definition hydraAnswer :: "go_unicode \<Rightarrow> Packet \<Rightarrow> bytes \<Rightarrow> bool" where
  "hydraAnswer uc req bs \<longleftrightarrow> blockedAnswer req bs \<or> customAnswer req bs \<or> upstreamAnswer uc req bs"

interpretation hydra_policy: policy_check "hydraInv uc" "policyEvaluate uc"
  "\<lambda>s d. res_Action (fst (Evaluate uc (hy_policy s) d)) = ActionBlock" for uc
proof
  fix s :: "'a hydra" and d
  assume "hydraInv uc s"
  then show "hydraInv uc (snd (policyEvaluate uc s d))"
    using policyInv_Evaluate [of "hy_policy s" uc d]
    by (cases "Evaluate uc (hy_policy s) d") (simp add: policyEvaluate_def hydraInv_def)
next
  fix s :: "'a hydra" and d
  show "(res_Action (fst (policyEvaluate uc s d)) = ActionBlock) =
      (res_Action (fst (Evaluate uc (hy_policy s) d)) = ActionBlock)"
    by (simp add: policyEvaluate_def split: prod.split)
qed

interpretation hydra_context: context_reader "hydraInv uc" "readContext env" for uc env
  by unfold_locales (simp_all add: readContext_def hydraInv_world split: prod.split)

interpretation hydra_custom: answering "hydraInv uc"
  "\<lambda>req bs. customAnswer req bs \<or> upstreamAnswer uc req bs" "customResolve uc" for uc
proof
  fix s :: "'a hydra" and req b
  assume I: "hydraInv uc s" and q: "singleQuestion req"
  show "hydraInv uc (snd (customResolve uc s req b))" using I by (simp add: customResolve_def)
  show "fst (customResolve uc s req b) \<noteq> Inl ResolverPanic"
    by (simp add: customResolve_def Reloadable_no_panic)
  show "customAnswer req (ResponseBytes res) \<or> upstreamAnswer uc req (ResponseBytes res)"
    if "fst (customResolve uc s req b) = Inr res" for res
    using that I Reloadable_answers [of "hy_custom s" uc req res]
    by (simp add: customResolve_def hydraInv_def customOK_def)
qed

interpretation hydra_fwd: answering "hydraInv uc"
  "\<lambda>req bs. customAnswer req bs \<or> upstreamAnswer uc req bs" "fwdResolve uc env" for uc env
proof
  fix s :: "'a hydra" and req b
  assume I: "hydraInv uc s" and q: "singleQuestion req"
  obtain x f w where run: "ForwardingResolver_Resolve uc env (hy_fwd s, hy_world s) req b = (x, (f, w))"
    by (metis prod.exhaust)
  have "fwdInv uc (fst (hy_fwd s, hy_world s))" using I by (simp add: hydraInv_def)
  from forwarding.outcome [OF this q run] I
  show "hydraInv uc (snd (fwdResolve uc env s req b))"
    "fst (fwdResolve uc env s req b) \<noteq> Inl ResolverPanic"
    "\<And>res. fst (fwdResolve uc env s req b) = Inr res \<Longrightarrow>
      customAnswer req (ResponseBytes res) \<or> upstreamAnswer uc req (ResponseBytes res)"
    by (simp_all add: fwdResolve_def run hydraInv_def)
qed

interpretation hydra_chain: answering "hydraInv uc" "hydraAnswer uc" "buildResolverChain uc env"
  for uc env
proof -
  have "answering (hydraInv uc) (\<lambda>req bs. customAnswer req bs \<or> upstreamAnswer uc req bs)
      (Chained_Resolve (readContext env) [customResolve uc, fwdResolve uc env])"
    by (rule hydra_context.Chained_answering)
      (simp add: hydra_custom.answering_axioms hydra_fwd.answering_axioms)
  from hydra_policy.Filtering_answering [OF this]
  show "answering (hydraInv uc) (hydraAnswer uc) (buildResolverChain uc env)"
    by (simp add: buildResolverChain_def hydraAnswer_def [abs_def])
qed

lemma blockedAnswer_carriesID:
  assumes "blockedAnswer req bs" shows "carriesID (ID (p_Header req)) bs"
proof -
  from assms obtain p where p: "ParsePacket undefined bs = Inr p" and i: "ID (p_Header p) = ID (p_Header req)"
    unfolding blockedAnswer_def by blast
  from ParsePacket_shape(5) [OF p] ParseHeader_carriesID i show ?thesis by metis
qed

lemma hydraAnswer_carriesID: "hydraAnswer uc req bs \<Longrightarrow> carriesID (ID (p_Header req)) bs"
  unfolding hydraAnswer_def
  using blockedAnswer_carriesID customAnswer_carriesID upstreamAnswer_carriesID by blast

section \<open>Starting and reloading\<close>

lemma addHosts_customInv:
  assumes "addHosts uc hosts m = Inr hs" "\<forall>(n, ips) \<in> set hosts. length ips \<le> 65535"
    "customInv \<lparr>cr_hosts = m, cr_cnames = c\<rparr>"
  shows "customInv \<lparr>cr_hosts = hs, cr_cnames = c'\<rparr>"
  using assms
proof (induction hosts arbitrary: m)
  case (Cons h rest)
  obtain name ips where h: "h = (name, ips)" by (rule prod.exhaust)
  with Cons.prems(1) obtain addrs where a: "parseIPs uc name ips = Inr addrs"
    and rest: "addHosts uc rest (if addrs \<noteq> [] then fmupd (normalizeName uc name) addrs m else m) = Inr hs"
    by (auto simp: andThen_Inr_iff)
  have "length addrs \<le> 65535" "list_all (\<lambda>a. wfAddr a \<and> a \<noteq> ZeroAddr) addrs"
    using parseIPs_wf [OF a] Cons.prems(2) h by auto
  then have "customInv \<lparr>cr_hosts = (if addrs \<noteq> [] then fmupd (normalizeName uc name) addrs m else m), cr_cnames = c\<rparr>"
    using Cons.prems(3) by (auto simp: customInv_def)
  with Cons.IH [OF rest] Cons.prems(2) show ?case by simp
qed (simp add: customInv_def)

lemma NewCustomDNSResolver_inv:
  assumes "NewCustomDNSResolver uc hosts cnames = Inr r" "\<forall>(n, ips) \<in> set hosts. length ips \<le> 65535"
  shows "customInv r"
proof -
  from assms(1) obtain hs c where "addHosts uc hosts fmempty = Inr hs" "r = \<lparr>cr_hosts = hs, cr_cnames = c\<rparr>"
    by (auto simp: NewCustomDNSResolver_def andThen_Inr_iff)
  with addHosts_customInv [OF _ assms(2), of uc fmempty hs fmempty c] show ?thesis
    by (simp add: customInv_def)
qed

lemma customOK_init: "hostsBounded cfg \<Longrightarrow> customOK rr \<Longrightarrow> customOK (initCustomDNS uc cfg rr)"
  using NewCustomDNSResolver_inv
  by (auto simp: initCustomDNS_def Reload_def customOK_def hostsBounded_def split: sum.split)

lemma customOK_reload: "hostsBounded cfg \<Longrightarrow> customOK rr \<Longrightarrow> customOK (snd (ReloadCustomDNS uc cfg rr))"
  using NewCustomDNSResolver_inv
  by (auto simp: ReloadCustomDNS_def Reload_def customOK_def hostsBounded_def split: sum.split)

text \<open>A reload that fails keeps the names that were configured before.\<close>

lemma ReloadCustomDNS_error: "fst (ReloadCustomDNS uc cfg rr) = Some e \<Longrightarrow> snd (ReloadCustomDNS uc cfg rr) = rr"
  by (auto simp: ReloadCustomDNS_def split: if_splits sum.splits)

lemma hydraInv_start:
  assumes "hostsBounded cfg" "\<forall>pe. injected = Some pe \<longrightarrow> policyInv pe"
  shows "hydraInv uc (startHydra uc pd cfg procs injected w)"
  using assms customOK_init [OF assms(1), of None uc]
  by (auto simp: hydraInv_def startHydra_def newForwarder_def Let_def fwdInv_New policyInv_New
      customOK_def split: option.split)

section \<open>The running server\<close>

text \<open>
  One step is one query resolved, one management operation on the policy, one reload of
  the custom names, one load or refresh of a blocklist, or a change of the world.
\<close>

inductive hydra_step :: "go_unicode \<Rightarrow> 'w env \<Rightarrow> 'w hydra \<Rightarrow> 'w hydra \<Rightarrow> bool"
  for uc :: go_unicode and env :: "'w env"
where
  resolve: "singleQuestion req \<Longrightarrow> hydra_step uc env s (snd (buildResolverChain uc env s req b))"
| whitelist: "hydra_step uc env s (s\<lparr>hy_policy := AddToWhitelist uc (hy_policy s) d\<rparr>)"
| blacklist: "hydra_step uc env s (s\<lparr>hy_policy := AddToBlacklist uc (hy_policy s) d\<rparr>)"
| unwhitelist: "hydra_step uc env s (s\<lparr>hy_policy := RemoveFromWhitelist uc (hy_policy s) d\<rparr>)"
| unblacklist: "hydra_step uc env s (s\<lparr>hy_policy := RemoveFromBlacklist uc (hy_policy s) d\<rparr>)"
| enable: "hydra_step uc env s (s\<lparr>hy_policy := SetEnabled (hy_policy s) on\<rparr>)"
| loadlist: "hydra_step uc env s (s\<lparr>hy_policy := loadBlocklist uc fetch p now bl (hy_policy s)\<rparr>)"
| refresh: "hydra_step uc env s (s\<lparr>hy_policy := refreshTick uc fetch p urls (hy_policy s)\<rparr>)"
| reload: "hostsBounded cfg \<Longrightarrow>
    hydra_step uc env s (s\<lparr>hy_custom := snd (ReloadCustomDNS uc cfg (hy_custom s))\<rparr>)"
| world: "hydra_step uc env s (s\<lparr>hy_world := w\<rparr>)"

lemma hydraInv_step: "hydra_step uc env s s' \<Longrightarrow> hydraInv uc s \<Longrightarrow> hydraInv uc s'"
proof (induction rule: hydra_step.induct)
  case (resolve req s b)
  then show ?case by (simp add: hydra_chain.keeps)
next
  case (reload cfg s)
  then show ?case by (intro hydraInv_custom) (auto simp: hydraInv_def customOK_reload)
qed (auto simp: hydraInv_world hydraInv_def intro: policyInv_updates policyInv_loadBlocklist
      policyInv_refreshTick)

definition hydra_reachable ::
  "go_unicode \<Rightarrow> (string \<Rightarrow> duration option) \<Rightarrow> 'w env \<Rightarrow> Config \<Rightarrow> 'w hydra \<Rightarrow> bool" where
  "hydra_reachable uc pd env cfg s \<longleftrightarrow>
     (\<exists>procs w. (hydra_step uc env)\<^sup>*\<^sup>* (startHydra uc pd cfg procs None w) s)"

lemma hydra_reachable_inv:
  assumes "hydra_reachable uc pd env cfg s" "hostsBounded cfg" shows "hydraInv uc s"
proof -
  from assms(1) obtain procs w where "(hydra_step uc env)\<^sup>*\<^sup>* (startHydra uc pd cfg procs None w) s"
    unfolding hydra_reachable_def by blast
  then show ?thesis
    by (induction rule: rtranclp_induct) (auto simp: hydraInv_start [OF assms(2)] intro: hydraInv_step)
qed

text \<open>In every reachable state the whole chain answers soundly and never panics.\<close>

lemma hydra_resolve_outcome:
  assumes "hydraInv uc s" "singleQuestion req" "buildResolverChain uc env s req b = (x, s')"
  shows "x \<noteq> Inl ResolverPanic" "x = Inr res \<Longrightarrow> hydraAnswer uc req (ResponseBytes res)"
  using hydra_chain.outcome [OF assms] by blast+

lemma hydra_blocks:
  assumes "hydraInv uc s" "p_Questions req = [q]" "pe_enabled (hy_policy s)"
    "pe_blockAction (hy_policy s) = ActionBlock"
    "\<not> listed uc (pe_whitelist (hy_policy s)) (q_Name q)"
    "listed uc (pe_blacklist (hy_policy s)) (q_Name q)"
  shows "fst (buildResolverChain uc env s req b) = blockedResult req"
proof -
  have "policyInv (hy_policy s)" using assms(1) by (simp add: hydraInv_def)
  then have "res_Action (fst (Evaluate uc (hy_policy s) (q_Name q))) = ActionBlock"
    using assms(3-6) by (simp add: Evaluate_action)
  with hydra_policy.Filtering_blocked [OF assms(1,2)] show ?thesis
    by (simp add: buildResolverChain_def)
qed

end
