(* ===== verification/GoFloat.thy ===== *)
theory GoFloat
  imports Prelude
begin

text \<open>
  Go's \<open>float64\<close> as the rate limiter and the statistics use it. A finite float is a
  rational number; every operation rounds its exact result with \<open>round64\<close>, round to
  nearest, ties to even, with the 53-bit significand and the least exponent of IEEE 754
  double precision. Overflow to infinity is not modelled: the values of the callers stay
  far below \<open>2 ^ 1024\<close>. The locale \<open>rounding\<close> collects what the proofs about callers
  use of the rounding function, and \<open>round64\<close> is its instance.
\<close>

section \<open>Rounding to an integer\<close>

definition roundEven :: "rat \<Rightarrow> int" where
  "roundEven y =
     (let f = \<lfloor>y\<rfloor>; d = y - of_int f in
      if d < 1 / 2 then f else if d > 1 / 2 then f + 1 else if even f then f else f + 1)"

lemma roundEven_bounds: "\<lfloor>y\<rfloor> \<le> roundEven y" "roundEven y \<le> \<lfloor>y\<rfloor> + 1"
  by (simp_all add: roundEven_def Let_def)

lemma roundEven_of_int [simp]: "roundEven (of_int n) = n"
  by (simp add: roundEven_def)

lemma roundEven_mono: "x \<le> y \<Longrightarrow> roundEven x \<le> roundEven y"
proof (cases "\<lfloor>x\<rfloor> = \<lfloor>y\<rfloor>")
  case True
  assume "x \<le> y"
  with True show ?thesis by (auto simp: roundEven_def Let_def)
next
  case False
  assume "x \<le> y"
  with False have "\<lfloor>x\<rfloor> + 1 \<le> \<lfloor>y\<rfloor>" using floor_mono [of x y] by simp
  with roundEven_bounds(2) [of x] roundEven_bounds(1) [of y] show ?thesis by simp
qed

section \<open>Binary exponents\<close>

abbreviation pow2 :: "int \<Rightarrow> rat" where "pow2 e \<equiv> 2 powi e"

fun bitLength :: "nat \<Rightarrow> nat" where
  "bitLength n = (if n = 0 then 0 else bitLength (n div 2) + 1)"

declare bitLength.simps [simp del]

text \<open>The exponent of a positive rational: \<open>pow2 e \<le> x < pow2 (e + 1)\<close>.\<close>

definition exponent :: "rat \<Rightarrow> int" where
  "exponent x =
     (let (n, d) = quotient_of x;
          e = int (bitLength (nat n)) - int (bitLength (nat d))
      in if pow2 e \<le> x then e else e - 1)"

lemma bitLength_bounds: "0 < n \<Longrightarrow> 2 ^ (bitLength n - 1) \<le> n \<and> n < 2 ^ bitLength n \<and> 0 < bitLength n"
proof (induction n rule: bitLength.induct)
  case (1 n)
  show ?case
  proof (cases "n div 2 = 0")
    case True
    with "1.prems" have "n = 1" by (simp add: div_eq_0_iff)
    then show ?thesis by (simp add: bitLength.simps [of "Suc 0"] bitLength.simps [of 0])
  next
    case False
    with 1 have IH: "2 ^ (bitLength (n div 2) - 1) \<le> n div 2" "n div 2 < 2 ^ bitLength (n div 2)"
      "0 < bitLength (n div 2)" by simp_all
    have "bitLength n = bitLength (n div 2) + 1" using "1.prems" by (subst bitLength.simps) simp
    moreover have "(2 :: nat) ^ bitLength (n div 2) = 2 * 2 ^ (bitLength (n div 2) - 1)"
      using IH(3) by (simp flip: power_Suc)
    ultimately show ?thesis using IH by (simp add: less_mult_imp_div_less) linarith
  qed
qed

lemma pow2_pos [simp]: "0 < pow2 e"
  by simp

lemma pow2_mono: "a \<le> b \<Longrightarrow> pow2 a \<le> pow2 b"
  by (simp add: power_int_increasing)

lemma pow2_less_cancel: "pow2 a < pow2 b \<Longrightarrow> a < b"
  using pow2_mono [of b a] by force

lemma pow2_le_cancel: "pow2 a \<le> pow2 b \<Longrightarrow> a \<le> b"
  using power_int_strict_increasing [of b a "2 :: rat"] by (cases "b < a") auto

lemma pow2_add: "pow2 (a + b) = pow2 a * pow2 b"
  by (simp add: power_int_add)

lemma pow2_diff: "pow2 (a - b) = pow2 a / pow2 b"
  by (simp add: power_int_diff)

lemma pow2_nat: "pow2 (int n) = of_int (2 ^ n)"
  by simp

lemma exponent_bounds:
  assumes "0 < x" shows "pow2 (exponent x) \<le> x" "x < pow2 (exponent x + 1)"
proof -
  obtain n d where q: "quotient_of x = (n, d)" by (rule prod.exhaust)
  have d: "0 < d" using quotient_of_denom_pos [OF q] .
  have x: "x = of_int n / of_int d" using quotient_of_div [OF q] .
  have n: "0 < n" using assms d by (simp add: x zero_less_divide_iff)
  let ?bn = "bitLength (nat n)" and ?bd = "bitLength (nat d)"
  note bn = bitLength_bounds [of "nat n"] and bd = bitLength_bounds [of "nat d"]
  have N: "pow2 (int ?bn - 1) \<le> of_int n" "of_int n < pow2 (int ?bn)"
  proof -
    have "(2 :: int) ^ (?bn - 1) \<le> n" "n < 2 ^ ?bn"
      using bn n by (simp_all add: nat_less_numeral_power_cancel_iff numeral_power_le_nat_cancel_iff)
    moreover have "int ?bn - 1 = int (?bn - 1)" using bn n by simp
    ultimately show "pow2 (int ?bn - 1) \<le> of_int n" "of_int n < pow2 (int ?bn)"
      unfolding pow2_nat by (simp_all only: pow2_nat of_int_le_iff of_int_less_iff)
  qed
  have D: "pow2 (int ?bd - 1) \<le> of_int d" "of_int d < pow2 (int ?bd)"
  proof -
    have "(2 :: int) ^ (?bd - 1) \<le> d" "d < 2 ^ ?bd"
      using bd d by (simp_all add: nat_less_numeral_power_cancel_iff numeral_power_le_nat_cancel_iff)
    moreover have "int ?bd - 1 = int (?bd - 1)" using bd d by simp
    ultimately show "pow2 (int ?bd - 1) \<le> of_int d" "of_int d < pow2 (int ?bd)"
      unfolding pow2_nat by (simp_all only: pow2_nat of_int_le_iff of_int_less_iff)
  qed
  let ?e = "int ?bn - int ?bd"
  have dpos: "(0 :: rat) < of_int d" using d by simp
  have up: "x < pow2 (?e + 1)"
  proof -
    have "x < pow2 (int ?bn) / pow2 (int ?bd - 1)"
      unfolding x using N(2) D(1) dpos by (intro frac_less) (simp_all add: n less_imp_le)
    also have "\<dots> = pow2 (int ?bn - (int ?bd - 1))" by (simp only: pow2_diff)
    also have "\<dots> = pow2 (?e + 1)" by (simp only: algebra_simps)
    finally show ?thesis .
  qed
  have lo: "pow2 (?e - 1) \<le> x"
  proof -
    have "pow2 (int ?bn - 1) / pow2 (int ?bd) \<le> x"
      unfolding x using N(1) D(2) dpos by (intro frac_le) (simp_all add: n less_imp_le)
    also have "pow2 (int ?bn - 1) / pow2 (int ?bd) = pow2 (int ?bn - 1 - int ?bd)" by (simp only: pow2_diff)
    finally show ?thesis by (simp only: algebra_simps)
  qed
  show "pow2 (exponent x) \<le> x" "x < pow2 (exponent x + 1)"
    using up lo by (auto simp: exponent_def q Let_def)
qed

lemma exponent_mono: "0 < x \<Longrightarrow> x \<le> y \<Longrightarrow> exponent x \<le> exponent y"
  using exponent_bounds(1) [of x] exponent_bounds(2) [of y] pow2_less_cancel [of "exponent x" "exponent y + 1"]
  by simp

section \<open>Rounding to a float\<close>

definition ulpExp :: "rat \<Rightarrow> int" where
  "ulpExp x = max (exponent x) (- 1022) - 52"

definition roundPos :: "rat \<Rightarrow> rat" where
  "roundPos x = of_int (roundEven (x / pow2 (ulpExp x))) * pow2 (ulpExp x)"

definition round64 :: "rat \<Rightarrow> rat" where
  "round64 x = (if x = 0 then 0 else if x < 0 then - roundPos (- x) else roundPos x)"

text \<open>The values with a significand of at most 53 bits are kept.\<close>

lemma roundPos_exact:
  assumes "0 < x" "x = of_int k * pow2 q" "k \<le> 2 ^ 53" "- 1074 \<le> q"
  shows "roundPos x = x"
proof -
  have kpos: "0 < k" using assms(1,2) pow2_pos [of q] by (metis mult.commute of_int_0_less_iff zero_less_mult_pos)
  have "\<exists>j. x / pow2 (ulpExp x) = of_int j"
  proof (cases "ulpExp x \<le> q")
    case True
    then obtain m where m: "q - ulpExp x = int m" by (metis zero_le_imp_eq_int diff_ge_0_iff_ge)
    have "x / pow2 (ulpExp x) = of_int k * pow2 (q - ulpExp x)" by (simp add: assms(2) pow2_diff)
    then show ?thesis unfolding m pow2_nat by (metis of_int_mult)
  next
    case False
    then have u: "ulpExp x = exponent x - 52" "q < exponent x - 52" using assms(4) by (auto simp: ulpExp_def)
    have "(of_int k :: rat) \<le> of_int (2 ^ 53)" using assms(3) by (simp only: of_int_le_iff)
    also have "\<dots> = pow2 53" using pow2_nat [of 53] by (simp only: of_nat_numeral)
    finally have "of_int k \<le> pow2 53" .
    then have "x \<le> pow2 (53 + q)" by (simp add: assms(2) pow2_add)
    with exponent_bounds(1) [OF assms(1)] have le: "pow2 (exponent x) \<le> pow2 (53 + q)" by simp
    then have "exponent x \<le> 53 + q" by (rule pow2_le_cancel)
    with u(2) have e: "exponent x = 53 + q" by simp
    with exponent_bounds(1) [OF assms(1)] \<open>x \<le> pow2 (53 + q)\<close> have x: "x = pow2 (53 + q)" by simp
    have "x / pow2 (ulpExp x) = pow2 (53 + q - (53 + q - 52))"
      unfolding u(1) e by (simp only: pow2_diff, simp add: x)
    also have "53 + q - (53 + q - 52) = int 52" by simp
    finally have "x / pow2 (ulpExp x) = pow2 (int 52)" .
    then show ?thesis unfolding pow2_nat by blast
  qed
  then obtain j where j: "x / pow2 (ulpExp x) = of_int j" by blast
  then have "x = of_int j * pow2 (ulpExp x)" by (simp add: divide_eq_eq)
  with j show ?thesis by (simp add: roundPos_def)
qed

lemma round64_exact:
  assumes "x = of_int k * pow2 q" "\<bar>k\<bar> \<le> 2 ^ 53" "- 1074 \<le> q"
  shows "round64 x = x"
proof -
  consider "x = 0" | "x < 0" | "0 < x" by linarith
  then show ?thesis
  proof cases
    case 2
    with assms roundPos_exact [of "- x" "- k" q] show ?thesis by (simp add: round64_def)
  next
    case 3
    with assms roundPos_exact [of x k q] show ?thesis by (simp add: round64_def)
  qed (simp add: round64_def)
qed

lemma round64_of_int: "\<bar>n\<bar> \<le> 2 ^ 53 \<Longrightarrow> round64 (of_int n) = of_int n"
  by (rule round64_exact [of _ n 0]) simp_all

text \<open>Rounding yields such a value.\<close>

lemma roundPos_float:
  assumes "0 < x"
  shows "\<exists>k q. roundPos x = of_int k * pow2 q \<and> 0 \<le> k \<and> k \<le> 2 ^ 53 \<and> - 1074 \<le> q"
proof -
  let ?u = "ulpExp x"
  have "x < pow2 (exponent x + 1)" by (rule exponent_bounds(2) [OF assms])
  also have "\<dots> \<le> pow2 (53 + ?u)" by (rule pow2_mono) (simp add: ulpExp_def)
  finally have "x / pow2 ?u \<le> pow2 53" by (simp add: pow2_add divide_le_eq)
  also have "pow2 53 = of_int (2 ^ 53)" using pow2_nat [of 53] by (simp only: of_nat_numeral)
  finally have "roundEven (x / pow2 ?u) \<le> 2 ^ 53"
    using roundEven_mono [of "x / pow2 ?u" "of_int (2 ^ 53)"] by (simp only: roundEven_of_int)
  moreover have "0 \<le> roundEven (x / pow2 ?u)"
    using roundEven_mono [of "of_int 0" "x / pow2 ?u"] assms by (simp only: roundEven_of_int) simp
  moreover have "- 1074 \<le> ?u" by (simp add: ulpExp_def)
  ultimately show ?thesis unfolding roundPos_def by blast
qed

lemma roundPos_nonneg: "0 < x \<Longrightarrow> 0 \<le> roundPos x"
  using roundPos_float [of x] by auto

lemma round64_idem: "round64 (round64 x) = round64 x"
proof -
  consider "x = 0" | "x < 0" | "0 < x" by linarith
  then show ?thesis
  proof cases
    case 2
    with roundPos_float [of "- x"] obtain k q where "round64 x = of_int (- k) * pow2 q" "0 \<le> k"
      "k \<le> 2 ^ 53" "- 1074 \<le> q" by (auto simp: round64_def)
    then show ?thesis using round64_exact [of "round64 x" "- k" q] by simp
  next
    case 3
    with roundPos_float [of x] obtain k q where "round64 x = of_int k * pow2 q" "0 \<le> k"
      "k \<le> 2 ^ 53" "- 1074 \<le> q" by (auto simp: round64_def)
    then show ?thesis using round64_exact [of "round64 x" k q] by simp
  qed (simp add: round64_def)
qed

text \<open>Within a binade rounding is that of integers; between binades a power of two separates.\<close>

lemma roundPos_mono:
  assumes "0 < x" "x \<le> y" shows "roundPos x \<le> roundPos y"
proof (cases "ulpExp x = ulpExp y")
  case True
  have "x / pow2 (ulpExp y) \<le> y / pow2 (ulpExp y)" using assms(2) by (simp add: divide_right_mono)
  from roundEven_mono [OF this] True show ?thesis by (simp add: roundPos_def)
next
  case False
  have y: "0 < y" using assms by simp
  have e: "exponent x < exponent y" "- 1022 < exponent y"
    using False exponent_mono [OF assms] by (auto simp: ulpExp_def)
  define p where "p = pow2 (exponent y)"
  have "x \<le> p"
    using exponent_bounds(2) [OF assms(1)] pow2_mono [of "exponent x + 1" "exponent y"] e(1)
    by (simp add: p_def)
  have "p \<le> y" using exponent_bounds(1) [OF y] by (simp add: p_def)
  have iexact: "\<exists>j. p / pow2 u = of_int j" if "u \<le> exponent y" for u
  proof -
    obtain m where "exponent y - u = int m" using \<open>u \<le> exponent y\<close> by (metis zero_le_imp_eq_int diff_ge_0_iff_ge)
    then have "p / pow2 u = of_int (2 ^ m)" by (simp add: p_def flip: pow2_diff)
    then show ?thesis by blast
  qed
  have "roundPos x \<le> p"
  proof -
    have "ulpExp x \<le> exponent y" using e by (auto simp: ulpExp_def)
    then obtain j where j: "p / pow2 (ulpExp x) = of_int j" using iexact by blast
    have "x / pow2 (ulpExp x) \<le> of_int j" using \<open>x \<le> p\<close> by (simp add: divide_right_mono flip: j)
    from roundEven_mono [OF this] have "roundEven (x / pow2 (ulpExp x)) \<le> j" by simp
    then have "roundPos x \<le> of_int j * pow2 (ulpExp x)" by (simp add: roundPos_def mult_right_mono)
    then show ?thesis by (simp flip: j)
  qed
  also have "p \<le> roundPos y"
  proof -
    have "ulpExp y \<le> exponent y" using e by (auto simp: ulpExp_def)
    then obtain j where j: "p / pow2 (ulpExp y) = of_int j" using iexact by blast
    have "of_int j \<le> y / pow2 (ulpExp y)" using \<open>p \<le> y\<close> by (simp add: divide_right_mono flip: j)
    from roundEven_mono [OF this] have "j \<le> roundEven (y / pow2 (ulpExp y))" by simp
    then have "of_int j * pow2 (ulpExp y) \<le> roundPos y" by (simp add: roundPos_def mult_right_mono)
    then show ?thesis by (simp flip: j)
  qed
  finally show ?thesis .
qed

lemma round64_mono: "x \<le> y \<Longrightarrow> round64 x \<le> round64 y"
  using roundPos_mono [of x y] roundPos_mono [of "- y" "- x"] roundPos_nonneg [of y] roundPos_nonneg [of "- x"]
  by (auto simp: round64_def)

text \<open>Taking one token off a float of moderate size is exact.\<close>

lemma round64_dec:
  assumes "round64 t = t" "1 \<le> t" "t \<le> 2 ^ 53" shows "round64 (t - 1) = t - 1"
proof -
  have "round64 t = roundPos t" using assms(2) by (simp add: round64_def)
  with roundPos_float [of t] assms obtain k q where t: "t = of_int k * pow2 q" "0 \<le> k" "k \<le> 2 ^ 53" "- 1074 \<le> q"
    by auto
  show ?thesis
  proof (cases "q \<le> 0")
    case True
    then obtain m where m: "- q = int m" by (metis neg_0_le_iff_le zero_le_imp_eq_int)
    have "of_int (2 ^ m) * pow2 q = pow2 (int m + q)" by (simp only: pow2_nat pow2_add)
    also have "int m + q = 0" using m by simp
    also have "pow2 0 = 1" by simp
    finally have one: "of_int (2 ^ m) * pow2 q = 1" .
    then have eq: "t - 1 = of_int (k - 2 ^ m) * pow2 q" by (simp only: t(1) of_int_diff left_diff_distrib)
    have "0 \<le> of_int (k - 2 ^ m) * pow2 q" using assms(2) unfolding eq [symmetric] by simp
    then have "0 \<le> k - 2 ^ m"
      using pow2_pos [of q] by (simp only: zero_le_mult_iff of_int_0_le_iff) (simp add: not_le)
    moreover have "(0 :: int) \<le> 2 ^ m" by simp
    ultimately have "\<bar>k - 2 ^ m\<bar> \<le> 2 ^ 53" using t(3) by linarith
    from round64_exact [OF eq this t(4)] show ?thesis .
  next
    case False
    then obtain m where m: "q = int m" by (metis nle_le zero_le_imp_eq_int)
    have "t = of_int (k * 2 ^ m)" unfolding t(1) m pow2_nat by simp
    then obtain n where n: "t = of_int n" by blast
    have "n \<le> 2 ^ 53"
      using assms(3) unfolding n by (metis of_int_le_iff of_int_numeral of_int_power)
    moreover have "1 \<le> n" using assms(2) by (simp add: n)
    ultimately have "\<bar>n - 1\<bar> \<le> 2 ^ 53" by simp
    from round64_of_int [OF this] show ?thesis by (simp add: n)
  qed
qed

section \<open>The interface\<close>

locale rounding =
  fixes rnd :: "rat \<Rightarrow> rat"
  assumes rnd_mono: "x \<le> y \<Longrightarrow> rnd x \<le> rnd y"
    and rnd_idem: "rnd (rnd x) = rnd x"
    and rnd_int: "\<bar>n\<bar> \<le> 2 ^ 53 \<Longrightarrow> rnd (of_int n) = of_int n"
begin

lemma rnd_zero [simp]: "rnd 0 = 0"
  using rnd_int [of 0] by simp

lemma rnd_one [simp]: "rnd 1 = 1"
  using rnd_int [of 1] by simp

lemma rnd_nonneg: "0 \<le> x \<Longrightarrow> 0 \<le> rnd x"
  using rnd_mono [of 0 x] by simp

lemma rnd_le: "x \<le> y \<Longrightarrow> rnd y = y \<Longrightarrow> rnd x \<le> y"
  using rnd_mono [of x y] by simp

end

interpretation f64: rounding round64
  by unfold_locales (simp_all add: round64_mono round64_idem round64_of_int)

end
