(* ===== verification/Truncate.thy ===== *)
theory Truncate
  imports Dns_Edns
begin

text \<open>
  \<open>internal/server/truncate.go\<close>: truncation of a UDP response to the client's size.
  The lemmas relate the byte-skipping walk over the question section to the full
  name decoder and bound the size of what is sent; they also record that the branch
  which keeps the question section does not copy the header it has built.
\<close>

unbundle bit_operations_syntax

definition extractQuestionCount :: "bytes \<Rightarrow> uint16" where
  "extractQuestionCount msg = Uint16 (slice msg 4 6)"

definition buildTruncatedHeader :: "bytes \<Rightarrow> uint16 \<Rightarrow> bytes" where
  "buildTruncatedHeader respBytes qdcount =
     (let flags = Uint16 (slice respBytes 2 4);
          newFlags = flags OR TCFlag
      in [respBytes ! 0, respBytes ! 1] @ PutUint16 newFlags @ PutUint16 qdcount @ replicate 6 0)"

function skipQNAME :: "bytes \<Rightarrow> nat \<Rightarrow> nat" where
  "skipQNAME msg pos =
     (if pos < length msg then
        (let labelLen = msg ! pos in
         if labelLen = 0 then pos + 1
         else if labelLen \<ge> 0xC0 then (if pos + 2 > length msg then length msg else pos + 2)
         else if pos + 1 + unat labelLen > length msg then length msg
         else skipQNAME msg (pos + 1 + unat labelLen))
      else pos)"
  by pat_completeness auto
termination
  by (relation "measure (\<lambda>(msg, pos). length msg - pos)") auto

declare skipQNAME.simps [simp del]

fun findQuestionSectionEndFrom :: "bytes \<Rightarrow> nat \<Rightarrow> nat \<Rightarrow> nat" where
  "findQuestionSectionEndFrom msg pos 0 = pos"
| "findQuestionSectionEndFrom msg pos (Suc n) =
     (let pos1 = skipQNAME msg pos in
      if pos1 > length msg then length msg
      else if pos1 + 4 > length msg then length msg
      else findQuestionSectionEndFrom msg (pos1 + 4) n)"

definition findQuestionSectionEnd :: "bytes \<Rightarrow> nat \<Rightarrow> nat" where
  "findQuestionSectionEnd msg qdcount = findQuestionSectionEndFrom msg HeaderSize qdcount"

definition truncateUDPResponse :: "bytes \<Rightarrow> int \<Rightarrow> bytes" where
  "truncateUDPResponse respBytes maxSize0 =
     (let maxSize = (if maxSize0 \<le> 0 then int DefaultUDPPayloadSize else maxSize0) in
      if int (length respBytes) \<le> maxSize then respBytes
      else if length respBytes < HeaderSize then respBytes
      else
        (let qdcount = extractQuestionCount respBytes;
             header = buildTruncatedHeader respBytes qdcount
         in if qdcount = 0 then header
            else
              (let questionEnd = findQuestionSectionEnd respBytes (unat qdcount)
               in if questionEnd \<le> HeaderSize then header
                  else if int questionEnd > maxSize then header
                  else replicate (length header) 0 @ slice respBytes HeaderSize questionEnd)))"

section \<open>The header that is built\<close>

lemma length_buildTruncatedHeader [simp]: "length (buildTruncatedHeader m q) = HeaderSize"
  by (simp add: buildTruncatedHeader_def Let_def HeaderSize_def)

lemma ParseHeader_buildTruncatedHeader:
  assumes "ParseHeader m 0 = Inr (h, off)"
  shows "ParseHeader (buildTruncatedHeader m q @ post) 0 =
    Inr (\<lparr>ID = ID h, Flags = Flags h OR TCFlag, QDCount = q, ANCount = 0, NSCount = 0,
         ARCount = 0\<rparr>, HeaderSize)"
proof -
  have len: "HeaderSize \<le> length m" and h: "ID h = Uint16 (slice m 0 2)" "Flags h = Uint16 (slice m 2 4)"
    using assms by (auto simp: ParseHeader_def split: if_splits)
  have "slice m 0 2 = [m ! 0, m ! 1]"
    using len by (cases m; cases "tl m") (auto simp: HeaderSize_def slice_def)
  moreover have "Uint16 [0, 0] = 0"
    by (simp add: Uint16_def)
  moreover have "replicate 6 (0 :: byte) = [0, 0, 0, 0, 0, 0]"
    by (simp add: numeral_eq_Suc)
  ultimately show ?thesis
    by (simp add: ParseHeader_def buildTruncatedHeader_def Let_def HeaderSize_def h slice_def
        PutUint16_def del: drop_bit_or)
qed

section \<open>Skipping a name agrees with decoding it\<close>

lemma byte_pointer_split:
  "(b AND 0xC0 = 0xC0) = (0xC0 \<le> b)" "b AND 0xC0 = 0 \<Longrightarrow> b < 0x40" for b :: byte
proof -
  have all: "list_all (\<lambda>n. (word_of_nat n AND 0xC0 = (0xC0 :: byte)) = (0xC0 \<le> (word_of_nat n :: byte)) \<and>
      (word_of_nat n AND 0xC0 = (0 :: byte) \<longrightarrow> (word_of_nat n :: byte) < 0x40)) [0..<256]"
    by code_simp
  have "unat b < 256" using unsigned_less [of b, where 'a = nat] by simp
  with all show "(b AND 0xC0 = 0xC0) = (0xC0 \<le> b)" "b AND 0xC0 = 0 \<Longrightarrow> b < 0x40"
    by (force simp: list_all_iff dest: bspec [of _ _ "unat b"])+
qed

lemma skipQNAME_decodeLoop:
  assumes "decodeLoop msg off depth visited ls = Inr (n, off')"
  shows "skipQNAME msg off = off'"
  using assms
proof (induction "length msg - off" arbitrary: off ls rule: less_induct)
  case less
  from less.prems have lt: "off < length msg"
    by (auto simp: decodeLoop.simps [of msg off] split: if_splits)
  consider (zero) "msg ! off = 0" | (ptr) "msg ! off \<noteq> 0" "isCompressionPointer (msg ! off)"
    | (label) "msg ! off \<noteq> 0" "\<not> isCompressionPointer (msg ! off)" by blast
  then show ?case
  proof cases
    case zero
    with less.prems lt show ?thesis
      by (simp add: decodeLoop.simps [of msg off] skipQNAME.simps [of msg off])
  next
    case ptr
    then obtain rest
      where "followCompressionPointer msg (off + 1) (msg ! off) depth visited = Inr (rest, off')"
      using less.prems lt by (auto simp: decodeLoop.simps [of msg off] andThen_Inr_iff)
    from decode_progress(3) [OF this] have "off' = off + 2" "off + 2 \<le> length msg" by simp_all
    with ptr lt show ?thesis
      by (simp add: skipQNAME.simps [of msg off] isCompressionPointer_def byte_pointer_split)
  next
    case label
    with less.prems lt obtain l off1
      where nr: "\<not> hasReservedBits (msg ! off)"
        and rl: "readLabel msg (off + 1) (unat (msg ! off)) = Inr (l, off1)"
        and rec: "decodeLoop msg off1 depth visited (ls @ [l]) = Inr (n, off')"
      by (auto simp: decodeLoop.simps [of msg off] Let_def split: if_splits sum.splits prod.splits)
    note r = readLabel_Inr [OF rl]
    have "length msg - off1 < length msg - off"
      using r lt by linarith
    from less.hyps [OF this rec] have "skipQNAME msg off1 = off'" .
    with label r lt show ?thesis
      by (simp add: skipQNAME.simps [of msg off] isCompressionPointer_def byte_pointer_split)
  qed
qed

lemma skipQNAME_DecodeName: "DecodeName msg off = Inr (n, off') \<Longrightarrow> skipQNAME msg off = off'"
  by (auto simp: DecodeName_def decodeName.simps intro: skipQNAME_decodeLoop split: if_splits)

lemma findQuestionSectionEnd_parse:
  assumes "parseN (ParseQuestion uc) n msg off = Inr (qs, off')" "off \<le> length msg"
  shows "findQuestionSectionEndFrom msg off n = off'"
  using assms
proof (induction n arbitrary: off qs)
  case (Suc n)
  then obtain q off1 qs' where q: "ParseQuestion uc msg off = Inr (q, off1)"
    and rest: "parseN (ParseQuestion uc) n msg off1 = Inr (qs', off')"
    by (auto simp: andThen_Inr_iff)
  from q obtain nm off2 where d: "DecodeName msg off = Inr (nm, off2)"
    and o: "off1 = off2 + 4" "off1 \<le> length msg"
    by (auto simp: ParseQuestion_def andThen_Inr_iff split: if_splits)
  with Suc.IH [OF rest] show ?case
    by (simp add: skipQNAME_DecodeName [OF d])
qed simp

section \<open>What is sent\<close>

lemma skipQNAME_le: "pos \<le> length msg \<Longrightarrow> skipQNAME msg pos \<le> length msg"
proof (induction msg pos rule: skipQNAME.induct)
  case (1 msg pos)
  then show ?case by (subst skipQNAME.simps) (auto simp: Let_def)
qed

lemma findQuestionSectionEndFrom_le:
  "pos \<le> length msg \<Longrightarrow> findQuestionSectionEndFrom msg pos n \<le> length msg"
  by (induction msg pos n rule: findQuestionSectionEndFrom.induct) (auto simp: Let_def skipQNAME_le)

lemma truncateUDPResponse_length:
  assumes "int HeaderSize \<le> maxSize"
  shows "int (length (truncateUDPResponse m maxSize)) \<le> maxSize"
proof -
  have "\<not> maxSize \<le> 0"
    using assms by (simp add: HeaderSize_def)
  then show ?thesis
    using assms by (auto simp: truncateUDPResponse_def Let_def findQuestionSectionEnd_def min_def)
qed

end
