(* ===== verification/Query_Handler.thy ===== *)
theory Query_Handler
  imports Runner GoFloat Truncate
begin

text \<open>
  \<open>internal/server/query_handler.go\<close> and \<open>internal/server/stats.go\<close>: parsing a request,
  resolving it under a timeout, and the error responses. The resolver runs in a goroutine
  of its own, so its effects on the shared state happen whichever case of the \<open>select\<close>
  fires; which one fires is decided by the argument \<open>h_wait\<close>. A panic of that goroutine
  ends the process: the handler then has no result (\<^const>\<open>None\<close>). The locale
  \<open>query_server\<close> states what the handler needs of its resolver, clock and timer; it is
  interpreted on the resolver chain of the runner.
\<close>

unbundle bit_operations_syntax

section \<open>Statistics\<close>

record DNSStats =
  queriesTotal :: uint64
  queriesUDP :: uint64
  queriesTCP :: uint64
  responsesNX :: uint64
  responsesErr :: uint64
  latencyTotalNs :: uint64

definition NewDNSStats :: DNSStats where
  "NewDNSStats = \<lparr>queriesTotal = 0, queriesUDP = 0, queriesTCP = 0, responsesNX = 0,
     responsesErr = 0, latencyTotalNs = 0\<rparr>"

definition RecordQuery :: "string \<Rightarrow> DNSStats \<Rightarrow> DNSStats" where
  "RecordQuery transport s0 =
     (let s = s0\<lparr>queriesTotal := queriesTotal s0 + 1\<rparr> in
      if transport = ''udp'' then s\<lparr>queriesUDP := queriesUDP s + 1\<rparr>
      else if transport = ''tcp'' then s\<lparr>queriesTCP := queriesTCP s + 1\<rparr>
      else s)"

definition RecordNXDOMAIN :: "DNSStats \<Rightarrow> DNSStats" where
  "RecordNXDOMAIN s = s\<lparr>responsesNX := responsesNX s + 1\<rparr>"

definition RecordError :: "DNSStats \<Rightarrow> DNSStats" where
  "RecordError s = s\<lparr>responsesErr := responsesErr s + 1\<rparr>"

definition RecordLatency :: "int \<Rightarrow> DNSStats \<Rightarrow> DNSStats" where
  "RecordLatency ns s =
     (if ns > 0 then s\<lparr>latencyTotalNs := latencyTotalNs s + word_of_int ns\<rparr> else s)"

record DNSStatsSnapshot =
  snap_total :: uint64
  snap_UDP :: uint64
  snap_TCP :: uint64
  snap_NX :: uint64
  snap_Err :: uint64
  snap_AvgLatencyMs :: rat

definition Snapshot :: "DNSStats \<Rightarrow> DNSStatsSnapshot" where
  "Snapshot s =
     (let f = (\<lambda>w :: uint64. round64 (of_int (uint w)));
          avg = (if queriesTotal s > 0
                 then round64 (round64 (f (latencyTotalNs s) / f (queriesTotal s)) / 1000000) else 0)
      in \<lparr>snap_total = queriesTotal s, snap_UDP = queriesUDP s, snap_TCP = queriesTCP s,
          snap_NX = responsesNX s, snap_Err = responsesErr s, snap_AvgLatencyMs = avg\<rparr>)"

section \<open>Handler\<close>

datatype select_case = CtxDone | TimerFired | ResolverDone

record 's QueryHandler =
  h_Resolver :: "'s resolve"
  h_Timeout :: duration
  h_now :: "'s \<Rightarrow> instant \<times> 's"
  h_wait :: "duration \<Rightarrow> 's \<Rightarrow> select_case \<times> 's"

record HandleResult =
  hr_ResponseBytes :: bytes
  hr_Source :: string
  hr_Parsed :: Packet
  hr_ParsedOK :: bool

definition zeroPacket :: Packet where
  "zeroPacket = \<lparr>p_Header = \<lparr>ID = 0, Flags = 0, QDCount = 0, ANCount = 0, NSCount = 0, ARCount = 0\<rparr>,
     p_Questions = [], p_Answers = [], p_Authorities = [], p_Additionals = []\<rparr>"

definition mustMarshal :: "Packet \<Rightarrow> bytes" where
  "mustMarshal p = (case Packet_Marshal p of Inl _ \<Rightarrow> [] | Inr b \<Rightarrow> b)"

definition buildErrorResult :: "Packet \<Rightarrow> string \<Rightarrow> RCode \<Rightarrow> Result" where
  "buildErrorResult parsed source rcode =
     \<lparr>ResponseBytes = mustMarshal (BuildErrorResponse parsed rcode), Source = source\<rparr>"

definition tryBuildErrorFromRaw :: "go_unicode \<Rightarrow> bytes \<Rightarrow> uint16 \<Rightarrow> bytes" where
  "tryBuildErrorFromRaw uc reqBytes rcode =
     (case ParseHeader reqBytes 0 of
        Inl _ \<Rightarrow> []
      | Inr (h, off) \<Rightarrow>
          (let questions =
             (if QDCount h > 0 then
                (case ParseQuestion uc reqBytes off of Inr (q, _) \<Rightarrow> [q] | Inl _ \<Rightarrow> [])
              else []);
               p = \<lparr>p_Header = \<lparr>ID = ID h, Flags = Flags h, QDCount = 0, ANCount = 0, NSCount = 0,
                      ARCount = 0\<rparr>,
                    p_Questions = questions, p_Answers = [], p_Authorities = [], p_Additionals = []\<rparr>
           in case Packet_Marshal (BuildErrorResponse p rcode) of Inl _ \<Rightarrow> [] | Inr b \<Rightarrow> b))"

definition handleParseError :: "go_unicode \<Rightarrow> bytes \<Rightarrow> HandleResult" where
  "handleParseError uc reqBytes =
     (let resp = tryBuildErrorFromRaw uc reqBytes RCodeFormErr in
      if resp = [] then
        \<lparr>hr_ResponseBytes = [], hr_Source = ''parse-error'', hr_Parsed = zeroPacket, hr_ParsedOK = False\<rparr>
      else
        \<lparr>hr_ResponseBytes = resp, hr_Source = ''formerr'', hr_Parsed = zeroPacket, hr_ParsedOK = False\<rparr>)"

definition extractQuestionInfo :: "Packet \<Rightarrow> string \<times> int" where
  "extractQuestionInfo parsed =
     (case p_Questions parsed of
        [] \<Rightarrow> (''<no-question>'', -1)
      | q # _ \<Rightarrow> (q_Name q, uint (q_Type q)))"

definition resolveWithTimeout :: "'s QueryHandler \<Rightarrow> 's \<Rightarrow> Packet \<Rightarrow> bytes \<Rightarrow> Result option \<times> 's" where
  "resolveWithTimeout h s parsed reqBytes =
     (let (r, s1) = h_Resolver h s parsed reqBytes;
          timeout = (if h_Timeout h \<le> 0 then 4 * Second else h_Timeout h);
          (sel, s2) = h_wait h timeout s1
      in if r = Inl ResolverPanic then (None, s2)
         else
           (Some (case sel of
              CtxDone \<Rightarrow> buildErrorResult parsed ''shutdown'' RCodeServFail
            | TimerFired \<Rightarrow> buildErrorResult parsed ''timeout'' RCodeServFail
            | ResolverDone \<Rightarrow>
                (case r of
                   Inl _ \<Rightarrow> buildErrorResult parsed ''servfail'' RCodeServFail
                 | Inr res \<Rightarrow> res)), s2))"

definition recordResponse :: "bytes \<Rightarrow> DNSStats \<Rightarrow> DNSStats" where
  "recordResponse resp st =
     (if length resp \<ge> 4 then
        (let rcode = (resp ! 3) AND 0x0F in
         if rcode = ucast RCodeNXDomain then RecordNXDOMAIN st
         else if rcode \<noteq> ucast RCodeNoError then RecordError st
         else st)
      else st)"

definition Handle ::
  "go_unicode \<Rightarrow> 's QueryHandler \<Rightarrow> string \<Rightarrow> bytes \<Rightarrow> 's \<times> DNSStats option \<Rightarrow>
     HandleResult option \<times> 's \<times> DNSStats option" where
  "Handle uc h transport reqBytes s =
     (let (start, s1) = h_now h (fst s);
          st1 = map_option (RecordQuery transport) (snd s)
      in case ParseRequestBounded uc reqBytes of
           Inl _ \<Rightarrow> (Some (handleParseError uc reqBytes), s1, map_option RecordError st1)
         | Inr parsed \<Rightarrow>
             (case resolveWithTimeout h s1 parsed reqBytes of
                (None, s2) \<Rightarrow> (None, s2, st1)
              | (Some res, s2) \<Rightarrow>
                  (let (s3, st2) =
                     (case st1 of
                        None \<Rightarrow> (s2, None)
                      | Some st \<Rightarrow>
                          (let (t, s3) = h_now h s2 in
                           (s3, Some (recordResponse (ResponseBytes res) (RecordLatency (Sub t start) st)))))
                   in (Some \<lparr>hr_ResponseBytes = ResponseBytes res, hr_Source = Source res,
                             hr_Parsed = parsed, hr_ParsedOK = True\<rparr>, s3, st2))))"

definition newHandler ::
  "'s resolve \<Rightarrow> ('s \<Rightarrow> instant \<times> 's) \<Rightarrow> (duration \<Rightarrow> 's \<Rightarrow> select_case \<times> 's) \<Rightarrow> duration \<Rightarrow>
     's QueryHandler" where
  "newHandler r now wait timeout =
     \<lparr>h_Resolver = r, h_Timeout = timeout, h_now = now, h_wait = wait\<rparr>"

section \<open>Error responses\<close>

definition servfailFor :: "Packet \<Rightarrow> bytes" where
  "servfailFor parsed = mustMarshal (BuildErrorResponse parsed RCodeServFail)"

lemma mustMarshal_cases: "mustMarshal p = [] \<or> Packet_Marshal p = Inr (mustMarshal p)"
  by (simp add: mustMarshal_def split: sum.split)

lemma servfailFor_carriesID:
  "servfailFor parsed \<noteq> [] \<Longrightarrow> carriesID (ID (p_Header parsed)) (servfailFor parsed)"
  using mustMarshal_cases [of "BuildErrorResponse parsed RCodeServFail"]
    Packet_Marshal_carriesID [of "BuildErrorResponse parsed RCodeServFail"]
  by (auto simp: servfailFor_def BuildErrorResponse_def)

lemma carriesID_take: "carriesID i b \<Longrightarrow> carriesID i b' \<Longrightarrow> take 2 b = take 2 b'"
  by (simp add: carriesID_def)

lemma tryBuildErrorFromRaw_ID:
  assumes "tryBuildErrorFromRaw uc b rc \<noteq> []" shows "take 2 (tryBuildErrorFromRaw uc b rc) = take 2 b"
proof -
  from assms obtain h off where h: "ParseHeader b 0 = Inr (h, off)"
    by (auto simp: tryBuildErrorFromRaw_def split: sum.splits)
  with assms obtain p where p: "Packet_Marshal (BuildErrorResponse p rc) = Inr (tryBuildErrorFromRaw uc b rc)"
    and i: "ID (p_Header p) = ID h"
    by (auto simp: tryBuildErrorFromRaw_def Let_def split: sum.splits if_splits)
  have "carriesID (ID h) (tryBuildErrorFromRaw uc b rc)"
    using Packet_Marshal_carriesID [OF p] i by (simp add: BuildErrorResponse_def)
  with ParseHeader_carriesID [OF h] show ?thesis by (intro carriesID_take)
qed

section \<open>The handler and its resolver\<close>

locale query_server = answering I answers r
  for I :: "'s \<Rightarrow> bool" and answers :: "Packet \<Rightarrow> bytes \<Rightarrow> bool" and r :: "'s resolve" +
  fixes now :: "'s \<Rightarrow> instant \<times> 's" and wait :: "duration \<Rightarrow> 's \<Rightarrow> select_case \<times> 's"
  assumes now_keeps: "I s \<Longrightarrow> I (snd (now s))"
    and wait_keeps: "I s \<Longrightarrow> I (snd (wait d s))"
    and answers_ID: "answers req bs \<Longrightarrow> carriesID (ID (p_Header req)) bs"
begin

lemma resolveWithTimeout_outcome:
  assumes "I s" "singleQuestion req" "resolveWithTimeout (newHandler r now wait d) s req b = (x, s')"
  shows "I s'" "\<exists>res. x = Some res \<and> (ResponseBytes res = servfailFor req \<or> answers req (ResponseBytes res))"
proof -
  obtain y s1 where y: "r s req b = (y, s1)" by (rule prod.exhaust)
  note o1 = outcome [OF assms(1,2) y]
  define tt where "tt = (if d \<le> 0 then 4 * Second else d)"
  obtain sel s2 where w: "wait tt s1 = (sel, s2)" by (rule prod.exhaust)
  have eq: "resolveWithTimeout (newHandler r now wait d) s req b =
    (if y = Inl ResolverPanic then (None, s2)
     else (Some (case sel of
              CtxDone \<Rightarrow> buildErrorResult req ''shutdown'' RCodeServFail
            | TimerFired \<Rightarrow> buildErrorResult req ''timeout'' RCodeServFail
            | ResolverDone \<Rightarrow> (case y of Inl _ \<Rightarrow> buildErrorResult req ''servfail'' RCodeServFail
                 | Inr res \<Rightarrow> res)), s2))"
    by (cases "d \<le> 0") (use y w in \<open>simp_all add: resolveWithTimeout_def newHandler_def tt_def\<close>)
  show "I s'" using wait_keeps [of s1 tt] o1 w assms(3) eq by auto
  show "\<exists>res. x = Some res \<and> (ResponseBytes res = servfailFor req \<or> answers req (ResponseBytes res))"
    using eq assms(3) o1
    by (auto simp: buildErrorResult_def servfailFor_def split: select_case.splits sum.splits)
qed

lemma Handle_parsed:
  assumes "I s" "ParseRequestBounded uc b = Inr req" "Handle uc (newHandler r now wait d) tr b (s, st) = (x, s', st')"
  shows "I s' \<and> (\<exists>res. x = Some res \<and> hr_ParsedOK res \<and> hr_Parsed res = req \<and>
    (hr_ResponseBytes res = servfailFor req \<or> answers req (hr_ResponseBytes res)))"
proof -
  obtain t s1 where t: "now s = (t, s1)" by (rule prod.exhaust)
  have I1: "I s1" using now_keeps [OF assms(1)] t by simp
  have q: "singleQuestion req" using ParseRequestBounded_Inr(5) [OF assms(2)] by (simp add: singleQuestion_def)
  obtain y s2 where y: "resolveWithTimeout (newHandler r now wait d) s1 req b = (y, s2)" by (rule prod.exhaust)
  note o1 = resolveWithTimeout_outcome [OF I1 q y]
  then obtain res where res: "y = Some res" "ResponseBytes res = servfailFor req \<or> answers req (ResponseBytes res)"
    by blast
  have n: "h_now (newHandler r now wait d) = now" by (simp add: newHandler_def)
  obtain t2 s3 where t2: "now s2 = (t2, s3)" by (rule prod.exhaust)
  have I3: "I s3" using now_keeps [OF o1(1)] t2 by simp
  show ?thesis
    using assms(3) t y res o1(1) I3
    by (auto simp: Handle_def n assms(2) t2 split: option.splits)
qed

lemma Handle_outcome:
  assumes "I s" "Handle uc (newHandler r now wait d) tr b (s, st) = (x, s', st')"
  shows "I s'" "\<exists>res. x = Some res \<and> (hr_ResponseBytes res = [] \<or> take 2 (hr_ResponseBytes res) = take 2 b)"
proof -
  have "I s' \<and> (\<exists>res. x = Some res \<and> (hr_ResponseBytes res = [] \<or> take 2 (hr_ResponseBytes res) = take 2 b))"
  proof (cases "ParseRequestBounded uc b")
    case (Inl e)
    obtain t s1 where t: "now s = (t, s1)" by (rule prod.exhaust)
    have "h_now (newHandler r now wait d) = now" by (simp add: newHandler_def)
    with Inl t assms(2) now_keeps [OF assms(1)] tryBuildErrorFromRaw_ID [of uc b RCodeFormErr] show ?thesis
      by (auto simp: Handle_def handleParseError_def Let_def)
  next
    case (Inr req)
    from Handle_parsed [OF assms(1) Inr assms(2)] obtain res where o1: "I s'" "x = Some res"
      "hr_ResponseBytes res = servfailFor req \<or> answers req (hr_ResponseBytes res)" by blast
    obtain off where "ParseHeader b 0 = Inr (p_Header req, off)"
      using ParsePacket_shape(5) [OF ParseRequestBounded_Inr(1) [OF Inr]] by blast
    note c = ParseHeader_carriesID [OF this]
    from o1(3) have "hr_ResponseBytes res = [] \<or> take 2 (hr_ResponseBytes res) = take 2 b"
      using carriesID_take [OF servfailFor_carriesID c] carriesID_take [OF answers_ID c] by fastforce
    with o1 show ?thesis by blast
  qed
  then show "I s'" "\<exists>res. x = Some res \<and> (hr_ResponseBytes res = [] \<or> take 2 (hr_ResponseBytes res) = take 2 b)"
    by blast+
qed

end

lemma servfailFor_encodable:
  assumes "p_Questions req = [q]" "EncodeName (q_Name q) = Inr nb"
  shows "servfailFor req \<noteq> []"
proof -
  let ?p = "BuildErrorResponse req RCodeServFail"
  obtain hb where hb: "Header_Marshal (countedHeader ?p) = Inr hb" by (simp add: Header_Marshal_def)
  obtain qb where qb: "appendAll Question_Marshal [] (p_Questions ?p) = Inr qb"
    using assms by (simp add: BuildErrorResponse_def Question_Marshal_def)
  have e: "appendAll MarshalRecord [] (p_Answers ?p) = Inr []" "appendAll MarshalRecord [] (p_Authorities ?p) = Inr []"
    "appendAll MarshalRecord [] (p_Additionals ?p) = Inr []" by (simp_all add: BuildErrorResponse_def)
  have "length hb = HeaderSize" by (rule length_Header_Marshal [OF hb])
  with Packet_Marshal_of_parts [OF hb qb e] show ?thesis
    by (auto simp: servfailFor_def mustMarshal_def HeaderSize_def)
qed

section \<open>The handler of the running server\<close>

definition hydraNow :: "'w env \<Rightarrow> 'w hydra \<Rightarrow> instant \<times> 'w hydra" where
  "hydraNow env s = (let (t, w) = env_now env (hy_world s) in (t, s\<lparr>hy_world := w\<rparr>))"

definition hydraWait :: "(duration \<Rightarrow> 'w \<Rightarrow> select_case \<times> 'w) \<Rightarrow> duration \<Rightarrow> 'w hydra \<Rightarrow> select_case \<times> 'w hydra" where
  "hydraWait sel d s = (let (c, w) = sel d (hy_world s) in (c, s\<lparr>hy_world := w\<rparr>))"

definition hydraHandler ::
  "go_unicode \<Rightarrow> 'w env \<Rightarrow> (duration \<Rightarrow> 'w \<Rightarrow> select_case \<times> 'w) \<Rightarrow> 'w hydra QueryHandler" where
  "hydraHandler uc env sel =
     newHandler (buildResolverChain uc env) (hydraNow env) (hydraWait sel) (4 * Second)"

interpretation hydra_server: query_server "hydraInv uc" "hydraAnswer uc" "buildResolverChain uc env"
  "hydraNow env" "hydraWait sel" for uc env sel
  by unfold_locales
    (simp_all add: hydraNow_def hydraWait_def hydraInv_world hydraAnswer_carriesID split: prod.split)

lemma hydra_Handle_outcome:
  assumes "hydraInv uc s" "Handle uc (hydraHandler uc env sel) tr b (s, st) = (x, s', st')"
  shows "hydraInv uc s'"
    "\<exists>res. x = Some res \<and> (hr_ResponseBytes res = [] \<or> take 2 (hr_ResponseBytes res) = take 2 b)"
  using hydra_server.Handle_outcome [OF assms(1) assms(2) [unfolded hydraHandler_def]] .

lemma hydra_Handle_parsed:
  assumes "hydraInv uc s" "ParseRequestBounded uc b = Inr req"
    "Handle uc (hydraHandler uc env sel) tr b (s, st) = (x, s', st')"
  shows "\<exists>res. x = Some res \<and> hr_ParsedOK res \<and> hr_Parsed res = req \<and>
    (hr_ResponseBytes res = servfailFor req \<or> hydraAnswer uc req (hr_ResponseBytes res))"
  using hydra_server.Handle_parsed [OF assms(1,2) assms(3) [unfolded hydraHandler_def]] by blast

lemma hydra_Handle_replies:
  assumes "hydraInv uc s" "ParseRequestBounded uc b = Inr req" "p_Questions req = [q]"
    "EncodeName (q_Name q) = Inr nb" "Handle uc (hydraHandler uc env sel) tr b (s, st) = (x, s', st')"
  shows "\<exists>res. x = Some res \<and> hr_ResponseBytes res \<noteq> []"
proof -
  from hydra_Handle_parsed [OF assms(1,2,5)] obtain res where x: "x = Some res"
    and "hr_ResponseBytes res = servfailFor req \<or> hydraAnswer uc req (hr_ResponseBytes res)" by blast
  then have "hr_ResponseBytes res \<noteq> []"
    using servfailFor_encodable [OF assms(3,4)] hydraAnswer_carriesID [of uc req "hr_ResponseBytes res"]
    by (auto simp: carriesID_def)
  with x show ?thesis by blast
qed

section \<open>Counters\<close>

definition statsInv :: "DNSStats \<Rightarrow> bool" where
  "statsInv st \<longleftrightarrow> queriesTotal st = queriesUDP st + queriesTCP st"

lemma RecordQuery_counts:
  "queriesTotal (RecordQuery tr st) = queriesTotal st + 1"
  "responsesNX (RecordQuery tr st) = responsesNX st" "responsesErr (RecordQuery tr st) = responsesErr st"
  "tr = ''udp'' \<or> tr = ''tcp'' \<Longrightarrow> statsInv st \<Longrightarrow> statsInv (RecordQuery tr st)"
  by (auto simp: RecordQuery_def statsInv_def Let_def)

lemma recordResponse_counts:
  "queriesTotal (recordResponse b (RecordLatency n st)) = queriesTotal st"
  "statsInv (recordResponse b (RecordLatency n st)) = statsInv st"
  "responsesNX (recordResponse b (RecordLatency n st)) + responsesErr (recordResponse b (RecordLatency n st))
     - (responsesNX st + responsesErr st) \<in> {0, 1}"
  by (auto simp: recordResponse_def RecordLatency_def RecordNXDOMAIN_def RecordError_def statsInv_def Let_def)

text \<open>Every handled query counts once, and at most once as NXDOMAIN or error.\<close>

lemma Handle_counts:
  assumes "Handle uc h tr b (s, Some st) = (Some res, s', Some st')"
  shows "queriesTotal st' = queriesTotal st + 1"
    "responsesNX st' + responsesErr st' - (responsesNX st + responsesErr st) \<in> {0, 1}"
    "tr = ''udp'' \<or> tr = ''tcp'' \<Longrightarrow> statsInv st \<Longrightarrow> statsInv st'"
proof -
  let ?q = "RecordQuery tr st"
  have "st' = RecordError ?q \<or> (\<exists>r n. st' = recordResponse r (RecordLatency n ?q))"
    using assms by (auto simp: Handle_def Let_def split: prod.splits sum.splits option.splits)
  then have *: "queriesTotal st' = queriesTotal ?q \<and> statsInv st' = statsInv ?q \<and>
      responsesNX st' + responsesErr st' - (responsesNX ?q + responsesErr ?q) \<in> {0, 1}"
  proof
    assume "st' = RecordError ?q"
    then show ?thesis by (simp add: RecordError_def statsInv_def)
  next
    assume "\<exists>r n. st' = recordResponse r (RecordLatency n ?q)"
    then obtain r n where st': "st' = recordResponse r (RecordLatency n ?q)" by blast
    show ?thesis unfolding st' using recordResponse_counts [of r n ?q] by (intro conjI)
  qed
  show "queriesTotal st' = queriesTotal st + 1" using * RecordQuery_counts(1) [of tr st] by simp
  show "responsesNX st' + responsesErr st' - (responsesNX st + responsesErr st) \<in> {0, 1}"
    using * RecordQuery_counts(2,3) [of tr st] by simp
  show "tr = ''udp'' \<or> tr = ''tcp'' \<Longrightarrow> statsInv st \<Longrightarrow> statsInv st'"
    using * RecordQuery_counts(4) [of tr st] by blast
qed

end
