(* ===== verification/Rate_Limit.thy ===== *)
theory Rate_Limit
  imports GoNetip GoFloat GoTime Config
begin

text \<open>
  \<open>internal/server/rate_limit.go\<close>: token buckets with a bounded number of tracked keys,
  and the three tiers global, network prefix and address. The clock reading is an
  argument; the floating-point arithmetic rounds with \<^const>\<open>round64\<close> after every
  operation. The proofs about one bucket use only the laws of \<open>rounding\<close>.
\<close>

section \<open>Token buckets\<close>

record TokenBucketConfig =
  tb_Rate :: rat
  tb_Burst :: int
  tb_CleanupInterval :: duration
  tb_MaxEntries :: int

record TokenBucketRateLimiter =
  rl_rate :: rat
  rl_burst :: rat
  rl_cleanupInterval :: duration
  rl_maxEntries :: int
  rl_lastCleanup :: instant
  rl_lastUpdate :: "(string, instant) fmap"
  rl_tokens :: "(string, rat) fmap"

definition NewTokenBucketRateLimiter :: "TokenBucketConfig \<Rightarrow> instant \<Rightarrow> TokenBucketRateLimiter" where
  "NewTokenBucketRateLimiter cfg now =
     \<lparr>rl_rate = tb_Rate cfg, rl_burst = round64 (of_int (tb_Burst cfg)),
      rl_cleanupInterval = (if tb_CleanupInterval cfg \<le> 0 then 60 * Second else tb_CleanupInterval cfg),
      rl_maxEntries = (if tb_MaxEntries cfg \<le> 0 then 1 else tb_MaxEntries cfg),
      rl_lastCleanup = now, rl_lastUpdate = fmempty, rl_tokens = fmempty\<rparr>"

text \<open>\<open>Duration.Seconds\<close>: whole seconds plus the rest, both truncated towards zero.\<close>

definition Seconds :: "duration \<Rightarrow> rat" where
  "Seconds d =
     (let sec = sgn d * (\<bar>d\<bar> div Second); nsec = d - sec * Second
      in round64 (of_int sec + round64 (of_int nsec / 1000000000)))"

definition cleanupLocked :: "TokenBucketRateLimiter \<Rightarrow> instant \<Rightarrow> TokenBucketRateLimiter" where
  "cleanupLocked l now =
     (let staleBefore = now - rl_cleanupInterval l;
          fresh = (\<lambda>k. case fmlookup (rl_lastUpdate l) k of
                     Some seen \<Rightarrow> After seen staleBefore | None \<Rightarrow> True)
      in l\<lparr>rl_lastUpdate := fmfilter fresh (rl_lastUpdate l),
           rl_tokens := fmfilter fresh (rl_tokens l), rl_lastCleanup := now\<rparr>)"

definition tracked :: "TokenBucketRateLimiter \<Rightarrow> int" where
  "tracked l = int (fcard (fmdom (rl_lastUpdate l)))"

definition setBucket :: "string \<Rightarrow> instant \<Rightarrow> rat \<Rightarrow> TokenBucketRateLimiter \<Rightarrow> TokenBucketRateLimiter" where
  "setBucket key now tokens l =
     l\<lparr>rl_lastUpdate := fmupd key now (rl_lastUpdate l), rl_tokens := fmupd key tokens (rl_tokens l)\<rparr>"

definition tokensOf :: "TokenBucketRateLimiter \<Rightarrow> string \<Rightarrow> rat" where
  "tokensOf l key = (case fmlookup (rl_tokens l) key of Some t \<Rightarrow> t | None \<Rightarrow> 0)"

definition lastOf :: "TokenBucketRateLimiter \<Rightarrow> string \<Rightarrow> instant" where
  "lastOf l key = (case fmlookup (rl_lastUpdate l) key of Some t \<Rightarrow> t | None \<Rightarrow> 0)"

definition replenished :: "TokenBucketRateLimiter \<Rightarrow> rat \<Rightarrow> rat \<Rightarrow> rat" where
  "replenished l tokens elapsed =
     (if elapsed > 0 then min (rl_burst l) (round64 (tokens + round64 (elapsed * rl_rate l))) else tokens)"

text \<open>The part of \<open>Allow\<close> that charges the bucket of a key.\<close>

definition charge :: "TokenBucketRateLimiter \<Rightarrow> string \<Rightarrow> instant \<Rightarrow> bool \<times> TokenBucketRateLimiter" where
  "charge l key now =
     (let elapsed = Seconds (Sub now (lastOf l key));
          tokens = replenished l (tokensOf l key) elapsed
      in if tokens \<ge> 1 then (True, setBucket key now (round64 (tokens - 1)) l)
         else (False, setBucket key now tokens l))"

definition Bucket_Allow :: "TokenBucketRateLimiter \<Rightarrow> string \<Rightarrow> instant \<Rightarrow> bool \<times> TokenBucketRateLimiter" where
  "Bucket_Allow l key now =
     (if rl_rate l \<le> 0 \<or> rl_burst l \<le> 0 then (True, l)
      else
        (let l1 = (if Sub now (rl_lastCleanup l) > rl_cleanupInterval l then cleanupLocked l now else l) in
         if fmlookup (rl_lastUpdate l1) key = None \<and> tracked l1 \<ge> rl_maxEntries l1 then
           (let l2 = cleanupLocked l1 now in
            if tracked l2 \<ge> rl_maxEntries l2 then (False, l2)
            else (True, setBucket key now (round64 (rl_burst l2 - 1)) l2))
         else charge l1 key now))"

section \<open>The three tiers\<close>

record RateLimiter =
  tier_global :: TokenBucketRateLimiter
  tier_prefix :: TokenBucketRateLimiter
  tier_ip :: TokenBucketRateLimiter

definition cleanupOf :: "rat \<Rightarrow> duration" where
  "cleanupOf secs =
     (let ci = \<lfloor>round64 (max 0 secs * of_int Second)\<rfloor> in if ci \<le> 0 then 60 * Second else ci)"

definition NewRateLimiter :: "RateLimitConfig \<Rightarrow> instant \<Rightarrow> RateLimiter" where
  "NewRateLimiter s now =
     (let ci = cleanupOf (rc_CleanupSeconds s);
          mk = (\<lambda>rate burst m. NewTokenBucketRateLimiter
                  \<lparr>tb_Rate = rate, tb_Burst = burst, tb_CleanupInterval = ci, tb_MaxEntries = m\<rparr> now)
      in \<lparr>tier_global = mk (rc_GlobalQPS s) (rc_GlobalBurst s) 1,
          tier_prefix = mk (rc_PrefixQPS s) (rc_PrefixBurst s) (rc_MaxPrefixEntries s),
          tier_ip = mk (rc_IPQPS s) (rc_IPBurst s) (rc_MaxIPEntries s)\<rparr>)"

text \<open>
  \<open>prefixKey\<close> scans the text of an address: three dots and no colon is IPv4, a colon is
  IPv6.
\<close>

definition dotPositions :: "string \<Rightarrow> nat list" where
  "dotPositions ip = take 3 (filter (\<lambda>i. ip ! i = CHR ''.'') [0..<length ip])"

definition prefixKey :: "string \<Rightarrow> string" where
  "prefixKey ip =
     (let dots = dotPositions ip; hasColon = (CHR '':'' \<in> set ip) in
      if length dots \<ge> 3 \<and> \<not> hasColon then ''v4:'' @ take (dots ! 2) ip @ ''.0/24''
      else if hasColon then
        (case ParseAddr ip of
           Some a \<Rightarrow>
             (case Addr_Prefix a 64 of
                Some (Prefix p _) \<Rightarrow> ''v6:'' @ Addr_String p @ ''/64''
              | Some InvalidPrefix \<Rightarrow> ''v6:'' @ Addr_String ZeroAddr @ ''/64''
              | None \<Rightarrow> ''v6:'' @ ip)
         | None \<Rightarrow> ''v6:'' @ ip)
      else ''ip:'' @ ip)"

definition prefixKeyFromAddr :: "Addr \<Rightarrow> string" where
  "prefixKeyFromAddr ip =
     Prefix_String (case Addr_Prefix ip (if Is4 ip then 24 else 64) of Some p \<Rightarrow> p | None \<Rightarrow> InvalidPrefix)"

text \<open>The tiers in order; each reads the clock itself.\<close>

definition tiersAllow ::
  "string \<Rightarrow> string \<Rightarrow> RateLimiter \<Rightarrow> instant \<Rightarrow> instant \<Rightarrow> instant \<Rightarrow> bool \<times> RateLimiter" where
  "tiersAllow pk ik r t1 t2 t3 =
     (let (ok1, g) = Bucket_Allow (tier_global r) ''*'' t1; r1 = r\<lparr>tier_global := g\<rparr> in
      if \<not> ok1 then (False, r1)
      else
        (let (ok2, p) = Bucket_Allow (tier_prefix r1) pk t2; r2 = r1\<lparr>tier_prefix := p\<rparr> in
         if \<not> ok2 then (False, r2)
         else
           (let (ok3, i) = Bucket_Allow (tier_ip r2) ik t3 in (ok3, r2\<lparr>tier_ip := i\<rparr>))))"

definition RateLimiter_Allow ::
  "string \<Rightarrow> RateLimiter option \<Rightarrow> instant \<Rightarrow> instant \<Rightarrow> instant \<Rightarrow> bool \<times> RateLimiter option" where
  "RateLimiter_Allow srcIP r t1 t2 t3 =
     (case r of
        None \<Rightarrow> (True, None)
      | Some l \<Rightarrow> (let (ok, l') = tiersAllow (prefixKey srcIP) srcIP l t1 t2 t3 in (ok, Some l')))"

definition AllowAddr ::
  "Addr \<Rightarrow> RateLimiter option \<Rightarrow> instant \<Rightarrow> instant \<Rightarrow> instant \<Rightarrow> bool \<times> RateLimiter option" where
  "AllowAddr ip r t1 t2 t3 =
     (case r of
        None \<Rightarrow> (True, None)
      | Some l \<Rightarrow>
          (let (ok, l') = tiersAllow (prefixKeyFromAddr ip) (Addr_String ip) l t1 t2 t3 in (ok, Some l')))"

section \<open>Invariant\<close>

definition bucketInv :: "TokenBucketRateLimiter \<Rightarrow> bool" where
  "bucketInv l \<longleftrightarrow> 0 < rl_maxEntries l \<and> tracked l \<le> rl_maxEntries l \<and>
     fmdom (rl_tokens l) = fmdom (rl_lastUpdate l) \<and> round64 (rl_burst l) = rl_burst l \<and>
     (0 < rl_burst l \<longrightarrow> 1 \<le> rl_burst l) \<and>
     (\<forall>k t. fmlookup (rl_tokens l) k = Some t \<longrightarrow>
        0 \<le> t \<and> t \<le> rl_burst l \<and> round64 t = t)"

lemma bucketInv_New: "bucketInv (NewTokenBucketRateLimiter cfg now)"
proof -
  have "1 \<le> round64 (of_int b)" if "0 < round64 (of_int b)" for b
  proof -
    have "0 < b" using that f64.rnd_mono [of "of_int b" 0] by (cases "0 < b") auto
    then show ?thesis using f64.rnd_mono [of 1 "of_int b"] by simp
  qed
  then show ?thesis
    by (simp add: bucketInv_def NewTokenBucketRateLimiter_def tracked_def f64.rnd_idem fcard.rep_eq)
qed

lemma cleanup_fields [simp]:
  "rl_rate (cleanupLocked l now) = rl_rate l" "rl_burst (cleanupLocked l now) = rl_burst l"
  "rl_maxEntries (cleanupLocked l now) = rl_maxEntries l"
  by (simp_all add: cleanupLocked_def Let_def)

lemma tracked_cleanup: "tracked (cleanupLocked l now) \<le> tracked l"
proof -
  have "fmdom (rl_lastUpdate (cleanupLocked l now)) |\<subseteq>| fmdom (rl_lastUpdate l)"
    by (auto simp: cleanupLocked_def Let_def)
  then show ?thesis by (simp add: tracked_def fcard_mono)
qed

lemma bucketInv_cleanup: "bucketInv l \<Longrightarrow> bucketInv (cleanupLocked l now)"
  using tracked_cleanup [of l now]
  by (auto simp: bucketInv_def cleanupLocked_def Let_def tracked_def fmfilter_alt_defs)

lemma tracked_setBucket:
  "tracked (setBucket k now t l) =
     tracked l + (if fmlookup (rl_lastUpdate l) k = None then 1 else 0)"
proof -
  have "k |\<in>| fmdom (rl_lastUpdate l) \<longleftrightarrow> fmlookup (rl_lastUpdate l) k \<noteq> None"
    by (simp add: fmlookup_dom_iff)
  then show ?thesis by (auto simp: tracked_def setBucket_def fcard_finsert_if)
qed

lemma bucketInv_setBucket:
  assumes "bucketInv l" "0 \<le> t" "t \<le> rl_burst l" "round64 t = t"
    "fmlookup (rl_lastUpdate l) k = None \<Longrightarrow> tracked l < rl_maxEntries l"
  shows "bucketInv (setBucket k now t l)"
  using assms tracked_setBucket [of k now t l]
  by (auto simp: bucketInv_def setBucket_def split: if_splits)

lemma tokensOf_bounds:
  "bucketInv l \<Longrightarrow> 0 < rl_burst l \<Longrightarrow>
   0 \<le> tokensOf l k \<and> tokensOf l k \<le> rl_burst l \<and> round64 (tokensOf l k) = tokensOf l k"
  by (auto simp: bucketInv_def tokensOf_def split: option.split)

lemma replenished_bounds:
  assumes "bucketInv l" "0 < rl_rate l" "0 < rl_burst l"
  shows "tokensOf l k \<le> rl_burst l" "0 \<le> replenished l (tokensOf l k) e"
    "replenished l (tokensOf l k) e \<le> rl_burst l"
    "round64 (replenished l (tokensOf l k) e) = replenished l (tokensOf l k) e"
proof -
  note t = tokensOf_bounds [OF assms(1,3), of k]
  have "0 \<le> round64 (tokensOf l k + round64 (e * rl_rate l))" if "0 < e"
    using t that assms(2) by (intro f64.rnd_nonneg add_nonneg_nonneg) simp_all
  with t assms(3) show "tokensOf l k \<le> rl_burst l" "0 \<le> replenished l (tokensOf l k) e"
    "replenished l (tokensOf l k) e \<le> rl_burst l"
    "round64 (replenished l (tokensOf l k) e) = replenished l (tokensOf l k) e"
    using assms(1) by (simp_all add: replenished_def bucketInv_def min_def f64.rnd_idem)
qed

lemma bucketInv_charge:
  assumes inv: "bucketInv l" and pos: "0 < rl_rate l" "0 < rl_burst l"
    and room: "fmlookup (rl_lastUpdate l) k = None \<Longrightarrow> tracked l < rl_maxEntries l"
  shows "bucketInv (snd (charge l k now))"
proof -
  let ?t = "replenished l (tokensOf l k) (Seconds (Sub now (lastOf l k)))"
  note b = replenished_bounds [OF inv pos, of k]
  have bfix: "round64 (rl_burst l) = rl_burst l" using inv by (simp add: bucketInv_def)
  have "bucketInv (setBucket k now (round64 (?t - 1)) l)" if "1 \<le> ?t"
    using that b(3) by (intro bucketInv_setBucket [OF inv _ _ _ room] f64.rnd_nonneg f64.rnd_le bfix f64.rnd_idem)
      (simp_all add: order_trans [of _ ?t])
  moreover have "bucketInv (setBucket k now ?t l)"
    using b by (intro bucketInv_setBucket [OF inv _ _ _ room]) simp_all
  ultimately show ?thesis by (simp add: charge_def Let_def)
qed

lemma bucketInv_Allow:
  assumes inv: "bucketInv l" shows "bucketInv (snd (Bucket_Allow l k now))"
proof (cases "rl_rate l \<le> 0 \<or> rl_burst l \<le> 0")
  case False
  define l1 where "l1 = (if Sub now (rl_lastCleanup l) > rl_cleanupInterval l then cleanupLocked l now else l)"
  define l2 where "l2 = cleanupLocked l1 now"
  have i1: "bucketInv l1" using inv bucketInv_cleanup by (simp add: l1_def)
  have i2: "bucketInv l2" using i1 bucketInv_cleanup by (simp add: l2_def)
  have f: "0 < rl_rate l1" "0 < rl_burst l1" "0 < rl_burst l2" using False by (simp_all add: l1_def l2_def)
  show ?thesis
  proof (cases "fmlookup (rl_lastUpdate l1) k = None \<and> tracked l1 \<ge> rl_maxEntries l1")
    case full: True
    have "1 \<le> rl_burst l2" and bfix: "round64 (rl_burst l2) = rl_burst l2"
      using i2 f(3) by (simp_all add: bucketInv_def)
    then have "bucketInv (setBucket k now (round64 (rl_burst l2 - 1)) l2)" if "tracked l2 < rl_maxEntries l2"
      using that by (intro bucketInv_setBucket [OF i2] f64.rnd_nonneg f64.rnd_le f64.rnd_idem) simp_all
    with full False i2 show ?thesis
      by (simp add: Bucket_Allow_def Let_def not_le flip: l1_def l2_def)
  next
    case nf: False
    have "bucketInv (snd (charge l1 k now))"
      using nf by (intro bucketInv_charge [OF i1 f(1,2)]) auto
    with nf False show ?thesis by (auto simp: Bucket_Allow_def Let_def simp flip: l1_def)
  qed
qed (use inv in \<open>simp add: Bucket_Allow_def\<close>)

section \<open>What a bucket grants\<close>

text \<open>A tracked key that has waited long enough for one token is served.\<close>

lemma Bucket_Allow_after_wait:
  assumes inv: "bucketInv l" and pos: "0 < rl_rate l" "0 < rl_burst l"
    and seen: "fmlookup (rl_lastUpdate l) k \<noteq> None"
    and quiet: "Sub now (rl_lastCleanup l) \<le> rl_cleanupInterval l"
    and waited: "1 \<le> Seconds (Sub now (lastOf l k)) * rl_rate l"
  shows "fst (Bucket_Allow l k now)"
proof -
  let ?e = "Seconds (Sub now (lastOf l k))"
  have e: "0 < ?e"
  proof (rule ccontr)
    assume "\<not> 0 < ?e"
    then have "?e * rl_rate l \<le> 0" using pos(1) by (simp add: mult_nonpos_nonneg)
    with waited show False by simp
  qed
  have "1 \<le> round64 (?e * rl_rate l)" using f64.rnd_mono [OF waited] by simp
  then have "1 \<le> tokensOf l k + round64 (?e * rl_rate l)"
    using tokensOf_bounds [OF inv pos(2), of k] by simp
  from f64.rnd_mono [OF this] have "1 \<le> replenished l (tokensOf l k) ?e"
    using e inv pos(2) by (simp add: replenished_def bucketInv_def)
  with seen quiet pos show ?thesis by (simp add: Bucket_Allow_def Let_def charge_def)
qed

text \<open>The number of requests granted out of \<open>n\<close> for one key at one instant.\<close>

fun granted :: "nat \<Rightarrow> TokenBucketRateLimiter \<Rightarrow> string \<Rightarrow> instant \<Rightarrow> nat" where
  "granted 0 l k now = 0"
| "granted (Suc n) l k now =
     (let (ok, l') = Bucket_Allow l k now in (if ok then 1 else 0) + granted n l' k now)"

definition settled :: "TokenBucketRateLimiter \<Rightarrow> string \<Rightarrow> instant \<Rightarrow> bool" where
  "settled l k now \<longleftrightarrow> fmlookup (rl_lastUpdate l) k = Some now \<and>
     Sub now (rl_lastCleanup l) \<le> rl_cleanupInterval l"

lemma Seconds_zero [simp]: "Seconds (Sub t t) = 0"
  by (simp add: Seconds_def Sub_def duration_defs)

lemma Bucket_Allow_settled:
  assumes "settled l k now" "0 < rl_rate l" "0 < rl_burst l"
  shows "Bucket_Allow l k now =
    (if tokensOf l k \<ge> 1 then (True, setBucket k now (round64 (tokensOf l k - 1)) l)
     else (False, setBucket k now (tokensOf l k) l))"
  using assms by (simp add: settled_def Bucket_Allow_def Let_def charge_def lastOf_def replenished_def)

lemma setBucket_fields [simp]:
  "rl_rate (setBucket k now t l) = rl_rate l" "rl_burst (setBucket k now t l) = rl_burst l"
  "tokensOf (setBucket k now t l) k = t"
  "settled (setBucket k now t l) k now' \<longleftrightarrow> now = now' \<and> Sub now' (rl_lastCleanup l) \<le> rl_cleanupInterval l"
  by (auto simp: setBucket_def tokensOf_def settled_def)

lemma granted_settled:
  assumes "bucketInv l" "settled l k now" "0 < rl_rate l" "0 < rl_burst l" "rl_burst l \<le> 2 ^ 53"
  shows "granted n l k now = min n (nat \<lfloor>tokensOf l k\<rfloor>)"
  using assms
proof (induction n arbitrary: l)
  case (Suc n)
  let ?t = "tokensOf l k"
  note b = tokensOf_bounds [OF Suc.prems(1,4), of k]
  note step = Bucket_Allow_settled [OF Suc.prems(2-4)]
  have inv': "bucketInv (snd (Bucket_Allow l k now))" by (rule bucketInv_Allow [OF Suc.prems(1)])
  have quiet: "Sub now (rl_lastCleanup l) \<le> rl_cleanupInterval l" using Suc.prems(2) by (simp add: settled_def)
  show ?case
  proof (cases "1 \<le> ?t")
    case True
    have dec: "round64 (?t - 1) = ?t - 1"
      using b True Suc.prems(5) by (intro round64_dec) simp_all
    have "granted n (setBucket k now (?t - 1) l) k now = min n (nat \<lfloor>?t - 1\<rfloor>)"
      using Suc.IH [of "setBucket k now (?t - 1) l"] inv' step True dec Suc.prems quiet by simp
    moreover have "nat \<lfloor>?t\<rfloor> = Suc (nat \<lfloor>?t - 1\<rfloor>)" using True by (simp add: nat_eq_iff)
    ultimately show ?thesis using step True dec by simp
  next
    case False
    then have "nat \<lfloor>?t\<rfloor> = 0" using b by simp
    moreover have "granted n (setBucket k now ?t l) k now = min n (nat \<lfloor>?t\<rfloor>)"
      using Suc.IH [of "setBucket k now ?t l"] inv' step False Suc.prems quiet by simp
    ultimately show ?thesis using step False by simp
  qed
qed simp

lemma Bucket_Allow_fields:
  "rl_rate (snd (Bucket_Allow l k now)) = rl_rate l" "rl_burst (snd (Bucket_Allow l k now)) = rl_burst l"
  "rl_maxEntries (snd (Bucket_Allow l k now)) = rl_maxEntries l"
  by (simp_all add: Bucket_Allow_def Let_def charge_def setBucket_def)

lemma Bucket_Allow_True:
  assumes inv: "bucketInv l" and pos: "0 < rl_rate l" "0 < rl_burst l" and ci: "0 < rl_cleanupInterval l"
    and small: "rl_burst l \<le> 2 ^ 53" and run: "Bucket_Allow l k now = (True, l')"
  shows "settled l' k now" "tokensOf l' k \<le> rl_burst l - 1"
proof -
  define l1 where "l1 = (if Sub now (rl_lastCleanup l) > rl_cleanupInterval l then cleanupLocked l now else l)"
  have i1: "bucketInv l1" using inv bucketInv_cleanup by (simp add: l1_def)
  have f: "rl_rate l1 = rl_rate l" "rl_burst l1 = rl_burst l"
    "rl_cleanupInterval (cleanupLocked l1 now) = rl_cleanupInterval l" "rl_cleanupInterval l1 = rl_cleanupInterval l"
    by (simp_all add: l1_def cleanupLocked_def Let_def)
  have z: "Sub now now = 0" by (simp add: Sub_def duration_defs)
  have q: "Sub now (rl_lastCleanup l1) \<le> rl_cleanupInterval l1"
    "Sub now (rl_lastCleanup (cleanupLocked l1 now)) \<le> rl_cleanupInterval (cleanupLocked l1 now)"
    using ci z by (simp_all add: f) (simp_all add: l1_def cleanupLocked_def Let_def)
  have bdec: "round64 (rl_burst l - 1) = rl_burst l - 1"
    using inv pos(2) small by (intro round64_dec) (simp_all add: bucketInv_def)
  have cases: "l' = setBucket k now (round64 (rl_burst l - 1)) (cleanupLocked l1 now) \<or>
      (\<exists>t. l' = setBucket k now (round64 (t - 1)) l1 \<and> t \<le> rl_burst l)"
    using run pos replenished_bounds(3) [OF i1, of k] f
    by (auto simp: Bucket_Allow_def Let_def charge_def l1_def [symmetric] split: if_splits)
  have le: "round64 (t - 1) \<le> rl_burst l - 1" if "t \<le> rl_burst l" for t
    using f64.rnd_mono [of "t - 1" "rl_burst l - 1"] that bdec by simp
  show "settled l' k now" "tokensOf l' k \<le> rl_burst l - 1"
    using cases q le bdec by auto
qed

text \<open>At one instant a key is granted at most its burst.\<close>

lemma granted_le_burst:
  assumes "bucketInv l" "0 < rl_rate l" "0 < rl_burst l" "rl_burst l \<le> 2 ^ 53" "0 < rl_cleanupInterval l"
  shows "int (granted n l k now) \<le> \<lfloor>rl_burst l\<rfloor>"
  using assms
proof (induction n arbitrary: l)
  case (Suc n)
  obtain ok l' where run: "Bucket_Allow l k now = (ok, l')" by (rule prod.exhaust)
  have inv': "bucketInv l'" using bucketInv_Allow [OF Suc.prems(1), of k now] run by simp
  have f: "rl_rate l' = rl_rate l" "rl_burst l' = rl_burst l" "rl_cleanupInterval l' = rl_cleanupInterval l"
    using Bucket_Allow_fields [of l k now] run
    by (simp_all, auto simp: Bucket_Allow_def Let_def charge_def setBucket_def cleanupLocked_def
        split: if_splits)
  show ?case
  proof (cases ok)
    case True
    note t = Bucket_Allow_True [OF Suc.prems(1-3,5,4), of k now l'] run True
    have "granted n l' k now \<le> nat \<lfloor>tokensOf l' k\<rfloor>"
      using granted_settled [OF inv' t(1), of n] run True f Suc.prems by simp
    moreover have "\<lfloor>tokensOf l' k\<rfloor> \<le> \<lfloor>rl_burst l\<rfloor> - 1"
      using t(2) run True floor_mono [of "tokensOf l' k" "rl_burst l - 1"] by simp
    moreover have "1 \<le> \<lfloor>rl_burst l\<rfloor>" using Suc.prems(1,3) by (simp add: bucketInv_def)
    ultimately have "1 + int (granted n l' k now) \<le> \<lfloor>rl_burst l\<rfloor>" by linarith
    then show ?thesis using run True by simp
  next
    case False
    with Suc.IH [OF inv'] f Suc.prems run show ?thesis by simp
  qed
qed (simp add: less_imp_le)

section \<open>The tiers\<close>

definition limiterInv :: "RateLimiter \<Rightarrow> bool" where
  "limiterInv r \<longleftrightarrow> bucketInv (tier_global r) \<and> bucketInv (tier_prefix r) \<and> bucketInv (tier_ip r)"

lemma limiterInv_New: "limiterInv (NewRateLimiter s now)"
  by (simp add: limiterInv_def NewRateLimiter_def Let_def bucketInv_New)

lemma limiterInv_tiersAllow: "limiterInv r \<Longrightarrow> limiterInv (snd (tiersAllow pk ik r t1 t2 t3))"
  using bucketInv_Allow [of "tier_global r" "''*''" t1] bucketInv_Allow [of "tier_prefix r" pk t2]
    bucketInv_Allow [of "tier_ip r" ik t3]
  by (cases "Bucket_Allow (tier_global r) ''*'' t1"; cases "Bucket_Allow (tier_prefix r) pk t2";
      cases "Bucket_Allow (tier_ip r) ik t3")
    (simp add: limiterInv_def tiersAllow_def Let_def)

text \<open>A request is admitted exactly when each tier, asked in order, grants it.\<close>

lemma tiersAllow_iff:
  "fst (tiersAllow pk ik r t1 t2 t3) \<longleftrightarrow>
     fst (Bucket_Allow (tier_global r) ''*'' t1) \<and> fst (Bucket_Allow (tier_prefix r) pk t2) \<and>
     fst (Bucket_Allow (tier_ip r) ik t3)"
  by (simp add: tiersAllow_def Let_def split: prod.split)

lemma tiersAllow_fail_fast:
  assumes "\<not> fst (Bucket_Allow (tier_global r) ''*'' t1)"
  shows "tier_prefix (snd (tiersAllow pk ik r t1 t2 t3)) = tier_prefix r"
    "tier_ip (snd (tiersAllow pk ik r t1 t2 t3)) = tier_ip r"
  using assms by (cases "Bucket_Allow (tier_global r) ''*'' t1"; simp add: tiersAllow_def Let_def)+

section \<open>Prefix keys\<close>

text \<open>Two IPv4 addresses share a prefix key exactly when they are in the same /24.\<close>

lemma prefixKeyFromAddr_v4_iff:
  assumes "length a = 4" "length b = 4"
  shows "prefixKeyFromAddr (V4 a) = prefixKeyFromAddr (V4 b) \<longleftrightarrow> take 3 a = take 3 b"
proof
  have m: "maskBytes 3 a \<noteq> []" "maskBytes 3 b \<noteq> []" using assms by (auto simp: maskBytes_def)
  have k: "prefixKeyFromAddr (V4 x) = string4 (maskBytes 3 x) @ CHR ''/'' # Itoa 24" for x
    by (simp add: prefixKeyFromAddr_def Addr_Prefix_def Addr_String_def)
  assume "prefixKeyFromAddr (V4 a) = prefixKeyFromAddr (V4 b)"
  then have "string4 (maskBytes 3 a) = string4 (maskBytes 3 b)" by (simp add: k)
  then have "maskBytes 3 a = maskBytes 3 b" using m by (rule string4_inj)
  then show "take 3 a = take 3 b" using assms by (simp add: maskBytes_def)
next
  assume "take 3 a = take 3 b"
  then show "prefixKeyFromAddr (V4 a) = prefixKeyFromAddr (V4 b)"
    using assms by (simp add: prefixKeyFromAddr_def Addr_Prefix_def Addr_String_def maskBytes_def)
qed

end
