(* ===== verification/Udp_Server.thy ===== *)
theory Udp_Server
  imports Query_Handler Rate_Limit
begin

text \<open>
  \<open>internal/server/udp_server.go\<close>: one socket with its receiver and its workers. The
  receiver applies the rate limiter and hands packets to a bounded queue, dropping them
  when it is full; a worker takes a packet, calls the handler, truncates the response to
  the client's size and sends it. The step relation interleaves receiver and workers in
  any order; \<open>udp_sent\<close> records what was sent, with the request it answers. Sockets, pooled
  buffers and the shutdown are in \<open>Udp_Runtime\<close>.
\<close>

section \<open>Operations\<close>

record UDPAddr =
  ua_IP :: bytes
  ua_Port :: nat

definition DefaultWorkersPerSocket :: int where
  "DefaultWorkersPerSocket = 1024"

definition netipAddrFromUDPAddr :: "UDPAddr option \<Rightarrow> Addr option" where
  "netipAddrFromUDPAddr addr =
     (case addr of
        None \<Rightarrow> None
      | Some a \<Rightarrow> map_option Unmap (AddrFromSlice (ua_IP a)))"

text \<open>What \<open>handlePacket\<close> writes to the socket.\<close>

definition udpReply :: "HandleResult \<Rightarrow> bytes option" where
  "udpReply res =
     (if hr_ResponseBytes res = [] then None
      else if hr_ParsedOK res then
        Some (truncateUDPResponse (hr_ResponseBytes res)
                (int (min (ClientMaxUDPSize (hr_Parsed res)) EDNSMaxUDPPayloadSize)))
      else Some (hr_ResponseBytes res))"

record 's UDPServer =
  udp_sys :: "'s \<times> DNSStats option"
  udp_limiter :: "RateLimiter option"
  udp_workers :: int
  udp_queue :: "(bytes \<times> UDPAddr) list"
  udp_sent :: "(UDPAddr \<times> bytes \<times> bytes) list"
  udp_crashed :: bool

definition workersPerSocket :: "int \<Rightarrow> int" where
  "workersPerSocket n = (if n \<le> 0 then DefaultWorkersPerSocket else n)"

definition queueCap :: "'s UDPServer \<Rightarrow> int" where
  "queueCap u = workersPerSocket (udp_workers u) * 2"

text \<open>One round of \<open>recvLoop\<close>: the datagram is cut to the receive buffer.\<close>

definition dispatch :: "bytes \<times> UDPAddr \<Rightarrow> 's UDPServer \<Rightarrow> 's UDPServer" where
  "dispatch pkt u =
     (if int (length (udp_queue u)) < queueCap u then u\<lparr>udp_queue := udp_queue u @ [pkt]\<rparr> else u)"

definition recvPacket ::
  "bytes \<Rightarrow> UDPAddr \<Rightarrow> instant \<Rightarrow> instant \<Rightarrow> instant \<Rightarrow> 's UDPServer \<Rightarrow> 's UDPServer" where
  "recvPacket datagram peer t1 t2 t3 u =
     (let pkt = (take MaxIncomingDNSMessageSize datagram, peer) in
      if udp_limiter u \<noteq> None then
        (case netipAddrFromUDPAddr (Some peer) of
           None \<Rightarrow> u
         | Some ip \<Rightarrow>
             (let (ok, l) = AllowAddr ip (udp_limiter u) t1 t2 t3; u1 = u\<lparr>udp_limiter := l\<rparr>
              in if \<not> ok then u1 else dispatch pkt u1))
      else dispatch pkt u)"

definition handlePacket ::
  "go_unicode \<Rightarrow> 's QueryHandler option \<Rightarrow> bytes \<times> UDPAddr \<Rightarrow> 's UDPServer \<Rightarrow> 's UDPServer" where
  "handlePacket uc h pkt u =
     (case h of
        None \<Rightarrow> u
      | Some hnd \<Rightarrow>
          (case Handle uc hnd ''udp'' (fst pkt) (udp_sys u) of
             (None, s) \<Rightarrow> u\<lparr>udp_sys := s, udp_crashed := True\<rparr>
           | (Some res, s) \<Rightarrow>
               (case udpReply res of
                  None \<Rightarrow> u\<lparr>udp_sys := s\<rparr>
                | Some resp \<Rightarrow> u\<lparr>udp_sys := s, udp_sent := udp_sent u @ [(snd pkt, fst pkt, resp)]\<rparr>)))"

inductive udp_step :: "go_unicode \<Rightarrow> 's QueryHandler option \<Rightarrow> 's UDPServer \<Rightarrow> 's UDPServer \<Rightarrow> bool"
  for uc :: go_unicode and h :: "'s QueryHandler option"
where
  recv: "\<not> udp_crashed u \<Longrightarrow> udp_step uc h u (recvPacket datagram peer t1 t2 t3 u)"
| work: "\<not> udp_crashed u \<Longrightarrow> udp_queue u = pkt # rest \<Longrightarrow>
    udp_step uc h u (handlePacket uc h pkt (u\<lparr>udp_queue := rest\<rparr>))"

section \<open>The size of a response\<close>

lemma length_Question_Marshal: "Question_Marshal q = Inr b \<Longrightarrow> length b \<le> 259"
  by (auto simp: Question_Marshal_def andThen_Inr_iff dest: EncodeName_bounds(2))

lemma length_tryBuildErrorFromRaw: "length (tryBuildErrorFromRaw uc b rc) \<le> 512"
proof -
  have "length out \<le> 512" if m: "Packet_Marshal (BuildErrorResponse p rc) = Inr out"
    and q: "length (p_Questions p) \<le> 1" for p out
  proof -
    obtain hb qb an ns ar where parts: "Header_Marshal (countedHeader (BuildErrorResponse p rc)) = Inr hb"
      "appendAll Question_Marshal [] (p_Questions (BuildErrorResponse p rc)) = Inr qb"
      "appendAll MarshalRecord [] (p_Answers (BuildErrorResponse p rc)) = Inr an"
      "appendAll MarshalRecord [] (p_Authorities (BuildErrorResponse p rc)) = Inr ns"
      "appendAll MarshalRecord [] (p_Additionals (BuildErrorResponse p rc)) = Inr ar"
      "out = hb @ qb @ an @ ns @ ar"
      using Packet_Marshal_parts [OF m] .
    have "length qb \<le> 259"
      using parts(2) q by (cases "p_Questions p")
        (auto simp: BuildErrorResponse_def andThen_Inr_iff dest: length_Question_Marshal)
    moreover have "an = []" "ns = []" "ar = []" using parts(3-5) by (simp_all add: BuildErrorResponse_def)
    ultimately show ?thesis using parts(6) length_Header_Marshal [OF parts(1)] by (simp add: HeaderSize_def)
  qed
  then show ?thesis
    by (auto simp: tryBuildErrorFromRaw_def Let_def split: sum.split)
qed

lemma udpReply_size:
  assumes "udpReply res = Some out" "hr_ParsedOK res"
  shows "length out \<le> ClientMaxUDPSize (hr_Parsed res)" "length out \<le> EDNSMaxUDPPayloadSize"
proof -
  let ?m = "int (min (ClientMaxUDPSize (hr_Parsed res)) EDNSMaxUDPPayloadSize)"
  have out: "out = truncateUDPResponse (hr_ResponseBytes res) ?m"
    using assms by (auto simp: udpReply_def split: if_splits)
  note ClientMaxUDPSize_bounds [of "hr_Parsed res"]
  then have "int HeaderSize \<le> ?m" by (simp add: edns_size_defs HeaderSize_def)
  from truncateUDPResponse_length [OF this, of "hr_ResponseBytes res"] out
  show "length out \<le> ClientMaxUDPSize (hr_Parsed res)" "length out \<le> EDNSMaxUDPPayloadSize" by simp_all
qed

section \<open>What is sent\<close>

text \<open>
  A datagram answers a request when it fits the largest size the server uses and begins
  with the request's ID, or with the zero header of a truncated response.
\<close>

definition udpAnswer :: "bytes \<Rightarrow> bytes \<Rightarrow> bool" where
  "udpAnswer req out \<longleftrightarrow> length out \<le> EDNSMaxUDPPayloadSize \<and>
     (take 2 out = take 2 req \<or> take HeaderSize out = replicate HeaderSize 0)"

lemma take2_buildTruncatedHeader: "HeaderSize \<le> length m \<Longrightarrow> take 2 (buildTruncatedHeader m q) = take 2 m"
  by (cases m; cases "tl m") (auto simp: buildTruncatedHeader_def Let_def HeaderSize_def)

lemma truncateUDPResponse_head:
  "take 2 (truncateUDPResponse m n) = take 2 m \<or>
   take HeaderSize (truncateUDPResponse m n) = replicate HeaderSize 0"
  by (auto simp: truncateUDPResponse_def Let_def take2_buildTruncatedHeader not_less)

lemma udpReply_answer:
  assumes "hr_ResponseBytes res = [] \<or> take 2 (hr_ResponseBytes res) = take 2 req"
    "\<not> hr_ParsedOK res \<Longrightarrow> length (hr_ResponseBytes res) \<le> 512" "udpReply res = Some out"
  shows "udpAnswer req out"
proof (cases "hr_ParsedOK res")
  case True
  with assms(1,3) truncateUDPResponse_head [of "hr_ResponseBytes res"] udpReply_size [OF assms(3) True]
  show ?thesis by (force simp: udpAnswer_def udpReply_def split: if_splits)
next
  case False
  with assms show ?thesis by (auto simp: udpAnswer_def udpReply_def edns_size_defs split: if_splits)
qed

lemma Handle_unparsed_size:
  assumes "Handle uc h tr b s = (Some res, s')" "\<not> hr_ParsedOK res"
  shows "length (hr_ResponseBytes res) \<le> 512"
  using assms length_tryBuildErrorFromRaw [of uc b RCodeFormErr]
  by (auto simp: Handle_def handleParseError_def Let_def split: prod.splits sum.splits option.splits)

section \<open>Invariant\<close>

definition udpInv :: "go_unicode \<Rightarrow> 'w hydra UDPServer \<Rightarrow> bool" where
  "udpInv uc u \<longleftrightarrow> hydraInv uc (fst (udp_sys u)) \<and> \<not> udp_crashed u \<and>
     int (length (udp_queue u)) \<le> queueCap u \<and>
     (\<forall>pkt \<in> set (udp_queue u). length (fst pkt) \<le> MaxIncomingDNSMessageSize) \<and>
     (\<forall>(peer, req, out) \<in> set (udp_sent u). udpAnswer req out) \<and>
     (\<forall>l. udp_limiter u = Some l \<longrightarrow> limiterInv l)"

lemma udpInv_dispatch:
  "udpInv uc u \<Longrightarrow> length (fst pkt) \<le> MaxIncomingDNSMessageSize \<Longrightarrow> udpInv uc (dispatch pkt u)"
  by (auto simp: udpInv_def dispatch_def queueCap_def)

lemma AllowAddr_inv:
  assumes "\<forall>l. r = Some l \<longrightarrow> limiterInv l" "AllowAddr ip r t1 t2 t3 = (ok, r')"
  shows "\<forall>l. r' = Some l \<longrightarrow> limiterInv l"
proof (cases r)
  case (Some l)
  with limiterInv_tiersAllow [of l "prefixKeyFromAddr ip" "Addr_String ip" t1 t2 t3] assms show ?thesis
    by (auto simp: AllowAddr_def split: prod.splits)
qed (use assms in \<open>auto simp: AllowAddr_def\<close>)

lemma udpInv_limiter: "udpInv uc u \<Longrightarrow> \<forall>l. r = Some l \<longrightarrow> limiterInv l \<Longrightarrow> udpInv uc (u\<lparr>udp_limiter := r\<rparr>)"
  by (simp add: udpInv_def queueCap_def)

lemma udpInv_recvPacket:
  assumes "udpInv uc u" shows "udpInv uc (recvPacket datagram peer t1 t2 t3 u)"
proof (cases "netipAddrFromUDPAddr (Some peer)")
  case None
  with assms show ?thesis by (simp add: recvPacket_def Let_def udpInv_dispatch)
next
  case (Some ip)
  obtain ok l where a: "AllowAddr ip (udp_limiter u) t1 t2 t3 = (ok, l)" by (rule prod.exhaust)
  have "\<forall>l. udp_limiter u = Some l \<longrightarrow> limiterInv l" using assms unfolding udpInv_def by blast
  from AllowAddr_inv [OF this a] have i1: "udpInv uc (u\<lparr>udp_limiter := l\<rparr>)" by (rule udpInv_limiter [OF assms])
  let ?pkt = "(take MaxIncomingDNSMessageSize datagram, peer)"
  have "recvPacket datagram peer t1 t2 t3 u =
    (if udp_limiter u = None then dispatch ?pkt u
     else if ok then dispatch ?pkt (u\<lparr>udp_limiter := l\<rparr>) else u\<lparr>udp_limiter := l\<rparr>)"
    unfolding recvPacket_def Let_def Some by (simp add: a)
  moreover have "udpInv uc (dispatch ?pkt u)" "udpInv uc (dispatch ?pkt (u\<lparr>udp_limiter := l\<rparr>))"
    by (rule udpInv_dispatch [OF assms], simp) (rule udpInv_dispatch [OF i1], simp)
  ultimately show ?thesis using i1 by presburger
qed

lemma udpInv_handlePacket:
  assumes inv: "udpInv uc u"
  shows "udpInv uc (handlePacket uc (Some (hydraHandler uc env sel)) pkt u)"
proof -
  obtain s st where s: "udp_sys u = (s, st)" by (rule prod.exhaust)
  obtain x s' st' where run: "Handle uc (hydraHandler uc env sel) ''udp'' (fst pkt) (s, st) = (x, s', st')"
    by (metis prod.exhaust)
  have I: "hydraInv uc s" using inv s by (simp add: udpInv_def)
  note o1 = hydra_Handle_outcome [OF I run]
  then obtain res where res: "x = Some res"
    "hr_ResponseBytes res = [] \<or> take 2 (hr_ResponseBytes res) = take 2 (fst pkt)" by blast
  have "udpAnswer (fst pkt) out" if "udpReply res = Some out" for out
    using udpReply_answer [OF res(2) _ that] Handle_unparsed_size [of uc _ _ _ _ res] run res(1) by metis
  with inv o1(1) s run res(1) show ?thesis
    by (auto simp: handlePacket_def udpInv_def queueCap_def split: option.split)
qed

lemma udpInv_step:
  "udp_step uc h u u' \<Longrightarrow> h = Some (hydraHandler uc env sel) \<Longrightarrow> udpInv uc u \<Longrightarrow> udpInv uc u'"
proof (induction rule: udp_step.induct)
  case (work u pkt rest)
  have "udpInv uc (u\<lparr>udp_queue := rest\<rparr>)" using work by (auto simp: udpInv_def queueCap_def)
  with work show ?case by (simp add: udpInv_handlePacket)
qed (simp add: udpInv_recvPacket)

lemma udpInv_reachable:
  assumes "(udp_step uc (Some (hydraHandler uc env sel)))\<^sup>*\<^sup>* u u'" "udpInv uc u"
  shows "udpInv uc u'"
  using assms(1) by (induction rule: rtranclp_induct) (auto simp: assms(2) intro: udpInv_step)

end
