(* ===== verification/Tcp_Server.thy ===== *)
theory Tcp_Server
  imports Query_Handler
begin

text \<open>
  \<open>internal/server/tcp_server.go\<close>: the two-byte framing, the loop over the queries of a
  connection, and the accounting of connections per address. What a client sends before
  it stops or a deadline passes is a byte list; \<open>io.ReadFull\<close> fails when it is too
  short. Whether the k-th write succeeds is decided by an argument. Listeners, deadlines
  and the shutdown are in \<open>Tcp_Runtime\<close>.
\<close>

section \<open>Framing\<close>

definition maxTCPMessageSize :: nat where "maxTCPMessageSize = 65535"
definition maxTCPConnectionsPerIP :: int where "maxTCPConnectionsPerIP = 10"
definition maxQueriesPerConnection :: nat where "maxQueriesPerConnection = 100"

definition ReadFull :: "nat \<Rightarrow> bytes \<Rightarrow> (bytes \<times> bytes) option" where
  "ReadFull n inp = (if length inp < n then None else Some (take n inp, drop n inp))"

text \<open>\<open>readMessage\<close>: \<^const>\<open>None\<close> for \<open>(nil, false)\<close>, otherwise the message and the rest.\<close>

definition readMessage :: "bytes \<Rightarrow> (bytes \<times> bytes) option" where
  "readMessage inp =
     (case ReadFull 2 inp of
        None \<Rightarrow> None
      | Some (lenBuf, rest) \<Rightarrow>
          (let msgLen = unat (Uint16 lenBuf) in
           if msgLen = 0 then Some ([], rest)
           else if msgLen > maxTCPMessageSize then None
           else ReadFull msgLen rest))"

text \<open>\<open>writeMessage\<close>: the bytes written, or \<^const>\<open>None\<close> when it returns false.\<close>

definition writeMessage :: "bool \<Rightarrow> bytes \<Rightarrow> bytes option" where
  "writeMessage ok response =
     (if length response > maxTCPMessageSize then None
      else if ok then Some (PutUint16 (word_of_nat (length response)) @ response)
      else None)"

section \<open>Connections\<close>

text \<open>
  \<open>handleConnection\<close> from a state where \<open>n\<close> queries are left: the responses written, each
  with its request, and the state. A crash of the handler ends the process (\<^const>\<open>None\<close>).
\<close>

fun connLoop ::
  "go_unicode \<Rightarrow> 's QueryHandler option \<Rightarrow> ('s \<Rightarrow> bool \<times> 's) \<Rightarrow> (nat \<Rightarrow> bool) \<Rightarrow> nat \<Rightarrow> bytes \<Rightarrow>
     's \<times> DNSStats option \<Rightarrow> ((bytes \<times> bytes) list \<times> 's \<times> DNSStats option) option" where
  "connLoop uc h ctxDone writes 0 inp s = Some ([], s)"
| "connLoop uc h ctxDone writes (Suc n) inp s =
     (case ctxDone (fst s) of
        (True, s1) \<Rightarrow> Some ([], s1, snd s)
      | (False, s1) \<Rightarrow>
          (case readMessage inp of
             None \<Rightarrow> Some ([], s1, snd s)
           | Some (msg, rest) \<Rightarrow>
               if msg = [] then connLoop uc h ctxDone writes n rest (s1, snd s)
               else
                 (case h of
                    None \<Rightarrow> Some ([], s1, snd s)
                  | Some hnd \<Rightarrow>
                      (case Handle uc hnd ''tcp'' msg (s1, snd s) of
                         (None, s2) \<Rightarrow> None
                       | (Some res, s2) \<Rightarrow>
                           if hr_ResponseBytes res = [] then connLoop uc h ctxDone writes n rest s2
                           else
                             (case writeMessage (writes n) (hr_ResponseBytes res) of
                                None \<Rightarrow> Some ([], s2)
                              | Some _ \<Rightarrow>
                                  map_option (\<lambda>(out, s3). ((msg, hr_ResponseBytes res) # out, s3))
                                    (connLoop uc h ctxDone writes n rest s2))))))"

definition handleConnection ::
  "go_unicode \<Rightarrow> 's QueryHandler option \<Rightarrow> ('s \<Rightarrow> bool \<times> 's) \<Rightarrow> (nat \<Rightarrow> bool) \<Rightarrow> bytes \<Rightarrow>
     's \<times> DNSStats option \<Rightarrow> ((bytes \<times> bytes) list \<times> 's \<times> DNSStats option) option" where
  "handleConnection uc h ctxDone writes inp s =
     connLoop uc h ctxDone writes maxQueriesPerConnection inp s"

section \<open>Connection counts\<close>

type_synonym connCounts = "(string, int) fmap"

definition connCount :: "connCounts \<Rightarrow> string \<Rightarrow> int" where
  "connCount m ip = (case fmlookup m ip of Some n \<Rightarrow> n | None \<Rightarrow> 0)"

definition tryAcquireConn :: "string \<Rightarrow> connCounts \<Rightarrow> bool \<times> connCounts" where
  "tryAcquireConn ip m =
     (let cur = connCount m ip in
      if cur \<ge> maxTCPConnectionsPerIP then (False, m) else (True, fmupd ip (cur + 1) m))"

definition releaseConn :: "string \<Rightarrow> connCounts \<Rightarrow> connCounts" where
  "releaseConn ip m =
     (let cur = connCount m ip in if cur \<le> 1 then fmdrop ip m else fmupd ip (cur - 1) m)"

text \<open>
  The accept loops and the handlers: \<open>tcp_open\<close> lists the address of every connection
  whose handler has not returned.
\<close>

record TCPServer =
  tcp_counts :: connCounts
  tcp_open :: "string list"

inductive tcp_step :: "TCPServer \<Rightarrow> TCPServer \<Rightarrow> bool" where
  accept: "tryAcquireConn ip (tcp_counts t) = (True, m) \<Longrightarrow>
    tcp_step t (t\<lparr>tcp_counts := m, tcp_open := ip # tcp_open t\<rparr>)"
| reject: "tryAcquireConn ip (tcp_counts t) = (False, m) \<Longrightarrow> tcp_step t (t\<lparr>tcp_counts := m\<rparr>)"
| close: "ip \<in> set (tcp_open t) \<Longrightarrow>
    tcp_step t (t\<lparr>tcp_counts := releaseConn ip (tcp_counts t), tcp_open := remove1 ip (tcp_open t)\<rparr>)"

inductive_cases tcp_stepE: "tcp_step t t'"

definition tcpInit :: TCPServer where
  "tcpInit = \<lparr>tcp_counts = fmempty, tcp_open = []\<rparr>"

section \<open>Facts about framing\<close>

lemma readMessage_frame:
  assumes "writeMessage True m = Some out" "m \<noteq> []"
  shows "readMessage (out @ rest) = Some (m, rest)"
proof -
  have len: "length m \<le> 65535" and out: "out = PutUint16 (word_of_nat (length m)) @ m"
    using assms(1) by (auto simp: writeMessage_def maxTCPMessageSize_def split: if_splits)
  have u: "unat (word_of_nat (length m) :: uint16) = length m" using len by (simp add: unat_of_nat)
  have "readMessage (PutUint16 w @ xs) =
    (if unat w = 0 then Some ([], xs) else if unat w > maxTCPMessageSize then None else ReadFull (unat w) xs)"
    for w xs by (simp add: readMessage_def ReadFull_def Let_def)
  from this [of "word_of_nat (length m)" "m @ rest"] u len assms(2) show ?thesis
    by (simp add: out ReadFull_def maxTCPMessageSize_def)
qed

lemma readMessage_consumes:
  assumes "readMessage inp = Some (m, rest)"
  shows "length m + length rest + 2 = length inp" "length m \<le> 65535"
proof -
  have "unat (w :: uint16) \<le> 65535" for w using unsigned_less [of w, where 'a = nat] by simp
  with assms show "length m + length rest + 2 = length inp" "length m \<le> 65535"
    by (auto simp: readMessage_def ReadFull_def Let_def split: if_splits)
qed

section \<open>Facts about connections\<close>

definition tcpAnswer :: "bytes \<times> bytes \<Rightarrow> bool" where
  "tcpAnswer p \<longleftrightarrow> take 2 (snd p) = take 2 (fst p) \<and> snd p \<noteq> [] \<and> length (snd p) \<le> maxTCPMessageSize"

lemma connLoop_outcome:
  assumes "\<And>s. hydraInv uc s \<Longrightarrow> hydraInv uc (snd (ctxDone s))" "hydraInv uc (fst s)"
  shows "\<exists>out s'. connLoop uc (Some (hydraHandler uc env sel)) ctxDone writes n inp s = Some (out, s') \<and>
    hydraInv uc (fst s') \<and> length out \<le> n \<and> list_all tcpAnswer out"
  using assms(2)
proof (induction n arbitrary: inp s)
  case (Suc n)
  let ?h = "hydraHandler uc env sel"
  obtain b s1 where c: "ctxDone (fst s) = (b, s1)" by (rule prod.exhaust)
  have I1: "hydraInv uc s1" using assms(1) [OF Suc.prems] c by simp
  show ?case
  proof (cases "b \<or> readMessage inp = None")
    case True
    with c I1 show ?thesis by (cases b) auto
  next
    case False
    then obtain msg rest where r: "\<not> b" "readMessage inp = Some (msg, rest)" by auto
    show ?thesis
    proof (cases "msg = []")
      case True
      with Suc.IH [of "(s1, snd s)" rest] I1 c r show ?thesis by (auto intro: le_SucI)
    next
      case ne: False
      obtain x s2 st2 where run: "Handle uc ?h ''tcp'' msg (s1, snd s) = (x, s2, st2)" by (metis prod.exhaust)
      from hydra_Handle_outcome [OF I1 run] obtain res where I2: "hydraInv uc s2" and x: "x = Some res"
        and id: "hr_ResponseBytes res = [] \<or> take 2 (hr_ResponseBytes res) = take 2 msg" by blast
      from Suc.IH [of "(s2, st2)" rest] I2 obtain out s3
        where IH: "connLoop uc (Some ?h) ctxDone writes n rest (s2, st2) = Some (out, s3)"
          "hydraInv uc (fst s3)" "length out \<le> n" "list_all tcpAnswer out" by auto
      show ?thesis
      proof (cases "hr_ResponseBytes res = []")
        case True
        with c r ne run x IH show ?thesis by auto
      next
        case resp: False
        show ?thesis
        proof (cases "writeMessage (writes n) (hr_ResponseBytes res)")
          case None
          with c r ne run x resp I2 show ?thesis by auto
        next
          case (Some w)
          then have "tcpAnswer (msg, hr_ResponseBytes res)"
            using id resp by (auto simp: tcpAnswer_def writeMessage_def split: if_splits)
          with c r ne run x resp Some IH show ?thesis by auto
        qed
      qed
    qed
  qed
qed simp

section \<open>Facts about connection counts\<close>

definition tcpInv :: "TCPServer \<Rightarrow> bool" where
  "tcpInv t \<longleftrightarrow> (\<forall>ip. connCount (tcp_counts t) ip = int (count_list (tcp_open t) ip) \<and>
     connCount (tcp_counts t) ip \<le> maxTCPConnectionsPerIP)"

lemma connCount_simps [simp]:
  "connCount (fmupd ip n m) x = (if x = ip then n else connCount m x)"
  "connCount (fmdrop ip m) x = (if x = ip then 0 else connCount m x)"
  by (simp_all add: connCount_def)

lemma count_list_remove1:
  "x \<in> set xs \<Longrightarrow> int (count_list (remove1 x xs) y) = int (count_list xs y) - (if y = x then 1 else 0)"
proof (induction xs)
  case (Cons z zs)
  then show ?case using count_list_0_iff [of zs x] by (auto simp: of_nat_diff)
qed simp

lemma connCount_release:
  "1 \<le> connCount m ip \<Longrightarrow> connCount (releaseConn ip m) x = connCount m x - (if x = ip then 1 else 0)"
  by (simp add: releaseConn_def Let_def)

lemma tcpInv_step: "tcp_step t t' \<Longrightarrow> tcpInv t \<Longrightarrow> tcpInv t'"
proof (induction rule: tcp_step.induct)
  case (close ip t)
  have c: "connCount (tcp_counts t) x = int (count_list (tcp_open t) x)"
    "connCount (tcp_counts t) x \<le> maxTCPConnectionsPerIP" for x
    using close(2) unfolding tcpInv_def by blast+
  have "count_list (tcp_open t) ip \<noteq> 0" using close(1) by (simp add: count_list_0_iff)
  then have "1 \<le> connCount (tcp_counts t) ip" by (simp add: c(1))
  note r = connCount_release [OF this]
  have "connCount (releaseConn ip (tcp_counts t)) x = int (count_list (remove1 ip (tcp_open t)) x)" for x
    by (simp only: r count_list_remove1 [OF close(1)] c(1))
  moreover have "connCount (releaseConn ip (tcp_counts t)) x \<le> maxTCPConnectionsPerIP" for x
    using c(2) [of x] by (cases "x = ip") (simp_all add: r)
  ultimately show ?case by (simp add: tcpInv_def)
next
  case (reject ip t m)
  then have "m = tcp_counts t" by (simp add: tryAcquireConn_def Let_def split: if_splits)
  with reject show ?case by simp
qed (auto simp: tcpInv_def tryAcquireConn_def Let_def split: if_splits)

lemma tcpInv_init: "tcpInv tcpInit"
  by (simp add: tcpInit_def tcpInv_def connCount_def maxTCPConnectionsPerIP_def)

lemma tcpInv_reachable:
  assumes "tcp_step\<^sup>*\<^sup>* tcpInit t" shows "tcpInv t"
  using assms by (induction rule: rtranclp_induct) (auto simp: tcpInv_init intro: tcpInv_step)

text \<open>An address below the limit is accepted; a full address can be served again once a
  connection has closed.\<close>

lemma tryAcquireConn_iff: "fst (tryAcquireConn ip m) \<longleftrightarrow> connCount m ip < maxTCPConnectionsPerIP"
  by (simp add: tryAcquireConn_def Let_def not_le)

lemma release_frees:
  assumes "tcpInv t" "ip \<in> set (tcp_open t)"
  shows "fst (tryAcquireConn ip (releaseConn ip (tcp_counts t)))"
proof -
  have "count_list (tcp_open t) ip \<noteq> 0" using assms(2) by (simp add: count_list_0_iff)
  moreover have c: "connCount (tcp_counts t) ip = int (count_list (tcp_open t) ip)"
    "connCount (tcp_counts t) ip \<le> maxTCPConnectionsPerIP"
    using assms(1) unfolding tcpInv_def by blast+
  ultimately have "1 \<le> connCount (tcp_counts t) ip" by simp
  note this c(2)
  with connCount_release [of "tcp_counts t" ip ip] show ?thesis by (simp add: tryAcquireConn_iff)
qed

end
