(* ===== verification/Samples.thy ===== *)
theory Samples
  imports Singleflight Udp_Server Tcp_Server
begin

text \<open>
  Concrete inputs at which the witnesses of the root theory apply the properties: a query
  for \<open>ads.io\<close> and its bytes, a response, a configuration, an environment whose network
  is down, and a state of the singleflight machine with a leader and a waiter.
\<close>

section \<open>Messages\<close>

definition sampleUC :: go_unicode where
  "sampleUC = \<lparr>uc_ToLower = id, uc_ToUpper = id, uc_TrimSpace = id, uc_Fields = (\<lambda>s. [s]),
     uc_EqualFold = (=)\<rparr>"

definition sampleQuestion :: Question where
  "sampleQuestion = \<lparr>q_Name = ''ads.io'', q_Type = 1, q_Class = 1\<rparr>"

definition sampleQuery :: Packet where
  "sampleQuery = \<lparr>p_Header = \<lparr>ID = 0x1234, Flags = 0x0100, QDCount = 1, ANCount = 0, NSCount = 0, ARCount = 0\<rparr>,
     p_Questions = [sampleQuestion], p_Answers = [], p_Authorities = [], p_Additionals = []\<rparr>"

definition sampleQueryBytes :: bytes where
  "sampleQueryBytes = [0x12, 0x34, 1, 0, 0, 1, 0, 0, 0, 0, 0, 0,
     3, 0x61, 0x64, 0x73, 2, 0x69, 0x6F, 0, 0, 1, 0, 1]"

definition sampleRecord :: Record where
  "sampleRecord = NewIPRecord (NewRRHeader ''ads.io'' 1 300) [192, 0, 2, 1]"

definition sampleResponse :: Packet where
  "sampleResponse = \<lparr>p_Header = \<lparr>ID = 0x1234, Flags = 0x8180, QDCount = 1, ANCount = 1, NSCount = 0, ARCount = 0\<rparr>,
     p_Questions = [sampleQuestion], p_Answers = [sampleRecord], p_Authorities = [], p_Additionals = []\<rparr>"

definition sampleResponseBytes :: bytes where
  "sampleResponseBytes = [0x12, 0x34, 0x81, 0x80, 0, 1, 0, 1, 0, 0, 0, 0,
     3, 0x61, 0x64, 0x73, 2, 0x69, 0x6F, 0, 0, 1, 0, 1,
     3, 0x61, 0x64, 0x73, 2, 0x69, 0x6F, 0, 0, 1, 0, 1, 0, 0, 1, 44, 0, 4, 192, 0, 2, 1]"

lemma sampleQuery_Marshal: "Packet_Marshal sampleQuery = Inr sampleQueryBytes"
  by code_simp

definition sampleNameBytes :: bytes where
  "sampleNameBytes = [3, 0x61, 0x64, 0x73, 2, 0x69, 0x6F, 0]"

lemma sampleName_encodes: "EncodeName (q_Name sampleQuestion) = Inr sampleNameBytes"
  by code_simp

lemma sampleRecord_Marshal:
  "MarshalRecord sampleRecord = Inr (sampleNameBytes @ [0, 1, 0, 1, 0, 0, 1, 44, 0, 4, 192, 0, 2, 1])"
  using sampleName_encodes
  by (simp add: MarshalRecord_def sampleRecord_def NewIPRecord_def NewRRHeader_def To4_def
      marshalRecordWithRData_def sampleQuestion_def PutUint16_def PutUint32_def ClampIntToUint16_def
      clampInt_def TypeA_def TypeOPT_def)

lemma sampleResponse_Marshal: "Packet_Marshal sampleResponse = Inr sampleResponseBytes"
  using sampleName_encodes sampleRecord_Marshal
  by (simp add: Packet_Marshal_def sampleResponse_def Header_Marshal_def Question_Marshal_def appendRecords_def
      PutUint16_def ClampIntToUint16_def clampInt_def sampleResponseBytes_def sampleNameBytes_def
      sampleQuestion_def Let_def)

lemma wf_samples: "wfPacket sampleQuery" "wfPacket sampleResponse"
  by (simp_all add: wfPacket_def sampleQuery_def sampleResponse_def sampleRecord_def NewIPRecord_def)

lemma norm_samples: "normPacket sampleQuery = sampleQuery" "normPacket sampleResponse = sampleResponse"
  by code_simp+

lemma sampleQuery_parse: "ParsePacket uc sampleQueryBytes = Inr sampleQuery"
  using ParsePacket_Marshal [OF wf_samples(1) sampleQuery_Marshal, of uc "[]"] by (simp add: norm_samples)

lemma sampleResponse_parse: "ParsePacket uc sampleResponseBytes = Inr sampleResponse"
  using ParsePacket_Marshal [OF wf_samples(2) sampleResponse_Marshal, of uc "[]"] by (simp add: norm_samples)

lemma sampleQuery_checks:
  "\<not> isResponse (Flags (p_Header sampleQuery))" "extractOpcode (Flags (p_Header sampleQuery)) = 0"
  "validateSectionCounts (p_Header sampleQuery) = Inr ()" "length sampleQueryBytes \<le> MaxIncomingDNSMessageSize"
  by code_simp+

lemma sampleQuery_request: "ParseRequestBounded uc sampleQueryBytes = Inr sampleQuery"
  using sampleQuery_checks by (simp add: ParseRequestBounded_def sampleQuery_parse)

lemma sampleQuery_single: "singleQuestion sampleQuery" "p_Questions sampleQuery = [sampleQuestion]"
  by (simp_all add: singleQuestion_def sampleQuery_def)

lemma sampleQuery_id: "ID (p_Header sampleQuery) = 0x1234"
  by (simp add: sampleQuery_def)

section \<open>Configuration and environment\<close>

definition sampleConfig :: Config where
  "sampleConfig =
     \<lparr>Server = \<lparr>sc_Host = ''0.0.0.0'', sc_Port = 53, sc_Workers = autoWorkers, sc_WorkersRaw = ''auto'',
        sc_MaxConcurrency = 0, sc_UpstreamSocketPoolSize = 0, sc_EnableTCP = True, sc_TCPFallback = True\<rparr>,
      Upstream = \<lparr>uc_Servers = [''9.9.9.9'', ''1.1.1.1''], uc_UDPTimeout = ''3s'', uc_TCPTimeout = ''5s'',
        uc_MaxRetries = 3\<rparr>,
      CustomDNS = \<lparr>cd_Hosts = [(''nas.home'', [''192.168.1.10''])], cd_CNAMEs = []\<rparr>,
      Logging = \<lparr>lc_Level = ''info'', lc_Structured = False, lc_StructuredFormat = '''', lc_IncludePID = False,
        lc_ExtraFields = None\<rparr>,
      Filtering = \<lparr>fc_Enabled = True, fc_LogBlocked = True, fc_LogAllowed = False, fc_WhitelistDomains = [],
        fc_BlacklistDomains = [''ads.io''], fc_Blocklists = [], fc_RefreshInterval = ''''\<rparr>,
      RateLimit = \<lparr>rc_CleanupSeconds = 60, rc_MaxIPEntries = 65536, rc_MaxPrefixEntries = 16384,
        rc_GlobalQPS = 100000, rc_GlobalBurst = 100000, rc_PrefixQPS = 10000, rc_PrefixBurst = 20000,
        rc_IPQPS = 3000, rc_IPBurst = 6000\<rparr>,
      API = \<lparr>ac_Enabled = True, ac_Host = '''', ac_Port = 8080, ac_APIKey = ''''\<rparr>,
      Cluster = \<lparr>cc_Mode = ''standalone'', cc_NodeID = '''', cc_PrimaryURL = '''', cc_SharedSecret = '''',
        cc_SyncInterval = '''', cc_SyncTimeout = ''''\<rparr>\<rparr>"

definition sampleDurations :: "string \<Rightarrow> duration option" where
  "sampleDurations s = (if s = ''3s'' then Some (3 * Second) else if s = ''5s'' then Some (5 * Second) else None)"

text \<open>The world is the clock; no dial succeeds.\<close>

definition sampleEnv :: "int env" where
  "sampleEnv =
     \<lparr>env_now = (\<lambda>w. (w, w)), env_ctxErr = (\<lambda>w. (None, w)), env_ctxDone = (\<lambda>w. (False, w)),
      env_ctxDeadline = (\<lambda>w. None), env_pick = (\<lambda>w. (True, w)), env_resolveUDPAddr = (\<lambda>up w. (None, w)),
      env_dialUDP = (\<lambda>up w. (Inl False, w)), env_setDeadline = (\<lambda>c t w. w), env_write = (\<lambda>c b w. (Some True, w)),
      env_read = (\<lambda>c n w. (Inl True, w)), env_close = (\<lambda>c w. w), env_dialTCP = (\<lambda>h t w. (Inl True, w)),
      env_readFull = (\<lambda>c n w. (Inl True, w))\<rparr>"

definition sampleSelect :: "duration \<Rightarrow> int \<Rightarrow> select_case \<times> int" where
  "sampleSelect d w = (ResolverDone, w)"

definition sampleHydra :: "int hydra" where
  "sampleHydra = startHydra sampleUC sampleDurations sampleConfig 4 None 0"

lemma sampleConfig_hosts: "hostsBounded sampleConfig"
  by (simp add: hostsBounded_def sampleConfig_def)

lemma sampleHydra_reachable: "hydra_reachable uc sampleDurations env sampleConfig
   (startHydra uc sampleDurations sampleConfig 4 None w)"
  unfolding hydra_reachable_def by blast

lemma sampleHydra_inv: "hydraInv sampleUC sampleHydra"
  unfolding sampleHydra_def by (rule hydraInv_start) (simp_all add: sampleConfig_hosts)

definition sampleForwarder :: ForwardingResolver where
  "sampleForwarder = NewForwardingResolver [''9.9.9.9'', ''1.1.1.1''] 4 100 True 0 0 2"

lemma sampleForwarder_inv: "fwdInv uc sampleForwarder"
  unfolding sampleForwarder_def by (rule fwdInv_New)

definition sampleCache :: "(string, nat) TTLCache" where
  "sampleCache = NewTTLCache 2"

lemma sampleCache_inv: "cacheInv sampleCache"
  by (simp add: sampleCache_def cacheInv_New)

section \<open>A leader and a waiter\<close>

lemma setPc_simps [simp]:
  "fl_threads (setPc g p F) = (fl_threads F)(g := p)" "fl_sys (setPc g p F) = fl_sys F"
  "fl_inflight (setPc g p F) = fl_inflight F" "setPc g p (setPc g p' F) = setPc g p F"
  "setPc g p' ((setPc g p F)\<lparr>fl_sys := s\<rparr>) = setPc g p' (F\<lparr>fl_sys := s\<rparr>)"
  by (simp_all add: setPc_def)

lemma flight_to_checked:
  assumes "fl_threads F g = Idle" "singleQuestion req" "selectUpstream env (fl_sys F) = (Inr up, s1)"
    "cacheLookup env (cacheKeyOf (fst s1) req up) s1 = (None, s2)"
    "onWorld (env_ctxErr env) s2 = (None, s3)"
  shows "(flight_step uc env)\<^sup>*\<^sup>* F (setPc g (Checked req b (cacheKeyOf (fst s1) req up)) (F\<lparr>fl_sys := s3\<rparr>))"
proof -
  let ?k = "cacheKeyOf (fst s1) req up"
  let ?F1 = "setPc g (Entry req b) F" and ?F2 = "setPc g (Selected req b ?k) (F\<lparr>fl_sys := s1\<rparr>)"
    and ?F3 = "setPc g (Missed req b ?k) (F\<lparr>fl_sys := s2\<rparr>)"
  have "flight_step uc env F ?F1" by (rule flight_step.spawn [OF assms(1,2)])
  moreover have "flight_step uc env ?F1 ?F2"
    using flight_step.select [of ?F1 g req b env up s1 uc] assms(3) by simp
  moreover have "flight_step uc env ?F2 ?F3"
    using flight_step.miss [of ?F2 g req b ?k env s2 uc] assms(4) by simp
  moreover have "flight_step uc env ?F3 (setPc g (Checked req b ?k) (F\<lparr>fl_sys := s3\<rparr>))"
    using flight_step.checked [of ?F3 g req b ?k env s3 uc] assms(5) by simp
  ultimately show ?thesis by (meson r_into_rtranclp rtranclp.rtrancl_into_rtrancl)
qed

definition sampleKey :: cacheKey where
  "sampleKey = \<lparr>key_q = \<lparr>QName = ''ads.io'', QType = 1, QClass = 1\<rparr>, key_up = ''9.9.9.9''\<rparr>"

definition missedForwarder :: "nat \<Rightarrow> ForwardingResolver" where
  "missedForwarder n = sampleForwarder\<lparr>fwd_cache := (fwd_cache sampleForwarder)\<lparr>misses := int n\<rparr>\<rparr>"

lemma sample_select: "selectUpstream sampleEnv (missedForwarder n, w) = (Inr ''9.9.9.9'', (missedForwarder n, w))"
  by (simp add: selectUpstream_def missedForwarder_def sampleForwarder_def NewForwardingResolver_def
      maxUpstreams_def canTryUpstream_def numeral_eq_Suc)

lemma sample_key: "cacheKeyOf (missedForwarder n) sampleQuery ''9.9.9.9'' = sampleKey"
  by (simp add: cacheKeyOf_def normalizeQuestionKey_def sampleQuery_def sampleQuestion_def sampleKey_def)

lemma sample_lookup:
  "cacheLookup sampleEnv k (missedForwarder n, w) = (None, (missedForwarder (n + 1), w))"
  by (simp add: cacheLookup_def onWorld_def sampleEnv_def missedForwarder_def sampleForwarder_def
      NewForwardingResolver_def NewTTLCache_def GetWithAge_def countMiss_def)

lemma sample_ctx: "onWorld (env_ctxErr sampleEnv) s = (None, s)"
  by (simp add: onWorld_def sampleEnv_def)

lemma sample_to_checked:
  assumes "fl_threads F g = Idle" "fl_sys F = (missedForwarder n, w)"
  shows "(flight_step uc sampleEnv)\<^sup>*\<^sup>* F
    (setPc g (Checked sampleQuery sampleQueryBytes sampleKey) (F\<lparr>fl_sys := (missedForwarder (n + 1), w)\<rparr>))"
  using flight_to_checked [OF assms(1) sampleQuery_single(1), of sampleEnv "''9.9.9.9''" "(missedForwarder n, w)"
      "(missedForwarder (n + 1), w)" "(missedForwarder (n + 1), w)" uc sampleQueryBytes]
  by (simp add: assms(2) sample_select sample_key sample_lookup sample_ctx)

lemma sampleFlight_exists:
  "\<exists>F. flight_reachable uc sampleEnv (missedForwarder 0, 0) F \<and>
    fl_threads F 0 = Leading sampleQuery sampleQueryBytes sampleKey 0 \<and> fl_threads F 1 = Waiting sampleQuery 0"
proof -
  let ?c = "Checked sampleQuery sampleQueryBytes sampleKey"
  define F0 where "F0 = flight_init (missedForwarder 0, 0 :: int)"
  define F1 where "F1 = setPc 0 ?c (F0\<lparr>fl_sys := (missedForwarder 1, 0)\<rparr>)"
  define F2 where "F2 = setPc 0 (Leading sampleQuery sampleQueryBytes sampleKey 0)
    (F1\<lparr>fl_inflight := fmupd sampleKey 0 (fl_inflight F1), fl_calls := (fl_calls F1)(0 := newCall),
        fl_callKey := (fl_callKey F1)(0 := sampleKey), fl_next := 1\<rparr>)"
  define F3 where "F3 = setPc 1 ?c (F2\<lparr>fl_sys := (missedForwarder 2, 0)\<rparr>)"
  define F4 where "F4 = setPc 1 (Waiting sampleQuery 0) F3"
  have 0: "fl_threads F0 = (\<lambda>_. Idle)" "fl_sys F0 = (missedForwarder 0, 0)" "fl_inflight F0 = fmempty" "fl_next F0 = 0"
    by (simp_all add: F0_def flight_init_def)
  have 1: "(flight_step uc sampleEnv)\<^sup>*\<^sup>* F0 F1"
    using sample_to_checked [of F0 0 0 0 uc] 0 by (simp add: F1_def)
  have n1: "fl_next F1 = 0" "fl_inflight F1 = fmempty" "fl_threads F1 0 = ?c" "fl_threads F1 1 = Idle"
    "fl_sys F1 = (missedForwarder 1, 0)"
    using 0 by (simp_all add: F1_def) (simp_all add: setPc_def)
  have 2: "flight_step uc sampleEnv F1 F2"
    unfolding F2_def using flight_step.lead [of F1 0 sampleQuery sampleQueryBytes sampleKey uc sampleEnv] n1 by simp
  have n2: "fl_threads F2 1 = Idle" "fl_sys F2 = (missedForwarder 1, 0)"
    "fl_threads F2 0 = Leading sampleQuery sampleQueryBytes sampleKey 0" "fmlookup (fl_inflight F2) sampleKey = Some 0"
    using n1 by (simp_all add: F2_def)
  have 3: "(flight_step uc sampleEnv)\<^sup>*\<^sup>* F2 F3"
    using sample_to_checked [OF n2(1,2), of uc] by (simp add: F3_def numeral_2_eq_2)
  have 4: "flight_step uc sampleEnv F3 F4"
    unfolding F4_def using n2 by (intro flight_step.join) (simp_all add: F3_def)
  have "(flight_step uc sampleEnv)\<^sup>*\<^sup>* F0 F4"
    using 1 2 3 4 by (meson rtranclp.rtrancl_into_rtrancl rtranclp_trans)
  moreover have "fl_threads F4 0 = Leading sampleQuery sampleQueryBytes sampleKey 0"
    "fl_threads F4 1 = Waiting sampleQuery 0"
    using n2 by (simp_all add: F4_def F3_def)
  ultimately show ?thesis unfolding flight_reachable_def F0_def by blast
qed

lemma missedForwarder_inv: "fwdInv uc (fst (missedForwarder 0, w))"
proof -
  have "missedForwarder 0 = sampleForwarder"
    by (simp add: missedForwarder_def sampleForwarder_def NewForwardingResolver_def NewTTLCache_def)
  then show ?thesis by (simp add: sampleForwarder_inv)
qed

section \<open>Servers\<close>

definition sampleBucket :: TokenBucketRateLimiter where
  "sampleBucket =
     \<lparr>rl_rate = 10, rl_burst = 3, rl_cleanupInterval = Minute, rl_maxEntries = 100, rl_lastCleanup = 0,
      rl_lastUpdate = fmupd ''10.0.0.1'' 0 fmempty, rl_tokens = fmupd ''10.0.0.1'' 0 fmempty\<rparr>"

lemma sampleBucket_fields:
  "rl_rate sampleBucket = 10" "rl_burst sampleBucket = 3" "rl_cleanupInterval sampleBucket = Minute"
  "rl_lastCleanup sampleBucket = 0" "fmlookup (rl_lastUpdate sampleBucket) ''10.0.0.1'' = Some 0"
  "tokensOf sampleBucket ''10.0.0.1'' = 0" "lastOf sampleBucket ''10.0.0.1'' = 0" "0 < Minute"
  by (simp_all add: sampleBucket_def tokensOf_def lastOf_def duration_defs)

lemma round64_numeral: "n < 2 ^ 53 \<Longrightarrow> round64 (of_nat n) = of_nat n"
  using round64_of_int [of "int n"] by simp

lemma sampleBucket_inv: "bucketInv sampleBucket"
  using round64_numeral [of 3] round64_numeral [of 0]
  by (simp add: sampleBucket_def bucketInv_def tracked_def fcard.rep_eq)

lemma sampleBucket_second: "Seconds (Sub Second 0) = 1" "Sub Second 0 \<le> Minute"
  using round64_numeral [of 1] round64_numeral [of 0]
  by (simp_all add: Seconds_def Sub_def duration_defs)

definition sampleUDP :: "int hydra UDPServer" where
  "sampleUDP = \<lparr>udp_sys = (sampleHydra, None), udp_limiter = None, udp_workers = 4, udp_queue = [],
     udp_sent = [], udp_crashed = False\<rparr>"

end
