(* ===== verification/Buffer_Pool.thy ===== *)
theory Buffer_Pool
  imports Prelude "HOL-Library.Multiset"
begin

text \<open>
  \<open>internal/pool/pool.go\<close>, the typed wrapper of \<open>sync.Pool\<close>, and the heap the pooled
  buffers live in. \<open>sync.Pool\<close> may hand out any item it holds or call the constructor, and
  may forget items at any time; which of these happens is an argument of \<open>Pool_Get\<close> and a
  step of its own. The ledger at the end is the abstract account of buffers: each is free,
  lent to a reader, or holds a received packet, and what was received is what was handled,
  dropped or is still held.
\<close>

section \<open>Pool\<close>

text \<open>\<open>'w\<close> is what the constructor allocates in.\<close>

record ('a, 'w) Pool =
  pl_items :: "'a list"
  pl_new :: "'w \<Rightarrow> 'a \<times> 'w"

definition Pool_New :: "('w \<Rightarrow> 'a \<times> 'w) \<Rightarrow> ('a, 'w) Pool" where
  "Pool_New newFn = \<lparr>pl_items = [], pl_new = newFn\<rparr>"

definition Pool_Get :: "nat option \<Rightarrow> ('a, 'w) Pool \<Rightarrow> 'w \<Rightarrow> 'a \<times> ('a, 'w) Pool \<times> 'w" where
  "Pool_Get choice p w =
     (let fresh = (let (x, w') = pl_new p w in (x, p, w')) in
      case choice of
        None \<Rightarrow> fresh
      | Some i \<Rightarrow>
          if i < length (pl_items p) then
            (pl_items p ! i, p\<lparr>pl_items := take i (pl_items p) @ drop (Suc i) (pl_items p)\<rparr>, w)
          else fresh)"

definition Pool_Put :: "'a \<Rightarrow> ('a, 'w) Pool \<Rightarrow> ('a, 'w) Pool" where
  "Pool_Put item p = p\<lparr>pl_items := item # pl_items p\<rparr>"

text \<open>The garbage collector empties a pool item by item.\<close>

definition Pool_forget :: "nat \<Rightarrow> ('a, 'w) Pool \<Rightarrow> ('a, 'w) Pool" where
  "Pool_forget i p = p\<lparr>pl_items := take i (pl_items p) @ drop (Suc i) (pl_items p)\<rparr>"

section \<open>Buffers on a heap\<close>

text \<open>The next address and the contents of every allocated byte slice.\<close>

type_synonym heap = "nat \<times> (nat \<Rightarrow> bytes)"

definition allocBytes :: "nat \<Rightarrow> heap \<Rightarrow> nat \<times> heap" where
  "allocBytes sz = (\<lambda>(nxt, mem). (nxt, Suc nxt, mem(nxt := replicate sz 0)))"

text \<open>A read fills the front of the buffer, at most its length, and says how much it wrote.\<close>

definition readInto :: "nat \<Rightarrow> bytes \<Rightarrow> heap \<Rightarrow> nat \<times> heap" where
  "readInto b datagram = (\<lambda>(nxt, mem).
     (min (length datagram) (length (mem b)),
      nxt, mem(b := take (length (mem b)) datagram @ drop (length datagram) (mem b))))"

section \<open>Facts about pools\<close>

lemma mset_take_drop: "i < length xs \<Longrightarrow> mset xs = add_mset (xs ! i) (mset (take i xs @ drop (Suc i) xs))"
  by (metis id_take_nth_drop mset.simps(2) mset_append union_mset_add_mset_right)

lemma Pool_Put_items [simp]: "pl_items (Pool_Put x p) = x # pl_items p" "pl_new (Pool_Put x p) = pl_new p"
  by (simp_all add: Pool_Put_def)

lemma Pool_New_items [simp]: "pl_items (Pool_New f) = []" "pl_new (Pool_New f) = f"
  by (simp_all add: Pool_New_def)

lemma Pool_forget_items [simp]: "pl_new (Pool_forget i p) = pl_new p"
  by (simp add: Pool_forget_def)

lemma mset_Pool_forget:
  "i < length (pl_items p) \<Longrightarrow> mset (pl_items p) = add_mset (pl_items p ! i) (mset (pl_items (Pool_forget i p)))"
  by (simp add: Pool_forget_def mset_take_drop)

lemma Pool_Get_cases:
  assumes "Pool_Get c p w = (x, p', w')"
  obtains (pooled) "mset (pl_items p) = add_mset x (mset (pl_items p'))" "w' = w" "pl_new p' = pl_new p"
    | (constructed) "pl_new p w = (x, w')" "p' = p"
  using assms unfolding Pool_Get_def Let_def
  by (auto split: prod.splits option.splits if_splits simp: mset_take_drop)

section \<open>The account of buffers\<close>

text \<open>A packet in a buffer, from a peer of type \<open>'p\<close>.\<close>

record 'p packet =
  bufPtr :: nat
  pk_n :: nat
  pk_peer :: 'p

definition payload :: "(nat \<Rightarrow> bytes) \<Rightarrow> 'p packet \<Rightarrow> bytes \<times> 'p" where
  "payload mem p = (take (pk_n p) (mem (bufPtr p)), pk_peer p)"

record 'p ledger =
  ld_heap :: heap
  ld_free :: "nat multiset"
  ld_lent :: "nat multiset"
  ld_held :: "'p packet multiset"
  ld_received :: "(bytes \<times> 'p) multiset"
  ld_handled :: "(bytes \<times> 'p) multiset"
  ld_dropped :: "(bytes \<times> 'p) multiset"

inductive ledger_step :: "nat \<Rightarrow> 'p ledger \<Rightarrow> 'p ledger \<Rightarrow> bool" for sz where
  alloc: "allocBytes sz (ld_heap L) = (b, hp) \<Longrightarrow>
    ledger_step sz L (L\<lparr>ld_heap := hp, ld_lent := add_mset b (ld_lent L)\<rparr>)"
| reuse: "ld_free L = add_mset b F \<Longrightarrow>
    ledger_step sz L (L\<lparr>ld_free := F, ld_lent := add_mset b (ld_lent L)\<rparr>)"
| forget: "ld_free L = add_mset b F \<Longrightarrow> ledger_step sz L (L\<lparr>ld_free := F\<rparr>)"
| giveBack: "ld_lent L = add_mset b R \<Longrightarrow>
    ledger_step sz L (L\<lparr>ld_lent := R, ld_free := add_mset b (ld_free L)\<rparr>)"
| fill: "ld_lent L = add_mset b R \<Longrightarrow> readInto b datagram (ld_heap L) = (n, hp) \<Longrightarrow>
    ledger_step sz L (L\<lparr>ld_heap := hp, ld_lent := R,
      ld_held := add_mset \<lparr>bufPtr = b, pk_n = n, pk_peer = peer\<rparr> (ld_held L),
      ld_received := add_mset (take sz datagram, peer) (ld_received L)\<rparr>)"
| drop: "ld_held L = add_mset p H \<Longrightarrow>
    ledger_step sz L (L\<lparr>ld_held := H, ld_free := add_mset (bufPtr p) (ld_free L),
      ld_dropped := add_mset (payload (snd (ld_heap L)) p) (ld_dropped L)\<rparr>)"
| handle: "ld_held L = add_mset p H \<Longrightarrow>
    ledger_step sz L (L\<lparr>ld_held := H, ld_free := add_mset (bufPtr p) (ld_free L),
      ld_handled := add_mset (payload (snd (ld_heap L)) p) (ld_handled L)\<rparr>)"

text \<open>Every buffer that is not forgotten, once for each place that has it.\<close>

definition places :: "'p ledger \<Rightarrow> nat multiset" where
  "places L = ld_free L + ld_lent L + image_mset bufPtr (ld_held L)"

definition exclusive :: "'p ledger \<Rightarrow> bool" where
  "exclusive L \<longleftrightarrow> (\<forall>b. count (places L) b \<le> 1)"

definition sized :: "nat \<Rightarrow> 'p ledger \<Rightarrow> bool" where
  "sized sz L \<longleftrightarrow> (\<forall>b \<in># places L. b < fst (ld_heap L) \<and> length (snd (ld_heap L) b) = sz)"

definition conserved :: "'p ledger \<Rightarrow> bool" where
  "conserved L \<longleftrightarrow>
     ld_received L = ld_handled L + ld_dropped L + image_mset (payload (snd (ld_heap L))) (ld_held L)"

definition ledgerInv :: "nat \<Rightarrow> 'p ledger \<Rightarrow> bool" where
  "ledgerInv sz L \<longleftrightarrow> exclusive L \<and> sized sz L \<and> conserved L"

text \<open>A write to a buffer no held packet is in leaves every packet as it was.\<close>

lemma payload_frame:
  assumes "b \<notin># image_mset bufPtr H"
  shows "image_mset (payload (mem(b := x))) H = image_mset (payload mem) H"
proof (rule image_mset_cong)
  fix p assume "p \<in># H"
  with assms have "bufPtr p \<noteq> b" by auto
  then show "payload (mem(b := x)) p = payload mem p" by (simp add: payload_def)
qed

lemma ledgerInv_alloc:
  assumes inv: "ledgerInv sz L" and a: "allocBytes sz (ld_heap L) = (b, hp)"
  shows "ledgerInv sz (L\<lparr>ld_heap := hp, ld_lent := add_mset b (ld_lent L)\<rparr>)"
proof -
  obtain nxt mem where h: "ld_heap L = (nxt, mem)" by (rule prod.exhaust)
  have hp: "b = nxt" "hp = (Suc nxt, mem(nxt := replicate sz 0))" using a h by (auto simp: allocBytes_def)
  have new: "nxt \<notin># places L" using inv h by (force simp: ledgerInv_def sized_def)
  then have "image_mset (payload (mem(nxt := replicate sz 0))) (ld_held L) = image_mset (payload mem) (ld_held L)"
    by (intro payload_frame) (simp add: places_def)
  moreover have "count (places L) nxt = 0" using new by (simp add: not_in_iff)
  ultimately show ?thesis using inv new h hp unfolding ledgerInv_def
    by (force simp: exclusive_def sized_def conserved_def places_def less_Suc_eq)
qed

lemma ledgerInv_fill:
  assumes inv: "ledgerInv sz L" and b: "ld_lent L = add_mset b R"
    and r: "readInto b datagram (ld_heap L) = (n, hp)"
  shows "ledgerInv sz (L\<lparr>ld_heap := hp, ld_lent := R,
      ld_held := add_mset \<lparr>bufPtr = b, pk_n = n, pk_peer = peer\<rparr> (ld_held L),
      ld_received := add_mset (take sz datagram, peer) (ld_received L)\<rparr>)"
proof -
  obtain nxt mem where h: "ld_heap L = (nxt, mem)" by (rule prod.exhaust)
  let ?x = "take (length (mem b)) datagram @ drop (length datagram) (mem b)"
  have hp: "n = min (length datagram) (length (mem b))" "hp = (nxt, mem(b := ?x))"
    using r h by (auto simp: readInto_def)
  have len: "length (mem b) = sz" using inv h b by (force simp: ledgerInv_def sized_def places_def)
  have "count (places L) b \<le> 1" using inv by (simp add: ledgerInv_def exclusive_def)
  then have "count (image_mset bufPtr (ld_held L)) b = 0" using b by (simp add: places_def)
  then have "b \<notin># image_mset bufPtr (ld_held L)" by (simp only: not_in_iff)
  then have frame: "image_mset (payload (mem(b := ?x))) (ld_held L) = image_mset (payload mem) (ld_held L)"
    by (rule payload_frame)
  have pay: "payload (mem(b := ?x)) \<lparr>bufPtr = b, pk_n = n, pk_peer = peer\<rparr> = (take sz datagram, peer)"
    using hp(1) len by (simp add: payload_def min_def)
  have "length ?x = sz" using len by simp
  moreover have "places (L\<lparr>ld_heap := hp, ld_lent := R,
      ld_held := add_mset \<lparr>bufPtr = b, pk_n = n, pk_peer = peer\<rparr> (ld_held L),
      ld_received := add_mset (take sz datagram, peer) (ld_received L)\<rparr>) = places L"
    using b by (simp add: places_def)
  ultimately show ?thesis using inv frame pay hp(2) h unfolding ledgerInv_def
    by (simp add: exclusive_def sized_def conserved_def)
qed

lemma places_give:
  "ld_held L = add_mset p H \<Longrightarrow>
   places (L\<lparr>ld_held := H, ld_free := add_mset (bufPtr p) (ld_free L), ld_dropped := d\<rparr>) = places L"
  "ld_held L = add_mset p H \<Longrightarrow>
   places (L\<lparr>ld_held := H, ld_free := add_mset (bufPtr p) (ld_free L), ld_handled := d\<rparr>) = places L"
  by (simp_all add: places_def)

lemma ledgerInv_step: "ledger_step sz L L' \<Longrightarrow> ledgerInv sz L \<Longrightarrow> ledgerInv sz L'"
proof (induction rule: ledger_step.induct)
  case (reuse L b F)
  then have "places (L\<lparr>ld_free := F, ld_lent := add_mset b (ld_lent L)\<rparr>) = places L" by (simp add: places_def)
  with reuse show ?case by (simp add: ledgerInv_def exclusive_def sized_def conserved_def)
next
  case (forget L b F)
  then have sub: "places L = add_mset b (places (L\<lparr>ld_free := F\<rparr>))" by (simp add: places_def)
  have "count (places (L\<lparr>ld_free := F\<rparr>)) x \<le> 1" for x
  proof -
    have "count (places L) x \<le> 1" using forget by (simp add: ledgerInv_def exclusive_def)
    then show ?thesis by (simp add: sub split: if_splits)
  qed
  with forget sub show ?case by (simp add: ledgerInv_def exclusive_def sized_def conserved_def)
next
  case (giveBack L b R)
  then have "places (L\<lparr>ld_lent := R, ld_free := add_mset b (ld_free L)\<rparr>) = places L" by (simp add: places_def)
  with giveBack show ?case by (simp add: ledgerInv_def exclusive_def sized_def conserved_def)
next
  case (drop L p H)
  with places_give(1) [OF drop.hyps] show ?case by (simp add: ledgerInv_def exclusive_def sized_def conserved_def)
next
  case (handle L p H)
  with places_give(2) [OF handle.hyps] show ?case by (simp add: ledgerInv_def exclusive_def sized_def conserved_def)
qed (simp_all add: ledgerInv_alloc ledgerInv_fill)

text \<open>
  A program that uses pooled buffers keeps the account when each of its steps is a step of
  the ledger or leaves the ledger alone.
\<close>

locale buffer_user =
  fixes sz :: nat
    and step :: "'st \<Rightarrow> 'st \<Rightarrow> bool"
    and wf :: "'st \<Rightarrow> bool"
    and account :: "'st \<Rightarrow> 'p ledger"
  assumes step_wf: "wf s \<Longrightarrow> step s s' \<Longrightarrow> wf s'"
    and accounted: "wf s \<Longrightarrow> step s s' \<Longrightarrow> account s' = account s \<or> ledger_step sz (account s) (account s')"
begin

lemma keeps_account:
  assumes "step\<^sup>*\<^sup>* s s'" "wf s" "ledgerInv sz (account s)"
  shows "wf s' \<and> ledgerInv sz (account s')"
  using assms(1)
proof (induction rule: rtranclp_induct)
  case (step t u)
  from accounted [of t u] step step_wf [of t u] show ?case by (auto intro: ledgerInv_step)
qed (use assms in simp)

lemma handled_was_received:
  "step\<^sup>*\<^sup>* s s' \<Longrightarrow> wf s \<Longrightarrow> ledgerInv sz (account s) \<Longrightarrow> ld_handled (account s') \<subseteq># ld_received (account s')"
  using keeps_account [of s s'] by (auto simp: ledgerInv_def conserved_def)

end

end
