(* ===== verification/Shutdown.thy ===== *)
theory Shutdown
  imports Prelude
begin

text \<open>
  What the servers' \<open>Stop\<close> relies on. A server that has been told to stop goes on taking
  steps of its goroutines, interleaved with steps of its surroundings that leave the
  goroutines alone. The locale states the three laws that make waiting for the goroutines
  safe: stopping is not undone, each goroutine step uses up some of a finite amount of
  work, and while a goroutine is left one of them can move. It is interpreted on the UDP
  and the TCP server. The sum lemmas are for servers kept as lists of sockets.
\<close>

section \<open>Runs with a count of goroutine steps\<close>

inductive counted :: "('st \<Rightarrow> 'st \<Rightarrow> bool) \<Rightarrow> ('st \<Rightarrow> 'st \<Rightarrow> bool) \<Rightarrow> nat \<Rightarrow> 'st \<Rightarrow> 'st \<Rightarrow> bool"
  for step quiet
where
  none: "counted step quiet 0 s s"
| move: "counted step quiet n s s' \<Longrightarrow> step s' s'' \<Longrightarrow> counted step quiet (Suc n) s s''"
| skip: "counted step quiet n s s' \<Longrightarrow> quiet s' s'' \<Longrightarrow> counted step quiet n s s''"

locale stoppable =
  fixes step quiet :: "'st \<Rightarrow> 'st \<Rightarrow> bool"
    and stopping :: "'st \<Rightarrow> bool"
    and work :: "'st \<Rightarrow> nat"
    and finished :: "'st \<Rightarrow> bool"
  assumes step_stopping: "stopping s \<Longrightarrow> step s s' \<Longrightarrow> stopping s'"
    and quiet_stopping: "stopping s \<Longrightarrow> quiet s s' \<Longrightarrow> stopping s'"
    and step_work: "stopping s \<Longrightarrow> step s s' \<Longrightarrow> work s' < work s"
    and quiet_work: "stopping s \<Longrightarrow> quiet s s' \<Longrightarrow> work s' \<le> work s"
    and progress: "stopping s \<Longrightarrow> \<not> finished s \<Longrightarrow> \<exists>s'. step s s'"
begin

lemma counted_stopping: "counted step quiet n s s' \<Longrightarrow> stopping s \<Longrightarrow> stopping s'"
  by (induction rule: counted.induct) (auto intro: step_stopping quiet_stopping)

lemma counted_bounded: "counted step quiet n s s' \<Longrightarrow> stopping s \<Longrightarrow> n + work s' \<le> work s"
proof (induction rule: counted.induct)
  case (move n s s' s'')
  with step_work [OF counted_stopping [OF move.hyps(1) move.prems] move.hyps(2)] show ?case by simp
next
  case (skip n s s' s'')
  with quiet_work [OF counted_stopping [OF skip.hyps(1) skip.prems] skip.hyps(2)] show ?case by simp
qed simp

lemma stuck_finished:
  "counted step quiet n s s' \<Longrightarrow> stopping s \<Longrightarrow> (\<nexists>s''. step s' s'') \<Longrightarrow> finished s'"
  using progress counted_stopping by blast

lemma drains: "stopping s \<Longrightarrow> \<exists>s'. step\<^sup>*\<^sup>* s s' \<and> stopping s' \<and> finished s'"
proof (induction "work s" arbitrary: s rule: less_induct)
  case less
  show ?case
  proof (cases "finished s")
    case False
    with less.prems progress obtain t where t: "step s t" by blast
    from less.hyps [OF step_work [OF less.prems t] step_stopping [OF less.prems t]] t show ?thesis
      by (meson converse_rtranclp_into_rtranclp)
  qed (use less.prems in blast)
qed

lemma no_infinite_run: "stopping (f 0) \<Longrightarrow> \<exists>i. \<not> step (f i) (f (Suc i))"
proof (rule ccontr)
  assume s: "stopping (f 0)" and "\<nexists>i. \<not> step (f i) (f (Suc i))"
  then have run: "step (f i) (f (Suc i))" for i by blast
  have "counted step quiet i (f 0) (f i)" for i
    by (induction i) (auto intro: counted.none counted.move run)
  from counted_bounded [OF this s] have "i \<le> work (f 0)" for i by (meson add_leD1)
  then show False by (meson Suc_n_not_le_n)
qed

end

section \<open>Sums over a list with one element changed\<close>

lemma sum_list_nth_split:
  fixes f :: "'a \<Rightarrow> 'b :: comm_monoid_add"
  assumes "i < length xs"
  obtains rest where "sum_list (map f xs) = rest + f (xs ! i)"
    "\<And>x. sum_list (map f (xs[i := x])) = rest + f x"
proof
  let ?r = "sum_list (map f (take i xs)) + sum_list (map f (drop (Suc i) xs))"
  show "sum_list (map f xs) = ?r + f (xs ! i)"
    using id_take_nth_drop [OF assms]
    by (metis (no_types, lifting) add.assoc add.commute map_append list.simps(9) sum_list.append sum_list.Cons)
  show "sum_list (map f (xs[i := x])) = ?r + f x" for x
    using assms by (simp add: upd_conv_take_nth_drop ac_simps)
qed

end
