(* ===== verification/Udp_Runtime.thy ===== *)
theory Udp_Runtime
  imports Udp_Server Buffer_Pool Shutdown
begin

text \<open>
  \<open>internal/server/udp_server.go\<close> goroutine by goroutine: \<open>Run\<close> opens one socket per CPU,
  each with a receiver, a bounded channel and its workers, all taking buffers from one
  pool; \<open>Stop\<close> closes the sockets and waits. Packets are pointers into a shared heap, as in
  the code. A receiver is at the top of its loop, blocked in the read, or holds a packet
  it has yet to hand over; a worker waits, handles a packet, or has returned. Every step is
  one operation of one goroutine and they interleave freely. What was received, handled
  and dropped is recorded beside the state. \<open>ur_late\<close> lists the goroutines of
  \<open>resolveWithTimeout\<close> whose worker gave up before they copied the request. Every caller
  gives \<open>Stop\<close> five seconds, so its branch for a timeout that is not positive is left out.
\<close>

section \<open>State\<close>

type_synonym upacket = "UDPAddr packet"

datatype receiver = RecvTop | RecvRead nat | RecvGot upacket | RecvExit
datatype worker = WorkIdle | WorkBusy upacket | WorkExit

record usocket =
  so_open :: bool
  so_cap :: int
  so_recv :: receiver
  so_queue :: "upacket list"
  so_workers :: "worker list"

text \<open>
  Where the caller of \<open>Run\<close> or \<open>RunOnConn\<close> is: opening sockets with some to go, waiting for
  the context, waiting for the goroutines in \<open>Stop\<close>, or back with an error or nil.
\<close>

datatype run_phase = UStarting nat | UServing | UServingConn | UWaiting | UReturned "string option"

record 's UDPRun =
  ur_core :: "'s UDPServer"
  ur_heap :: heap
  ur_pool :: "(nat, heap) Pool"
  ur_conns :: "usocket list"
  ur_ctx :: bool
  ur_phase :: run_phase
  ur_late :: "(upacket \<times> bytes) list"
  ur_received :: "(bytes \<times> UDPAddr) list"
  ur_handled :: "(bytes \<times> UDPAddr) list"
  ur_dropped :: "(bytes \<times> UDPAddr) list"

definition bufferPool :: "(nat, heap) Pool" where
  "bufferPool = Pool_New (allocBytes MaxIncomingDNSMessageSize)"

section \<open>Receiver\<close>

definition receiverAt :: "nat \<Rightarrow> receiver \<Rightarrow> 's UDPRun \<Rightarrow> 's UDPRun" where
  "receiverAt i r s = s\<lparr>ur_conns := (ur_conns s)[i := (ur_conns s ! i)\<lparr>so_recv := r\<rparr>]\<rparr>"

definition putBuffer :: "nat \<Rightarrow> 's UDPRun \<Rightarrow> 's UDPRun" where
  "putBuffer b s = s\<lparr>ur_pool := Pool_Put b (ur_pool s)\<rparr>"

definition recvGet :: "nat option \<Rightarrow> nat \<Rightarrow> 's UDPRun \<Rightarrow> 's UDPRun" where
  "recvGet choice i s =
     (let (b, pl, hp) = Pool_Get choice (ur_pool s) (ur_heap s)
      in receiverAt i (RecvRead b) (s\<lparr>ur_pool := pl, ur_heap := hp\<rparr>))"

text \<open>\<open>ReadFromUDP\<close> returns a datagram, cut to the buffer.\<close>

definition recvRead :: "nat \<Rightarrow> nat \<Rightarrow> bytes \<Rightarrow> UDPAddr \<Rightarrow> 's UDPRun \<Rightarrow> 's UDPRun" where
  "recvRead i b datagram peer s =
     (let (n, hp) = readInto b datagram (ur_heap s)
      in receiverAt i (RecvGot \<lparr>bufPtr = b, pk_n = n, pk_peer = peer\<rparr>)
           (s\<lparr>ur_heap := hp,
              ur_received := (take MaxIncomingDNSMessageSize datagram, peer) # ur_received s\<rparr>))"

text \<open>\<open>ReadFromUDP\<close> fails: the buffer goes back and the receiver returns.\<close>

definition recvError :: "nat \<Rightarrow> nat \<Rightarrow> 's UDPRun \<Rightarrow> 's UDPRun" where
  "recvError i b s = receiverAt i RecvExit (putBuffer b s)"

definition admit ::
  "UDPAddr \<Rightarrow> instant \<Rightarrow> instant \<Rightarrow> instant \<Rightarrow> RateLimiter option \<Rightarrow> bool \<times> RateLimiter option" where
  "admit peer t1 t2 t3 l =
     (if l = None then (True, l)
      else case netipAddrFromUDPAddr (Some peer) of
             None \<Rightarrow> (False, l)
           | Some ip \<Rightarrow> AllowAddr ip l t1 t2 t3)"

definition dropPacket :: "nat \<Rightarrow> upacket \<Rightarrow> 's UDPRun \<Rightarrow> 's UDPRun" where
  "dropPacket i p s =
     receiverAt i RecvTop
       (putBuffer (bufPtr p) (s\<lparr>ur_dropped := payload (snd (ur_heap s)) p # ur_dropped s\<rparr>))"

definition queuePacket :: "nat \<Rightarrow> upacket \<Rightarrow> 's UDPRun \<Rightarrow> 's UDPRun" where
  "queuePacket i p s =
     s\<lparr>ur_conns := (ur_conns s)[i := (ur_conns s ! i)\<lparr>so_recv := RecvTop,
         so_queue := so_queue (ur_conns s ! i) @ [p]\<rparr>]\<rparr>"

definition recvDispatch :: "nat \<Rightarrow> upacket \<Rightarrow> instant \<Rightarrow> instant \<Rightarrow> instant \<Rightarrow> 's UDPRun \<Rightarrow> 's UDPRun" where
  "recvDispatch i p t1 t2 t3 s =
     (let (ok, l) = admit (pk_peer p) t1 t2 t3 (udp_limiter (ur_core s));
          s1 = s\<lparr>ur_core := (ur_core s)\<lparr>udp_limiter := l\<rparr>\<rparr>;
          k = ur_conns s ! i
      in if \<not> ok then dropPacket i p s1
         else if int (length (so_queue k)) < so_cap k then queuePacket i p s1
         else dropPacket i p s1)"

section \<open>Worker\<close>

definition workerAt :: "nat \<Rightarrow> nat \<Rightarrow> worker \<Rightarrow> 's UDPRun \<Rightarrow> 's UDPRun" where
  "workerAt i j w s =
     s\<lparr>ur_conns := (ur_conns s)[i := (ur_conns s ! i)\<lparr>so_workers := (so_workers (ur_conns s ! i))[j := w]\<rparr>]\<rparr>"

definition workTake :: "nat \<Rightarrow> nat \<Rightarrow> upacket \<Rightarrow> upacket list \<Rightarrow> 's UDPRun \<Rightarrow> 's UDPRun" where
  "workTake i j p rest s =
     s\<lparr>ur_conns := (ur_conns s)[i := (ur_conns s ! i)\<lparr>so_queue := rest,
         so_workers := (so_workers (ur_conns s ! i))[j := WorkBusy p]\<rparr>]\<rparr>"

text \<open>The handler answered for the resolver, which may then still have to read the request.\<close>

definition gaveUp :: "go_unicode \<Rightarrow> 's QueryHandler option \<Rightarrow> bytes \<Rightarrow> 's UDPServer \<Rightarrow> bool" where
  "gaveUp uc h req u =
     (case h of
        None \<Rightarrow> False
      | Some hnd \<Rightarrow>
          (case Handle uc hnd ''udp'' req (udp_sys u) of
             (None, _) \<Rightarrow> False
           | (Some res, _) \<Rightarrow> hr_ParsedOK res \<and> hr_Source res \<in> {''timeout'', ''shutdown''}))"

text \<open>\<open>handlePacket\<close> to its end, with the deferred return of the buffer.\<close>

definition workDone ::
  "go_unicode \<Rightarrow> 's QueryHandler option \<Rightarrow> nat \<Rightarrow> nat \<Rightarrow> upacket \<Rightarrow> bool \<Rightarrow> 's UDPRun \<Rightarrow> 's UDPRun" where
  "workDone uc h i j p late s =
     (let pkt = payload (snd (ur_heap s)) p
      in workerAt i j WorkIdle
           (putBuffer (bufPtr p)
              (s\<lparr>ur_core := handlePacket uc h pkt (ur_core s),
                 ur_handled := pkt # ur_handled s,
                 ur_late := (if late then (p, fst pkt) # ur_late s else ur_late s)\<rparr>)))"

section \<open>Run, RunOnConn and Stop\<close>

definition newSocket :: "int \<Rightarrow> int \<Rightarrow> usocket" where
  "newSocket cap n = \<lparr>so_open = True, so_cap = cap, so_recv = RecvTop, so_queue = [],
     so_workers = replicate (nat n) WorkIdle\<rparr>"

definition udpRun :: "nat \<Rightarrow> 's UDPServer \<Rightarrow> 's UDPRun" where
  "udpRun numCPU u =
     \<lparr>ur_core = u\<lparr>udp_workers := workersPerSocket (udp_workers u)\<rparr>,
      ur_heap = (0, \<lambda>_. []), ur_pool = bufferPool, ur_conns = [], ur_ctx = False,
      ur_phase = UStarting numCPU, ur_late = [], ur_received = [], ur_handled = [], ur_dropped = []\<rparr>"

definition udpRunOnConn :: "'s UDPServer \<Rightarrow> 's UDPRun" where
  "udpRunOnConn u =
     (let n = workersPerSocket (udp_workers u)
      in (udpRun 0 u)\<lparr>ur_conns := [newSocket n n], ur_phase := UServingConn\<rparr>)"

definition startSocket :: "nat \<Rightarrow> 's UDPRun \<Rightarrow> 's UDPRun" where
  "startSocket left s =
     (let n = udp_workers (ur_core s)
      in s\<lparr>ur_conns := ur_conns s @ [newSocket (n * 2) n], ur_phase := UStarting left\<rparr>)"

definition closeConns :: "'s UDPRun \<Rightarrow> 's UDPRun" where
  "closeConns s = s\<lparr>ur_conns := map (\<lambda>k. k\<lparr>so_open := False\<rparr>) (ur_conns s)\<rparr>"

text \<open>The goroutines the wait group counts have all returned.\<close>

definition exited :: "usocket \<Rightarrow> bool" where
  "exited k \<longleftrightarrow> so_recv k = RecvExit \<and> list_all (\<lambda>w. w = WorkExit) (so_workers k)"

definition allExited :: "'s UDPRun \<Rightarrow> bool" where
  "allExited s \<longleftrightarrow> list_all exited (ur_conns s)"

definition udpStopTimeout :: string where
  "udpStopTimeout = ''udp server: timeout waiting for goroutines to exit''"

section \<open>Steps\<close>

text \<open>The receivers and the workers; a crashed process takes no step.\<close>

inductive go_step :: "go_unicode \<Rightarrow> 's QueryHandler option \<Rightarrow> 's UDPRun \<Rightarrow> 's UDPRun \<Rightarrow> bool"
  for uc h
where
  get: "\<not> udp_crashed (ur_core s) \<Longrightarrow> i < length (ur_conns s) \<Longrightarrow> so_recv (ur_conns s ! i) = RecvTop \<Longrightarrow>
    go_step uc h s (recvGet choice i s)"
| read: "\<not> udp_crashed (ur_core s) \<Longrightarrow> i < length (ur_conns s) \<Longrightarrow> so_recv (ur_conns s ! i) = RecvRead b \<Longrightarrow>
    so_open (ur_conns s ! i) \<Longrightarrow> go_step uc h s (recvRead i b datagram peer s)"
| fail: "\<not> udp_crashed (ur_core s) \<Longrightarrow> i < length (ur_conns s) \<Longrightarrow> so_recv (ur_conns s ! i) = RecvRead b \<Longrightarrow>
    go_step uc h s (recvError i b s)"
| hand: "\<not> udp_crashed (ur_core s) \<Longrightarrow> i < length (ur_conns s) \<Longrightarrow> so_recv (ur_conns s ! i) = RecvGot p \<Longrightarrow>
    go_step uc h s (recvDispatch i p t1 t2 t3 s)"
| take: "\<not> udp_crashed (ur_core s) \<Longrightarrow> i < length (ur_conns s) \<Longrightarrow> j < length (so_workers (ur_conns s ! i)) \<Longrightarrow>
    so_workers (ur_conns s ! i) ! j = WorkIdle \<Longrightarrow> so_queue (ur_conns s ! i) = p # rest \<Longrightarrow>
    go_step uc h s (workTake i j p rest s)"
| reply: "\<not> udp_crashed (ur_core s) \<Longrightarrow> i < length (ur_conns s) \<Longrightarrow> j < length (so_workers (ur_conns s ! i)) \<Longrightarrow>
    so_workers (ur_conns s ! i) ! j = WorkBusy p \<Longrightarrow>
    late \<longrightarrow> gaveUp uc h (fst (payload (snd (ur_heap s)) p)) (ur_core s) \<Longrightarrow>
    go_step uc h s (workDone uc h i j p late s)"
| quit: "\<not> udp_crashed (ur_core s) \<Longrightarrow> i < length (ur_conns s) \<Longrightarrow> j < length (so_workers (ur_conns s ! i)) \<Longrightarrow>
    so_workers (ur_conns s ! i) ! j = WorkIdle \<Longrightarrow> ur_ctx s \<Longrightarrow>
    go_step uc h s (workerAt i j WorkExit s)"

text \<open>The surroundings: the context is cancelled, and the pool forgets a buffer.\<close>

inductive env_step :: "'s UDPRun \<Rightarrow> 's UDPRun \<Rightarrow> bool" where
  cancel: "env_step s (s\<lparr>ur_ctx := True\<rparr>)"
| forget: "i < length (pl_items (ur_pool s)) \<Longrightarrow> env_step s (s\<lparr>ur_pool := Pool_forget i (ur_pool s)\<rparr>)"

text \<open>The caller. A listen error ends \<open>Run\<close> at once, with the sockets so far closed.\<close>

inductive main_step :: "'s UDPRun \<Rightarrow> 's UDPRun \<Rightarrow> bool" where
  opened: "ur_phase s = UStarting (Suc left) \<Longrightarrow> main_step s (startSocket left s)"
| failed: "ur_phase s = UStarting (Suc left) \<Longrightarrow>
    main_step s ((closeConns s)\<lparr>ur_phase := UReturned (Some err)\<rparr>)"
| started: "ur_phase s = UStarting 0 \<Longrightarrow> main_step s (s\<lparr>ur_phase := UServing\<rparr>)"
| stop: "ur_phase s = UServing \<Longrightarrow> ur_ctx s \<Longrightarrow> main_step s ((closeConns s)\<lparr>ur_phase := UWaiting\<rparr>)"
| leave: "ur_phase s = UServingConn \<Longrightarrow> ur_ctx s \<Longrightarrow> main_step s (s\<lparr>ur_phase := UReturned None\<rparr>)"
| waited: "ur_phase s = UWaiting \<Longrightarrow> allExited s \<Longrightarrow> main_step s (s\<lparr>ur_phase := UReturned None\<rparr>)"
| expired: "ur_phase s = UWaiting \<Longrightarrow> main_step s (s\<lparr>ur_phase := UReturned (Some udpStopTimeout)\<rparr>)"

definition run_step :: "go_unicode \<Rightarrow> 's QueryHandler option \<Rightarrow> 's UDPRun \<Rightarrow> 's UDPRun \<Rightarrow> bool" where
  "run_step uc h s s' \<longleftrightarrow> go_step uc h s s' \<or> env_step s s' \<or> main_step s s'"

lemmas run_ops = recvGet_def recvRead_def recvError_def recvDispatch_def dropPacket_def queuePacket_def
  workTake_def workDone_def receiverAt_def workerAt_def putBuffer_def Let_def

section \<open>The two levels of the receiver\<close>

text \<open>What the receiver does with a packet is the same with pointers and with values.\<close>

lemma recvPacket_admit:
  "recvPacket datagram peer t1 t2 t3 u =
     (let (ok, l) = admit peer t1 t2 t3 (udp_limiter u); u1 = u\<lparr>udp_limiter := l\<rparr>
      in if ok then dispatch (take MaxIncomingDNSMessageSize datagram, peer) u1 else u1)"
  by (cases u) (auto simp: recvPacket_def admit_def Let_def split: option.split prod.split)

section \<open>The account of buffers\<close>

definition reading :: "usocket \<Rightarrow> nat multiset" where
  "reading k = (case so_recv k of RecvRead b \<Rightarrow> {#b#} | _ \<Rightarrow> {#})"

definition inHand :: "worker \<Rightarrow> upacket multiset" where
  "inHand w = (case w of WorkBusy p \<Rightarrow> {#p#} | _ \<Rightarrow> {#})"

definition packetsOf :: "usocket \<Rightarrow> upacket multiset" where
  "packetsOf k = (case so_recv k of RecvGot p \<Rightarrow> {#p#} | _ \<Rightarrow> {#}) + mset (so_queue k) +
     sum_list (map inHand (so_workers k))"

definition udpLedger :: "'s UDPRun \<Rightarrow> UDPAddr ledger" where
  "udpLedger s = \<lparr>ld_heap = ur_heap s, ld_free = mset (pl_items (ur_pool s)),
     ld_lent = sum_list (map reading (ur_conns s)), ld_held = sum_list (map packetsOf (ur_conns s)),
     ld_received = mset (ur_received s), ld_handled = mset (ur_handled s), ld_dropped = mset (ur_dropped s)\<rparr>"

lemma udpLedger_fields [simp]:
  "ld_heap (udpLedger s) = ur_heap s" "ld_free (udpLedger s) = mset (pl_items (ur_pool s))"
  "ld_received (udpLedger s) = mset (ur_received s)" "ld_handled (udpLedger s) = mset (ur_handled s)"
  "ld_dropped (udpLedger s) = mset (ur_dropped s)"
  by (simp_all add: udpLedger_def)

definition poolWf :: "'s UDPRun \<Rightarrow> bool" where
  "poolWf s \<longleftrightarrow> pl_new (ur_pool s) = allocBytes MaxIncomingDNSMessageSize"

text \<open>One socket changes: what it reads into and what packets it has, and those of the others.\<close>

lemma ledger_split:
  assumes "i < length (ur_conns s)"
  obtains R H where
    "ld_lent (udpLedger s) = R + reading (ur_conns s ! i)"
    "\<And>k. sum_list (map reading ((ur_conns s)[i := k])) = R + reading k"
    "ld_held (udpLedger s) = H + packetsOf (ur_conns s ! i)"
    "\<And>k. sum_list (map packetsOf ((ur_conns s)[i := k])) = H + packetsOf k"
  using sum_list_nth_split [OF assms, of reading] sum_list_nth_split [OF assms, of packetsOf]
  by (metis udpLedger_def ledger.select_convs(3,4))

lemma hand_split:
  assumes "j < length ws"
  obtains H where "sum_list (map inHand ws) = H + inHand (ws ! j)"
    "\<And>w. sum_list (map inHand (ws[j := w])) = H + inHand w"
  using sum_list_nth_split [OF assms, of inHand] by metis

lemma recv_account:
  assumes i: "i < length (ur_conns s)" and wf: "poolWf s"
  shows "so_recv (ur_conns s ! i) = RecvTop \<Longrightarrow>
      ledger_step MaxIncomingDNSMessageSize (udpLedger s) (udpLedger (recvGet c i s))"
    and "so_recv (ur_conns s ! i) = RecvRead b \<Longrightarrow>
      ledger_step MaxIncomingDNSMessageSize (udpLedger s) (udpLedger (recvRead i b datagram peer s))"
    and "so_recv (ur_conns s ! i) = RecvRead b \<Longrightarrow>
      ledger_step MaxIncomingDNSMessageSize (udpLedger s) (udpLedger (recvError i b s))"
    and "so_recv (ur_conns s ! i) = RecvGot p \<Longrightarrow>
      udpLedger (recvDispatch i p t1 t2 t3 s) = udpLedger s \<or>
      ledger_step MaxIncomingDNSMessageSize (udpLedger s) (udpLedger (recvDispatch i p t1 t2 t3 s))"
proof -
  obtain R H where R: "ld_lent (udpLedger s) = R + reading (ur_conns s ! i)"
    "\<And>k. sum_list (map reading ((ur_conns s)[i := k])) = R + reading k"
    and H: "ld_held (udpLedger s) = H + packetsOf (ur_conns s ! i)"
    "\<And>k. sum_list (map packetsOf ((ur_conns s)[i := k])) = H + packetsOf k"
    using ledger_split [OF i] by metis
  note L = udpLedger_def reading_def packetsOf_def
  show "ledger_step MaxIncomingDNSMessageSize (udpLedger s) (udpLedger (recvGet c i s))"
    if "so_recv (ur_conns s ! i) = RecvTop"
  proof -
    obtain b pl hp where g: "Pool_Get c (ur_pool s) (ur_heap s) = (b, pl, hp)" by (metis prod.exhaust)
    then show ?thesis
    proof (cases rule: Pool_Get_cases)
      case pooled
      have "udpLedger (recvGet c i s) =
        (udpLedger s)\<lparr>ld_free := mset (pl_items pl), ld_lent := add_mset b (ld_lent (udpLedger s))\<rparr>"
        using that g pooled R H by (simp add: L run_ops)
      with ledger_step.reuse [of "udpLedger s" b "mset (pl_items pl)"] pooled show ?thesis by simp
    next
      case constructed
      have "udpLedger (recvGet c i s) =
        (udpLedger s)\<lparr>ld_heap := hp, ld_lent := add_mset b (ld_lent (udpLedger s))\<rparr>"
        using that g constructed R H by (simp add: L run_ops)
      with ledger_step.alloc [of MaxIncomingDNSMessageSize "udpLedger s" b hp] constructed wf show ?thesis
        by (simp add: poolWf_def)
    qed
  qed
  show "ledger_step MaxIncomingDNSMessageSize (udpLedger s) (udpLedger (recvRead i b datagram peer s))"
    if "so_recv (ur_conns s ! i) = RecvRead b"
  proof -
    obtain n hp where r: "readInto b datagram (ur_heap s) = (n, hp)" by (rule prod.exhaust)
    have l: "ld_lent (udpLedger s) = add_mset b R" using that R(1) by (simp add: reading_def)
    have "udpLedger (recvRead i b datagram peer s) = (udpLedger s)\<lparr>ld_heap := hp, ld_lent := R,
      ld_held := add_mset \<lparr>bufPtr = b, pk_n = n, pk_peer = peer\<rparr> (ld_held (udpLedger s)),
      ld_received := add_mset (take MaxIncomingDNSMessageSize datagram, peer) (ld_received (udpLedger s))\<rparr>"
      using that r R H by (simp add: L run_ops)
    with ledger_step.fill [OF l, of datagram n hp] r show ?thesis by simp
  qed
  show "ledger_step MaxIncomingDNSMessageSize (udpLedger s) (udpLedger (recvError i b s))"
    if "so_recv (ur_conns s ! i) = RecvRead b"
  proof -
    have l: "ld_lent (udpLedger s) = add_mset b R" using that R(1) by (simp add: reading_def)
    have "udpLedger (recvError i b s) =
      (udpLedger s)\<lparr>ld_lent := R, ld_free := add_mset b (ld_free (udpLedger s))\<rparr>"
      using that R H by (simp add: L run_ops)
    with ledger_step.giveBack [OF l] show ?thesis by simp
  qed
  show "udpLedger (recvDispatch i p t1 t2 t3 s) = udpLedger s \<or>
      ledger_step MaxIncomingDNSMessageSize (udpLedger s) (udpLedger (recvDispatch i p t1 t2 t3 s))"
    if "so_recv (ur_conns s ! i) = RecvGot p"
  proof -
    obtain ok l where a: "admit (pk_peer p) t1 t2 t3 (udp_limiter (ur_core s)) = (ok, l)" by (rule prod.exhaust)
    let ?s1 = "s\<lparr>ur_core := (ur_core s)\<lparr>udp_limiter := l\<rparr>\<rparr>" and ?k = "ur_conns s ! i"
    have h: "ld_held (udpLedger s) = add_mset p (H + (packetsOf ?k - {#p#}))"
      using that H(1) by (simp add: packetsOf_def)
    have "udpLedger (dropPacket i p ?s1) = (udpLedger s)\<lparr>ld_held := H + (packetsOf ?k - {#p#}),
      ld_free := add_mset (bufPtr p) (ld_free (udpLedger s)),
      ld_dropped := add_mset (payload (snd (ld_heap (udpLedger s))) p) (ld_dropped (udpLedger s))\<rparr>"
      using that R H by (simp add: L run_ops)
    then have "ledger_step MaxIncomingDNSMessageSize (udpLedger s) (udpLedger (dropPacket i p ?s1))"
      using ledger_step.drop [OF h] by simp
    moreover have "udpLedger (queuePacket i p ?s1) = udpLedger s" using that R H by (simp add: L run_ops)
    ultimately show ?thesis by (simp add: recvDispatch_def Let_def a)
  qed
qed

lemma work_account:
  assumes i: "i < length (ur_conns s)" and j: "j < length (so_workers (ur_conns s ! i))"
  shows "so_workers (ur_conns s ! i) ! j = WorkIdle \<Longrightarrow> so_queue (ur_conns s ! i) = p # rest \<Longrightarrow>
      udpLedger (workTake i j p rest s) = udpLedger s"
    and "so_workers (ur_conns s ! i) ! j = WorkBusy p \<Longrightarrow>
      ledger_step MaxIncomingDNSMessageSize (udpLedger s) (udpLedger (workDone uc h i j p late s))"
    and "so_workers (ur_conns s ! i) ! j = WorkIdle \<Longrightarrow> udpLedger (workerAt i j WorkExit s) = udpLedger s"
proof -
  let ?k = "ur_conns s ! i"
  obtain R H where R: "ld_lent (udpLedger s) = R + reading ?k"
    "\<And>k. sum_list (map reading ((ur_conns s)[i := k])) = R + reading k"
    and H: "ld_held (udpLedger s) = H + packetsOf ?k"
    "\<And>k. sum_list (map packetsOf ((ur_conns s)[i := k])) = H + packetsOf k"
    using ledger_split [OF i] by metis
  obtain W where W: "sum_list (map inHand (so_workers ?k)) = W + inHand (so_workers ?k ! j)"
    "\<And>w. sum_list (map inHand ((so_workers ?k)[j := w])) = W + inHand w"
    using hand_split [OF j] by metis
  note L = udpLedger_def reading_def packetsOf_def inHand_def
  show "udpLedger (workTake i j p rest s) = udpLedger s"
    if "so_workers ?k ! j = WorkIdle" "so_queue ?k = p # rest"
    using that R H W by (simp add: L run_ops)
  show "udpLedger (workerAt i j WorkExit s) = udpLedger s" if "so_workers ?k ! j = WorkIdle"
    using that R H W by (simp add: L run_ops)
  show "ledger_step MaxIncomingDNSMessageSize (udpLedger s) (udpLedger (workDone uc h i j p late s))"
    if "so_workers ?k ! j = WorkBusy p"
  proof -
    have h: "ld_held (udpLedger s) = add_mset p (H + (packetsOf ?k - {#p#}))"
      using that H(1) W(1) by (simp add: packetsOf_def inHand_def)
    have "udpLedger (workDone uc h i j p late s) = (udpLedger s)\<lparr>ld_held := H + (packetsOf ?k - {#p#}),
      ld_free := add_mset (bufPtr p) (ld_free (udpLedger s)),
      ld_handled := add_mset (payload (snd (ld_heap (udpLedger s))) p) (ld_handled (udpLedger s))\<rparr>"
      using that R H W by (simp add: L run_ops)
    with ledger_step.handle [OF h] show ?thesis by simp
  qed
qed

lemma go_account:
  "go_step uc h s s' \<Longrightarrow> poolWf s \<Longrightarrow>
     udpLedger s' = udpLedger s \<or> ledger_step MaxIncomingDNSMessageSize (udpLedger s) (udpLedger s')"
  by (induction rule: go_step.induct) (simp_all add: recv_account work_account)

lemma env_account:
  "env_step s s' \<Longrightarrow> udpLedger s' = udpLedger s \<or> ledger_step MaxIncomingDNSMessageSize (udpLedger s) (udpLedger s')"
proof (induction rule: env_step.induct)
  case (forget i s)
  have "udpLedger (s\<lparr>ur_pool := Pool_forget i (ur_pool s)\<rparr>) =
    (udpLedger s)\<lparr>ld_free := mset (pl_items (Pool_forget i (ur_pool s)))\<rparr>"
    by (simp add: udpLedger_def)
  with ledger_step.forget [of "udpLedger s" _ "mset (pl_items (Pool_forget i (ur_pool s)))"]
    mset_Pool_forget [OF forget] show ?case by (metis udpLedger_fields(2))
qed (simp add: udpLedger_def)

lemma closeConns_account:
  "map reading (ur_conns (closeConns s)) = map reading (ur_conns s)"
  "map packetsOf (ur_conns (closeConns s)) = map packetsOf (ur_conns s)"
  by (simp_all add: closeConns_def reading_def packetsOf_def cong: receiver.case_cong)

lemma newSocket_account: "reading (newSocket c n) = {#}" "packetsOf (newSocket c n) = {#}"
proof -
  have "sum_list (replicate m {#}) = {#}" for m :: nat by (induction m) simp_all
  then show "packetsOf (newSocket c n) = {#}" by (simp add: newSocket_def packetsOf_def inHand_def)
qed (simp add: newSocket_def reading_def)

lemma main_account: "main_step s s' \<Longrightarrow> udpLedger s' = udpLedger s"
proof (induction rule: main_step.induct)
  case (opened s left)
  show ?case by (simp add: udpLedger_def startSocket_def Let_def newSocket_account)
next
  case (failed s left err)
  show ?case by (simp add: udpLedger_def closeConns_account) (simp add: closeConns_def)
next
  case (stop s)
  show ?case by (simp add: udpLedger_def closeConns_account) (simp add: closeConns_def)
qed (simp_all add: udpLedger_def)

lemma poolWf_go: "go_step uc h s s' \<Longrightarrow> poolWf s \<Longrightarrow> poolWf s'"
proof (induction rule: go_step.induct)
  case (get s i c)
  obtain b pl hp where g: "Pool_Get c (ur_pool s) (ur_heap s) = (b, pl, hp)" by (metis prod.exhaust)
  then have "pl_new pl = pl_new (ur_pool s)" by (cases rule: Pool_Get_cases) simp_all
  with get g show ?case by (simp add: poolWf_def run_ops)
qed (auto simp: poolWf_def run_ops split: prod.splits)

lemma poolWf_run: "run_step uc h s s' \<Longrightarrow> poolWf s \<Longrightarrow> poolWf s'"
  unfolding run_step_def
proof (elim disjE)
  assume "go_step uc h s s'" "poolWf s"
  then show ?thesis by (rule poolWf_go)
qed (auto elim!: env_step.cases main_step.cases simp: poolWf_def startSocket_def closeConns_def Let_def)

interpretation udp_buffers: buffer_user MaxIncomingDNSMessageSize "run_step uc h" poolWf udpLedger for uc h
  by unfold_locales (auto intro: poolWf_run dest: go_account env_account main_account simp: run_step_def)

section \<open>Safety\<close>

definition closedConns :: "'s UDPRun \<Rightarrow> bool" where
  "closedConns s \<longleftrightarrow> (\<forall>k \<in> set (ur_conns s). \<not> so_open k)"

text \<open>The channel holds at most its capacity, and no worker returns before the context is done.\<close>

definition socketOK :: "bool \<Rightarrow> usocket \<Rightarrow> bool" where
  "socketOK ctx k \<longleftrightarrow> int (length (so_queue k)) \<le> so_cap k \<and> (WorkExit \<in> set (so_workers k) \<longrightarrow> ctx)"

definition answered :: "'s UDPServer \<Rightarrow> (bytes \<times> UDPAddr) list" where
  "answered u = map (\<lambda>(peer, req, out). (req, peer)) (udp_sent u)"

definition runInv :: "go_unicode \<Rightarrow> 'w hydra UDPRun \<Rightarrow> bool" where
  "runInv uc s \<longleftrightarrow> udpInv uc (ur_core s) \<and> 0 \<le> udp_workers (ur_core s) \<and>
     mset (answered (ur_core s)) \<subseteq># mset (ur_handled s) \<and>
     (\<forall>k \<in> set (ur_conns s). socketOK (ur_ctx s) k) \<and>
     (ur_phase s = UWaiting \<longrightarrow> ur_ctx s \<and> closedConns s) \<and>
     (\<forall>e. ur_phase s = UReturned (Some e) \<longrightarrow> closedConns s) \<and>
     (ur_phase s = UReturned None \<longrightarrow> ur_ctx s)"

lemma set_update_all:
  assumes "\<forall>k \<in> set xs. P k" "i < length xs" "P (xs ! i) \<Longrightarrow> P x"
  shows "\<forall>k \<in> set (xs[i := x]). P k"
  using assms set_update_subset_insert [of xs i x] by (metis insert_iff nth_mem subset_iff)

lemma handlePacket_frame:
  "udp_queue (handlePacket uc h pkt u) = udp_queue u" "udp_workers (handlePacket uc h pkt u) = udp_workers u"
  "udp_limiter (handlePacket uc h pkt u) = udp_limiter u"
  by (auto simp: handlePacket_def split: option.split prod.split)

lemma answered_handlePacket:
  "answered (handlePacket uc h pkt u) = answered u \<or> answered (handlePacket uc h pkt u) = answered u @ [pkt]"
  by (cases pkt) (auto simp: handlePacket_def answered_def split: option.split prod.split)

lemma admit_inv:
  "\<forall>l. r = Some l \<longrightarrow> limiterInv l \<Longrightarrow> admit peer t1 t2 t3 r = (ok, r') \<Longrightarrow> \<forall>l. r' = Some l \<longrightarrow> limiterInv l"
  by (cases "netipAddrFromUDPAddr (Some peer)"; cases r)
    (auto simp: admit_def elim!: AllowAddr_inv [THEN spec, THEN mp, rotated])

text \<open>A goroutine step changes one socket, and neither the context nor the caller's phase.\<close>

definition changesOne :: "'s UDPRun \<Rightarrow> 's UDPRun \<Rightarrow> bool" where
  "changesOne s s' \<longleftrightarrow> ur_ctx s' = ur_ctx s \<and> ur_phase s' = ur_phase s \<and>
     (\<exists>i k. i < length (ur_conns s) \<and> ur_conns s' = (ur_conns s)[i := k] \<and>
        (socketOK (ur_ctx s) (ur_conns s ! i) \<longrightarrow> socketOK (ur_ctx s) k) \<and>
        so_open k = so_open (ur_conns s ! i))"

lemma changesOneI:
  "i < length (ur_conns s) \<Longrightarrow> ur_conns s' = (ur_conns s)[i := k] \<Longrightarrow> ur_ctx s' = ur_ctx s \<Longrightarrow>
   ur_phase s' = ur_phase s \<Longrightarrow> so_open k = so_open (ur_conns s ! i) \<Longrightarrow>
   (socketOK (ur_ctx s) (ur_conns s ! i) \<Longrightarrow> socketOK (ur_ctx s) k) \<Longrightarrow> changesOne s s'"
  unfolding changesOne_def by blast

lemma socketOK_worker:
  "socketOK ctx k \<Longrightarrow> (w = WorkExit \<longrightarrow> ctx) \<Longrightarrow> socketOK ctx (k\<lparr>so_workers := (so_workers k)[j := w]\<rparr>)"
  using set_update_subset_insert [of "so_workers k" j w] by (auto simp: socketOK_def)

lemma go_changesOne: "go_step uc h s s' \<Longrightarrow> changesOne s s'"
proof (induction rule: go_step.induct)
  case (get s i c)
  then show ?case
    by (intro changesOneI [of i s _ "ur_conns (recvGet c i s) ! i"]) (auto simp: run_ops socketOK_def split: prod.split)
next
  case (read s i b datagram peer)
  then show ?case
    by (intro changesOneI [of i s _ "ur_conns (recvRead i b datagram peer s) ! i"])
      (auto simp: run_ops socketOK_def split: prod.split)
next
  case (fail s i b)
  then show ?case
    by (intro changesOneI [of i s _ "ur_conns (recvError i b s) ! i"]) (auto simp: run_ops socketOK_def)
next
  case (hand s i p t1 t2 t3)
  then show ?case
    by (intro changesOneI [of i s _ "ur_conns (recvDispatch i p t1 t2 t3 s) ! i"])
      (auto simp: run_ops socketOK_def split: prod.split)
next
  case (take s i j p rest)
  then show ?case
    using socketOK_worker [of "ur_ctx s" "(ur_conns s ! i)\<lparr>so_queue := rest\<rparr>" "WorkBusy p" j]
    by (intro changesOneI [of i s _ "(ur_conns s ! i)\<lparr>so_queue := rest,
         so_workers := (so_workers (ur_conns s ! i))[j := WorkBusy p]\<rparr>"])
      (auto simp: run_ops socketOK_def)
next
  case (reply s i j p late)
  then show ?case
    using socketOK_worker [of "ur_ctx s" "ur_conns s ! i" WorkIdle j]
    by (intro changesOneI [of i s _ "(ur_conns s ! i)\<lparr>so_workers := (so_workers (ur_conns s ! i))[j := WorkIdle]\<rparr>"])
      (auto simp: run_ops)
next
  case (quit s i j)
  then show ?case
    using socketOK_worker [of "ur_ctx s" "ur_conns s ! i" WorkExit j]
    by (intro changesOneI [of i s _ "(ur_conns s ! i)\<lparr>so_workers := (so_workers (ur_conns s ! i))[j := WorkExit]\<rparr>"])
      (auto simp: run_ops)
qed

lemma changesOne_sockets:
  assumes "changesOne s s'"
  shows "\<forall>k \<in> set (ur_conns s). socketOK (ur_ctx s) k \<Longrightarrow> \<forall>k \<in> set (ur_conns s'). socketOK (ur_ctx s') k"
    and "closedConns s \<Longrightarrow> closedConns s'"
proof -
  obtain i k where k: "i < length (ur_conns s)" "ur_conns s' = (ur_conns s)[i := k]" "ur_ctx s' = ur_ctx s"
    "socketOK (ur_ctx s) (ur_conns s ! i) \<longrightarrow> socketOK (ur_ctx s) k" "so_open k = so_open (ur_conns s ! i)"
    using assms unfolding changesOne_def by blast
  show "\<forall>k \<in> set (ur_conns s'). socketOK (ur_ctx s') k" if "\<forall>k \<in> set (ur_conns s). socketOK (ur_ctx s) k"
    unfolding k(2,3) by (rule set_update_all [OF that k(1)]) (use k(4) in blast)
  show "closedConns s'" if "closedConns s"
    unfolding closedConns_def k(2)
    by (rule set_update_all [OF _ k(1)]) (use that k(5) in \<open>simp_all add: closedConns_def\<close>)
qed

text \<open>The part of the state the goroutines share.\<close>

definition coreOK :: "go_unicode \<Rightarrow> 'w hydra UDPRun \<Rightarrow> bool" where
  "coreOK uc s \<longleftrightarrow> udpInv uc (ur_core s) \<and> 0 \<le> udp_workers (ur_core s) \<and>
     mset (answered (ur_core s)) \<subseteq># mset (ur_handled s)"

lemma coreOK_go:
  "go_step uc h s s' \<Longrightarrow> h = Some (hydraHandler uc env sel) \<Longrightarrow> coreOK uc s \<Longrightarrow> coreOK uc s'"
proof (induction rule: go_step.induct)
  case (hand s i p t1 t2 t3)
  obtain ok l where a: "admit (pk_peer p) t1 t2 t3 (udp_limiter (ur_core s)) = (ok, l)" by (rule prod.exhaust)
  have "\<forall>l. udp_limiter (ur_core s) = Some l \<longrightarrow> limiterInv l" using hand by (simp add: coreOK_def udpInv_def)
  from udpInv_limiter [OF _ admit_inv [OF this a]] hand show ?case
    by (auto simp: coreOK_def run_ops a answered_def)
next
  case (reply s i j p late)
  let ?pkt = "payload (snd (ur_heap s)) p"
  have "mset (answered (handlePacket uc h ?pkt (ur_core s))) \<subseteq># add_mset ?pkt (mset (ur_handled s))"
    using answered_handlePacket [of uc h ?pkt "ur_core s"] reply(7)
    by (auto simp: coreOK_def subset_mset.add_increasing2 intro: subset_mset.order_trans)
  with reply udpInv_handlePacket [of uc "ur_core s" env sel ?pkt] show ?case
    by (simp add: coreOK_def run_ops handlePacket_frame)
qed (auto simp: coreOK_def run_ops split: prod.split)

lemma runInv_alt:
  "runInv uc s \<longleftrightarrow> coreOK uc s \<and> (\<forall>k \<in> set (ur_conns s). socketOK (ur_ctx s) k) \<and>
     (ur_phase s = UWaiting \<longrightarrow> ur_ctx s \<and> closedConns s) \<and>
     (\<forall>e. ur_phase s = UReturned (Some e) \<longrightarrow> closedConns s) \<and>
     (ur_phase s = UReturned None \<longrightarrow> ur_ctx s)"
  by (auto simp: runInv_def coreOK_def)

lemma runInv_go:
  assumes "go_step uc (Some (hydraHandler uc env sel)) s s'" "runInv uc s" shows "runInv uc s'"
proof -
  note c = go_changesOne [OF assms(1)]
  then have "ur_ctx s' = ur_ctx s" "ur_phase s' = ur_phase s" by (auto simp: changesOne_def)
  with changesOne_sockets [OF c] coreOK_go [OF assms(1) refl] assms(2) show ?thesis by (auto simp: runInv_alt)
qed

lemma runInv_env: "env_step s s' \<Longrightarrow> runInv uc s \<Longrightarrow> runInv uc s'"
  by (induction rule: env_step.induct) (auto simp: runInv_def socketOK_def closedConns_def)

lemma runInv_main: "main_step s s' \<Longrightarrow> runInv uc s \<Longrightarrow> runInv uc s'"
proof (induction rule: main_step.induct)
  case (opened s left)
  then have "socketOK c (newSocket (udp_workers (ur_core s) * 2) n)" for c n
    by (simp add: runInv_def socketOK_def newSocket_def)
  with opened show ?case by (auto simp: runInv_def startSocket_def Let_def)
qed (auto simp: runInv_def socketOK_def closedConns_def closeConns_def)

lemma runInv_reachable:
  assumes "(run_step uc (Some (hydraHandler uc env sel)))\<^sup>*\<^sup>* s s'" "runInv uc s" shows "runInv uc s'"
  using assms(1) by (induction rule: rtranclp_induct)
    (auto simp: assms(2) run_step_def intro: runInv_go runInv_env runInv_main)

section \<open>Shutdown\<close>

definition stopping :: "go_unicode \<Rightarrow> 'w hydra UDPRun \<Rightarrow> bool" where
  "stopping uc s \<longleftrightarrow> runInv uc s \<and> ur_ctx s \<and> closedConns s \<and> ur_phase s \<in> insert UWaiting (range UReturned)"

fun receiverWork :: "receiver \<Rightarrow> nat" where
  "receiverWork RecvTop = 2"
| "receiverWork (RecvRead b) = 1"
| "receiverWork (RecvGot p) = 5"
| "receiverWork RecvExit = 0"

fun workerWork :: "worker \<Rightarrow> nat" where
  "workerWork WorkIdle = 1"
| "workerWork (WorkBusy p) = 2"
| "workerWork WorkExit = 0"

definition socketWork :: "usocket \<Rightarrow> nat" where
  "socketWork k = receiverWork (so_recv k) + 2 * length (so_queue k) + sum_list (map workerWork (so_workers k))"

definition runWork :: "'s UDPRun \<Rightarrow> nat" where
  "runWork s = sum_list (map socketWork (ur_conns s))"

lemma runWork_less:
  assumes "i < length (ur_conns s)" "ur_conns s' = (ur_conns s)[i := k]" "socketWork k < socketWork (ur_conns s ! i)"
  shows "runWork s' < runWork s"
proof -
  obtain rest where "sum_list (map socketWork (ur_conns s)) = rest + socketWork (ur_conns s ! i)"
    "\<And>k. sum_list (map socketWork ((ur_conns s)[i := k])) = rest + socketWork k"
    using sum_list_nth_split [OF assms(1)] by metis
  with assms show ?thesis by (simp add: runWork_def)
qed

lemma workers_less:
  assumes "j < length ws" "workerWork w < workerWork (ws ! j) + d"
  shows "sum_list (map workerWork (ws[j := w])) < sum_list (map workerWork ws) + d"
proof -
  obtain rest where "sum_list (map workerWork ws) = rest + workerWork (ws ! j)"
    "\<And>w. sum_list (map workerWork (ws[j := w])) = rest + workerWork w"
    using sum_list_nth_split [OF assms(1)] by metis
  with assms(2) show ?thesis by simp
qed

lemma go_work: "go_step uc h s s' \<Longrightarrow> closedConns s \<Longrightarrow> runWork s' < runWork s"
proof (induction rule: go_step.induct)
  case (get s i c)
  then show ?case
    by (intro runWork_less [of i s _ "ur_conns (recvGet c i s) ! i"]) (auto simp: run_ops socketWork_def split: prod.split)
next
  case (fail s i b)
  then show ?case
    by (intro runWork_less [of i s _ "ur_conns (recvError i b s) ! i"]) (auto simp: run_ops socketWork_def)
next
  case (hand s i p t1 t2 t3)
  then show ?case
    by (intro runWork_less [of i s _ "ur_conns (recvDispatch i p t1 t2 t3 s) ! i"])
      (auto simp: run_ops socketWork_def split: prod.split)
next
  case (take s i j p rest)
  with workers_less [of j "so_workers (ur_conns s ! i)" "WorkBusy p" 2] show ?case
    by (intro runWork_less [of i s _ "ur_conns (workTake i j p rest s) ! i"]) (auto simp: run_ops socketWork_def)
next
  case (reply s i j p late)
  with workers_less [of j "so_workers (ur_conns s ! i)" WorkIdle 0] show ?case
    by (intro runWork_less [of i s _ "ur_conns (workDone uc h i j p late s) ! i"]) (auto simp: run_ops socketWork_def)
next
  case (quit s i j)
  with workers_less [of j "so_workers (ur_conns s ! i)" WorkExit 0] show ?case
    by (intro runWork_less [of i s _ "ur_conns (workerAt i j WorkExit s) ! i"]) (auto simp: run_ops socketWork_def)
qed (simp add: closedConns_def)

lemma goroutine_can_move:
  assumes "\<not> udp_crashed (ur_core s)" "ur_ctx s" "\<not> allExited s"
  shows "\<exists>s'. go_step uc h s s'"
proof -
  obtain i where i: "i < length (ur_conns s)" and live: "\<not> exited (ur_conns s ! i)"
    using assms(3) by (auto simp: allExited_def list_all_length)
  show ?thesis
  proof (cases "so_recv (ur_conns s ! i)")
    case RecvExit
    with live obtain j where j: "j < length (so_workers (ur_conns s ! i))" "so_workers (ur_conns s ! i) ! j \<noteq> WorkExit"
      by (auto simp: exited_def list_all_length)
    then show ?thesis
    proof (cases "so_workers (ur_conns s ! i) ! j")
      case WorkIdle
      then show ?thesis using go_step.quit [OF assms(1) i j(1) _ assms(2)] by blast
    next
      case (WorkBusy p)
      then show ?thesis using go_step.reply [OF assms(1) i j(1), where late = False] by blast
    qed simp
  qed (use assms(1) i go_step.get go_step.fail go_step.hand in blast)+
qed

lemma stopping_go:
  assumes "go_step uc (Some (hydraHandler uc env sel)) s s'" "stopping uc s" shows "stopping uc s'"
proof -
  note c = go_changesOne [OF assms(1)]
  then have "ur_ctx s' = ur_ctx s" "ur_phase s' = ur_phase s" by (auto simp: changesOne_def)
  with changesOne_sockets(2) [OF c] runInv_go [OF assms(1)] assms(2) show ?thesis by (simp add: stopping_def)
qed

lemma stopping_quiet:
  assumes "env_step s s' \<or> main_step s s'" "stopping uc s" shows "stopping uc s' \<and> runWork s' = runWork s"
proof -
  have "runInv uc s'" using assms by (auto simp: stopping_def intro: runInv_env runInv_main)
  with assms show ?thesis
    by (auto simp: stopping_def closedConns_def runWork_def elim!: env_step.cases main_step.cases)
qed

lemma go_phase: "(go_step uc h)\<^sup>*\<^sup>* s s' \<Longrightarrow> ur_phase s' = ur_phase s"
  by (induction rule: rtranclp_induct) (auto dest!: go_changesOne simp: changesOne_def)

interpretation udp_stop: stoppable "go_step uc (Some (hydraHandler uc env sel))" "\<lambda>s s'. env_step s s' \<or> main_step s s'"
  "stopping uc" runWork allExited for uc env sel
proof unfold_locales
  show "runWork s' < runWork s" if "stopping uc s" "go_step uc (Some (hydraHandler uc env sel)) s s'" for s s'
    using go_work [OF that(2)] that(1) by (simp add: stopping_def)
  show "\<exists>s'. go_step uc (Some (hydraHandler uc env sel)) s s'" if "stopping uc s" "\<not> allExited s" for s
    using goroutine_can_move that by (auto simp: stopping_def runInv_def udpInv_def)
  show "stopping uc s'" if "stopping uc s" "env_step s s' \<or> main_step s s'" for s s'
    using stopping_quiet that by blast
  show "runWork s' \<le> runWork s" if "stopping uc s" "env_step s s' \<or> main_step s s'" for s s'
    using stopping_quiet [OF that(2,1)] by simp
qed (rule stopping_go)

section \<open>The start\<close>

lemma udpRun_inv:
  assumes "hydraInv uc (fst (udp_sys u))" "udp_queue u = []" "udp_sent u = []" "\<not> udp_crashed u"
    "\<forall>l. udp_limiter u = Some l \<longrightarrow> limiterInv l"
  shows "runInv uc (udpRun n u)" "runInv uc (udpRunOnConn u)"
proof -
  have "0 < workersPerSocket w" for w by (simp add: workersPerSocket_def DefaultWorkersPerSocket_def)
  with assms show "runInv uc (udpRun n u)" "runInv uc (udpRunOnConn u)"
    by (auto simp: runInv_def udpRun_def udpRunOnConn_def Let_def udpInv_def queueCap_def answered_def
        socketOK_def newSocket_def less_imp_le)
qed

lemma udpRun_ledger:
  "ledgerInv MaxIncomingDNSMessageSize (udpLedger (udpRun n u))" "poolWf (udpRun n u)"
  "ledgerInv MaxIncomingDNSMessageSize (udpLedger (udpRunOnConn u))" "poolWf (udpRunOnConn u)"
  by (simp_all add: ledgerInv_def exclusive_def sized_def conserved_def places_def udpLedger_def udpRun_def
      udpRunOnConn_def bufferPool_def poolWf_def newSocket_account Let_def)

text \<open>Where a buffer is: in the pool, under a receiver, in a channel, or in a worker's hands.\<close>

definition bufferPlaces :: "'s UDPRun \<Rightarrow> nat multiset" where
  "bufferPlaces s = mset (pl_items (ur_pool s)) + sum_list (map reading (ur_conns s)) +
     image_mset bufPtr (sum_list (map packetsOf (ur_conns s)))"

definition pendingPackets :: "'s UDPRun \<Rightarrow> (bytes \<times> UDPAddr) multiset" where
  "pendingPackets s = image_mset (payload (snd (ur_heap s))) (sum_list (map packetsOf (ur_conns s)))"

lemma ledger_account:
  assumes "ledgerInv MaxIncomingDNSMessageSize (udpLedger s)"
  shows "count (bufferPlaces s) b \<le> 1"
    "mset (ur_received s) = mset (ur_handled s) + mset (ur_dropped s) + pendingPackets s"
  using assms by (simp_all add: ledgerInv_def exclusive_def places_def conserved_def bufferPlaces_def pendingPackets_def
      udpLedger_def)

section \<open>A resolver that is late\<close>

text \<open>
  The run behind the race: a request is received and given up, its buffer returns to the
  pool, and the next datagram is read into it before the resolver has copied the request.
\<close>

definition lateRun :: "go_unicode \<Rightarrow> 's QueryHandler option \<Rightarrow> bytes \<Rightarrow> bytes \<Rightarrow> UDPAddr \<Rightarrow> 's UDPRun \<Rightarrow> 's UDPRun" where
  "lateRun uc h req other peer s =
     (let p = \<lparr>bufPtr = 0, pk_n = length req, pk_peer = peer\<rparr>
      in recvRead 0 0 other peer
          (recvGet (Some 0) 0
            (workDone uc h 0 0 p True
              (workTake 0 0 p []
                (recvDispatch 0 p 0 0 0
                  (recvRead 0 0 req peer (recvGet None 0 s)))))))"

lemma gaveUp_not_crashed:
  "gaveUp uc h req u \<Longrightarrow> udp_crashed (handlePacket uc h (req, peer) u) = udp_crashed u"
  by (auto simp: gaveUp_def handlePacket_def split: option.splits prod.splits)

lemma lateRun_reached:
  fixes peer :: UDPAddr
  assumes u: "udp_limiter u = None" "\<not> udp_crashed u" and g: "gaveUp uc h req u"
    and len: "length req \<le> length other" "length other \<le> MaxIncomingDNSMessageSize"
  defines "s \<equiv> lateRun uc h req other peer (udpRunOnConn u)"
  shows "(run_step uc h)\<^sup>*\<^sup>* (udpRunOnConn u) s"
    and "(\<lparr>bufPtr = 0, pk_n = length req, pk_peer = peer\<rparr>, req) \<in> set (ur_late s)"
    and "take (length req) (snd (ur_heap s) 0) = take (length req) other"
proof -
  define n where "n = workersPerSocket (udp_workers u)"
  define p where "p = \<lparr>bufPtr = 0, pk_n = length req, pk_peer = peer\<rparr>"
  have n: "0 < n" by (simp add: n_def workersPerSocket_def DefaultWorkersPerSocket_def)
  define s0 where "s0 = udpRunOnConn u"
  define s1 where "s1 = recvGet None 0 s0"
  define s2 where "s2 = recvRead 0 0 req peer s1"
  define s3 where "s3 = recvDispatch 0 p 0 0 0 s2"
  define s4 where "s4 = workTake 0 0 p [] s3"
  define s5 where "s5 = workDone uc h 0 0 p True s4"
  define s6 where "s6 = recvGet (Some 0) 0 s5"
  let ?u = "u\<lparr>udp_workers := n\<rparr>" and ?ws = "replicate (nat n) WorkIdle"
  let ?k = "\<lambda>r q ws. \<lparr>so_open = True, so_cap = n, so_recv = r, so_queue = q, so_workers = ws\<rparr>"
  have f0: "ur_core s0 = ?u" "ur_conns s0 = [?k RecvTop [] ?ws]" "ur_heap s0 = (0, \<lambda>_. [])" "ur_pool s0 = bufferPool"
    by (simp_all add: s0_def udpRunOnConn_def udpRun_def newSocket_def Let_def n_def)
  have f1: "ur_core s1 = ?u" "ur_conns s1 = [?k (RecvRead 0) [] ?ws]" "ur_pool s1 = bufferPool"
    "ur_heap s1 = (1, (\<lambda>_. [])(0 := replicate MaxIncomingDNSMessageSize 0))"
    by (simp_all add: s1_def run_ops f0 Pool_Get_def bufferPool_def allocBytes_def)
  have f2: "ur_core s2 = ?u" "ur_conns s2 = [?k (RecvGot p) [] ?ws]" "ur_pool s2 = bufferPool" "fst (ur_heap s2) = 1"
    "length (snd (ur_heap s2) 0) = MaxIncomingDNSMessageSize" "take (length req) (snd (ur_heap s2) 0) = req"
    using len by (simp_all add: s2_def run_ops f1 readInto_def p_def)
  have a: "admit peer 0 0 0 None = (True, None)" by (simp add: admit_def)
  have f3: "ur_core s3 = ?u" "ur_conns s3 = [?k RecvTop [p] ?ws]" "ur_pool s3 = bufferPool" "ur_heap s3 = ur_heap s2"
    using n u(1) by (simp_all add: s3_def run_ops f2 a p_def)
  have f4: "ur_core s4 = ?u" "ur_conns s4 = [?k RecvTop [] (?ws[0 := WorkBusy p])]" "ur_pool s4 = bufferPool"
    "ur_heap s4 = ur_heap s2"
    by (simp_all add: s4_def run_ops f3)
  have pay: "payload (snd (ur_heap s2)) p = (req, peer)" "bufPtr p = 0" by (simp_all add: payload_def p_def f2)
  have g': "gaveUp uc h req ?u" using g by (cases h) (simp_all add: gaveUp_def)
  have f5: "\<not> udp_crashed (ur_core s5)" "ur_conns s5 = [?k RecvTop [] (?ws[0 := WorkIdle])]"
    "ur_pool s5 = Pool_Put 0 bufferPool" "ur_heap s5 = ur_heap s2" "(p, req) \<in> set (ur_late s5)"
    using u(2) gaveUp_not_crashed [OF g', of peer] by (simp_all add: s5_def run_ops f4 pay)
  have f6: "\<not> udp_crashed (ur_core s6)" "ur_conns s6 = [?k (RecvRead 0) [] (?ws[0 := WorkIdle])]"
    "ur_heap s6 = ur_heap s2" "(p, req) \<in> set (ur_late s6)"
    using f5 by (simp_all add: s6_def run_ops Pool_Get_def)
  have s7: "s = recvRead 0 0 other peer s6"
    by (simp add: s_def lateRun_def Let_def s0_def s1_def s2_def s3_def s4_def s5_def s6_def p_def)
  note c = u(2) n g'
  have "go_step uc h s0 s1" unfolding s1_def by (rule go_step.get) (use c in \<open>simp_all add: f0\<close>)
  moreover have "go_step uc h s1 s2" unfolding s2_def by (rule go_step.read) (use c in \<open>simp_all add: f1\<close>)
  moreover have "go_step uc h s2 s3" unfolding s3_def by (rule go_step.hand) (use c in \<open>simp_all add: f2\<close>)
  moreover have "go_step uc h s3 s4" unfolding s4_def by (rule go_step.take) (use c in \<open>simp_all add: f3\<close>)
  moreover have "go_step uc h s4 s5" unfolding s5_def by (rule go_step.reply) (use c in \<open>simp_all add: f4 pay\<close>)
  moreover have "go_step uc h s5 s6" unfolding s6_def by (rule go_step.get) (use c in \<open>simp_all add: f5\<close>)
  moreover have "go_step uc h s6 s" unfolding s7 by (rule go_step.read) (use c in \<open>simp_all add: f6\<close>)
  ultimately have "(go_step uc h)\<^sup>*\<^sup>* s0 s" by (meson r_into_rtranclp rtranclp.rtrancl_into_rtrancl)
  then show "(run_step uc h)\<^sup>*\<^sup>* (udpRunOnConn u) s"
    unfolding s0_def by (rule rtranclp_mono [THEN predicate2D, rotated]) (auto simp: run_step_def)
  show "(\<lparr>bufPtr = 0, pk_n = length req, pk_peer = peer\<rparr>, req) \<in> set (ur_late s)"
    using f6(4) by (simp add: s7 run_ops p_def split: prod.split)
  show "take (length req) (snd (ur_heap s) 0) = take (length req) other"
    using len f2(4,5) by (cases "ur_heap s2") (simp add: s7 run_ops readInto_def f6)
qed

end
