(* ===== verification/Tcp_Runtime.thy ===== *)
theory Tcp_Runtime
  imports Tcp_Server Shutdown "HOL-Library.Multiset"
begin

text \<open>
  \<open>internal/server/tcp_server.go\<close> goroutine by goroutine: \<open>Run\<close> opens one listener per
  CPU, each with its accept loop; every accepted connection has a handler of its own;
  \<open>Stop\<close> closes the listeners and waits five seconds for all of them. A connection carries
  what its client will send, whether the client then closes it, and its two deadlines; the
  bytes arrive at any moment, and a blocked read ends at its deadline, to which the clock
  then has advanced. \<open>tn_ip\<close> is the key \<open>remoteIPString\<close> gives for the peer, any string
  here. Whoever waits is taken to run as soon as what it waits for happens.
\<close>

section \<open>State\<close>

definition tcpReadTimeout :: duration where "tcpReadTimeout = 10 * Second"
definition tcpConnectionIdleTimeout :: duration where "tcpConnectionIdleTimeout = 30 * Second"

text \<open>
  A handler before its first statement, at the head of its loop, reading the length,
  reading a body of known length, with a message, or returned.
\<close>

datatype conn_state = ConnStart | ConnCheck | ConnLen | ConnBody nat | ConnServe bytes | ConnClosed

record tconn =
  tn_ip :: string
  tn_client :: bytes
  tn_eof :: bool
  tn_left :: nat
  tn_state :: conn_state
  tn_readDeadline :: instant
  tn_writeDeadline :: instant
  tn_out :: "(bytes \<times> bytes) list"

record listener =
  ln_open :: bool
  ln_accepting :: bool

datatype tcp_phase = TStarting nat | TServing | TWaiting instant | TReturned "string option"

record 's TCPRun =
  tr_sys :: "'s \<times> DNSStats option"
  tr_crashed :: bool
  tr_counts :: connCounts
  tr_listeners :: "listener list"
  tr_conns :: "tconn list"
  tr_ctx :: bool
  tr_now :: instant
  tr_phase :: tcp_phase

section \<open>Accept loop\<close>

definition newConn :: "string \<Rightarrow> bytes \<Rightarrow> bool \<Rightarrow> tconn" where
  "newConn ip client eof = \<lparr>tn_ip = ip, tn_client = client, tn_eof = eof, tn_left = maxQueriesPerConnection,
     tn_state = ConnStart, tn_readDeadline = 0, tn_writeDeadline = 0, tn_out = []\<rparr>"

definition acceptConn :: "string \<Rightarrow> bytes \<Rightarrow> bool \<Rightarrow> 's TCPRun \<Rightarrow> 's TCPRun" where
  "acceptConn ip client eof s =
     (let (ok, m) = tryAcquireConn ip (tr_counts s); s1 = s\<lparr>tr_counts := m\<rparr>
      in if \<not> ok then s1 else s1\<lparr>tr_conns := tr_conns s1 @ [newConn ip client eof]\<rparr>)"

definition acceptError :: "nat \<Rightarrow> 's TCPRun \<Rightarrow> 's TCPRun" where
  "acceptError i s = s\<lparr>tr_listeners := (tr_listeners s)[i := (tr_listeners s ! i)\<lparr>ln_accepting := False\<rparr>]\<rparr>"

section \<open>Connection handler\<close>

definition connAt :: "nat \<Rightarrow> (tconn \<Rightarrow> tconn) \<Rightarrow> 's TCPRun \<Rightarrow> 's TCPRun" where
  "connAt c f s = s\<lparr>tr_conns := (tr_conns s)[c := f (tr_conns s ! c)]\<rparr>"

definition SetDeadline :: "instant \<Rightarrow> tconn \<Rightarrow> tconn" where
  "SetDeadline t k = k\<lparr>tn_readDeadline := t, tn_writeDeadline := t\<rparr>"

text \<open>The handler returns: the deferred close and release.\<close>

definition leaveConn :: "nat \<Rightarrow> 's TCPRun \<Rightarrow> 's TCPRun" where
  "leaveConn c s =
     (connAt c (\<lambda>k. k\<lparr>tn_state := ConnClosed\<rparr>) s)\<lparr>tr_counts := releaseConn (tn_ip (tr_conns s ! c)) (tr_counts s)\<rparr>"

definition startConn :: "nat \<Rightarrow> 's TCPRun \<Rightarrow> 's TCPRun" where
  "startConn c s =
     connAt c (\<lambda>k. (SetDeadline (tr_now s + tcpConnectionIdleTimeout) k)\<lparr>tn_state := ConnCheck\<rparr>) s"

text \<open>The head of the loop, and the first deadline of \<open>readMessage\<close>.\<close>

definition checkConn :: "nat \<Rightarrow> 's TCPRun \<Rightarrow> 's TCPRun" where
  "checkConn c s =
     (case tn_left (tr_conns s ! c) of
        0 \<Rightarrow> leaveConn c s
      | Suc n \<Rightarrow>
          if tr_ctx s then leaveConn c s
          else connAt c (\<lambda>k. k\<lparr>tn_left := n, tn_state := ConnLen,
                 tn_readDeadline := tr_now s + tcpReadTimeout\<rparr>) s)"

definition readLength :: "nat \<Rightarrow> 's TCPRun \<Rightarrow> 's TCPRun" where
  "readLength c s =
     (case ReadFull 2 (tn_client (tr_conns s ! c)) of
        None \<Rightarrow> leaveConn c s
      | Some (lenBuf, rest) \<Rightarrow>
          (let msgLen = unat (Uint16 lenBuf) in
           if msgLen = 0 then connAt c (\<lambda>k. k\<lparr>tn_client := rest, tn_state := ConnCheck\<rparr>) s
           else if msgLen > maxTCPMessageSize then leaveConn c s
           else connAt c (\<lambda>k. k\<lparr>tn_client := rest, tn_state := ConnBody msgLen,
                  tn_readDeadline := tr_now s + tcpReadTimeout\<rparr>) s))"

text \<open>The body has arrived; the idle timeout is set again.\<close>

definition readBody :: "nat \<Rightarrow> nat \<Rightarrow> 's TCPRun \<Rightarrow> 's TCPRun" where
  "readBody c n s =
     (case ReadFull n (tn_client (tr_conns s ! c)) of
        None \<Rightarrow> leaveConn c s
      | Some (msg, rest) \<Rightarrow>
          connAt c (\<lambda>k. (SetDeadline (tr_now s + tcpConnectionIdleTimeout) k)
            \<lparr>tn_client := rest, tn_state := ConnServe msg\<rparr>) s)"

definition serveConn :: "go_unicode \<Rightarrow> 's QueryHandler option \<Rightarrow> nat \<Rightarrow> bytes \<Rightarrow> bool \<Rightarrow> 's TCPRun \<Rightarrow> 's TCPRun" where
  "serveConn uc h c msg written s =
     (case h of
        None \<Rightarrow> leaveConn c s
      | Some hnd \<Rightarrow>
          (case Handle uc hnd ''tcp'' msg (tr_sys s) of
             (None, y) \<Rightarrow> s\<lparr>tr_sys := y, tr_crashed := True\<rparr>
           | (Some res, y) \<Rightarrow>
               (let s1 = s\<lparr>tr_sys := y\<rparr>; resp = hr_ResponseBytes res in
                if resp = [] then connAt c (\<lambda>k. k\<lparr>tn_state := ConnCheck\<rparr>) s1
                else
                  (case writeMessage written resp of
                     None \<Rightarrow> leaveConn c s1
                   | Some _ \<Rightarrow>
                       connAt c (\<lambda>k. k\<lparr>tn_state := ConnCheck, tn_out := tn_out k @ [(msg, resp)],
                         tn_writeDeadline := tr_now s + tcpReadTimeout\<rparr>) s1))))"

section \<open>Run and Stop\<close>

definition tcpRun :: "nat \<Rightarrow> instant \<Rightarrow> 's \<times> DNSStats option \<Rightarrow> 's TCPRun" where
  "tcpRun numCPU now y =
     \<lparr>tr_sys = y, tr_crashed = False, tr_counts = fmempty, tr_listeners = [], tr_conns = [],
      tr_ctx = False, tr_now = now, tr_phase = TStarting numCPU\<rparr>"

definition startListener :: "nat \<Rightarrow> 's TCPRun \<Rightarrow> 's TCPRun" where
  "startListener left s =
     s\<lparr>tr_listeners := tr_listeners s @ [\<lparr>ln_open = True, ln_accepting = True\<rparr>], tr_phase := TStarting left\<rparr>"

definition closeListeners :: "'s TCPRun \<Rightarrow> 's TCPRun" where
  "closeListeners s = s\<lparr>tr_listeners := map (\<lambda>l. l\<lparr>ln_open := False\<rparr>) (tr_listeners s)\<rparr>"

definition stopTimeout :: duration where "stopTimeout = 5 * Second"

definition tcpStopTimeout :: string where
  "tcpStopTimeout = ''tcp server: timeout waiting for connections''"

definition tcpExited :: "'s TCPRun \<Rightarrow> bool" where
  "tcpExited s \<longleftrightarrow> list_all (\<lambda>l. \<not> ln_accepting l) (tr_listeners s) \<and>
     list_all (\<lambda>k. tn_state k = ConnClosed) (tr_conns s)"

section \<open>Steps\<close>

inductive tgo_step :: "go_unicode \<Rightarrow> 's QueryHandler option \<Rightarrow> 's TCPRun \<Rightarrow> 's TCPRun \<Rightarrow> bool" for uc h where
  accept: "\<not> tr_crashed s \<Longrightarrow> i < length (tr_listeners s) \<Longrightarrow> ln_accepting (tr_listeners s ! i) \<Longrightarrow>
    ln_open (tr_listeners s ! i) \<Longrightarrow> tgo_step uc h s (acceptConn ip client eof s)"
| acceptFail: "\<not> tr_crashed s \<Longrightarrow> i < length (tr_listeners s) \<Longrightarrow> ln_accepting (tr_listeners s ! i) \<Longrightarrow>
    tgo_step uc h s (acceptError i s)"
| start: "\<not> tr_crashed s \<Longrightarrow> c < length (tr_conns s) \<Longrightarrow> tn_state (tr_conns s ! c) = ConnStart \<Longrightarrow>
    tgo_step uc h s (startConn c s)"
| check: "\<not> tr_crashed s \<Longrightarrow> c < length (tr_conns s) \<Longrightarrow> tn_state (tr_conns s ! c) = ConnCheck \<Longrightarrow>
    tgo_step uc h s (checkConn c s)"
| readLen: "\<not> tr_crashed s \<Longrightarrow> c < length (tr_conns s) \<Longrightarrow> tn_state (tr_conns s ! c) = ConnLen \<Longrightarrow>
    2 \<le> length (tn_client (tr_conns s ! c)) \<or> tn_eof (tr_conns s ! c) \<Longrightarrow> tgo_step uc h s (readLength c s)"
| readMsg: "\<not> tr_crashed s \<Longrightarrow> c < length (tr_conns s) \<Longrightarrow> tn_state (tr_conns s ! c) = ConnBody n \<Longrightarrow>
    n \<le> length (tn_client (tr_conns s ! c)) \<or> tn_eof (tr_conns s ! c) \<Longrightarrow> tgo_step uc h s (readBody c n s)"
| deadline: "\<not> tr_crashed s \<Longrightarrow> c < length (tr_conns s) \<Longrightarrow>
    tn_state (tr_conns s ! c) = ConnLen \<or> tn_state (tr_conns s ! c) = ConnBody n \<Longrightarrow>
    tgo_step uc h s ((leaveConn c s)\<lparr>tr_now := max (tr_now s) (tn_readDeadline (tr_conns s ! c))\<rparr>)"
| serve: "\<not> tr_crashed s \<Longrightarrow> c < length (tr_conns s) \<Longrightarrow> tn_state (tr_conns s ! c) = ConnServe msg \<Longrightarrow>
    tgo_step uc h s (serveConn uc h c msg written s)"

inductive tenv_step :: "'s TCPRun \<Rightarrow> 's TCPRun \<Rightarrow> bool" where
  cancel: "tenv_step s (s\<lparr>tr_ctx := True\<rparr>)"
| tick: "0 \<le> d \<Longrightarrow> tenv_step s (s\<lparr>tr_now := tr_now s + d\<rparr>)"

inductive tmain_step :: "'s TCPRun \<Rightarrow> 's TCPRun \<Rightarrow> bool" where
  opened: "tr_phase s = TStarting (Suc left) \<Longrightarrow> tmain_step s (startListener left s)"
| failed: "tr_phase s = TStarting (Suc left) \<Longrightarrow>
    tmain_step s ((closeListeners s)\<lparr>tr_phase := TReturned (Some err)\<rparr>)"
| started: "tr_phase s = TStarting 0 \<Longrightarrow> tmain_step s (s\<lparr>tr_phase := TServing\<rparr>)"
| stop: "tr_phase s = TServing \<Longrightarrow> tr_ctx s \<Longrightarrow>
    tmain_step s ((closeListeners s)\<lparr>tr_phase := TWaiting (tr_now s + stopTimeout)\<rparr>)"
| waited: "tr_phase s = TWaiting t \<Longrightarrow> tcpExited s \<Longrightarrow> tr_now s \<le> t \<Longrightarrow>
    tmain_step s (s\<lparr>tr_phase := TReturned None\<rparr>)"
| expired: "tr_phase s = TWaiting t \<Longrightarrow>
    tmain_step s (s\<lparr>tr_phase := TReturned (Some tcpStopTimeout), tr_now := max (tr_now s) t\<rparr>)"

definition trun_step :: "go_unicode \<Rightarrow> 's QueryHandler option \<Rightarrow> 's TCPRun \<Rightarrow> 's TCPRun \<Rightarrow> bool" where
  "trun_step uc h s s' \<longleftrightarrow> tgo_step uc h s s' \<or> tenv_step s s' \<or> tmain_step s s'"

lemmas conn_ops = startConn_def checkConn_def readLength_def readBody_def serveConn_def leaveConn_def connAt_def
  SetDeadline_def Let_def

section \<open>Reading in two parts\<close>

text \<open>The two reads of a message are \<open>readMessage\<close>.\<close>

lemma readMessage_two_reads:
  assumes "readMessage client = Some (msg, rest)" "c < length (tr_conns s)" "tn_client (tr_conns s ! c) = client"
  shows "if msg = [] then tr_conns (readLength c s) ! c = (tr_conns s ! c)\<lparr>tn_client := rest, tn_state := ConnCheck\<rparr>
    else tn_state (tr_conns (readLength c s) ! c) = ConnBody (length msg) \<and>
      tn_state (tr_conns (readBody c (length msg) (readLength c s)) ! c) = ConnServe msg \<and>
      tn_client (tr_conns (readBody c (length msg) (readLength c s)) ! c) = rest"
  using assms by (auto simp: readMessage_def ReadFull_def conn_ops split: if_splits)

section \<open>What a connection's step changes\<close>

text \<open>
  A step of a handler changes its own connection. The connection count changes only with
  the handler's return, and the deadline of a read is always the one \<open>readMessage\<close> set.
\<close>

definition readFrom :: "instant \<Rightarrow> tconn \<Rightarrow> bool" where
  "readFrom now k \<longleftrightarrow> (tn_state k = ConnLen \<or> (\<exists>n. tn_state k = ConnBody n)) \<longrightarrow>
     tn_readDeadline k \<le> now + tcpReadTimeout"

fun connWork :: "conn_state \<Rightarrow> nat" where
  "connWork ConnStart = 2"
| "connWork ConnCheck = 1"
| "connWork ConnLen = 4"
| "connWork (ConnBody n) = 3"
| "connWork (ConnServe msg) = 2"
| "connWork ConnClosed = 0"

text \<open>The handler of connection \<open>c\<close> goes from its state in \<open>s\<close> to \<open>k\<close>.\<close>

definition connMoves :: "nat \<Rightarrow> tconn \<Rightarrow> 's TCPRun \<Rightarrow> 's TCPRun \<Rightarrow> bool" where
  "connMoves c k s s' \<longleftrightarrow> tr_conns s' = (tr_conns s)[c := k] \<and> tn_ip k = tn_ip (tr_conns s ! c) \<and>
     tr_counts s' = (if tn_state k = ConnClosed then releaseConn (tn_ip k) (tr_counts s) else tr_counts s) \<and>
     tr_listeners s' = tr_listeners s \<and> tr_ctx s' = tr_ctx s \<and> tr_phase s' = tr_phase s \<and> tr_now s \<le> tr_now s' \<and>
     (readFrom (tr_now s) (tr_conns s ! c) \<longrightarrow> readFrom (tr_now s') k) \<and>
     (tr_ctx s \<longrightarrow> connWork (tn_state k) < connWork (tn_state (tr_conns s ! c)))"

lemma connMoves_leave:
  assumes "c < length (tr_conns s)" "tn_state (tr_conns s ! c) \<noteq> ConnClosed" "tr_now s \<le> t"
  shows "connMoves c ((tr_conns s ! c)\<lparr>tn_state := ConnClosed\<rparr>) s ((leaveConn c s)\<lparr>tr_now := t\<rparr>)"
    "connMoves c ((tr_conns s ! c)\<lparr>tn_state := ConnClosed\<rparr>) s (leaveConn c s)"
    "connMoves c ((tr_conns s ! c)\<lparr>tn_state := ConnClosed\<rparr>) s ((leaveConn c (s\<lparr>tr_sys := y\<rparr>)))"
  using assms by (cases "tn_state (tr_conns s ! c)"; simp add: connMoves_def leaveConn_def connAt_def readFrom_def)+

definition tcpCore :: "go_unicode \<Rightarrow> 'w hydra TCPRun \<Rightarrow> bool" where
  "tcpCore uc s \<longleftrightarrow> hydraInv uc (fst (tr_sys s)) \<and> \<not> tr_crashed s"

lemma conn_step_moves:
  assumes c: "c < length (tr_conns s)"
  shows "tn_state (tr_conns s ! c) = ConnStart \<Longrightarrow> \<exists>k. connMoves c k s (startConn c s)"
    and "tn_state (tr_conns s ! c) = ConnCheck \<Longrightarrow> \<exists>k. connMoves c k s (checkConn c s)"
    and "tn_state (tr_conns s ! c) = ConnLen \<Longrightarrow> \<exists>k. connMoves c k s (readLength c s)"
    and "tn_state (tr_conns s ! c) = ConnBody n \<Longrightarrow> \<exists>k. connMoves c k s (readBody c n s)"
proof -
  note leave = connMoves_leave(2) [OF c _ order_refl]
  show "\<exists>k. connMoves c k s (startConn c s)" if "tn_state (tr_conns s ! c) = ConnStart"
    using c that by (intro exI [of _ "tr_conns (startConn c s) ! c"]) (simp add: connMoves_def conn_ops readFrom_def)
  show "\<exists>k. connMoves c k s (checkConn c s)" if "tn_state (tr_conns s ! c) = ConnCheck"
  proof (cases "tn_left (tr_conns s ! c) = 0 \<or> tr_ctx s")
    case True
    then have "checkConn c s = leaveConn c s" by (auto simp: checkConn_def split: nat.split)
    with leave that show ?thesis by auto
  next
    case False
    with c that show ?thesis
      by (intro exI [of _ "tr_conns (checkConn c s) ! c"])
        (auto simp: connMoves_def conn_ops readFrom_def split: nat.split)
  qed
  show "\<exists>k. connMoves c k s (readLength c s)" if "tn_state (tr_conns s ! c) = ConnLen"
  proof (cases "readLength c s = leaveConn c s")
    case False
    with c that show ?thesis
      by (intro exI [of _ "tr_conns (readLength c s) ! c"])
        (auto simp: readLength_def connMoves_def connAt_def readFrom_def Let_def split: option.splits if_splits)
  qed (use leave that in auto)
  show "\<exists>k. connMoves c k s (readBody c n s)" if "tn_state (tr_conns s ! c) = ConnBody n"
  proof (cases "readBody c n s = leaveConn c s")
    case False
    with c that show ?thesis
      by (intro exI [of _ "tr_conns (readBody c n s) ! c"])
        (auto simp: readBody_def connMoves_def connAt_def SetDeadline_def readFrom_def split: option.splits)
  qed (use leave that in auto)
qed

lemma serve_moves:
  assumes c: "c < length (tr_conns s)" and st: "tn_state (tr_conns s ! c) = ConnServe msg" and core: "tcpCore uc s"
  shows "\<exists>k. connMoves c k s (serveConn uc (Some (hydraHandler uc env sel)) c msg written s) \<and>
    (list_all tcpAnswer (tn_out (tr_conns s ! c)) \<longrightarrow> list_all tcpAnswer (tn_out k))"
    and "tcpCore uc (serveConn uc (Some (hydraHandler uc env sel)) c msg written s)"
proof -
  obtain s1 st1 where sys: "tr_sys s = (s1, st1)" by (rule prod.exhaust)
  obtain x s2 st2 where run: "Handle uc (hydraHandler uc env sel) ''tcp'' msg (s1, st1) = (x, s2, st2)"
    by (metis prod.exhaust)
  have I: "hydraInv uc s1" using core sys by (simp add: tcpCore_def)
  from hydra_Handle_outcome [OF I run] obtain res where I2: "hydraInv uc s2" and x: "x = Some res"
    and id: "hr_ResponseBytes res = [] \<or> take 2 (hr_ResponseBytes res) = take 2 msg" by blast
  note R = serveConn_def sys run x
  show "tcpCore uc (serveConn uc (Some (hydraHandler uc env sel)) c msg written s)"
    using I2 core by (auto simp: R tcpCore_def Let_def connAt_def leaveConn_def split: option.split)
  show "\<exists>k. connMoves c k s (serveConn uc (Some (hydraHandler uc env sel)) c msg written s) \<and>
    (list_all tcpAnswer (tn_out (tr_conns s ! c)) \<longrightarrow> list_all tcpAnswer (tn_out k))"
  proof (cases "hr_ResponseBytes res \<noteq> [] \<and> writeMessage written (hr_ResponseBytes res) = None")
    case True
    with connMoves_leave(3) [OF c _ order_refl, of "(s2, st2)"] st show ?thesis by (force simp: R Let_def)
  next
    case False
    moreover have "tcpAnswer (msg, hr_ResponseBytes res)"
      if "hr_ResponseBytes res \<noteq> []" "writeMessage written (hr_ResponseBytes res) = Some w" for w
      using id that by (auto simp: tcpAnswer_def writeMessage_def split: if_splits)
    ultimately show ?thesis using c st
      by (intro exI [of _ "tr_conns (serveConn uc (Some (hydraHandler uc env sel)) c msg written s) ! c"])
        (auto simp: R Let_def connAt_def connMoves_def readFrom_def)
  qed
qed

text \<open>Every goroutine step of the server, seen from the connections.\<close>

lemma tgo_step_cases:
  assumes "tgo_step uc (Some (hydraHandler uc env sel)) s s'" "tcpCore uc s"
  obtains (accepted) i ip client eof where "i < length (tr_listeners s)" "ln_accepting (tr_listeners s ! i)"
      "ln_open (tr_listeners s ! i)" "s' = acceptConn ip client eof s" "tcpCore uc s'"
    | (refused) i where "i < length (tr_listeners s)" "ln_accepting (tr_listeners s ! i)" "s' = acceptError i s" "tcpCore uc s'"
    | (moved) c k where "c < length (tr_conns s)" "tn_state (tr_conns s ! c) \<noteq> ConnClosed" "connMoves c k s s'"
      "list_all tcpAnswer (tn_out (tr_conns s ! c)) \<longrightarrow> list_all tcpAnswer (tn_out k)" "tcpCore uc s'"
  using assms(1)
proof cases
  case (accept i ip client eof)
  with accepted show thesis using assms(2) by (auto simp: tcpCore_def acceptConn_def Let_def split: prod.split)
next
  case (acceptFail i)
  with refused show thesis using assms(2) by (auto simp: tcpCore_def acceptError_def)
next
  case (start c)
  with conn_step_moves(1) obtain k where k: "connMoves c k s s'" by blast
  then have "k = tr_conns s' ! c" using start by (simp add: connMoves_def)
  with k start moved [of c k] assms(2) show thesis by (simp add: tcpCore_def conn_ops)
next
  case (check c)
  with conn_step_moves(2) obtain k where k: "connMoves c k s s'" by blast
  then have "k = tr_conns s' ! c" using check by (simp add: connMoves_def)
  with k check moved [of c k] assms(2) show thesis by (auto simp: tcpCore_def conn_ops split: nat.splits if_splits)
next
  case (readLen c)
  with conn_step_moves(3) obtain k where k: "connMoves c k s s'" by blast
  then have "k = tr_conns s' ! c" using readLen by (simp add: connMoves_def)
  with k readLen moved [of c k] assms(2) show thesis by (auto simp: tcpCore_def conn_ops split: option.splits)
next
  case (readMsg c n)
  with conn_step_moves(4) obtain k where k: "connMoves c k s s'" by blast
  then have "k = tr_conns s' ! c" using readMsg by (simp add: connMoves_def)
  with k readMsg moved [of c k] assms(2) show thesis by (auto simp: tcpCore_def conn_ops split: option.splits)
next
  case (deadline c n)
  then have "connMoves c ((tr_conns s ! c)\<lparr>tn_state := ConnClosed\<rparr>) s s'"
    using connMoves_leave(1) [of c s "max (tr_now s) (tn_readDeadline (tr_conns s ! c))"] by auto
  with deadline moved [of c "(tr_conns s ! c)\<lparr>tn_state := ConnClosed\<rparr>"] assms(2) show thesis
    by (auto simp: tcpCore_def conn_ops)
next
  case (serve c msg written)
  with serve_moves [OF serve(3,4) assms(2), of env sel written] obtain k where
    "connMoves c k s s'" "list_all tcpAnswer (tn_out (tr_conns s ! c)) \<longrightarrow> list_all tcpAnswer (tn_out k)" "tcpCore uc s'"
    by blast
  with serve moved [of c k] show thesis by simp
qed

section \<open>The runtime implements the connection accounting\<close>

definition liveIP :: "tconn \<Rightarrow> string multiset" where
  "liveIP k = (if tn_state k = ConnClosed then {#} else {#tn_ip k#})"

definition liveIPs :: "'s TCPRun \<Rightarrow> string multiset" where
  "liveIPs s = sum_list (map liveIP (tr_conns s))"

definition accounts :: "'s TCPRun \<Rightarrow> TCPServer \<Rightarrow> bool" where
  "accounts s t \<longleftrightarrow> tcp_counts t = tr_counts s \<and> mset (tcp_open t) = liveIPs s"

lemma accounts_accept:
  assumes "accounts s t"
  shows "\<exists>t'. tcp_step t t' \<and> accounts (acceptConn ip client eof s) t'"
proof -
  obtain ok m where a: "tryAcquireConn ip (tr_counts s) = (ok, m)" by (rule prod.exhaust)
  show ?thesis
  proof (cases ok)
    case True
    with assms a tcp_step.accept [of ip t m] show ?thesis
      by (intro exI conjI) (auto simp: accounts_def acceptConn_def liveIPs_def liveIP_def newConn_def)
  next
    case False
    with assms a tcp_step.reject [of ip t m] show ?thesis
      by (intro exI conjI) (auto simp: accounts_def acceptConn_def liveIPs_def)
  qed
qed

lemma accounts_move:
  assumes "accounts s t" "c < length (tr_conns s)" "tn_state (tr_conns s ! c) \<noteq> ConnClosed" "connMoves c k s s'"
  shows "\<exists>t'. (t' = t \<or> tcp_step t t') \<and> accounts s' t'"
proof -
  obtain rest where r: "liveIPs s = rest + liveIP (tr_conns s ! c)"
    "\<And>k. sum_list (map liveIP ((tr_conns s)[c := k])) = rest + liveIP k"
    using sum_list_nth_split [OF assms(2)] unfolding liveIPs_def by metis
  let ?ip = "tn_ip (tr_conns s ! c)"
  show ?thesis
  proof (cases "tn_state k = ConnClosed")
    case True
    have "?ip \<in># mset (tcp_open t)" using assms(1,3) r(1) by (simp add: accounts_def liveIP_def)
    then have "?ip \<in> set (tcp_open t)" by simp
    then have "tcp_step t (t\<lparr>tcp_counts := releaseConn ?ip (tcp_counts t), tcp_open := remove1 ?ip (tcp_open t)\<rparr>)"
      by (rule tcp_step.close)
    moreover have "accounts s' (t\<lparr>tcp_counts := releaseConn ?ip (tcp_counts t), tcp_open := remove1 ?ip (tcp_open t)\<rparr>)"
      using True assms r by (simp add: accounts_def connMoves_def liveIPs_def liveIP_def)
    ultimately show ?thesis by blast
  next
    case False
    with assms r show ?thesis by (intro exI [of _ t]) (auto simp: accounts_def connMoves_def liveIPs_def liveIP_def)
  qed
qed

lemma accounts_step:
  assumes "trun_step uc (Some (hydraHandler uc env sel)) s s'" "tcpCore uc s" "accounts s t"
  shows "tcpCore uc s' \<and> (\<exists>t'. (t' = t \<or> tcp_step t t') \<and> accounts s' t')"
  using assms(1) unfolding trun_step_def
proof (elim disjE)
  assume "tgo_step uc (Some (hydraHandler uc env sel)) s s'"
  then show ?thesis using assms(2)
  proof (cases rule: tgo_step_cases)
    case (accepted i ip client eof)
    with accounts_accept [OF assms(3)] show ?thesis by blast
  next
    case (refused i)
    with assms(3) show ?thesis by (auto simp: accounts_def acceptError_def liveIPs_def)
  next
    case (moved c k)
    with accounts_move [OF assms(3) moved(1-3)] show ?thesis by blast
  qed
qed (use assms(2,3) in \<open>auto elim!: tenv_step.cases tmain_step.cases
      simp: accounts_def liveIPs_def tcpCore_def startListener_def closeListeners_def\<close>)

lemma accounts_reachable:
  assumes "(trun_step uc (Some (hydraHandler uc env sel)))\<^sup>*\<^sup>* s s'" "tcpCore uc s" "accounts s t"
  shows "tcpCore uc s' \<and> (\<exists>t'. tcp_step\<^sup>*\<^sup>* t t' \<and> accounts s' t')"
  using assms(1)
proof (induction rule: rtranclp_induct)
  case (step x y)
  then obtain t' where "tcpCore uc x" "tcp_step\<^sup>*\<^sup>* t t'" "accounts x t'" by blast
  moreover from accounts_step [OF step.hyps(2) this(1,3)] obtain t''
    where "tcpCore uc y" "t'' = t' \<or> tcp_step t' t''" "accounts y t''" by blast
  ultimately show ?case by (auto intro: rtranclp.rtrancl_into_rtrancl)
qed (use assms in blast)

lemma tcpRun_accounts: "hydraInv uc (fst y) \<Longrightarrow> tcpCore uc (tcpRun n now y) \<and> accounts (tcpRun n now y) tcpInit"
  by (simp add: tcpCore_def accounts_def tcpRun_def tcpInit_def liveIPs_def)

section \<open>Invariant\<close>

definition closedListeners :: "'s TCPRun \<Rightarrow> bool" where
  "closedListeners s \<longleftrightarrow> (\<forall>l \<in> set (tr_listeners s). \<not> ln_open l)"

definition tcpRunInv :: "go_unicode \<Rightarrow> 'w hydra TCPRun \<Rightarrow> bool" where
  "tcpRunInv uc s \<longleftrightarrow> tcpCore uc s \<and>
     (\<forall>k \<in> set (tr_conns s). readFrom (tr_now s) k \<and> list_all tcpAnswer (tn_out k)) \<and>
     (\<forall>t. tr_phase s = TWaiting t \<longrightarrow> tr_ctx s \<and> closedListeners s) \<and>
     (tr_phase s = TReturned None \<longrightarrow> tr_ctx s)"

lemma readFrom_mono: "readFrom t k \<Longrightarrow> t \<le> t' \<Longrightarrow> readFrom t' k"
  by (auto simp: readFrom_def)

lemma tcpRunInv_go:
  assumes "tgo_step uc (Some (hydraHandler uc env sel)) s s'" "tcpRunInv uc s"
  shows "tcpRunInv uc s'"
proof -
  have core: "tcpCore uc s" using assms(2) by (simp add: tcpRunInv_def)
  show ?thesis using assms(1) core
  proof (cases rule: tgo_step_cases)
    case (accepted i ip client eof)
    with assms(2) show ?thesis
      by (auto simp: tcpRunInv_def acceptConn_def newConn_def readFrom_def closedListeners_def Let_def
          split: prod.splits if_splits)
  next
    case (refused i)
    with assms(2) show ?thesis
      using set_update_subset_insert [of "tr_listeners s" i "(tr_listeners s ! i)\<lparr>ln_accepting := False\<rparr>"]
        nth_mem [OF refused(1)]
      by (fastforce simp: tcpRunInv_def acceptError_def closedListeners_def)
  next
    case (moved c k)
    have old: "readFrom (tr_now s') x \<and> list_all tcpAnswer (tn_out x)" if "x \<in> set (tr_conns s)" for x
      using assms(2) that moved(3) readFrom_mono by (auto simp: tcpRunInv_def connMoves_def)
    have "readFrom (tr_now s') k \<and> list_all tcpAnswer (tn_out k)"
      using moved assms(2) nth_mem [OF moved(1)] by (auto simp: tcpRunInv_def connMoves_def)
    with old moved assms(2) show ?thesis
      using set_update_subset_insert [of "tr_conns s" c k]
      by (auto simp: tcpRunInv_def connMoves_def closedListeners_def)
  qed
qed

lemma tcpRunInv_quiet:
  assumes "tenv_step s s' \<or> tmain_step s s'" "tcpRunInv uc s" shows "tcpRunInv uc s'"
  using assms(1)
proof (elim disjE)
  assume "tenv_step s s'"
  then show ?thesis using assms(2)
    by cases (auto simp: tcpRunInv_def tcpCore_def closedListeners_def intro: readFrom_mono)
next
  assume "tmain_step s s'"
  then show ?thesis using assms(2)
    by cases (auto simp: tcpRunInv_def tcpCore_def closedListeners_def startListener_def closeListeners_def
        intro: readFrom_mono)
qed

lemma tcpRunInv_reachable:
  assumes "(trun_step uc (Some (hydraHandler uc env sel)))\<^sup>*\<^sup>* s s'" "tcpRunInv uc s" shows "tcpRunInv uc s'"
  using assms(1) by (induction rule: rtranclp_induct)
    (auto simp: assms(2) trun_step_def intro: tcpRunInv_go tcpRunInv_quiet)

lemma tcpRun_inv: "hydraInv uc (fst y) \<Longrightarrow> tcpRunInv uc (tcpRun n now y)"
  by (simp add: tcpRunInv_def tcpCore_def tcpRun_def)

section \<open>Shutdown\<close>

definition tcpStopping :: "go_unicode \<Rightarrow> 'w hydra TCPRun \<Rightarrow> bool" where
  "tcpStopping uc s \<longleftrightarrow> tcpRunInv uc s \<and> tr_ctx s \<and> closedListeners s \<and>
     tr_phase s \<in> range TWaiting \<union> range TReturned"

definition tcpWork :: "'s TCPRun \<Rightarrow> nat" where
  "tcpWork s = sum_list (map (\<lambda>l. of_bool (ln_accepting l)) (tr_listeners s)) +
     sum_list (map (\<lambda>k. connWork (tn_state k)) (tr_conns s))"

lemma tcpStopping_go:
  assumes "tgo_step uc (Some (hydraHandler uc env sel)) s s'" "tcpStopping uc s"
  shows "tcpStopping uc s'" "tcpWork s' < tcpWork s"
proof -
  have inv: "tcpRunInv uc s'" using tcpRunInv_go [OF assms(1)] assms(2) by (simp add: tcpStopping_def)
  have core: "tcpCore uc s" using assms(2) by (simp add: tcpStopping_def tcpRunInv_def)
  from assms(1) core have "tcpStopping uc s' \<and> tcpWork s' < tcpWork s"
  proof (cases rule: tgo_step_cases)
    case (accepted i ip client eof)
    with assms(2) show ?thesis by (simp add: tcpStopping_def closedListeners_def)
  next
    case (refused i)
    let ?l = "(tr_listeners s ! i)\<lparr>ln_accepting := False\<rparr>"
    obtain rest where "sum_list (map (\<lambda>l. of_bool (ln_accepting l)) (tr_listeners s)) =
        (rest :: nat) + of_bool (ln_accepting (tr_listeners s ! i))"
      "\<And>l. sum_list (map (\<lambda>l. of_bool (ln_accepting l)) ((tr_listeners s)[i := l])) = rest + of_bool (ln_accepting l)"
      using sum_list_nth_split [OF refused(1)] by metis
    then have "tcpWork s' < tcpWork s" using refused by (simp add: tcpWork_def acceptError_def)
    moreover have "closedListeners s'"
      using assms(2) refused(3) set_update_subset_insert [of "tr_listeners s" i ?l] nth_mem [OF refused(1)]
      by (fastforce simp: tcpStopping_def closedListeners_def acceptError_def)
    ultimately show ?thesis using assms(2) inv refused(3) by (simp add: tcpStopping_def acceptError_def)
  next
    case (moved c k)
    obtain rest where "sum_list (map (\<lambda>k. connWork (tn_state k)) (tr_conns s)) = rest + connWork (tn_state (tr_conns s ! c))"
      "\<And>k. sum_list (map (\<lambda>k. connWork (tn_state k)) ((tr_conns s)[c := k])) = rest + connWork (tn_state k)"
      using sum_list_nth_split [OF moved(1)] by metis
    with moved assms(2) inv show ?thesis by (simp add: tcpStopping_def tcpWork_def connMoves_def closedListeners_def)
  qed
  then show "tcpStopping uc s'" "tcpWork s' < tcpWork s" by simp_all
qed

lemma tcp_can_move:
  assumes "\<not> tr_crashed s" "\<not> tcpExited s"
  shows "\<exists>s'. tgo_step uc h s s'"
proof (cases "\<exists>l \<in> set (tr_listeners s). ln_accepting l")
  case True
  then show ?thesis using tgo_step.acceptFail [OF assms(1)] by (metis in_set_conv_nth)
next
  case False
  with assms(2) obtain c where c: "c < length (tr_conns s)" "tn_state (tr_conns s ! c) \<noteq> ConnClosed"
    by (auto simp: tcpExited_def list_all_length list_all_iff)
  then show ?thesis
  proof (cases "tn_state (tr_conns s ! c)")
    case (ConnServe msg)
    with tgo_step.serve [OF assms(1) c(1)] show ?thesis by blast
  qed (use assms(1) c tgo_step.start tgo_step.check tgo_step.deadline in blast)+
qed

lemma tcpStopping_quiet:
  assumes "tenv_step s s' \<or> tmain_step s s'" "tcpStopping uc s"
  shows "tcpStopping uc s'" "tcpWork s' = tcpWork s"
  using tcpRunInv_quiet [OF assms(1)] assms
  by (auto simp: tcpStopping_def closedListeners_def tcpWork_def elim!: tenv_step.cases tmain_step.cases)

interpretation tcp_stop: stoppable "tgo_step uc (Some (hydraHandler uc env sel))"
  "\<lambda>s s'. tenv_step s s' \<or> tmain_step s s'" "tcpStopping uc" tcpWork tcpExited for uc env sel
proof unfold_locales
  show "\<exists>s'. tgo_step uc (Some (hydraHandler uc env sel)) s s'" if "tcpStopping uc s" "\<not> tcpExited s" for s
    using tcp_can_move that by (auto simp: tcpStopping_def tcpRunInv_def tcpCore_def)
  show "tcpWork s' \<le> tcpWork s" if "tcpStopping uc s" "tenv_step s s' \<or> tmain_step s s'" for s s'
    using tcpStopping_quiet(2) [OF that(2,1)] by simp
qed (blast intro: tcpStopping_go tcpStopping_quiet)+

section \<open>A silent client\<close>

text \<open>A connection whose client sends nothing and does not close it, blocked in its first read.\<close>

definition silentConn :: "nat \<Rightarrow> instant \<Rightarrow> 's TCPRun \<Rightarrow> bool" where
  "silentConn c d s \<longleftrightarrow> c < length (tr_conns s) \<and> tn_state (tr_conns s ! c) = ConnLen \<and>
     tn_client (tr_conns s ! c) = [] \<and> \<not> tn_eof (tr_conns s ! c) \<and> tn_readDeadline (tr_conns s ! c) = d"

definition stuckOn :: "nat \<Rightarrow> instant \<Rightarrow> instant \<Rightarrow> 's TCPRun \<Rightarrow> bool" where
  "stuckOn c d t s \<longleftrightarrow> tr_phase s = TReturned (Some tcpStopTimeout) \<or>
     tr_phase s = TWaiting t \<and> (silentConn c d s \<or> d \<le> tr_now s)"

lemma connAt_fields [simp]:
  "tr_conns (connAt c f s) = (tr_conns s)[c := f (tr_conns s ! c)]" "tr_now (connAt c f s) = tr_now s"
  "tr_phase (connAt c f s) = tr_phase s"
  by (simp_all add: connAt_def)

lemma leaveConn_fields [simp]:
  "tr_conns (leaveConn c s) = (tr_conns s)[c := (tr_conns s ! c)\<lparr>tn_state := ConnClosed\<rparr>]"
  "tr_now (leaveConn c s) = tr_now s" "tr_phase (leaveConn c s) = tr_phase s"
  by (simp_all add: leaveConn_def)

lemma silentConn_other:
  "silentConn c d s \<Longrightarrow> c' \<noteq> c \<Longrightarrow> tr_conns s' = (tr_conns s)[c' := k] \<Longrightarrow> silentConn c d s'"
  by (simp add: silentConn_def)

lemma conn_op_local:
  "\<exists>k. tr_conns (startConn c s) = (tr_conns s)[c := k]" "\<exists>k. tr_conns (checkConn c s) = (tr_conns s)[c := k]"
  "\<exists>k. tr_conns (readLength c s) = (tr_conns s)[c := k]" "\<exists>k. tr_conns (readBody c n s) = (tr_conns s)[c := k]"
  "\<exists>k. tr_conns (serveConn uc h c msg w s) = (tr_conns s)[c := k]"
proof -
  have same: "\<exists>k. tr_conns s = (tr_conns s)[c := k]" by (rule exI [of _ "tr_conns s ! c"]) simp
  show "\<exists>k. tr_conns (startConn c s) = (tr_conns s)[c := k]" by (auto simp: startConn_def)
  show "\<exists>k. tr_conns (checkConn c s) = (tr_conns s)[c := k]" by (auto simp: checkConn_def split: nat.split)
  show "\<exists>k. tr_conns (readLength c s) = (tr_conns s)[c := k]"
    by (auto simp: readLength_def Let_def split: option.split)
  show "\<exists>k. tr_conns (readBody c n s) = (tr_conns s)[c := k]" by (auto simp: readBody_def split: option.split)
  show "\<exists>k. tr_conns (serveConn uc h c msg w s) = (tr_conns s)[c := k]"
    using same by (auto simp: serveConn_def Let_def split: option.split prod.split)
qed

lemma conn_op_time:
  "tr_now (startConn c s) = tr_now s" "tr_now (checkConn c s) = tr_now s" "tr_now (readLength c s) = tr_now s"
  "tr_now (readBody c n s) = tr_now s" "tr_now (serveConn uc h c msg w s) = tr_now s"
  "tr_now (acceptConn ip cl e s) = tr_now s" "tr_now (acceptError i s) = tr_now s"
  "tr_phase (startConn c s) = tr_phase s" "tr_phase (checkConn c s) = tr_phase s" "tr_phase (readLength c s) = tr_phase s"
  "tr_phase (readBody c n s) = tr_phase s" "tr_phase (serveConn uc h c msg w s) = tr_phase s"
  "tr_phase (acceptConn ip cl e s) = tr_phase s" "tr_phase (acceptError i s) = tr_phase s"
  by (auto simp: startConn_def checkConn_def readLength_def readBody_def serveConn_def acceptConn_def acceptError_def Let_def
      split: option.split prod.split nat.split)

lemma tgo_time: "tgo_step uc h s s' \<Longrightarrow> tr_phase s' = tr_phase s \<and> tr_now s \<le> tr_now s'"
  by (induction rule: tgo_step.induct) (simp_all add: conn_op_time)

lemma silent_go: "tgo_step uc h s s' \<Longrightarrow> silentConn c d s \<Longrightarrow> silentConn c d s' \<or> d \<le> tr_now s'"
proof (induction rule: tgo_step.induct)
  case (accept s i ip client eof)
  then show ?case by (auto simp: silentConn_def acceptConn_def Let_def nth_append split: prod.split)
next
  case (acceptFail s i)
  then show ?case by (simp add: silentConn_def acceptError_def)
next
  case (start s x)
  then have "x \<noteq> c" by (auto simp: silentConn_def)
  with start conn_op_local(1) [of x s] silentConn_other [of c d s x] show ?case by blast
next
  case (check s x)
  then have "x \<noteq> c" by (auto simp: silentConn_def)
  with check conn_op_local(2) [of x s] silentConn_other [of c d s x] show ?case by blast
next
  case (readLen s x)
  then have "x \<noteq> c" by (auto simp: silentConn_def)
  with readLen conn_op_local(3) [of x s] silentConn_other [of c d s x] show ?case by blast
next
  case (readMsg s x n)
  then have "x \<noteq> c" by (auto simp: silentConn_def)
  with readMsg conn_op_local(4) [of x n s] silentConn_other [of c d s x] show ?case by blast
next
  case (deadline s x n)
  then show ?case by (cases "x = c") (auto simp: silentConn_def)
next
  case (serve s x msg w)
  then have "x \<noteq> c" by (auto simp: silentConn_def)
  with serve conn_op_local(5) [of uc h x msg w s] silentConn_other [of c d s x] show ?case by blast
qed

lemma silent_not_exited: "silentConn c d s \<Longrightarrow> \<not> tcpExited s"
  by (auto simp: silentConn_def tcpExited_def list_all_length)

lemma stuckOn_step:
  assumes "trun_step uc h s s'" "stuckOn c d t s" "t < d" shows "stuckOn c d t s'"
  using assms(1) unfolding trun_step_def
proof (elim disjE)
  assume "tgo_step uc h s s'"
  from tgo_time [OF this] silent_go [OF this, of c d] assms(2) show ?thesis by (auto simp: stuckOn_def)
next
  assume "tenv_step s s'"
  then show ?thesis using assms(2) by cases (auto simp: stuckOn_def silentConn_def)
next
  assume "tmain_step s s'"
  then show ?thesis using assms(2,3) silent_not_exited by cases (auto simp: stuckOn_def)
qed

lemma stuckOn_reachable: "(trun_step uc h)\<^sup>*\<^sup>* s s' \<Longrightarrow> t < d \<Longrightarrow> stuckOn c d t s \<Longrightarrow> stuckOn c d t s'"
  by (induction rule: rtranclp_induct) (auto intro: stuckOn_step)

end
