(* ===== verification/Runner_Life.thy ===== *)
theory Runner_Life
  imports Udp_Runtime Tcp_Runtime
begin

text \<open>
  \<open>Runner.RunWithContext\<close> from the start of the servers to its return: the two servers run
  side by side over one resolver and one context, the runner waits for the context or for
  the result of a server, then stops both servers in turn and closes the resolver. The
  servers take the steps of their own theories; their shared state follows whichever moved.
  \<open>sv_clean\<close> records that each wait so far ended because the server had opened all its
  sockets and all its goroutines had returned, not because its five seconds were over.
\<close>

section \<open>State and steps\<close>

datatype runner_phase = RunnerWaiting | RunnerStoppingUDP | RunnerStoppingTCP | RunnerReturned "string option"

record 'w ServerRun =
  sv_udp :: "'w hydra UDPRun"
  sv_tcp :: "'w hydra TCPRun option"
  sv_runner :: runner_phase
  sv_closed :: bool
  sv_clean :: bool

definition startServers :: "nat \<Rightarrow> instant \<Rightarrow> bool \<Rightarrow> 'w hydra UDPServer \<Rightarrow> 'w ServerRun" where
  "startServers numCPU now enableTCP u =
     \<lparr>sv_udp = udpRun numCPU u,
      sv_tcp = (if enableTCP then Some (tcpRun numCPU now (udp_sys u)) else None),
      sv_runner = RunnerWaiting, sv_closed = False, sv_clean = True\<rparr>"

text \<open>What \<open>RunWithContext\<close> builds from the configuration before it starts the servers.\<close>

definition udpServerOf ::
  "go_unicode \<Rightarrow> (string \<Rightarrow> duration option) \<Rightarrow> Config \<Rightarrow> int \<Rightarrow> PolicyEngine option \<Rightarrow> DNSStats option \<Rightarrow> instant \<Rightarrow> 'w \<Rightarrow>
     'w hydra UDPServer" where
  "udpServerOf uc pd cfg gomaxprocs injected stats now w =
     \<lparr>udp_sys = (startHydra uc pd cfg gomaxprocs injected w, stats),
      udp_limiter = Some (NewRateLimiter (RateLimit cfg) now),
      udp_workers = calculateMaxConcurrency cfg (configureRuntime cfg gomaxprocs),
      udp_queue = [], udp_sent = [], udp_crashed = False\<rparr>"

definition RunWithContext ::
  "go_unicode \<Rightarrow> (string \<Rightarrow> duration option) \<Rightarrow> Config \<Rightarrow> int \<Rightarrow> nat \<Rightarrow> PolicyEngine option \<Rightarrow> DNSStats option \<Rightarrow> instant \<Rightarrow>
     'w \<Rightarrow> 'w ServerRun" where
  "RunWithContext uc pd cfg gomaxprocs numCPU injected stats now w =
     startServers numCPU now (sc_EnableTCP (Server cfg)) (udpServerOf uc pd cfg gomaxprocs injected stats now w)"

definition afterUDP :: "'w hydra UDPRun \<Rightarrow> 'w ServerRun \<Rightarrow> 'w ServerRun" where
  "afterUDP u s = s\<lparr>sv_udp := u,
     sv_tcp := map_option (\<lambda>t. t\<lparr>tr_sys := udp_sys (ur_core u), tr_crashed := udp_crashed (ur_core u)\<rparr>) (sv_tcp s)\<rparr>"

definition afterTCP :: "'w hydra TCPRun \<Rightarrow> 'w ServerRun \<Rightarrow> 'w ServerRun" where
  "afterTCP t s = s\<lparr>sv_tcp := Some t,
     sv_udp := (sv_udp s)\<lparr>ur_core := (ur_core (sv_udp s))\<lparr>udp_sys := tr_sys t, udp_crashed := tr_crashed t\<rparr>\<rparr>\<rparr>"

definition cancelRun :: "'w ServerRun \<Rightarrow> 'w ServerRun" where
  "cancelRun s = s\<lparr>sv_udp := (sv_udp s)\<lparr>ur_ctx := True\<rparr>, sv_tcp := map_option (\<lambda>t. t\<lparr>tr_ctx := True\<rparr>) (sv_tcp s)\<rparr>"

text \<open>The return, with the deferred \<open>resolver.Close\<close> and \<open>cancelRun\<close>.\<close>

definition returnRunner :: "string option \<Rightarrow> 'w ServerRun \<Rightarrow> 'w ServerRun" where
  "returnRunner r s = (cancelRun s)\<lparr>sv_runner := RunnerReturned r, sv_closed := True\<rparr>"

definition serverResult :: "'w ServerRun \<Rightarrow> string option \<Rightarrow> bool" where
  "serverResult s r \<longleftrightarrow> ur_phase (sv_udp s) = UReturned r \<or> (\<exists>t. sv_tcp s = Some t \<and> tr_phase t = TReturned r)"

definition stopUDP :: "'w ServerRun \<Rightarrow> 'w ServerRun" where
  "stopUDP s = s\<lparr>sv_udp := closeConns (sv_udp s), sv_runner := RunnerStoppingUDP\<rparr>"

definition udpQuiet :: "'s UDPRun \<Rightarrow> bool" where
  "udpQuiet u \<longleftrightarrow> allExited u \<and> (\<forall>n. ur_phase u \<noteq> UStarting n)"

definition tcpQuiet :: "'s TCPRun \<Rightarrow> bool" where
  "tcpQuiet t \<longleftrightarrow> tcpExited t \<and> (\<forall>n. tr_phase t \<noteq> TStarting n)"

definition stopTCP :: "'w ServerRun \<Rightarrow> 'w ServerRun" where
  "stopTCP s =
     (let s1 = s\<lparr>sv_clean := sv_clean s \<and> udpQuiet (sv_udp s)\<rparr> in
      case sv_tcp s of
        None \<Rightarrow> returnRunner None s1
      | Some t \<Rightarrow> s1\<lparr>sv_tcp := Some (closeListeners t), sv_runner := RunnerStoppingTCP\<rparr>)"

definition finishRunner :: "'w ServerRun \<Rightarrow> 'w ServerRun" where
  "finishRunner s =
     returnRunner None (s\<lparr>sv_clean := sv_clean s \<and> (\<forall>t \<in> set_option (sv_tcp s). tcpQuiet t)\<rparr>)"

inductive server_step :: "go_unicode \<Rightarrow> 'w hydra QueryHandler option \<Rightarrow> 'w ServerRun \<Rightarrow> 'w ServerRun \<Rightarrow> bool"
  for uc h
where
  udp: "run_step uc h (sv_udp s) u \<Longrightarrow> ur_ctx u = ur_ctx (sv_udp s) \<Longrightarrow> server_step uc h s (afterUDP u s)"
| tcp: "sv_tcp s = Some t \<Longrightarrow> trun_step uc h t t' \<Longrightarrow> tr_ctx t' = tr_ctx t \<Longrightarrow> server_step uc h s (afterTCP t' s)"
| signal: "server_step uc h s (cancelRun s)"
| ended: "sv_runner s = RunnerWaiting \<Longrightarrow> ur_ctx (sv_udp s) \<or> serverResult s None \<Longrightarrow> server_step uc h s (stopUDP s)"
| broken: "sv_runner s = RunnerWaiting \<Longrightarrow> serverResult s (Some e) \<Longrightarrow> server_step uc h s (returnRunner (Some e) s)"
| udpStopped: "sv_runner s = RunnerStoppingUDP \<Longrightarrow> server_step uc h s (stopTCP s)"
| tcpStopped: "sv_runner s = RunnerStoppingTCP \<Longrightarrow> server_step uc h s (finishRunner s)"

lemmas runner_ops = afterUDP_def afterTCP_def cancelRun_def returnRunner_def stopUDP_def stopTCP_def finishRunner_def Let_def

section \<open>A server that is quiet stays quiet\<close>

lemma exited_close: "exited (k\<lparr>so_open := b\<rparr>) = exited k"
  by (simp add: exited_def)

lemma udpQuiet_step: "run_step uc h u u' \<Longrightarrow> udpQuiet u \<Longrightarrow> udpQuiet u'"
  unfolding run_step_def
proof (elim disjE)
  assume go: "go_step uc h u u'" and "udpQuiet u"
  then have "exited (ur_conns u ! i)" if "i < length (ur_conns u)" for i
    using that by (simp add: udpQuiet_def allExited_def list_all_length)
  then have e: "so_recv (ur_conns u ! i) = RecvExit" "j < length (so_workers (ur_conns u ! i)) \<Longrightarrow> so_workers (ur_conns u ! i) ! j = WorkExit"
    if "i < length (ur_conns u)" for i j using that by (auto simp: exited_def list_all_length)
  from go show ?thesis by cases (auto dest: e)
next
  assume "env_step u u'" "udpQuiet u"
  then show ?thesis by cases (auto simp: udpQuiet_def allExited_def)
next
  assume "main_step u u'" "udpQuiet u"
  then show ?thesis by cases (auto simp: udpQuiet_def allExited_def closeConns_def list.pred_map comp_def exited_close)
qed

lemma tcpQuiet_step: "trun_step uc h t t' \<Longrightarrow> tcpQuiet t \<Longrightarrow> tcpQuiet t'"
  unfolding trun_step_def
proof (elim disjE)
  assume "tgo_step uc h t t'" "tcpQuiet t"
  then show ?thesis by cases (auto simp: tcpQuiet_def tcpExited_def list_all_length)
next
  assume "tenv_step t t'" "tcpQuiet t"
  then show ?thesis by cases (auto simp: tcpQuiet_def tcpExited_def)
next
  assume "tmain_step t t'" "tcpQuiet t"
  then show ?thesis by cases (auto simp: tcpQuiet_def tcpExited_def closeListeners_def list.pred_map comp_def)
qed

lemma udp_result_final: "run_step uc h u u' \<Longrightarrow> ur_phase u = UReturned r \<Longrightarrow> ur_phase u' = UReturned r"
  unfolding run_step_def
  by (auto dest: go_phase [OF r_into_rtranclp] elim!: env_step.cases main_step.cases)

lemma tcp_result_final: "trun_step uc h t t' \<Longrightarrow> tr_phase t = TReturned r \<Longrightarrow> tr_phase t' = TReturned r"
  unfolding trun_step_def by (auto dest: tgo_time elim!: tenv_step.cases tmain_step.cases)

section \<open>Invariant\<close>

definition serversOK :: "go_unicode \<Rightarrow> 'w ServerRun \<Rightarrow> bool" where
  "serversOK uc s \<longleftrightarrow> runInv uc (sv_udp s) \<and>
     (\<forall>t \<in> set_option (sv_tcp s). tcpRunInv uc t \<and> tr_sys t = udp_sys (ur_core (sv_udp s)) \<and>
        tr_ctx t = ur_ctx (sv_udp s))"

definition runnerOK :: "'w ServerRun \<Rightarrow> bool" where
  "runnerOK s \<longleftrightarrow> (sv_closed s \<longleftrightarrow> sv_runner s \<in> range RunnerReturned) \<and>
     (sv_runner s \<noteq> RunnerWaiting \<longrightarrow> ur_ctx (sv_udp s)) \<and>
     (\<forall>e. sv_runner s = RunnerReturned (Some e) \<longrightarrow> serverResult s (Some e)) \<and>
     (sv_clean s \<longrightarrow> sv_runner s \<in> {RunnerStoppingTCP, RunnerReturned None} \<longrightarrow> udpQuiet (sv_udp s)) \<and>
     (sv_clean s \<longrightarrow> sv_runner s = RunnerReturned None \<longrightarrow> (\<forall>t \<in> set_option (sv_tcp s). tcpQuiet t))"

lemma runInv_share:
  "runInv uc u \<Longrightarrow> hydraInv uc (fst y) \<Longrightarrow>
   runInv uc (u\<lparr>ur_core := (ur_core u)\<lparr>udp_sys := y, udp_crashed := False\<rparr>\<rparr>)"
  by (simp add: runInv_def udpInv_def queueCap_def closedConns_def answered_def)

lemma tcpRunInv_share:
  "tcpRunInv uc t \<Longrightarrow> hydraInv uc (fst y) \<Longrightarrow> tcpRunInv uc (t\<lparr>tr_sys := y, tr_crashed := False\<rparr>)"
  by (simp add: tcpRunInv_def tcpCore_def closedListeners_def)

lemma runInv_close: "runInv uc u \<Longrightarrow> runInv uc (closeConns u)"
  by (auto simp: runInv_def closeConns_def socketOK_def closedConns_def)

lemma tcpRunInv_close: "tcpRunInv uc t \<Longrightarrow> tcpRunInv uc (closeListeners t)"
  by (auto simp: tcpRunInv_def closeListeners_def tcpCore_def closedListeners_def)

lemma runInv_run: "run_step uc (Some (hydraHandler uc env sel)) u u' \<Longrightarrow> runInv uc u \<Longrightarrow> runInv uc u'"
  by (rule runInv_reachable [OF r_into_rtranclp])

lemma tcpRunInv_run: "trun_step uc (Some (hydraHandler uc env sel)) t t' \<Longrightarrow> tcpRunInv uc t \<Longrightarrow> tcpRunInv uc t'"
  by (rule tcpRunInv_reachable [OF r_into_rtranclp])

lemma runInv_healthy: "runInv uc u \<Longrightarrow> hydraInv uc (fst (udp_sys (ur_core u))) \<and> \<not> udp_crashed (ur_core u)"
  by (simp add: runInv_def udpInv_def)

lemma tcpRunInv_healthy: "tcpRunInv uc t \<Longrightarrow> hydraInv uc (fst (tr_sys t)) \<and> \<not> tr_crashed t"
  by (simp add: tcpRunInv_def tcpCore_def)

lemma serversOK_afterUDP:
  assumes "serversOK uc s" "run_step uc (Some (hydraHandler uc env sel)) (sv_udp s) u" "ur_ctx u = ur_ctx (sv_udp s)"
  shows "serversOK uc (afterUDP u s)"
proof -
  have u: "runInv uc u" using assms(1) runInv_run [OF assms(2)] by (simp add: serversOK_def)
  show ?thesis
  proof (cases "sv_tcp s")
    case (Some t)
    with tcpRunInv_share [of uc t "udp_sys (ur_core u)"] runInv_healthy [OF u] u assms(1,3) show ?thesis
      by (simp add: serversOK_def afterUDP_def)
  qed (use u in \<open>simp add: serversOK_def afterUDP_def\<close>)
qed

lemma serversOK_afterTCP:
  assumes "serversOK uc s" "sv_tcp s = Some t" "trun_step uc (Some (hydraHandler uc env sel)) t t'" "tr_ctx t' = tr_ctx t"
  shows "serversOK uc (afterTCP t' s)"
proof -
  have t: "tcpRunInv uc t'" using assms(1,2) tcpRunInv_run [OF assms(3)] by (simp add: serversOK_def)
  with runInv_share [of uc "sv_udp s" "tr_sys t'"] tcpRunInv_healthy [OF t] assms show ?thesis
    by (simp add: serversOK_def afterTCP_def)
qed

lemma serversOK_cancel: "serversOK uc s \<Longrightarrow> serversOK uc (cancelRun s)"
  using runInv_env [OF env_step.cancel, of uc "sv_udp s"] tcpRunInv_quiet [OF disjI1 [OF tenv_step.cancel]]
  by (auto simp: serversOK_def cancelRun_def)

lemma serversOK_cong:
  "serversOK uc s \<Longrightarrow> sv_udp s' = sv_udp s \<Longrightarrow> sv_tcp s' = sv_tcp s \<Longrightarrow> serversOK uc s'"
  by (simp add: serversOK_def)

lemma serversOK_return: "serversOK uc s \<Longrightarrow> serversOK uc (returnRunner r s)"
  by (rule serversOK_cong [OF serversOK_cancel]) (simp_all add: returnRunner_def)

lemma serversOK_step:
  "server_step uc h s s' \<Longrightarrow> h = Some (hydraHandler uc env sel) \<Longrightarrow> serversOK uc s \<Longrightarrow> serversOK uc s'"
proof (induction rule: server_step.induct)
  case (ended s)
  then show ?case by (auto simp: serversOK_def stopUDP_def runInv_close) (auto simp: closeConns_def)
next
  case (udpStopped s)
  show ?case
  proof (cases "sv_tcp s")
    case None
    with udpStopped serversOK_return [OF serversOK_cong [of uc s]] show ?thesis by (simp add: stopTCP_def Let_def)
  next
    case (Some t)
    with udpStopped show ?thesis
      by (auto simp: serversOK_def stopTCP_def Let_def tcpRunInv_close) (auto simp: closeListeners_def)
  qed
next
  case (tcpStopped s)
  with serversOK_return [OF serversOK_cong [of uc s]] show ?case by (simp add: finishRunner_def)
qed (simp_all add: serversOK_afterUDP serversOK_afterTCP serversOK_cancel serversOK_return)

lemma quiet_share:
  "udpQuiet (u\<lparr>ur_core := c\<rparr>) = udpQuiet u" "udpQuiet (u\<lparr>ur_ctx := b\<rparr>) = udpQuiet u"
  "tcpQuiet (t\<lparr>tr_sys := y, tr_crashed := b\<rparr>) = tcpQuiet t" "tcpQuiet (t\<lparr>tr_ctx := b\<rparr>) = tcpQuiet t"
  by (simp_all add: udpQuiet_def allExited_def tcpQuiet_def tcpExited_def)

lemma runnerOK_cancel: "runnerOK s \<Longrightarrow> runnerOK (cancelRun s)"
  by (auto simp: runnerOK_def cancelRun_def quiet_share serverResult_def)

lemma runnerOK_step:
  "server_step uc h s s' \<Longrightarrow> serversOK uc s \<Longrightarrow> runnerOK s \<Longrightarrow> runnerOK s'"
proof (induction rule: server_step.induct)
  case (udp s u)
  from udpQuiet_step [OF udp.hyps(1)] udp_result_final [OF udp.hyps(1)] udp show ?case
    by (auto simp: runnerOK_def afterUDP_def serverResult_def quiet_share)
next
  case (tcp s t t')
  from tcpQuiet_step [OF tcp.hyps(2)] tcp_result_final [OF tcp.hyps(2)] tcp show ?case
    by (auto simp: runnerOK_def afterTCP_def serverResult_def quiet_share)
next
  case (ended s)
  then have "ur_ctx (sv_udp s)"
    by (auto simp: serverResult_def serversOK_def runInv_def tcpRunInv_def)
  with ended show ?case by (auto simp: runnerOK_def stopUDP_def closeConns_def)
next
  case (udpStopped s)
  then show ?case
    by (auto simp: runnerOK_def runner_ops quiet_share split: option.split)
qed (auto simp: runnerOK_cancel, auto simp: runnerOK_def runner_ops quiet_share serverResult_def)

lemma server_reachable:
  assumes "(server_step uc (Some (hydraHandler uc env sel)))\<^sup>*\<^sup>* s s'" "serversOK uc s" "runnerOK s"
  shows "serversOK uc s' \<and> runnerOK s'"
  using assms(1) by (induction rule: rtranclp_induct)
    (use assms(2,3) in \<open>auto intro: serversOK_step runnerOK_step\<close>)

lemma startServers_OK:
  assumes "hydraInv uc (fst (udp_sys u))" "udp_queue u = []" "udp_sent u = []" "\<not> udp_crashed u"
    "\<forall>l. udp_limiter u = Some l \<longrightarrow> limiterInv l"
  shows "serversOK uc (startServers n now b u)" "runnerOK (startServers n now b u)"
  using udpRun_inv(1) [OF assms, of n] tcpRun_inv [OF assms(1), of n now]
  by (auto simp: serversOK_def runnerOK_def startServers_def udpRun_def tcpRun_def)

lemma RunWithContext_OK:
  assumes "hostsBounded cfg" "\<forall>pe. injected = Some pe \<longrightarrow> policyInv pe"
  shows "serversOK uc (RunWithContext uc pd cfg procs n injected stats now w)"
    "runnerOK (RunWithContext uc pd cfg procs n injected stats now w)"
  unfolding RunWithContext_def
  by (rule startServers_OK [of uc "udpServerOf uc pd cfg procs injected stats now w"];
      simp add: udpServerOf_def hydraInv_start assms limiterInv_New)+

section \<open>A return with requests in flight\<close>

text \<open>Steps of the TCP server alone, lifted to the servers together.\<close>

lemma tcp_lift:
  assumes "(\<lambda>t t'. trun_step uc h t t' \<and> tr_ctx t' = tr_ctx t)\<^sup>*\<^sup>* t t'" "sv_tcp s = Some t"
  shows "(server_step uc h)\<^sup>*\<^sup>* s s \<and> (t' = t \<or> (server_step uc h)\<^sup>*\<^sup>* s (afterTCP t' s))"
  using assms(1)
proof (induction rule: rtranclp_induct)
  case (step a b)
  have "server_step uc h (afterTCP a s) (afterTCP b (afterTCP a s))"
    by (rule server_step.tcp) (use step.hyps(2) in \<open>simp_all add: afterTCP_def\<close>)
  moreover have "afterTCP b (afterTCP a s) = afterTCP b s" by (simp add: afterTCP_def)
  moreover have "server_step uc h s (afterTCP b s)" if "a = t"
    by (rule server_step.tcp [OF assms(2)]) (use step.hyps(2) that in auto)
  ultimately show ?case using step.IH by (auto intro: rtranclp.rtrancl_into_rtrancl)
qed simp

text \<open>One listener, one client that sends one message.\<close>

lemma tcp_serving_reached:
  assumes msg: "msg \<noteq> []" "length msg \<le> maxTCPMessageSize"
  shows "\<exists>t k. (\<lambda>t t'. trun_step uc h t t' \<and> tr_ctx t' = tr_ctx t)\<^sup>*\<^sup>* (tcpRun 1 now y) t \<and>
    t \<noteq> tcpRun 1 now y \<and> tr_conns t = [k] \<and> tn_state k = ConnServe msg \<and> tr_sys t = y \<and> \<not> tr_crashed t"
proof -
  define R where "R = (\<lambda>t t'. trun_step uc h t t' \<and> tr_ctx t' = tr_ctx t)"
  let ?client = "PutUint16 (word_of_nat (length msg)) @ msg"
  define t1 where "t1 = startListener 0 (tcpRun 1 now y)"
  define t2 where "t2 = acceptConn ''10.0.0.1'' ?client True t1"
  define t3 where "t3 = startConn 0 t2"
  define t4 where "t4 = checkConn 0 t3"
  define t5 where "t5 = readLength 0 t4"
  define t6 where "t6 = readBody 0 (length msg) t5"
  have len: "unat (word_of_nat (length msg) :: uint16) = length msg"
    using msg(2) by (simp add: maxTCPMessageSize_def unat_of_nat)
  have p1: "tr_listeners t1 = [\<lparr>ln_open = True, ln_accepting = True\<rparr>]" "tr_conns t1 = []" "\<not> tr_crashed t1" "\<not> tr_ctx t1"
    "tr_sys t1 = y" "tr_counts t1 = fmempty" by (simp_all add: t1_def startListener_def tcpRun_def)
  have p2: "tr_conns t2 = [newConn ''10.0.0.1'' ?client True]" "\<not> tr_crashed t2" "\<not> tr_ctx t2" "tr_sys t2 = y"
    by (simp_all add: t2_def acceptConn_def tryAcquireConn_def connCount_def maxTCPConnectionsPerIP_def p1 Let_def)
  obtain k3 where p3: "tr_conns t3 = [k3]" "tn_state k3 = ConnCheck" "tn_client k3 = ?client" "tn_left k3 = 100"
    "\<not> tr_crashed t3" "\<not> tr_ctx t3" "tr_sys t3 = y"
    by (simp add: t3_def conn_ops p2 newConn_def maxQueriesPerConnection_def)
  obtain k4 where p4: "tr_conns t4 = [k4]" "tn_state k4 = ConnLen" "tn_client k4 = ?client"
    "\<not> tr_crashed t4" "\<not> tr_ctx t4" "tr_sys t4 = y"
    by (simp add: t4_def conn_ops p3 split: nat.split)
  obtain k5 where p5: "tr_conns t5 = [k5]" "tn_state k5 = ConnBody (length msg)" "tn_client k5 = msg"
    "\<not> tr_crashed t5" "\<not> tr_ctx t5" "tr_sys t5 = y"
    using msg by (simp add: t5_def conn_ops p4 ReadFull_def len)
  obtain k6 where p6: "tr_conns t6 = [k6]" "tn_state k6 = ConnServe msg" "\<not> tr_crashed t6" "\<not> tr_ctx t6" "tr_sys t6 = y"
    by (simp add: t6_def conn_ops p5 ReadFull_def)
  have "tmain_step (tcpRun 1 now y) t1" unfolding t1_def by (rule tmain_step.opened) (simp add: tcpRun_def)
  moreover have "tgo_step uc h t1 t2" unfolding t2_def by (rule tgo_step.accept [of _ 0]) (simp_all add: p1)
  moreover have "tgo_step uc h t2 t3" unfolding t3_def by (rule tgo_step.start) (simp_all add: p2 newConn_def)
  moreover have "tgo_step uc h t3 t4" unfolding t4_def by (rule tgo_step.check) (simp_all add: p3)
  moreover have "tgo_step uc h t4 t5" unfolding t5_def by (rule tgo_step.readLen) (simp_all add: p4)
  moreover have "tgo_step uc h t5 t6" unfolding t6_def by (rule tgo_step.readMsg) (simp_all add: p5)
  moreover have "\<not> tr_ctx (tcpRun 1 now y)" by (simp add: tcpRun_def)
  ultimately have "R (tcpRun 1 now y) t1" "R t1 t2" "R t2 t3" "R t3 t4" "R t4 t5" "R t5 t6"
    using p1(4) p2(3) p3(6) p4(5) p5(5) p6(4) by (simp_all add: R_def trun_step_def)
  then have "R\<^sup>*\<^sup>* (tcpRun 1 now y) t6" by (meson r_into_rtranclp rtranclp.rtrancl_into_rtrancl)
  moreover have "t6 \<noteq> tcpRun 1 now y" using p6(1) by (auto simp: tcpRun_def)
  ultimately show ?thesis using p6 unfolding R_def by blast
qed

lemma closed_while_serving:
  assumes msg: "msg \<noteq> []" "length msg \<le> maxTCPMessageSize"
  shows "\<exists>s t. (server_step uc h)\<^sup>*\<^sup>* (startServers 1 now True u) s \<and> sv_runner s = RunnerReturned (Some err) \<and>
    sv_closed s \<and> sv_tcp s = Some t \<and> tn_state (tr_conns t ! 0) = ConnServe msg \<and> length (tr_conns t) = 1"
proof -
  let ?s0 = "startServers 1 now True u"
  obtain t k where t: "(\<lambda>t t'. trun_step uc h t t' \<and> tr_ctx t' = tr_ctx t)\<^sup>*\<^sup>* (tcpRun 1 now (udp_sys u)) t"
    "t \<noteq> tcpRun 1 now (udp_sys u)" "tr_conns t = [k]" "tn_state k = ConnServe msg"
    using tcp_serving_reached [OF msg] by blast
  let ?s1 = "afterTCP t ?s0"
  have r1: "(server_step uc h)\<^sup>*\<^sup>* ?s0 ?s1"
    using tcp_lift [OF t(1), of ?s0] t(2) by (simp add: startServers_def)
  let ?u = "(closeConns (sv_udp ?s1))\<lparr>ur_phase := UReturned (Some err)\<rparr>"
  have "main_step (sv_udp ?s1) ?u"
    by (rule main_step.failed) (simp add: afterTCP_def startServers_def udpRun_def)
  then have r2: "server_step uc h ?s1 (afterUDP ?u ?s1)"
    by (intro server_step.udp) (simp_all add: run_step_def closeConns_def)
  have "server_step uc h (afterUDP ?u ?s1) (returnRunner (Some err) (afterUDP ?u ?s1))"
    by (rule server_step.broken) (simp_all add: afterUDP_def afterTCP_def startServers_def serverResult_def)
  with r1 r2 have "(server_step uc h)\<^sup>*\<^sup>* ?s0 (returnRunner (Some err) (afterUDP ?u ?s1))"
    by (meson rtranclp.rtrancl_into_rtrancl)
  moreover obtain t' where "sv_tcp (returnRunner (Some err) (afterUDP ?u ?s1)) = Some t'" "tr_conns t' = tr_conns t"
    by (simp add: runner_ops)
  moreover have "sv_runner (returnRunner (Some err) s) = RunnerReturned (Some err)" "sv_closed (returnRunner (Some err) s)"
    for s :: "'a ServerRun" by (simp_all add: returnRunner_def)
  ultimately show ?thesis using t(3,4) by (metis length_Cons list.size(3) nth_Cons_0 One_nat_def)
qed

end
