(* ===== verification/Net_Addr.thy ===== *)
theory Net_Addr
  imports Config
begin

text \<open>
  Host and port as text: Go's \<open>net.JoinHostPort\<close> and \<open>net.SplitHostPort\<close> as the sources use
  them, the key under which \<open>tcp_server.go\<close> counts connections (\<open>remoteIPString\<close>), and the
  addresses the DNS servers and the management API listen on.
\<close>

section \<open>Go's net package\<close>

definition JoinHostPort :: "string \<Rightarrow> string \<Rightarrow> string" where
  "JoinHostPort host port =
     (if CHR '':'' \<in> set host then ''['' @ host @ '']:'' @ port else host @ '':'' @ port)"

definition indexByte :: "string \<Rightarrow> char \<Rightarrow> nat option" where
  "indexByte s c = (if c \<in> set s then Some (length (takeWhile (\<lambda>x. x \<noteq> c) s)) else None)"

definition lastIndexByte :: "string \<Rightarrow> char \<Rightarrow> nat option" where
  "lastIndexByte s c =
     (if c \<in> set s then Some (length s - 1 - length (takeWhile (\<lambda>x. x \<noteq> c) (rev s))) else None)"

datatype addr_error = MissingPort | TooManyColons | MissingBracket | UnexpectedBracket char

definition splitFinish :: "string \<Rightarrow> nat \<Rightarrow> string \<Rightarrow> nat \<Rightarrow> nat \<Rightarrow> addr_error + string \<times> string" where
  "splitFinish s i host j k =
     (if CHR ''['' \<in> set (drop j s) then Inl (UnexpectedBracket (CHR ''[''))
      else if CHR '']'' \<in> set (drop k s) then Inl (UnexpectedBracket (CHR '']''))
      else Inr (host, drop (i + 1) s))"

definition SplitHostPort :: "string \<Rightarrow> addr_error + string \<times> string" where
  "SplitHostPort s =
     (case lastIndexByte s (CHR '':'') of
        None \<Rightarrow> Inl MissingPort
      | Some i \<Rightarrow>
          if s ! 0 = CHR ''['' then
            (case indexByte s (CHR '']'') of
               None \<Rightarrow> Inl MissingBracket
             | Some e \<Rightarrow>
                 if e + 1 = length s then Inl MissingPort
                 else if e + 1 = i then splitFinish s i (take (e - 1) (drop 1 s)) 1 (e + 1)
                 else if s ! (e + 1) = CHR '':'' then Inl TooManyColons
                 else Inl MissingPort)
          else if CHR '':'' \<in> set (take i s) then Inl TooManyColons
          else splitFinish s i (take i s) 0 0)"

section \<open>Addresses of the program\<close>

text \<open>\<open>addr.String()\<close> of the peer, or no address.\<close>

definition remoteIPString :: "string option \<Rightarrow> string" where
  "remoteIPString addr =
     (case addr of
        None \<Rightarrow> ''''
      | Some text \<Rightarrow> (case SplitHostPort text of Inr (host, _) \<Rightarrow> host | Inl _ \<Rightarrow> text))"

definition dnsAddr :: "Config \<Rightarrow> string" where
  "dnsAddr cfg = JoinHostPort (sc_Host (Server cfg)) (Itoa (sc_Port (Server cfg)))"

definition apiAddr :: "Config \<Rightarrow> string" where
  "apiAddr cfg = JoinHostPort (ac_Host (API cfg)) (Itoa (ac_Port (API cfg)))"

section \<open>Splitting what was joined\<close>

lemma lastIndexByte_append: "c \<notin> set ys \<Longrightarrow> lastIndexByte (xs @ c # ys) c = Some (length xs)"
proof -
  assume "c \<notin> set ys"
  then have "takeWhile (\<lambda>x. x \<noteq> c) (rev (xs @ c # ys)) = rev ys"
    by (auto simp: takeWhile_append takeWhile_eq_all_conv [THEN iffD2])
  then show ?thesis by (simp add: lastIndexByte_def)
qed

lemma indexByte_append: "c \<notin> set xs \<Longrightarrow> indexByte (xs @ c # ys) c = Some (length xs)"
  by (auto simp: indexByte_def takeWhile_append takeWhile_eq_all_conv [THEN iffD2])

definition plainText :: "string \<Rightarrow> bool" where
  "plainText s \<longleftrightarrow> CHR ''['' \<notin> set s \<and> CHR '']'' \<notin> set s"

lemma SplitHostPort_JoinHostPort:
  assumes "plainText host" "plainText port" "CHR '':'' \<notin> set port"
  shows "SplitHostPort (JoinHostPort host port) = Inr (host, port)"
proof (cases "CHR '':'' \<in> set host")
  case True
  let ?s = "''['' @ host @ '']:'' @ port"
  have s: "?s = (''['' @ host @ '']'') @ CHR '':'' # port" "?s = (''['' @ host) @ CHR '']'' # CHR '':'' # port" by simp_all
  have "lastIndexByte ?s (CHR '':'') = Some (length host + 2)"
    unfolding s(1) using lastIndexByte_append [OF assms(3), of "''['' @ host @ '']''"] by simp
  moreover have "indexByte ?s (CHR '']'') = Some (length host + 1)"
    unfolding s(2) using indexByte_append [of "CHR '']''" "''['' @ host"] assms(1) by (simp add: plainText_def)
  moreover have "drop (3 + length host) ?s = port" by (simp add: numeral_3_eq_3)
  ultimately show ?thesis using True assms
    by (simp add: SplitHostPort_def JoinHostPort_def splitFinish_def plainText_def)
next
  case False
  have "lastIndexByte (host @ '':'' @ port) (CHR '':'') = Some (length host)"
    using lastIndexByte_append [OF assms(3), of host] by simp
  moreover have "(host @ '':'' @ port) ! 0 \<noteq> CHR ''[''"
    using assms(1) by (cases host) (auto simp: plainText_def)
  ultimately show ?thesis using False assms
    by (simp add: SplitHostPort_def JoinHostPort_def splitFinish_def plainText_def)
qed

lemma Itoa_plain: "plainText (Itoa i)" "CHR '':'' \<notin> set (Itoa i)"
proof -
  have "c \<notin> set (natDigits n)" if "of_char c \<ge> (58 :: nat)" for c n
    using set_natDigits [of c n] that of_char_digitChar by force
  then show "plainText (Itoa i)" "CHR '':'' \<notin> set (Itoa i)" by (simp_all add: plainText_def Itoa_def)
qed

text \<open>The key of a connection is the host part of its peer, whatever the port.\<close>

lemma remoteIPString_host: "plainText ip \<Longrightarrow> remoteIPString (Some (JoinHostPort ip (Itoa port))) = ip"
  by (simp add: remoteIPString_def SplitHostPort_JoinHostPort Itoa_plain)

lemma listenAddr_split:
  "plainText (sc_Host (Server cfg)) \<Longrightarrow>
     SplitHostPort (dnsAddr cfg) = Inr (sc_Host (Server cfg), Itoa (sc_Port (Server cfg)))"
  "plainText (ac_Host (API cfg)) \<Longrightarrow> SplitHostPort (apiAddr cfg) = Inr (ac_Host (API cfg), Itoa (ac_Port (API cfg)))"
  by (simp_all add: dnsAddr_def apiAddr_def SplitHostPort_JoinHostPort Itoa_plain)

end
