(* ===== verification/Rate_Log.thy ===== *)
theory Rate_Log
  imports Rate_Limit
begin

text \<open>
  \<open>FormatRateLimitsLog\<close> of \<open>internal/server/rate_limit.go\<close>, the line that tells the operator
  which limits are in force. The verb \<open>%g\<close> is the argument \<open>g\<close>.
\<close>

definition fmtLimiter :: "(rat \<Rightarrow> string) \<Rightarrow> string \<Rightarrow> rat \<Rightarrow> int \<Rightarrow> string" where
  "fmtLimiter g name rate burst =
     (if rate \<le> 0 \<or> burst \<le> 0 then name @ ''=disabled''
      else name @ ''='' @ g rate @ ''qps/'' @ Itoa burst)"

definition FormatRateLimitsLog :: "(rat \<Rightarrow> string) \<Rightarrow> RateLimitConfig \<Rightarrow> string" where
  "FormatRateLimitsLog g s =
     fmtLimiter g ''global'' (rc_GlobalQPS s) (rc_GlobalBurst s) @ '' '' @
     fmtLimiter g ''prefix'' (rc_PrefixQPS s) (rc_PrefixBurst s) @ '' '' @
     fmtLimiter g ''ip'' (rc_IPQPS s) (rc_IPBurst s) @
     '' cleanup_s='' @ g (rc_CleanupSeconds s) @ '' max_ip='' @ Itoa (rc_MaxIPEntries s) @
     '' max_prefix='' @ Itoa (rc_MaxPrefixEntries s)"

lemma last_natDigits: "\<exists>d < 10. last (natDigits n) = digitChar d"
  by (subst natDigits.simps) (auto intro: exI [of _ n] exI [of _ "n mod 10"])

lemma last_Itoa_pos: "0 \<le> i \<Longrightarrow> of_char (last (Itoa i)) < (58 :: nat)"
  using last_natDigits [of "nat i"] of_char_digitChar by (auto simp: Itoa_def)

lemma Itoa_not_Nil: "Itoa i \<noteq> []"
  by (subst Itoa_def) (auto simp: natDigits.simps [of "nat i"])

lemma fmtLimiter_disabled_iff: "fmtLimiter g name rate burst = name @ ''=disabled'' \<longleftrightarrow> rate \<le> 0 \<or> burst \<le> 0"
proof -
  have "fmtLimiter g name rate burst \<noteq> name @ ''=disabled''" if "\<not> (rate \<le> 0 \<or> burst \<le> 0)"
  proof
    assume "fmtLimiter g name rate burst = name @ ''=disabled''"
    then have "last (fmtLimiter g name rate burst) = CHR ''d''" by simp
    moreover have "last (fmtLimiter g name rate burst) = last (Itoa burst)"
      using that Itoa_not_Nil [of burst] by (simp add: fmtLimiter_def)
    ultimately show False using last_Itoa_pos [of burst] that by simp
  qed
  then show ?thesis by (auto simp: fmtLimiter_def)
qed

text \<open>A bucket lets everything through, and keeps nothing, exactly when the line calls it disabled.\<close>

lemma round64_burst_iff: "round64 (of_int n) \<le> 0 \<longleftrightarrow> n \<le> 0"
proof
  show "n \<le> 0" if "round64 (of_int n) \<le> 0"
  proof (rule ccontr)
    assume "\<not> n \<le> 0"
    then have "(1 :: rat) \<le> of_int n" by simp
    from f64.rnd_mono [OF this] that show False by simp
  qed
  show "round64 (of_int n) \<le> 0" if "n \<le> 0" using f64.rnd_mono [of "of_int n" 0] that by simp
qed

lemma disabled_bucket:
  "fmtLimiter g name rate burst = name @ ''=disabled'' \<longleftrightarrow>
   (\<forall>key t. Bucket_Allow (NewTokenBucketRateLimiter \<lparr>tb_Rate = rate, tb_Burst = burst, tb_CleanupInterval = ci,
        tb_MaxEntries = m\<rparr> now) key t =
      (True, NewTokenBucketRateLimiter \<lparr>tb_Rate = rate, tb_Burst = burst, tb_CleanupInterval = ci,
        tb_MaxEntries = m\<rparr> now))" (is "?d \<longleftrightarrow> (\<forall>key t. Bucket_Allow ?l key t = (True, ?l))")
proof
  assume ?d
  then show "\<forall>key t. Bucket_Allow ?l key t = (True, ?l)"
    by (auto simp: fmtLimiter_disabled_iff Bucket_Allow_def NewTokenBucketRateLimiter_def round64_burst_iff)
next
  assume a: "\<forall>key t. Bucket_Allow ?l key t = (True, ?l)"
  show ?d
  proof (rule ccontr)
    assume "\<not> ?d"
    then have pos: "\<not> (rl_rate ?l \<le> 0 \<or> rl_burst ?l \<le> 0)"
      by (simp add: fmtLimiter_disabled_iff NewTokenBucketRateLimiter_def round64_burst_iff)
    have empty: "rl_lastUpdate ?l = fmempty" "0 < rl_cleanupInterval ?l" "0 < rl_maxEntries ?l" "rl_lastCleanup ?l = now"
      by (simp_all add: NewTokenBucketRateLimiter_def Second_def)
    have "\<not> tracked ?l \<ge> rl_maxEntries ?l" using empty by (simp add: tracked_def fcard_fempty)
    moreover have "Sub now now = 0" by (simp add: Sub_def duration_defs)
    ultimately have "Bucket_Allow ?l ''k'' now = charge ?l ''k'' now"
      using pos empty(2,4) by (simp add: Bucket_Allow_def Let_def)
    then have "rl_lastUpdate (snd (Bucket_Allow ?l ''k'' now)) \<noteq> fmempty"
      by (simp add: charge_def setBucket_def Let_def)
    with a empty show False by simp
  qed
qed

end
