(* ===== verification/Web_UI.thy ===== *)
theory Web_UI
  imports GoStrings
begin

text \<open>
  \<open>internal/api/spa_mount.go\<close>: what a request gets that no route and no embedded file matched.
  The embedded \<open>index.html\<close> is an argument, \<^const>\<open>None\<close> when the build has none; opening it
  then fails, the error is logged, and the nil file is used all the same. Gin's recovery turns
  the panic into status 500, and a handler that writes nothing leaves its status 404.
\<close>

datatype ui_reply = ServeIndex string | WroteNothing | RoutePanic

definition noRoute :: "string \<Rightarrow> string option \<Rightarrow> ui_reply" where
  "noRoute requestURI index =
     (if \<not> HasPrefix requestURI ''/api'' then
        (case index of None \<Rightarrow> RoutePanic | Some html \<Rightarrow> ServeIndex html)
      else WroteNothing)"

fun uiStatus :: "ui_reply \<Rightarrow> nat" where
  "uiStatus (ServeIndex html) = 200"
| "uiStatus WroteNothing = 404"
| "uiStatus RoutePanic = 500"

text \<open>With an index every page of the application is served; without it every page is an error.\<close>

lemma noRoute_status:
  "uiStatus (noRoute uri index) = (if HasPrefix uri ''/api'' then 404 else if index = None then 500 else 200)"
  by (simp add: noRoute_def split: option.split)

end
