(* ===== verification/Db_Open.thy ===== *)
theory Db_Open
  imports GoTime
begin

text \<open>
  \<open>internal/database/db.go\<close>: opening the database and bringing its schema up to date. The
  SQL driver and the migration library are arguments, acting on a state \<open>'w\<close> of their own with
  handles \<open>'c\<close>; an error is its text. \<open>migrate\<close>'s \<open>ErrNoChange\<close> is a result of its own
  because \<open>runMigrations\<close> takes it for success.
\<close>

datatype up_result = UpOK | ErrNoChange | UpFailed string

record ('c, 'w) sql_driver =
  sd_open :: "string \<Rightarrow> 'w \<Rightarrow> (string + 'c) \<times> 'w"
  sd_limits :: "nat \<Rightarrow> nat \<Rightarrow> duration \<Rightarrow> 'c \<Rightarrow> 'w \<Rightarrow> 'w"
  sd_source :: "'w \<Rightarrow> string option \<times> 'w"
  sd_instance :: "'c \<Rightarrow> 'w \<Rightarrow> string option \<times> 'w"
  sd_migrator :: "'c \<Rightarrow> 'w \<Rightarrow> string option \<times> 'w"
  sd_up :: "'c \<Rightarrow> 'w \<Rightarrow> up_result \<times> 'w"
  sd_close :: "'c \<Rightarrow> 'w \<Rightarrow> 'w"

definition dsnOf :: "string \<Rightarrow> string" where
  "dsnOf path = ''file:'' @ path @ ''?_journal_mode=WAL&_busy_timeout=5000&_synchronous=NORMAL''"

definition runMigrations :: "('c, 'w) sql_driver \<Rightarrow> 'c \<Rightarrow> 'w \<Rightarrow> string option \<times> 'w" where
  "runMigrations d conn w =
     (case sd_source d w of
        (Some e, w1) \<Rightarrow> (Some (''failed to create migration source: '' @ e), w1)
      | (None, w1) \<Rightarrow>
          (case sd_instance d conn w1 of
             (Some e, w2) \<Rightarrow> (Some (''failed to create database driver: '' @ e), w2)
           | (None, w2) \<Rightarrow>
               (case sd_migrator d conn w2 of
                  (Some e, w3) \<Rightarrow> (Some (''failed to create migrator: '' @ e), w3)
                | (None, w3) \<Rightarrow>
                    (case sd_up d conn w3 of
                       (UpFailed e, w4) \<Rightarrow> (Some (''failed to run migrations: '' @ e), w4)
                     | (_, w4) \<Rightarrow> (None, w4)))))"

definition DB_Open :: "('c, 'w) sql_driver \<Rightarrow> string \<Rightarrow> 'w \<Rightarrow> (string + 'c) \<times> 'w" where
  "DB_Open d path w =
     (case sd_open d (dsnOf path) w of
        (Inl e, w1) \<Rightarrow> (Inl (''failed to open database: '' @ e), w1)
      | (Inr conn, w1) \<Rightarrow>
          (case runMigrations d conn (sd_limits d 10 5 Hour conn w1) of
             (Some e, w2) \<Rightarrow> (Inl (''failed to run migrations: '' @ e), sd_close d conn w2)
           | (None, w2) \<Rightarrow> (Inr conn, w2)))"

text \<open>
  The handles a program has open: a driver whose \<open>open\<close> adds one handle, whose \<open>close\<close> takes
  it back, and whose other operations leave the set alone.
\<close>

definition tracksHandles :: "('c, 'w) sql_driver \<Rightarrow> ('w \<Rightarrow> 'c set) \<Rightarrow> bool" where
  "tracksHandles d handles \<longleftrightarrow>
     (\<forall>dsn w. case sd_open d dsn w of
        (Inl _, w1) \<Rightarrow> handles w1 = handles w
      | (Inr c, w1) \<Rightarrow> c \<notin> handles w \<and> handles w1 = insert c (handles w)) \<and>
     (\<forall>m n t c w. handles (sd_limits d m n t c w) = handles w) \<and>
     (\<forall>w. handles (snd (sd_source d w)) = handles w) \<and>
     (\<forall>c w. handles (snd (sd_instance d c w)) = handles w \<and> handles (snd (sd_migrator d c w)) = handles w \<and>
        handles (snd (sd_up d c w)) = handles w \<and> handles (sd_close d c w) = handles w - {c})"

lemma tracks_keeps:
  assumes "tracksHandles d handles"
  shows "handles (snd (sd_source d w)) = handles w" "handles (snd (sd_instance d c w)) = handles w"
    "handles (snd (sd_migrator d c w)) = handles w" "handles (snd (sd_up d c w)) = handles w"
    "handles (sd_limits d m n t c w) = handles w" "handles (sd_close d c w) = handles w - {c}"
  using assms by (simp_all add: tracksHandles_def)

lemma runMigrations_handles:
  assumes "tracksHandles d handles"
  shows "handles (snd (runMigrations d c w)) = handles w"
proof -
  obtain r1 w1 where 1: "sd_source d w = (r1, w1)" by (rule prod.exhaust)
  obtain r2 w2 where 2: "sd_instance d c w1 = (r2, w2)" by (rule prod.exhaust)
  obtain r3 w3 where 3: "sd_migrator d c w2 = (r3, w3)" by (rule prod.exhaust)
  obtain r4 w4 where 4: "sd_up d c w3 = (r4, w4)" by (rule prod.exhaust)
  have "handles w1 = handles w" "handles w2 = handles w1" "handles w3 = handles w2" "handles w4 = handles w3"
    using tracks_keeps(1) [OF assms, of w] tracks_keeps(2) [OF assms, of c w1] tracks_keeps(3) [OF assms, of c w2]
      tracks_keeps(4) [OF assms, of c w3] by (simp_all add: 1 2 3 4)
  then show ?thesis by (auto simp: runMigrations_def 1 2 3 4 split: option.split up_result.split)
qed

text \<open>A failed \<open>Open\<close> leaves no handle behind; a successful one leaves exactly its own.\<close>

lemma DB_Open_handles:
  assumes "tracksHandles d handles"
  shows "case DB_Open d path w of
    (Inl _, w') \<Rightarrow> handles w' = handles w
  | (Inr c, w') \<Rightarrow> c \<notin> handles w \<and> handles w' = insert c (handles w)"
proof (cases "sd_open d (dsnOf path) w")
  case (Pair r w1)
  have o: "case sd_open d (dsnOf path) w of (Inl _, w1) \<Rightarrow> handles w1 = handles w
      | (Inr c, w1) \<Rightarrow> c \<notin> handles w \<and> handles w1 = insert c (handles w)"
    using assms by (simp add: tracksHandles_def)
  show ?thesis
  proof (cases r)
    case (Inr c)
    obtain e w2 where m: "runMigrations d c (sd_limits d 10 5 Hour c w1) = (e, w2)" by (rule prod.exhaust)
    have "handles w2 = handles w1"
      using runMigrations_handles [OF assms, of c "sd_limits d 10 5 Hour c w1"] m tracks_keeps(5) [OF assms] by simp
    moreover have "handles (sd_close d c w2) = handles w2 - {c}" by (rule tracks_keeps(6) [OF assms])
    ultimately show ?thesis using Pair Inr m o by (cases e) (auto simp: DB_Open_def)
  qed (use Pair o in \<open>simp add: DB_Open_def\<close>)
qed

text \<open>\<open>Open\<close> succeeds exactly when every step does, a schema that is up to date included.\<close>

lemma DB_Open_ok:
  "(\<exists>c w'. DB_Open d path w = (Inr c, w')) \<longleftrightarrow>
   (\<exists>c w1. sd_open d (dsnOf path) w = (Inr c, w1) \<and> fst (runMigrations d c (sd_limits d 10 5 Hour c w1)) = None)"
  by (auto simp: DB_Open_def split: prod.splits sum.splits option.splits)

end
