(* ===== verification/Samples_Servers.thy ===== *)
theory Samples_Servers
  imports Samples Runner_Life Net_Addr Rate_Log Web_UI Db_Open
begin

text \<open>
  A concrete run of the TCP server for the witnesses: one listener, one client that connects
  and stays silent, and a shutdown requested at the same moment.
\<close>

definition sampleTCP :: "int hydra TCPRun" where
  "sampleTCP = tcpRun 1 0 (sampleHydra, None)"

definition sampleListening :: "int hydra TCPRun" where
  "sampleListening = (startListener 0 sampleTCP)\<lparr>tr_phase := TServing\<rparr>"

definition sampleConnected :: "int hydra TCPRun" where
  "sampleConnected = checkConn 0 (startConn 0 (acceptConn ''10.0.0.1'' [] False sampleListening))"

definition sampleSilent :: "int hydra TCPRun" where
  "sampleSilent = (closeListeners (sampleConnected\<lparr>tr_ctx := True\<rparr>))\<lparr>tr_phase := TWaiting (5 * Second)\<rparr>"

lemmas sampleTCP_defs = sampleTCP_def sampleListening_def sampleConnected_def sampleSilent_def tcpRun_def startListener_def
  closeListeners_def acceptConn_def newConn_def tryAcquireConn_def connCount_def conn_ops

lemma sampleConnected_reached:
  "(trun_step sampleUC (Some (hydraHandler sampleUC sampleEnv sampleSelect)))\<^sup>*\<^sup>* sampleTCP sampleConnected"
proof -
  define s1 where "s1 = startListener 0 sampleTCP"
  define s3 where "s3 = acceptConn ''10.0.0.1'' [] False sampleListening"
  define s4 where "s4 = startConn 0 s3"
  let ?H = "Some (hydraHandler sampleUC sampleEnv sampleSelect)"
  have "tmain_step sampleTCP s1" unfolding s1_def by (rule tmain_step.opened) (simp add: sampleTCP_defs)
  moreover have "tmain_step s1 sampleListening"
    unfolding s1_def sampleListening_def by (rule tmain_step.started) (simp add: sampleTCP_defs)
  moreover have "tgo_step sampleUC ?H sampleListening s3"
    unfolding s3_def by (rule tgo_step.accept [of _ 0]) (simp_all add: sampleTCP_defs)
  moreover have "tgo_step sampleUC ?H s3 s4"
    unfolding s4_def by (rule tgo_step.start) (simp_all add: s3_def sampleTCP_defs maxTCPConnectionsPerIP_def)
  moreover have "tgo_step sampleUC ?H s4 sampleConnected"
    unfolding sampleConnected_def s3_def [symmetric] s4_def [symmetric]
    by (rule tgo_step.check) (simp_all add: s4_def s3_def sampleTCP_defs maxTCPConnectionsPerIP_def)
  ultimately show ?thesis by (meson trun_step_def r_into_rtranclp rtranclp.rtrancl_into_rtrancl)
qed

lemma sampleSilent_reached:
  "(trun_step sampleUC (Some (hydraHandler sampleUC sampleEnv sampleSelect)))\<^sup>*\<^sup>* (tcpRun 1 0 (sampleHydra, None)) sampleSilent"
  "tr_phase sampleSilent = TWaiting (5 * Second)" "length (tr_conns sampleSilent) = 1"
  "silentConn 0 (10 * Second) sampleSilent"
proof -
  let ?H = "Some (hydraHandler sampleUC sampleEnv sampleSelect)"
  note n = maxTCPConnectionsPerIP_def maxQueriesPerConnection_def numeral_eq_Suc
  have "tenv_step sampleConnected (sampleConnected\<lparr>tr_ctx := True\<rparr>)" by (rule tenv_step.cancel)
  moreover have now: "tr_now sampleConnected = 0" "tr_phase sampleConnected = TServing"
    by (simp_all add: sampleTCP_defs n)
  then have "tmain_step (sampleConnected\<lparr>tr_ctx := True\<rparr>) sampleSilent"
    using tmain_step.stop [of "sampleConnected\<lparr>tr_ctx := True\<rparr>"] by (simp add: sampleSilent_def stopTimeout_def)
  ultimately show "(trun_step sampleUC ?H)\<^sup>*\<^sup>* (tcpRun 1 0 (sampleHydra, None)) sampleSilent"
    using sampleConnected_reached unfolding sampleTCP_def
    by (meson trun_step_def rtranclp.rtrancl_into_rtrancl)
  show "tr_phase sampleSilent = TWaiting (5 * Second)" by (simp add: sampleSilent_def)
  show "length (tr_conns sampleSilent) = 1" "silentConn 0 (10 * Second) sampleSilent"
    by (simp_all add: silentConn_def sampleTCP_defs n tcpReadTimeout_def)
qed

end
