(* ===== verification/Sql.thy ===== *)
theory Sql
  imports GoStrings
begin

text \<open>
  What \<open>internal/database\<close> uses of \<open>database/sql\<close> and of SQL: statements that take effect
  as a whole or fail, constraint violations, transactions that roll back, tables with
  generated row identifiers. Any call of the driver may also fail for a reason outside the
  program, such as a full disk or a cancelled context: the state carries an oracle that
  decides this for the n-th call, so a theorem about all states covers every pattern of
  failures. Errors keep the context that \<open>fmt.Errorf\<close> wraps around them.
\<close>

section \<open>Errors\<close>

datatype sql_error = DriverFault string | UniqueViolation string | CheckViolation string | NoRows

datatype db_error = SqlErr sql_error | Msg string | Wrap string db_error

text \<open>\<open>Error()\<close>, over the texts of the driver's own errors.\<close>

fun errorText :: "(sql_error \<Rightarrow> string) \<Rightarrow> db_error \<Rightarrow> string" where
  "errorText txt (SqlErr e) = txt e"
| "errorText txt (Msg m) = m"
| "errorText txt (Wrap c e) = c @ '': '' @ errorText txt e"

section \<open>Operations\<close>

record sql_state =
  db_fault :: "nat \<Rightarrow> string option"
  db_tick :: nat

type_synonym ('s, 'a) sql_op = "'s \<Rightarrow> (db_error + 'a) \<times> 's"

definition sqlReturn :: "'a \<Rightarrow> ('s, 'a) sql_op" where
  "sqlReturn x db = (Inr x, db)"

definition sqlFail :: "db_error \<Rightarrow> ('s, 'a) sql_op" where
  "sqlFail e db = (Inl e, db)"

definition sqlBind :: "('s, 'a) sql_op \<Rightarrow> ('a \<Rightarrow> ('s, 'b) sql_op) \<Rightarrow> ('s, 'b) sql_op" where
  "sqlBind m k db = (case m db of (Inl e, d) \<Rightarrow> (Inl e, d) | (Inr x, d) \<Rightarrow> k x d)"

definition driverCall :: "'z sql_state_scheme \<Rightarrow> string option \<times> 'z sql_state_scheme" where
  "driverCall db = (db_fault db (db_tick db), db\<lparr>db_tick := db_tick db + 1\<rparr>)"

text \<open>One statement: on an error of the driver or of a constraint nothing has changed.\<close>

definition sqlExec ::
  "string \<Rightarrow> ('z sql_state_scheme \<Rightarrow> sql_error + ('a \<times> 'z sql_state_scheme)) \<Rightarrow>
     ('z sql_state_scheme, 'a) sql_op" where
  "sqlExec ctx f db =
     (case driverCall db of
        (Some m, d) \<Rightarrow> (Inl (Wrap ctx (SqlErr (DriverFault m))), d)
      | (None, d) \<Rightarrow>
          (case f d of
             Inl e \<Rightarrow> (Inl (Wrap ctx (SqlErr e)), d)
           | Inr (x, d') \<Rightarrow> (Inr x, d')))"

text \<open>A driver call without effect on the data, such as \<open>RowsAffected\<close> or \<open>rows.Err\<close>.\<close>

definition sqlCheck :: "string \<Rightarrow> ('z sql_state_scheme, unit) sql_op" where
  "sqlCheck ctx = sqlExec ctx (\<lambda>d. Inr ((), d))"

text \<open>\<open>Query\<close>, the \<open>Scan\<close> of each row, and \<open>rows.Err\<close>.\<close>

definition sqlRows ::
  "string \<Rightarrow> string \<Rightarrow> string \<Rightarrow> ('z sql_state_scheme \<Rightarrow> 'r list) \<Rightarrow> ('z sql_state_scheme, 'r list) sql_op" where
  "sqlRows q sc it f =
     sqlBind (sqlExec q (\<lambda>d. Inr (f d, d))) (\<lambda>rows.
     sqlBind (if rows = [] then sqlReturn () else sqlCheck sc) (\<lambda>_.
     sqlBind (sqlCheck it) (\<lambda>_. sqlReturn rows)))"

text \<open>\<open>QueryRow\<close> and \<open>Scan\<close>.\<close>

definition sqlRow ::
  "string \<Rightarrow> ('z sql_state_scheme \<Rightarrow> 'a option) \<Rightarrow> ('z sql_state_scheme, 'a) sql_op" where
  "sqlRow ctx f = sqlExec ctx (\<lambda>d. case f d of None \<Rightarrow> Inl NoRows | Some x \<Rightarrow> Inr (x, d))"

text \<open>A statement that has to change at least one row.\<close>

definition mustAffect ::
  "string \<Rightarrow> ('z sql_state_scheme \<Rightarrow> sql_error + (nat \<times> 'z sql_state_scheme)) \<Rightarrow> string \<Rightarrow>
     ('z sql_state_scheme, unit) sql_op" where
  "mustAffect ctx f notFound =
     sqlBind (sqlExec ctx f) (\<lambda>n.
     sqlBind (sqlCheck ''failed to get affected rows'') (\<lambda>_.
     if n = 0 then sqlFail (Msg notFound) else sqlReturn ()))"

fun forEach :: "('x \<Rightarrow> ('s, unit) sql_op) \<Rightarrow> 'x list \<Rightarrow> ('s, unit) sql_op" where
  "forEach f [] = sqlReturn ()"
| "forEach f (x # xs) = sqlBind (f x) (\<lambda>_. forEach f xs)"

text \<open>\<open>BeginTx\<close>, the body, \<open>Commit\<close>; the deferred \<open>Rollback\<close> undoes a body that failed.\<close>

definition withTx :: "('z sql_state_scheme, unit) sql_op \<Rightarrow> ('z sql_state_scheme, unit) sql_op" where
  "withTx body db =
     (case sqlCheck ''failed to begin transaction'' db of
        (Inl e, d) \<Rightarrow> (Inl e, d)
      | (Inr _, d0) \<Rightarrow>
          (case sqlBind body (\<lambda>_. sqlCheck ''failed to commit transaction'') d0 of
             (Inl e, d) \<Rightarrow> (Inl e, d0\<lparr>db_tick := db_tick d\<rparr>)
           | (Inr _, d) \<Rightarrow> (Inr (), d)))"

text \<open>\<open>fmt.Errorf("ctx: %w", err)\<close> around the error of another operation.\<close>

definition sqlWrap :: "string \<Rightarrow> ('s, 'a) sql_op \<Rightarrow> ('s, 'a) sql_op" where
  "sqlWrap ctx m db = (case m db of (Inl e, d) \<Rightarrow> (Inl (Wrap ctx e), d) | (Inr x, d) \<Rightarrow> (Inr x, d))"

section \<open>Tables\<close>

record 'r table =
  tbl_rows :: "'r list"
  tbl_seq :: int

definition emptyTable :: "'r table" where
  "emptyTable = \<lparr>tbl_rows = [], tbl_seq = 0\<rparr>"

definition appendRow :: "(int \<Rightarrow> 'r) \<Rightarrow> 'r table \<Rightarrow> 'r table" where
  "appendRow mk t = \<lparr>tbl_rows = tbl_rows t @ [mk (tbl_seq t + 1)], tbl_seq = tbl_seq t + 1\<rparr>"

definition deleteRows :: "('r \<Rightarrow> bool) \<Rightarrow> 'r table \<Rightarrow> nat \<times> 'r table" where
  "deleteRows P t =
     (length (filter P (tbl_rows t)), t\<lparr>tbl_rows := filter (\<lambda>r. \<not> P r) (tbl_rows t)\<rparr>)"

definition updateRows :: "('r \<Rightarrow> bool) \<Rightarrow> ('r \<Rightarrow> 'r) \<Rightarrow> 'r table \<Rightarrow> nat \<times> 'r table" where
  "updateRows P f t =
     (length (filter P (tbl_rows t)), t\<lparr>tbl_rows := map (\<lambda>r. if P r then f r else r) (tbl_rows t)\<rparr>)"

section \<open>What every operation respects\<close>

definition keeps :: "('s \<Rightarrow> 's \<Rightarrow> bool) \<Rightarrow> ('s, 'a) sql_op \<Rightarrow> bool" where
  "keeps R m \<longleftrightarrow> (\<forall>db. R db (snd (m db)))"

lemma keepsD: "keeps R m \<Longrightarrow> m db = (x, db') \<Longrightarrow> R db db'"
  by (metis keeps_def snd_conv)

locale db_relation =
  fixes R :: "'z sql_state_scheme \<Rightarrow> 'z sql_state_scheme \<Rightarrow> bool"
  assumes tick: "R db (db\<lparr>db_tick := n\<rparr>)"
    and through: "R a b \<Longrightarrow> R b c \<Longrightarrow> R a c"
begin

lemma same: "R db db"
  using tick [of db "db_tick db"] by simp

lemma keeps_return: "keeps R (sqlReturn x)" and keeps_fail: "keeps R (sqlFail e)"
  by (simp_all add: keeps_def sqlReturn_def sqlFail_def same)

lemma keeps_bind: "keeps R m \<Longrightarrow> (\<And>x. keeps R (k x)) \<Longrightarrow> keeps R (sqlBind m k)"
  unfolding keeps_def sqlBind_def
  by (auto split: prod.split sum.split) (metis through snd_conv)+

lemma keeps_wrap: "keeps R m \<Longrightarrow> keeps R (sqlWrap ctx m)"
  unfolding keeps_def sqlWrap_def by (auto split: prod.split sum.split) (metis snd_conv)+

lemma keeps_exec:
  assumes "\<And>d x d'. f d = Inr (x, d') \<Longrightarrow> R d d'" shows "keeps R (sqlExec ctx f)"
proof -
  have "R db (db\<lparr>db_tick := n\<rparr>)" for db n by (rule tick)
  moreover have "R db d'" if "f (db\<lparr>db_tick := n\<rparr>) = Inr (x, d')" for db n x d'
    using through [OF tick assms [OF that]] .
  ultimately show ?thesis
    by (auto simp: keeps_def sqlExec_def driverCall_def split: option.split sum.split prod.split)
qed

lemma keeps_check: "keeps R (sqlCheck ctx)"
  unfolding sqlCheck_def by (rule keeps_exec) (simp add: same)

lemma keeps_rows: "keeps R (sqlRows q sc it f)"
  unfolding sqlRows_def
  by (intro keeps_bind keeps_check keeps_return keeps_exec) (auto simp: same keeps_check keeps_return)

lemma keeps_row: "keeps R (sqlRow ctx f)"
  unfolding sqlRow_def by (rule keeps_exec) (auto simp: same split: option.splits)

lemma keeps_mustAffect:
  assumes "\<And>d x d'. f d = Inr (x, d') \<Longrightarrow> R d d'" shows "keeps R (mustAffect ctx f nf)"
  unfolding mustAffect_def
  by (intro keeps_bind keeps_check keeps_exec [OF assms]) (auto simp: keeps_fail keeps_return)

lemma keeps_forEach: "(\<And>x. keeps R (f x)) \<Longrightarrow> keeps R (forEach f xs)"
  by (induction xs) (auto intro: keeps_bind keeps_return)

lemma keeps_withTx:
  assumes "keeps R body" shows "keeps R (withTx body)"
proof -
  let ?run = "sqlBind body (\<lambda>_. sqlCheck ''failed to commit transaction'')"
  have run: "keeps R ?run" by (intro keeps_bind assms keeps_check)
  have "R db (snd (withTx body db))" for db
  proof -
    obtain x d0 where b: "sqlCheck ''failed to begin transaction'' db = (x, d0)" by (rule prod.exhaust)
    obtain y d where r: "?run d0 = (y, d)" by (rule prod.exhaust)
    have "R db d0" "R d0 d" using keepsD [OF keeps_check b] keepsD [OF run r] .
    with b r tick [of d0 "db_tick d"] show ?thesis
      by (cases x; cases y) (auto simp: withTx_def intro: through)
  qed
  then show ?thesis by (simp add: keeps_def)
qed

lemmas keeps_intros = keeps_return keeps_fail keeps_bind keeps_wrap keeps_exec keeps_check keeps_rows keeps_row
  keeps_mustAffect keeps_forEach keeps_withTx

end

text \<open>A part of the state that an operation leaves alone.\<close>

locale db_view =
  fixes part :: "'z sql_state_scheme \<Rightarrow> 'v"
  assumes part_tick: "part (db\<lparr>db_tick := n\<rparr>) = part db"

sublocale db_view \<subseteq> db_relation "\<lambda>a b. part b = part a"
  by unfold_locales (simp_all add: part_tick)

section \<open>A failed transaction has no effect\<close>

definition sameData :: "'z sql_state_scheme \<Rightarrow> 'z sql_state_scheme \<Rightarrow> bool" where
  "sameData a b \<longleftrightarrow> a\<lparr>db_tick := db_tick b\<rparr> = b"

interpretation unchanged: db_relation sameData
proof
  fix a b c :: "'a sql_state_scheme"
  assume "sameData a b" "sameData b c"
  then have b: "b = a\<lparr>db_tick := db_tick b\<rparr>" and c: "c = b\<lparr>db_tick := db_tick c\<rparr>"
    by (simp_all add: sameData_def)
  have "c = a\<lparr>db_tick := db_tick b\<rparr>\<lparr>db_tick := db_tick c\<rparr>" using b c by argo
  then show "sameData a c" by (simp add: sameData_def)
qed (simp add: sameData_def)

lemma withTx_failed:
  assumes "withTx body db = (Inl e, db')" shows "sameData db db'"
proof -
  obtain x d0 where b: "sqlCheck ''failed to begin transaction'' db = (x, d0)" by (rule prod.exhaust)
  have "sameData db d0" by (rule keepsD [OF unchanged.keeps_check b])
  moreover from assms b have "db' = d0 \<or> (\<exists>n. db' = d0\<lparr>db_tick := n\<rparr>)"
    by (auto simp: withTx_def split: sum.splits prod.splits)
  ultimately show ?thesis using unchanged.tick unchanged.through by blast
qed

lemma deleteRows_none: "deleteRows P t = (0, t') \<Longrightarrow> t' = t"
  by (auto simp: deleteRows_def filter_empty_conv filter_id_conv)

lemma updateRows_none: "updateRows P f t = (0, t') \<Longrightarrow> t' = t"
  by (auto simp: updateRows_def filter_empty_conv intro!: table.equality map_idI)

section \<open>Runs without driver failures\<close>

definition noFaults :: "'z sql_state_scheme \<Rightarrow> bool" where
  "noFaults db \<longleftrightarrow> (\<forall>n. db_fault db n = None)"

lemma noFaults_tick [simp]: "noFaults (db\<lparr>db_tick := n\<rparr>) = noFaults db"
  by (simp add: noFaults_def)

lemma sqlExec_ok:
  "noFaults db \<Longrightarrow> sqlExec ctx f db =
     (case f (db\<lparr>db_tick := Suc (db_tick db)\<rparr>) of
        Inl e \<Rightarrow> (Inl (Wrap ctx (SqlErr e)), db\<lparr>db_tick := Suc (db_tick db)\<rparr>)
      | Inr (x, d') \<Rightarrow> (Inr x, d'))"
  by (simp add: sqlExec_def driverCall_def noFaults_def)

lemma sqlCheck_ok: "noFaults db \<Longrightarrow> sqlCheck ctx db = (Inr (), db\<lparr>db_tick := Suc (db_tick db)\<rparr>)"
  by (simp add: sqlCheck_def sqlExec_ok)

lemma sqlRow_ok:
  "noFaults db \<Longrightarrow> f (db\<lparr>db_tick := Suc (db_tick db)\<rparr>) = Some x \<Longrightarrow>
    sqlRow ctx f db = (Inr x, db\<lparr>db_tick := Suc (db_tick db)\<rparr>)"
  by (simp add: sqlRow_def sqlExec_ok)

lemma sqlBind_ok: "m db = (Inr x, d) \<Longrightarrow> sqlBind m k db = k x d"
  by (simp add: sqlBind_def)

lemma sqlWrap_ok: "m db = (Inr x, d) \<Longrightarrow> sqlWrap ctx m db = (Inr x, d)"
  by (simp add: sqlWrap_def)

lemma forEach_ok:
  assumes step: "\<And>pre x post d. xs = pre @ x # post \<Longrightarrow> Q pre d \<Longrightarrow> \<exists>d'. f x d = (Inr (), d') \<and> Q (pre @ [x]) d'"
    and "Q [] d"
  shows "\<exists>d'. forEach f xs d = (Inr (), d') \<and> Q xs d'"
proof -
  have "\<exists>d'. forEach f post d = (Inr (), d') \<and> Q xs d'" if "xs = pre @ post" "Q pre d" for pre post d
    using that
  proof (induction post arbitrary: pre d)
    case (Cons x post)
    from step [OF Cons.prems] obtain d1 where 1: "f x d = (Inr (), d1)" "Q (pre @ [x]) d1" by blast
    from Cons.IH [of "pre @ [x]" d1] Cons.prems(1) 1(2) show ?case by (simp add: sqlBind_def 1(1))
  qed (simp add: sqlReturn_def)
  from this [of "[]" xs d] assms(2) show ?thesis by simp
qed

lemma sqlRows_ok:
  assumes "noFaults db" "\<And>n. f (db\<lparr>db_tick := n\<rparr>) = f db"
  shows "\<exists>n. sqlRows q sc it f db = (Inr (f db), db\<lparr>db_tick := n\<rparr>)"
  using assms by (cases "f db = []") (auto simp: sqlRows_def sqlBind_def sqlExec_ok sqlCheck_ok sqlReturn_def)

section \<open>Triples\<close>

text \<open>
  From \<open>P\<close>, a run that returns ends in \<open>Q\<close> and one that fails in \<open>E\<close>. A precondition has to
  ignore the call counter.
\<close>

definition triple :: "('s \<Rightarrow> bool) \<Rightarrow> ('s, 'a) sql_op \<Rightarrow> ('a \<Rightarrow> 's \<Rightarrow> bool) \<Rightarrow> ('s \<Rightarrow> bool) \<Rightarrow> bool" where
  "triple P m Q E \<longleftrightarrow>
     (\<forall>db. P db \<longrightarrow> (case m db of (Inl e, d) \<Rightarrow> E d | (Inr x, d) \<Rightarrow> Q x d))"

lemma tripleD:
  assumes "triple P m Q E" "P db" "m db = (r, d)" shows "case r of Inl e \<Rightarrow> E d | Inr x \<Rightarrow> Q x d"
proof -
  from assms(1,2) have "case m db of (Inl e, d) \<Rightarrow> E d | (Inr x, d) \<Rightarrow> Q x d" by (simp add: triple_def)
  with assms(3) show ?thesis by (cases r) simp_all
qed

lemma triple_keeps: "triple P m (\<lambda>_. P) P \<longleftrightarrow> keeps (\<lambda>a b. P a \<longrightarrow> P b) m"
  unfolding triple_def keeps_def
  by (intro iff_allI) (auto split: prod.split sum.split)

lemma triple_return: "(\<And>d. P d \<Longrightarrow> Q x d) \<Longrightarrow> triple P (sqlReturn x) Q E"
  by (simp add: triple_def sqlReturn_def)

lemma triple_fail: "(\<And>d. P d \<Longrightarrow> E d) \<Longrightarrow> triple P (sqlFail e) Q E"
  by (simp add: triple_def sqlFail_def)

lemma triple_bind: "triple P m Q E \<Longrightarrow> (\<And>x. triple (Q x) (k x) R E) \<Longrightarrow> triple P (sqlBind m k) R E"
  unfolding triple_def sqlBind_def by (fastforce split: prod.splits sum.splits)

lemma triple_wrap: "triple P m Q E \<Longrightarrow> triple P (sqlWrap ctx m) Q E"
  unfolding triple_def sqlWrap_def by (fastforce split: prod.splits sum.splits)

lemma triple_conseq:
  "triple P m Q E \<Longrightarrow> (\<And>d. P' d \<Longrightarrow> P d) \<Longrightarrow> (\<And>x d. Q x d \<Longrightarrow> Q' x d) \<Longrightarrow> (\<And>d. E d \<Longrightarrow> E' d) \<Longrightarrow>
    triple P' m Q' E'"
  unfolding triple_def by (fastforce split: prod.splits sum.splits)

lemma triple_exec:
  assumes tick: "\<And>d n. P d \<Longrightarrow> P (d\<lparr>db_tick := n\<rparr>)"
    and fault: "\<And>d. P d \<Longrightarrow> noFaults d \<or> E d"
    and run: "\<And>d. P d \<Longrightarrow> (case f d of Inl e \<Rightarrow> E d | Inr (x, d') \<Rightarrow> Q x d')"
  shows "triple P (sqlExec ctx f) Q E"
proof -
  have "case sqlExec ctx f db of (Inl e, d) \<Rightarrow> E d | (Inr x, d) \<Rightarrow> Q x d" if "P db" for db
  proof -
    let ?d = "db\<lparr>db_tick := db_tick db + 1\<rparr>"
    from tick [OF that] have d: "P ?d" .
    with fault [OF d] run [OF d] show ?thesis
      by (auto simp: sqlExec_def driverCall_def noFaults_def split: option.split sum.splits prod.splits)
  qed
  then show ?thesis by (simp add: triple_def)
qed

lemma triple_check:
  assumes "\<And>d n. P d \<Longrightarrow> P (d\<lparr>db_tick := n\<rparr>)" and "\<And>d. P d \<Longrightarrow> noFaults d \<or> E d"
  shows "triple P (sqlCheck ctx) (\<lambda>_. P) E"
  unfolding sqlCheck_def by (rule triple_exec) (use assms in auto)

lemma triple_forEach:
  assumes "\<And>pre x post. xs = pre @ x # post \<Longrightarrow> triple (Inv pre) (f x) (\<lambda>_. Inv (pre @ [x])) E"
  shows "triple (Inv []) (forEach f xs) (\<lambda>_. Inv xs) E"
proof -
  have "triple (Inv pre) (forEach f post) (\<lambda>_. Inv xs) E" if "xs = pre @ post" for pre post
    using that
  proof (induction post arbitrary: pre)
    case (Cons x post)
    from assms [OF Cons.prems] Cons.IH [of "pre @ [x]"] Cons.prems show ?case
      by (auto intro!: triple_bind)
  qed (simp add: triple_return)
  from this [of "[]" xs] show ?thesis by simp
qed

lemma sqlBind_laws:
  "sqlBind (sqlReturn x) k = k x" "sqlBind m sqlReturn = m" "sqlBind m (\<lambda>_. sqlReturn ()) = m"
  by (auto simp: fun_eq_iff sqlBind_def sqlReturn_def split: prod.split sum.split)

lemma forEach_map: "forEach f (map g xs) = forEach (f \<circ> g) xs"
  by (induction xs) auto

lemma forEach_append: "forEach f (xs @ ys) = sqlBind (forEach f xs) (\<lambda>_. forEach f ys)"
  by (induction xs) (auto simp: fun_eq_iff sqlBind_def sqlReturn_def split: prod.split sum.split)

lemma triple_withTx:
  assumes tick: "\<And>d n. P d \<Longrightarrow> P (d\<lparr>db_tick := n\<rparr>)" "\<And>d n. Q d \<Longrightarrow> Q (d\<lparr>db_tick := n\<rparr>)"
    and E: "\<And>d. P d \<Longrightarrow> noFaults d \<or> E d" "\<And>d. Q d \<Longrightarrow> noFaults d \<or> Er d" "\<And>d d0. Er d \<Longrightarrow> P d0 \<Longrightarrow> E d0"
    and body: "triple P body (\<lambda>_. Q) Er"
  shows "triple P (withTx body) (\<lambda>_. Q) E"
proof -
  have start: "triple P (sqlCheck ''failed to begin transaction'') (\<lambda>_. P) E"
    by (rule triple_check) (use tick E in auto)
  have run: "triple P (sqlBind body (\<lambda>_. sqlCheck ''failed to commit transaction'')) (\<lambda>_. Q) Er"
    by (rule triple_bind [OF body triple_check]) (use tick E in auto)
  have "case withTx body db of (Inl e, d) \<Rightarrow> E d | (Inr x, d) \<Rightarrow> Q d" if "P db" for db
  proof -
    obtain x d0 where b: "sqlCheck ''failed to begin transaction'' db = (x, d0)" by (rule prod.exhaust)
    obtain y d where r: "sqlBind body (\<lambda>_. sqlCheck ''failed to commit transaction'') d0 = (y, d)"
      by (rule prod.exhaust)
    note 1 = tripleD [OF start that b]
    show ?thesis
    proof (cases x)
      case (Inr u)
      with 1 have p: "P d0" by simp
      from tripleD [OF run p r] E(3) [OF _ tick(1) [OF p]] b r Inr show ?thesis
        by (cases y) (simp_all add: withTx_def)
    qed (use 1 b in \<open>simp add: withTx_def\<close>)
  qed
  then show ?thesis by (simp add: triple_def)
qed

lemma triple_frame:
  assumes "keeps (\<lambda>a b. part b = part a) m" "triple P m Q E"
  shows "triple (\<lambda>d. P d \<and> C (part d)) m (\<lambda>x d. Q x d \<and> C (part d)) E"
proof -
  have "case m db of (Inl e, d) \<Rightarrow> E d | (Inr x, d) \<Rightarrow> Q x d \<and> C (part d)" if db: "P db" "C (part db)" for db
  proof -
    obtain r d where m: "m db = (r, d)" by (rule prod.exhaust)
    from tripleD [OF assms(2) db(1) m] keepsD [OF assms(1) m] m db(2) show ?thesis by (cases r) simp_all
  qed
  then show ?thesis by (simp add: triple_def)
qed

text \<open>A total triple: without driver failures the operation returns.\<close>

lemma triple_total:
  assumes "triple P m Q (\<lambda>_. False)" "P db"
  obtains x d where "m db = (Inr x, d)" "Q x d"
proof -
  obtain r d where "m db = (r, d)" by (rule prod.exhaust)
  with tripleD [OF assms this] show thesis by (cases r) (auto intro: that)
qed

end
