(* ===== verification/Database.thy ===== *)
theory Database
  imports Sql Config GoNetip Dns_Record
    "HOL-Library.List_Lexorder" "HOL-Library.Char_ord" "HOL-Library.Product_Lexorder"
begin

text \<open>
  \<open>internal/database\<close> without the cluster import and the export: the tables of
  \<open>migrations/*.sql\<close> and the operations of \<open>db.go\<close>, \<open>upstream.go\<close>, \<open>custom_dns.go\<close>,
  \<open>filtering.go\<close> and the typed settings of \<open>cluster.go\<close>. A settings table holds its one row or
  none; the triggers of the schema add 1 to the version per row inserted, updated or deleted.
  Columns that no query reads (\<open>created_at\<close>, \<open>updated_at\<close>) are left out. \<open>db.mu\<close> makes each
  operation atomic.
\<close>

section \<open>Tables\<close>

record UpstreamServer =
  us_ID :: int
  us_ServerAddress :: string
  us_Priority :: int
  us_Enabled :: bool

record dnsRow =
  dr_id :: int
  dr_source :: string
  dr_type :: string
  dr_target :: string

record domainRow =
  dom_id :: int
  dom_domain :: string

record Blocklist =
  bk_ID :: int
  bk_Name :: string
  bk_URL :: string
  bk_Format :: string
  bk_Enabled :: bool
  bk_LastFetched :: "string option"

record serverRow =
  sr_host :: string
  sr_port :: int
  sr_workers :: string
  sr_max_concurrency :: int
  sr_pool_size :: int
  sr_enable_tcp :: int
  sr_tcp_fallback :: int

record upstreamRow =
  ur_udp_timeout :: string
  ur_tcp_timeout :: string
  ur_max_retries :: int

record loggingRow =
  lr_level :: string
  lr_structured :: int
  lr_format :: string
  lr_include_pid :: int

record filteringRow =
  fr_enabled :: bool
  fr_log_blocked :: bool
  fr_log_allowed :: bool
  fr_refresh :: string

record apiRow =
  ar_enabled :: int
  ar_host :: string
  ar_port :: int
  ar_key :: string

record DB = sql_state +
  db_version :: "int option"
  db_server :: "serverRow option"
  db_upstreamCfg :: "upstreamRow option"
  db_logging :: "loggingRow option"
  db_filtering :: "filteringRow option"
  db_rateLimit :: "RateLimitConfig option"
  db_api :: "apiRow option"
  db_cluster :: "ClusterConfig option"
  db_records :: "dnsRow table"
  db_upstreams :: "UpstreamServer table"
  db_whitelist :: "domainRow table"
  db_blacklist :: "domainRow table"
  db_blocklists :: "Blocklist table"

text \<open>The triggers: \<open>n\<close> rows changed.\<close>

definition bump :: "nat \<Rightarrow> DB \<Rightarrow> DB" where
  "bump n d = d\<lparr>db_version := map_option (\<lambda>v. v + int n) (db_version d)\<rparr>"

definition GetVersion :: "(DB, int) sql_op" where
  "GetVersion = sqlRow ''failed to get config version'' db_version"

definition IncrementVersion :: "(DB, unit) sql_op" where
  "IncrementVersion = sqlExec ''failed to increment version'' (\<lambda>d. Inr ((), bump 1 d))"

definition SetVersion :: "int \<Rightarrow> (DB, unit) sql_op" where
  "SetVersion v =
     sqlExec ''failed to set version'' (\<lambda>d. Inr ((), d\<lparr>db_version := map_option (\<lambda>_. v) (db_version d)\<rparr>))"

section \<open>Upstream servers\<close>

definition newUpstream :: "string \<Rightarrow> int \<Rightarrow> int \<Rightarrow> UpstreamServer" where
  "newUpstream addr priority i =
     \<lparr>us_ID = i, us_ServerAddress = addr, us_Priority = priority, us_Enabled = True\<rparr>"

definition hasUpstream :: "string \<Rightarrow> DB \<Rightarrow> bool" where
  "hasUpstream addr d \<longleftrightarrow> addr \<in> us_ServerAddress ` set (tbl_rows (db_upstreams d))"

definition insertUpstream :: "string \<Rightarrow> int \<Rightarrow> DB \<Rightarrow> sql_error + (unit \<times> DB)" where
  "insertUpstream addr priority d =
     (if hasUpstream addr d then Inl (UniqueViolation ''upstream_servers.server_address'')
      else Inr ((), bump 1 (d\<lparr>db_upstreams := appendRow (newUpstream addr priority) (db_upstreams d)\<rparr>)))"

definition updateUpstreams :: "string \<Rightarrow> (UpstreamServer \<Rightarrow> UpstreamServer) \<Rightarrow> DB \<Rightarrow> sql_error + (nat \<times> DB)" where
  "updateUpstreams addr f d =
     (let (n, t) = updateRows (\<lambda>r. us_ServerAddress r = addr) f (db_upstreams d)
      in Inr (n, bump n (d\<lparr>db_upstreams := t\<rparr>)))"

definition upsertUpstream :: "string \<Rightarrow> int \<Rightarrow> DB \<Rightarrow> sql_error + (unit \<times> DB)" where
  "upsertUpstream addr priority d =
     (if hasUpstream addr d then
        map_sum id (map_prod (\<lambda>_. ()) id) (updateUpstreams addr (\<lambda>r. r\<lparr>us_Priority := priority\<rparr>) d)
      else insertUpstream addr priority d)"

definition deleteUpstreams :: "(UpstreamServer \<Rightarrow> bool) \<Rightarrow> DB \<Rightarrow> sql_error + (nat \<times> DB)" where
  "deleteUpstreams P d =
     (let (n, t) = deleteRows P (db_upstreams d) in Inr (n, bump n (d\<lparr>db_upstreams := t\<rparr>)))"

definition AddUpstreamServer :: "string \<Rightarrow> int \<Rightarrow> (DB, unit) sql_op" where
  "AddUpstreamServer addr priority =
     sqlExec (''failed to add upstream server '' @ addr) (upsertUpstream addr priority)"

text \<open>\<open>ORDER BY priority\<close>; equal priorities stay in row order.\<close>

definition enabledUpstreams :: "DB \<Rightarrow> UpstreamServer list" where
  "enabledUpstreams d = sort_key us_Priority (filter us_Enabled (tbl_rows (db_upstreams d)))"

definition GetUpstreamServers :: "(DB, UpstreamServer list) sql_op" where
  "GetUpstreamServers =
     sqlRows ''failed to query upstream servers'' ''failed to scan upstream server''
       ''error iterating upstream servers'' enabledUpstreams"

definition SetUpstreamServers :: "string list \<Rightarrow> (DB, unit) sql_op" where
  "SetUpstreamServers servers =
     withTx
       (sqlBind (sqlExec ''failed to delete existing servers'' (deleteUpstreams (\<lambda>_. True))) (\<lambda>_.
        sqlBind (sqlCheck ''failed to prepare statement'') (\<lambda>_.
        forEach (\<lambda>(i, s). sqlExec (''failed to insert server '' @ s) (insertUpstream s (int i)))
          (enumerate 0 servers))))"

definition DeleteUpstreamServer :: "string \<Rightarrow> (DB, unit) sql_op" where
  "DeleteUpstreamServer addr =
     mustAffect ''failed to delete upstream server'' (deleteUpstreams (\<lambda>r. us_ServerAddress r = addr))
       (''upstream server not found: '' @ addr)"

definition EnableUpstreamServer :: "string \<Rightarrow> bool \<Rightarrow> (DB, unit) sql_op" where
  "EnableUpstreamServer addr enabled =
     mustAffect ''failed to update upstream server''
       (updateUpstreams addr (\<lambda>r. r\<lparr>us_Enabled := enabled\<rparr>))
       (''upstream server not found: '' @ addr)"

section \<open>Custom DNS records\<close>

definition RecordTypeA :: string where "RecordTypeA = ''A''"
definition RecordTypeAAAA :: string where "RecordTypeAAAA = ''AAAA''"
definition RecordTypeCNAME :: string where "RecordTypeCNAME = ''CNAME''"

text \<open>\<open>net.ParseIP\<close>: the sixteen-byte form; an address with a zone is rejected.\<close>

definition netParseIP :: "string \<Rightarrow> bytes option" where
  "netParseIP s =
     (case ParseAddr s of
        Some (V4 b) \<Rightarrow> Some (v4InV6Prefix @ b)
      | Some (V6 b zone) \<Rightarrow> if zone = '''' then Some b else None
      | _ \<Rightarrow> None)"

definition recordTypeOf :: "string \<Rightarrow> string option" where
  "recordTypeOf ipAddress =
     (case netParseIP ipAddress of
        None \<Rightarrow> None
      | Some ip \<Rightarrow> Some (if To4 ip \<noteq> None then RecordTypeA else RecordTypeAAAA))"

definition isHostRow :: "dnsRow \<Rightarrow> bool" where
  "isHostRow r \<longleftrightarrow> dr_type r \<in> {RecordTypeA, RecordTypeAAAA}"

definition isCNAMERow :: "dnsRow \<Rightarrow> bool" where
  "isCNAMERow r \<longleftrightarrow> dr_type r = RecordTypeCNAME"

definition hasRecord :: "string \<Rightarrow> string \<Rightarrow> string \<Rightarrow> DB \<Rightarrow> bool" where
  "hasRecord source typ target d \<longleftrightarrow>
     (\<exists>r \<in> set (tbl_rows (db_records d)). dr_source r = source \<and> dr_type r = typ \<and> dr_target r = target)"

definition newRecord :: "string \<Rightarrow> string \<Rightarrow> string \<Rightarrow> int \<Rightarrow> dnsRow" where
  "newRecord source typ target i =
     \<lparr>dr_id = i, dr_source = source, dr_type = typ, dr_target = target\<rparr>"

definition insertRecord :: "string \<Rightarrow> string \<Rightarrow> string \<Rightarrow> DB \<Rightarrow> sql_error + (unit \<times> DB)" where
  "insertRecord source typ target d =
     (if typ \<notin> {RecordTypeA, RecordTypeAAAA, RecordTypeCNAME} then Inl (CheckViolation ''custom_dns_records.type'')
      else if hasRecord source typ target d then Inl (UniqueViolation ''custom_dns_records'')
      else Inr ((), bump 1 (d\<lparr>db_records := appendRow (newRecord source typ target) (db_records d)\<rparr>)))"

definition upsertRecord :: "string \<Rightarrow> string \<Rightarrow> string \<Rightarrow> DB \<Rightarrow> sql_error + (unit \<times> DB)" where
  "upsertRecord source typ target d =
     (if hasRecord source typ target d then Inr ((), bump 1 d) else insertRecord source typ target d)"

definition deleteRecords :: "(dnsRow \<Rightarrow> bool) \<Rightarrow> DB \<Rightarrow> sql_error + (nat \<times> DB)" where
  "deleteRecords P d =
     (let (n, t) = deleteRows P (db_records d) in Inr (n, bump n (d\<lparr>db_records := t\<rparr>)))"

definition DB_AddHost :: "string \<Rightarrow> string \<Rightarrow> (DB, unit) sql_op" where
  "DB_AddHost hostname ipAddress =
     (case recordTypeOf ipAddress of
        None \<Rightarrow> sqlFail (Msg (''invalid IP address: '' @ ipAddress))
      | Some typ \<Rightarrow> sqlExec (''failed to add host '' @ hostname) (upsertRecord hostname typ ipAddress))"

definition hostsOf :: "string \<Rightarrow> DB \<Rightarrow> dnsRow list" where
  "hostsOf hostname d =
     sort_key (\<lambda>r. (dr_type r, dr_target r))
       (filter (\<lambda>r. dr_source r = hostname \<and> isHostRow r) (tbl_rows (db_records d)))"

definition GetHosts :: "string \<Rightarrow> (DB, dnsRow list) sql_op" where
  "GetHosts hostname =
     sqlRows ''failed to query hosts'' ''failed to scan host'' ''error iterating hosts'' (hostsOf hostname)"

definition allHosts :: "DB \<Rightarrow> dnsRow list" where
  "allHosts d =
     sort_key (\<lambda>r. (dr_source r, dr_type r, dr_target r)) (filter isHostRow (tbl_rows (db_records d)))"

definition GetAllHosts :: "(DB, dnsRow list) sql_op" where
  "GetAllHosts = sqlRows ''failed to query hosts'' ''failed to scan host'' ''error iterating hosts'' allHosts"

definition DB_DeleteHost :: "string \<Rightarrow> string \<Rightarrow> (DB, unit) sql_op" where
  "DB_DeleteHost hostname ipAddress =
     (case recordTypeOf ipAddress of
        None \<Rightarrow> sqlFail (Msg (''invalid IP address: '' @ ipAddress))
      | Some typ \<Rightarrow>
          mustAffect ''failed to delete host''
            (deleteRecords (\<lambda>r. dr_source r = hostname \<and> dr_target r = ipAddress \<and> dr_type r = typ))
            (''host not found: '' @ hostname @ '' -> '' @ ipAddress))"

definition DeleteAllHostsForHostname :: "string \<Rightarrow> (DB, unit) sql_op" where
  "DeleteAllHostsForHostname hostname =
     sqlBind (sqlExec (''failed to delete hosts for '' @ hostname)
                (deleteRecords (\<lambda>r. dr_source r = hostname \<and> isHostRow r))) (\<lambda>_. sqlReturn ())"

definition DB_AddCNAME :: "string \<Rightarrow> string \<Rightarrow> (DB, unit) sql_op" where
  "DB_AddCNAME alias target =
     sqlBind (sqlExec (''failed to clear existing CNAME '' @ alias)
                (deleteRecords (\<lambda>r. dr_source r = alias \<and> isCNAMERow r))) (\<lambda>_.
     sqlExec (''failed to add CNAME '' @ alias) (insertRecord alias RecordTypeCNAME target))"

definition GetCNAME :: "string \<Rightarrow> (DB, string) sql_op" where
  "GetCNAME alias db =
     (case sqlRow ''failed to get CNAME''
             (\<lambda>d. map_option dr_target (find (\<lambda>r. dr_source r = alias \<and> isCNAMERow r) (tbl_rows (db_records d)))) db of
        (Inl (Wrap c (SqlErr NoRows)), d) \<Rightarrow> (Inl (Msg (''CNAME not found: '' @ alias)), d)
      | r \<Rightarrow> r)"

definition allCNAMEs :: "DB \<Rightarrow> dnsRow list" where
  "allCNAMEs d = sort_key dr_source (filter isCNAMERow (tbl_rows (db_records d)))"

definition GetAllCNAMEs :: "(DB, dnsRow list) sql_op" where
  "GetAllCNAMEs =
     sqlRows ''failed to query CNAMEs'' ''failed to scan CNAME'' ''error iterating CNAMEs'' allCNAMEs"

definition DB_DeleteCNAME :: "string \<Rightarrow> (DB, unit) sql_op" where
  "DB_DeleteCNAME alias =
     mustAffect ''failed to delete CNAME'' (deleteRecords (\<lambda>r. dr_source r = alias \<and> isCNAMERow r))
       (''CNAME not found: '' @ alias)"

section \<open>Domain lists\<close>

definition hasDomain :: "string \<Rightarrow> domainRow table \<Rightarrow> bool" where
  "hasDomain domain t \<longleftrightarrow> domain \<in> dom_domain ` set (tbl_rows t)"

definition newDomain :: "string \<Rightarrow> int \<Rightarrow> domainRow" where
  "newDomain domain i = \<lparr>dom_id = i, dom_domain = domain\<rparr>"

definition sortedDomains :: "domainRow table \<Rightarrow> string list" where
  "sortedDomains t = sort (map dom_domain (tbl_rows t))"

definition ignoreWhitelist :: "string \<Rightarrow> DB \<Rightarrow> sql_error + (unit \<times> DB)" where
  "ignoreWhitelist domain d =
     (if hasDomain domain (db_whitelist d) then Inr ((), d)
      else Inr ((), bump 1 (d\<lparr>db_whitelist := appendRow (newDomain domain) (db_whitelist d)\<rparr>)))"

definition deleteWhitelist :: "(domainRow \<Rightarrow> bool) \<Rightarrow> DB \<Rightarrow> sql_error + (nat \<times> DB)" where
  "deleteWhitelist P d =
     (let (n, t) = deleteRows P (db_whitelist d) in Inr (n, bump n (d\<lparr>db_whitelist := t\<rparr>)))"

definition ignoreBlacklist :: "string \<Rightarrow> DB \<Rightarrow> sql_error + (unit \<times> DB)" where
  "ignoreBlacklist domain d =
     (if hasDomain domain (db_blacklist d) then Inr ((), d)
      else Inr ((), bump 1 (d\<lparr>db_blacklist := appendRow (newDomain domain) (db_blacklist d)\<rparr>)))"

definition deleteBlacklist :: "(domainRow \<Rightarrow> bool) \<Rightarrow> DB \<Rightarrow> sql_error + (nat \<times> DB)" where
  "deleteBlacklist P d =
     (let (n, t) = deleteRows P (db_blacklist d) in Inr (n, bump n (d\<lparr>db_blacklist := t\<rparr>)))"

definition AddWhitelistDomain :: "string \<Rightarrow> (DB, unit) sql_op" where
  "AddWhitelistDomain domain =
     sqlExec (''failed to add whitelist domain '' @ domain) (ignoreWhitelist domain)"

definition GetWhitelistDomains :: "(DB, string list) sql_op" where
  "GetWhitelistDomains =
     sqlRows ''failed to query whitelist'' ''failed to scan whitelist domain'' ''error iterating whitelist''
       (\<lambda>d. sortedDomains (db_whitelist d))"

definition DeleteWhitelistDomain :: "string \<Rightarrow> (DB, unit) sql_op" where
  "DeleteWhitelistDomain domain =
     mustAffect ''failed to delete whitelist domain'' (deleteWhitelist (\<lambda>r. dom_domain r = domain))
       (''whitelist domain not found: '' @ domain)"

definition AddBlacklistDomain :: "string \<Rightarrow> (DB, unit) sql_op" where
  "AddBlacklistDomain domain =
     sqlExec (''failed to add blacklist domain '' @ domain) (ignoreBlacklist domain)"

definition GetBlacklistDomains :: "(DB, string list) sql_op" where
  "GetBlacklistDomains =
     sqlRows ''failed to query blacklist'' ''failed to scan blacklist domain'' ''error iterating blacklist''
       (\<lambda>d. sortedDomains (db_blacklist d))"

definition DeleteBlacklistDomain :: "string \<Rightarrow> (DB, unit) sql_op" where
  "DeleteBlacklistDomain domain =
     mustAffect ''failed to delete blacklist domain'' (deleteBlacklist (\<lambda>r. dom_domain r = domain))
       (''blacklist domain not found: '' @ domain)"

section \<open>Blocklists\<close>

definition blocklistFormats :: "string list" where
  "blocklistFormats = [''auto'', ''adblock'', ''hosts'', ''domains'']"

definition hasBlocklist :: "string \<Rightarrow> DB \<Rightarrow> bool" where
  "hasBlocklist nm d \<longleftrightarrow> nm \<in> bk_Name ` set (tbl_rows (db_blocklists d))"

definition newBlocklist :: "string \<Rightarrow> string \<Rightarrow> string \<Rightarrow> int \<Rightarrow> Blocklist" where
  "newBlocklist nm url format i =
     \<lparr>bk_ID = i, bk_Name = nm, bk_URL = url, bk_Format = format, bk_Enabled = True, bk_LastFetched = None\<rparr>"

definition insertBlocklist :: "string \<Rightarrow> string \<Rightarrow> string \<Rightarrow> DB \<Rightarrow> sql_error + (unit \<times> DB)" where
  "insertBlocklist nm url format d =
     (if format \<notin> set blocklistFormats then Inl (CheckViolation ''filtering_blocklists.format'')
      else if hasBlocklist nm d then Inl (UniqueViolation ''filtering_blocklists.name'')
      else Inr ((), bump 1 (d\<lparr>db_blocklists := appendRow (newBlocklist nm url format) (db_blocklists d)\<rparr>)))"

definition updateBlocklists :: "string \<Rightarrow> (Blocklist \<Rightarrow> Blocklist) \<Rightarrow> DB \<Rightarrow> sql_error + (nat \<times> DB)" where
  "updateBlocklists nm f d =
     (let (n, t) = updateRows (\<lambda>r. bk_Name r = nm) f (db_blocklists d)
      in Inr (n, bump n (d\<lparr>db_blocklists := t\<rparr>)))"

definition upsertBlocklist :: "string \<Rightarrow> string \<Rightarrow> string \<Rightarrow> DB \<Rightarrow> sql_error + (unit \<times> DB)" where
  "upsertBlocklist nm url format d =
     (if format \<notin> set blocklistFormats then Inl (CheckViolation ''filtering_blocklists.format'')
      else if hasBlocklist nm d then
        map_sum id (map_prod (\<lambda>_. ()) id)
          (updateBlocklists nm (\<lambda>r. r\<lparr>bk_URL := url, bk_Format := format\<rparr>) d)
      else insertBlocklist nm url format d)"

definition deleteBlocklists :: "(Blocklist \<Rightarrow> bool) \<Rightarrow> DB \<Rightarrow> sql_error + (nat \<times> DB)" where
  "deleteBlocklists P d =
     (let (n, t) = deleteRows P (db_blocklists d) in Inr (n, bump n (d\<lparr>db_blocklists := t\<rparr>)))"

definition AddBlocklist :: "string \<Rightarrow> string \<Rightarrow> string \<Rightarrow> (DB, unit) sql_op" where
  "AddBlocklist nm url format = sqlExec (''failed to add blocklist '' @ nm) (upsertBlocklist nm url format)"

definition sortedBlocklists :: "DB \<Rightarrow> Blocklist list" where
  "sortedBlocklists d = sort_key bk_Name (tbl_rows (db_blocklists d))"

definition DB_GetBlocklists :: "(DB, Blocklist list) sql_op" where
  "DB_GetBlocklists =
     sqlRows ''failed to query blocklists'' ''failed to scan blocklist'' ''error iterating blocklists''
       sortedBlocklists"

definition DeleteBlocklist :: "string \<Rightarrow> (DB, unit) sql_op" where
  "DeleteBlocklist nm =
     mustAffect ''failed to delete blocklist'' (deleteBlocklists (\<lambda>r. bk_Name r = nm))
       (''blocklist not found: '' @ nm)"

definition EnableBlocklist :: "string \<Rightarrow> bool \<Rightarrow> (DB, unit) sql_op" where
  "EnableBlocklist nm enabled =
     mustAffect ''failed to update blocklist'' (updateBlocklists nm (\<lambda>r. r\<lparr>bk_Enabled := enabled\<rparr>))
       (''blocklist not found: '' @ nm)"

definition UpdateBlocklistFetchTime :: "string \<Rightarrow> string \<Rightarrow> (DB, unit) sql_op" where
  "UpdateBlocklistFetchTime timestamp nm =
     mustAffect ''failed to update blocklist fetch time''
       (updateBlocklists nm (\<lambda>r. r\<lparr>bk_LastFetched := Some timestamp\<rparr>))
       (''blocklist not found: '' @ nm)"

section \<open>Settings\<close>

text \<open>\<open>UPDATE ... WHERE id = 1\<close> of a settings table: one row if there is one.\<close>

definition countRow :: "'a option \<Rightarrow> nat" where
  "countRow r = (case r of None \<Rightarrow> 0 | Some _ \<Rightarrow> 1)"

definition GetFilteringEnabled :: "(DB, bool) sql_op" where
  "GetFilteringEnabled =
     sqlRow ''failed to get filtering enabled state'' (\<lambda>d. map_option fr_enabled (db_filtering d))"

definition updateFiltering :: "(filteringRow \<Rightarrow> filteringRow) \<Rightarrow> DB \<Rightarrow> sql_error + (nat \<times> DB)" where
  "updateFiltering f d =
     (let n = countRow (db_filtering d)
      in Inr (n, bump n (d\<lparr>db_filtering := map_option f (db_filtering d)\<rparr>)))"

definition DB_SetFilteringEnabled :: "bool \<Rightarrow> (DB, unit) sql_op" where
  "DB_SetFilteringEnabled enabled =
     mustAffect ''failed to set filtering enabled state'' (updateFiltering (\<lambda>r. r\<lparr>fr_enabled := enabled\<rparr>))
       ''config_filtering row not found''"

definition GetFilteringConfig :: "(DB, filteringRow) sql_op" where
  "GetFilteringConfig = sqlRow ''failed to get filtering config'' db_filtering"

definition setFilteringRow :: "FilteringConfig \<Rightarrow> DB \<Rightarrow> sql_error + (nat \<times> DB)" where
  "setFilteringRow c =
     updateFiltering (\<lambda>_. \<lparr>fr_enabled = fc_Enabled c, fr_log_blocked = fc_LogBlocked c,
       fr_log_allowed = fc_LogAllowed c, fr_refresh = fc_RefreshInterval c\<rparr>)"

definition SetFilteringConfigTyped :: "FilteringConfig \<Rightarrow> (DB, unit) sql_op" where
  "SetFilteringConfigTyped c =
     sqlBind (sqlExec ''failed to update filtering config'' (setFilteringRow c)) (\<lambda>_. sqlReturn ())"

definition setUpstreamRow :: "UpstreamConfig \<Rightarrow> DB \<Rightarrow> sql_error + (nat \<times> DB)" where
  "setUpstreamRow c d =
     (let n = countRow (db_upstreamCfg d)
      in Inr (n, bump n (d\<lparr>db_upstreamCfg := map_option (\<lambda>_. \<lparr>ur_udp_timeout = uc_UDPTimeout c,
           ur_tcp_timeout = uc_TCPTimeout c, ur_max_retries = uc_MaxRetries c\<rparr>) (db_upstreamCfg d)\<rparr>)))"

definition SetUpstreamConfigTyped :: "UpstreamConfig \<Rightarrow> (DB, unit) sql_op" where
  "SetUpstreamConfigTyped c =
     sqlBind (sqlExec ''failed to update upstream config'' (setUpstreamRow c)) (\<lambda>_. sqlReturn ())"

definition clusterModes :: "string list" where
  "clusterModes = [ClusterModeStandalone, ClusterModePrimary, ClusterModeSecondary]"

definition setClusterRow :: "ClusterConfig \<Rightarrow> DB \<Rightarrow> sql_error + (unit \<times> DB)" where
  "setClusterRow c d =
     (if db_cluster d \<noteq> None \<and> cc_Mode c \<notin> set clusterModes then Inl (CheckViolation ''config_cluster.mode'')
      else Inr ((), bump (countRow (db_cluster d)) (d\<lparr>db_cluster := map_option (\<lambda>_. c) (db_cluster d)\<rparr>)))"

definition SetClusterConfig :: "ClusterConfig \<Rightarrow> (DB, unit) sql_op" where
  "SetClusterConfig c = sqlExec ''failed to update cluster config'' (setClusterRow c)"

definition DB_GetClusterConfig :: "(DB, ClusterConfig) sql_op" where
  "DB_GetClusterConfig = sqlRow ''failed to read cluster config'' db_cluster"

end
