(* ===== verification/Database_Facts.thy ===== *)
theory Database_Facts
  imports Database
begin

text \<open>
  What every operation of the database respects, whatever the driver does: the constraints
  of the schema with what the program adds to them (\<open>dbInv\<close>), and the version counter on
  which synchronisation relies (\<open>versioned\<close>): it never decreases, and data that differ have
  different versions.
\<close>

section \<open>Invariant\<close>

definition dnsKey :: "dnsRow \<Rightarrow> string \<times> string \<times> string" where
  "dnsKey r = (dr_source r, dr_type r, dr_target r)"

definition dnsRowOK :: "dnsRow \<Rightarrow> bool" where
  "dnsRowOK r \<longleftrightarrow> isCNAMERow r \<or> recordTypeOf (dr_target r) = Some (dr_type r)"

definition recordsInv :: "dnsRow list \<Rightarrow> bool" where
  "recordsInv rows \<longleftrightarrow> distinct (map dnsKey rows) \<and> list_all dnsRowOK rows \<and>
     distinct (map dr_source (filter isCNAMERow rows))"

definition blocklistsInv :: "Blocklist list \<Rightarrow> bool" where
  "blocklistsInv rows \<longleftrightarrow> distinct (map bk_Name rows) \<and> list_all (\<lambda>r. bk_Format r \<in> set blocklistFormats) rows"

definition dbInv :: "DB \<Rightarrow> bool" where
  "dbInv d \<longleftrightarrow>
     db_version d \<noteq> None \<and> db_server d \<noteq> None \<and> db_upstreamCfg d \<noteq> None \<and> db_logging d \<noteq> None \<and>
     db_filtering d \<noteq> None \<and> db_rateLimit d \<noteq> None \<and> db_api d \<noteq> None \<and>
     (\<exists>c. db_cluster d = Some c \<and> cc_Mode c \<in> set clusterModes) \<and>
     recordsInv (tbl_rows (db_records d)) \<and>
     distinct (map us_ServerAddress (tbl_rows (db_upstreams d))) \<and>
     distinct (map dom_domain (tbl_rows (db_whitelist d))) \<and>
     distinct (map dom_domain (tbl_rows (db_blacklist d))) \<and>
     blocklistsInv (tbl_rows (db_blocklists d))"

definition keepsInv :: "DB \<Rightarrow> DB \<Rightarrow> bool" where
  "keepsInv a b \<longleftrightarrow> (dbInv a \<longrightarrow> dbInv b)"

section \<open>Versions\<close>

definition dataOf where
  "dataOf d = (db_server d, db_upstreamCfg d, db_logging d, db_filtering d, db_rateLimit d, db_api d, db_cluster d,
     db_records d, db_upstreams d, db_whitelist d, db_blacklist d, db_blocklists d)"

definition versioned :: "DB \<Rightarrow> DB \<Rightarrow> bool" where
  "versioned a b \<longleftrightarrow>
     (case db_version a of
        None \<Rightarrow> db_version b = None
      | Some v \<Rightarrow> \<exists>w. db_version b = Some w \<and> v \<le> w \<and> (w = v \<longrightarrow> dataOf b = dataOf a))"

lemma versioned_trans: "versioned a b \<Longrightarrow> versioned b c \<Longrightarrow> versioned a c"
  by (fastforce simp: versioned_def split: option.splits)

interpretation inv: db_relation keepsInv
  by unfold_locales (auto simp: keepsInv_def dbInv_def)

interpretation ver: db_relation versioned
  by unfold_locales (auto simp: versioned_def dataOf_def intro: versioned_trans split: option.split)

lemma versioned_bump: "dataOf d' = dataOf d \<or> 0 < n \<Longrightarrow> db_version d' = db_version d \<Longrightarrow> versioned d (bump n d')"
  by (auto simp: versioned_def bump_def dataOf_def split: option.split)

lemma bump_fields [simp]:
  "db_server (bump n d) = db_server d" "db_upstreamCfg (bump n d) = db_upstreamCfg d"
  "db_logging (bump n d) = db_logging d" "db_filtering (bump n d) = db_filtering d"
  "db_rateLimit (bump n d) = db_rateLimit d" "db_api (bump n d) = db_api d" "db_cluster (bump n d) = db_cluster d"
  "db_records (bump n d) = db_records d" "db_upstreams (bump n d) = db_upstreams d"
  "db_whitelist (bump n d) = db_whitelist d" "db_blacklist (bump n d) = db_blacklist d"
  "db_blocklists (bump n d) = db_blocklists d" "db_fault (bump n d) = db_fault d"
  "db_version (bump n d) = map_option (\<lambda>v. v + int n) (db_version d)" "noFaults (bump n d) = noFaults d"
  by (simp_all add: bump_def noFaults_def)

lemma rows_simps [simp]:
  "tbl_rows (appendRow mk t) = tbl_rows t @ [mk (tbl_seq t + 1)]"
  "tbl_rows (snd (deleteRows P t)) = filter (\<lambda>r. \<not> P r) (tbl_rows t)"
  "tbl_rows (snd (updateRows P f t)) = map (\<lambda>r. if P r then f r else r) (tbl_rows t)"
  "fst (deleteRows P t) = length (filter P (tbl_rows t))"
  "fst (updateRows P f t) = length (filter P (tbl_rows t))"
  by (simp_all add: appendRow_def deleteRows_def updateRows_def)

section \<open>Statements\<close>

lemma stmt_versioned:
  "insertUpstream a p d = Inr (x, d') \<Longrightarrow> versioned d d'"
  "updateUpstreams a k d = Inr (n, d') \<Longrightarrow> versioned d d'"
  "upsertUpstream a p d = Inr (x, d') \<Longrightarrow> versioned d d'"
  "deleteUpstreams Pu d = Inr (n, d') \<Longrightarrow> versioned d d'"
  "insertRecord s t v d = Inr (x, d') \<Longrightarrow> versioned d d'"
  "upsertRecord s t v d = Inr (x, d') \<Longrightarrow> versioned d d'"
  "deleteRecords Pr d = Inr (n, d') \<Longrightarrow> versioned d d'"
  "ignoreWhitelist a d = Inr (x, d') \<Longrightarrow> versioned d d'"
  "deleteWhitelist Pd d = Inr (n, d') \<Longrightarrow> versioned d d'"
  "ignoreBlacklist a d = Inr (x, d') \<Longrightarrow> versioned d d'"
  "deleteBlacklist Pd d = Inr (n, d') \<Longrightarrow> versioned d d'"
  "insertBlocklist a b c d = Inr (x, d') \<Longrightarrow> versioned d d'"
  "updateBlocklists a f d = Inr (n, d') \<Longrightarrow> versioned d d'"
  "deleteBlocklists Pb d = Inr (n, d') \<Longrightarrow> versioned d d'"
  "updateFiltering g d = Inr (n, d') \<Longrightarrow> versioned d d'"
  "setUpstreamRow u d = Inr (n, d') \<Longrightarrow> versioned d d'"
  "setClusterRow cl d = Inr (x, d') \<Longrightarrow> versioned d d'"
  unfolding insertUpstream_def updateUpstreams_def upsertUpstream_def deleteUpstreams_def insertRecord_def upsertRecord_def
    deleteRecords_def ignoreWhitelist_def deleteWhitelist_def ignoreBlacklist_def deleteBlacklist_def
    insertBlocklist_def updateBlocklists_def deleteBlocklists_def updateFiltering_def setUpstreamRow_def
    setClusterRow_def
  by (auto simp: Let_def dataOf_def countRow_def ver.same split: if_splits prod.splits option.splits
      intro!: versioned_bump dest: deleteRows_none updateRows_none)

lemma upsertBlocklist_cases:
  assumes "upsertBlocklist a b c d = Inr (x, d')"
  shows "(\<exists>n. updateBlocklists a (\<lambda>r. r\<lparr>bk_URL := b, bk_Format := c\<rparr>) d = Inr (n, d')) \<and> c \<in> set blocklistFormats \<or>
    insertBlocklist a b c d = Inr (x, d')"
proof -
  consider "hasBlocklist a d" "c \<in> set blocklistFormats" | "insertBlocklist a b c d = Inr (x, d')"
    using assms by (auto simp: upsertBlocklist_def split: if_splits)
  then show ?thesis
    using assms
    by cases (auto simp: upsertBlocklist_def updateBlocklists_def split: prod.splits)
qed

lemma upsertBlocklist_versioned: "upsertBlocklist a b c d = Inr (x, d') \<Longrightarrow> versioned d d'"
  using stmt_versioned upsertBlocklist_cases by metis

text \<open>The schema's constraints.\<close>

lemma distinct_keys_filter: "distinct (map f xs) \<Longrightarrow> distinct (map f (filter P xs))"
  by (simp add: distinct_map_filter)

lemma update_keys:
  assumes "\<And>r. f (g r) = f r" shows "f \<circ> (\<lambda>r. if P r then g r else r) = f"
  using assms by auto

lemma recordsInv_filter: "recordsInv rows \<Longrightarrow> recordsInv (filter P rows)"
proof -
  have "filter isCNAMERow (filter P rows) = filter P (filter isCNAMERow rows)"
    by (simp add: conj_commute)
  then show "recordsInv rows \<Longrightarrow> recordsInv (filter P rows)"
    by (auto simp: recordsInv_def list_all_iff distinct_keys_filter simp del: filter_filter)
qed

lemma recordsInv_append:
  "recordsInv rows \<Longrightarrow> dnsRowOK r \<Longrightarrow> dnsKey r \<notin> dnsKey ` set rows \<Longrightarrow>
    (isCNAMERow r \<Longrightarrow> \<forall>s\<in>set rows. isCNAMERow s \<longrightarrow> dr_source s \<noteq> dr_source r) \<Longrightarrow> recordsInv (rows @ [r])"
  by (auto simp: recordsInv_def)

lemma hasRecord_key: "hasRecord s t v d \<longleftrightarrow> (s, t, v) \<in> dnsKey ` set (tbl_rows (db_records d))"
  by (force simp: hasRecord_def dnsKey_def image_iff)

lemma newRecord_simps [simp]:
  "dnsKey (newRecord s t v i) = (s, t, v)" "dr_source (newRecord s t v i) = s"
  "dr_target (newRecord s t v i) = v" "isCNAMERow (newRecord s t v i) \<longleftrightarrow> t = RecordTypeCNAME"
  "dnsRowOK (newRecord s t v i) \<longleftrightarrow> t = RecordTypeCNAME \<or> recordTypeOf v = Some t"
  by (simp_all add: newRecord_def dnsKey_def isCNAMERow_def dnsRowOK_def)

lemma insertRecord_inv:
  assumes "insertRecord s t v d = Inr (x, d')" "dbInv d" "t = RecordTypeCNAME \<or> recordTypeOf v = Some t"
    and "t = RecordTypeCNAME \<Longrightarrow> \<forall>r\<in>set (tbl_rows (db_records d)). isCNAMERow r \<longrightarrow> dr_source r \<noteq> s"
  shows "dbInv d'"
proof -
  let ?rows = "tbl_rows (db_records d)"
  from assms(1) have new: "(s, t, v) \<notin> dnsKey ` set ?rows"
    and d': "d' = bump 1 (d\<lparr>db_records := appendRow (newRecord s t v) (db_records d)\<rparr>)"
    by (auto simp: insertRecord_def hasRecord_key split: if_splits)
  have "recordsInv (?rows @ [newRecord s t v (tbl_seq (db_records d) + 1)])"
    using assms new by (intro recordsInv_append) (auto simp: dbInv_def)
  with assms(2) d' show ?thesis by (simp add: dbInv_def)
qed

lemma upsertRecord_inv:
  "upsertRecord s t v d = Inr (x, d') \<Longrightarrow> dbInv d \<Longrightarrow> recordTypeOf v = Some t \<Longrightarrow> dbInv d'"
  using insertRecord_inv [of s t v d x d']
  by (auto simp: upsertRecord_def dbInv_def recordTypeOf_def RecordTypeCNAME_def RecordTypeA_def RecordTypeAAAA_def
      split: if_splits option.splits)

lemma table_inv:
  "insertUpstream a p d = Inr (x, d') \<Longrightarrow> dbInv d \<Longrightarrow> dbInv d'"
  "upsertUpstream a p d = Inr (x, d') \<Longrightarrow> dbInv d \<Longrightarrow> dbInv d'"
  "ignoreWhitelist a d = Inr (x, d') \<Longrightarrow> dbInv d \<Longrightarrow> dbInv d'"
  "ignoreBlacklist a d = Inr (x, d') \<Longrightarrow> dbInv d \<Longrightarrow> dbInv d'"
  "insertBlocklist a b c d = Inr (x, d') \<Longrightarrow> dbInv d \<Longrightarrow> dbInv d'"
  by (auto simp: insertUpstream_def upsertUpstream_def updateUpstreams_def updateRows_def ignoreWhitelist_def ignoreBlacklist_def insertBlocklist_def
      hasUpstream_def newUpstream_def hasDomain_def newDomain_def hasBlocklist_def newBlocklist_def dbInv_def
      blocklistsInv_def update_keys split: if_splits)

lemma delete_inv:
  "deleteUpstreams Pu d = Inr (n, d') \<Longrightarrow> dbInv d \<Longrightarrow> dbInv d'"
  "deleteRecords Pr d = Inr (n, d') \<Longrightarrow> dbInv d \<Longrightarrow> dbInv d'"
  "deleteWhitelist Pd d = Inr (n, d') \<Longrightarrow> dbInv d \<Longrightarrow> dbInv d'"
  "deleteBlacklist Pd d = Inr (n, d') \<Longrightarrow> dbInv d \<Longrightarrow> dbInv d'"
  "deleteBlocklists Pb d = Inr (n, d') \<Longrightarrow> dbInv d \<Longrightarrow> dbInv d'"
  by (auto simp: deleteUpstreams_def deleteRecords_def deleteWhitelist_def deleteBlacklist_def deleteBlocklists_def
      deleteRows_def dbInv_def distinct_keys_filter recordsInv_filter blocklistsInv_def list_all_iff)

lemma settings_inv:
  "updateFiltering g d = Inr (n, d') \<Longrightarrow> dbInv d \<Longrightarrow> dbInv d'"
  "setUpstreamRow u d = Inr (n, d') \<Longrightarrow> dbInv d \<Longrightarrow> dbInv d'"
  "setClusterRow cl d = Inr (x, d') \<Longrightarrow> dbInv d \<Longrightarrow> dbInv d'"
  by (auto simp: updateFiltering_def setUpstreamRow_def setClusterRow_def dbInv_def Let_def split: if_splits)

lemma updateBlocklists_inv:
  assumes "updateBlocklists a f d = Inr (n, d')" "dbInv d"
    and "\<And>r. bk_Name (f r) = bk_Name r" "\<And>r. bk_Format r \<in> set blocklistFormats \<Longrightarrow> bk_Format (f r) \<in> set blocklistFormats"
  shows "dbInv d'"
  using assms
  by (auto simp: updateBlocklists_def updateRows_def dbInv_def blocklistsInv_def update_keys list_all_iff)

lemma upsertBlocklist_inv: "upsertBlocklist a b c d = Inr (x, d') \<Longrightarrow> dbInv d \<Longrightarrow> dbInv d'"
  using upsertBlocklist_cases [of a b c d x d'] table_inv(5) updateBlocklists_inv by fastforce

lemma updateUpstreams_inv:
  "updateUpstreams a f d = Inr (n, d') \<Longrightarrow> dbInv d \<Longrightarrow> (\<And>r. us_ServerAddress (f r) = us_ServerAddress r) \<Longrightarrow> dbInv d'"
  by (auto simp: updateUpstreams_def updateRows_def dbInv_def update_keys)

lemma flags_inv:
  "updateUpstreams a (us_Enabled_update (\<lambda>_. e)) d = Inr (n, d') \<Longrightarrow> dbInv d \<Longrightarrow> dbInv d'"
  "updateBlocklists a (bk_Enabled_update (\<lambda>_. e)) d = Inr (n, d') \<Longrightarrow> dbInv d \<Longrightarrow> dbInv d'"
  "updateBlocklists a (bk_LastFetched_update (\<lambda>_. ts)) d = Inr (n, d') \<Longrightarrow> dbInv d \<Longrightarrow> dbInv d'"
  by (erule updateUpstreams_inv updateBlocklists_inv; simp)+

section \<open>Operations\<close>

lemmas stmt_inv = flags_inv table_inv delete_inv settings_inv upsertBlocklist_inv upsertRecord_inv

lemmas operation_defs = AddUpstreamServer_def SetUpstreamServers_def DeleteUpstreamServer_def EnableUpstreamServer_def
  DB_AddHost_def DB_DeleteHost_def DeleteAllHostsForHostname_def DB_AddCNAME_def DB_DeleteCNAME_def
  AddWhitelistDomain_def DeleteWhitelistDomain_def AddBlacklistDomain_def DeleteBlacklistDomain_def
  AddBlocklist_def DeleteBlocklist_def EnableBlocklist_def UpdateBlocklistFetchTime_def DB_SetFilteringEnabled_def
  SetFilteringConfigTyped_def SetUpstreamConfigTyped_def SetClusterConfig_def setFilteringRow_def

lemma upstream_ops_versioned:
  "keeps versioned (AddUpstreamServer a p)" "keeps versioned (SetUpstreamServers servers)"
  "keeps versioned (DeleteUpstreamServer a)" "keeps versioned (EnableUpstreamServer a e)"
  unfolding operation_defs
  by (auto intro!: ver.keeps_intros intro: stmt_versioned split: prod.split)

lemma custom_ops_versioned:
  "keeps versioned (DB_AddHost h ip)" "keeps versioned (DB_DeleteHost h ip)"
  "keeps versioned (DeleteAllHostsForHostname h)" "keeps versioned (DB_AddCNAME al tg)"
  "keeps versioned (DB_DeleteCNAME al)"
  unfolding operation_defs
  by (auto intro!: ver.keeps_intros intro: stmt_versioned split: option.split)

lemma filtering_ops_versioned:
  "keeps versioned (AddWhitelistDomain a)" "keeps versioned (DeleteWhitelistDomain a)"
  "keeps versioned (AddBlacklistDomain a)" "keeps versioned (DeleteBlacklistDomain a)"
  "keeps versioned (AddBlocklist a b c)" "keeps versioned (DeleteBlocklist a)"
  "keeps versioned (EnableBlocklist a e)" "keeps versioned (UpdateBlocklistFetchTime ts a)"
  "keeps versioned (DB_SetFilteringEnabled e)" "keeps versioned (SetFilteringConfigTyped fc)"
  unfolding operation_defs
  by (auto intro!: ver.keeps_intros intro: stmt_versioned upsertBlocklist_versioned)

lemma settings_ops_versioned:
  "keeps versioned (SetUpstreamConfigTyped uc)" "keeps versioned (SetClusterConfig cc)" "keeps versioned IncrementVersion"
  unfolding operation_defs IncrementVersion_def
  by (auto intro!: ver.keeps_intros intro: stmt_versioned versioned_bump)

lemma upstream_ops_inv:
  "keeps keepsInv (AddUpstreamServer a p)" "keeps keepsInv (SetUpstreamServers servers)"
  "keeps keepsInv (DeleteUpstreamServer a)" "keeps keepsInv (EnableUpstreamServer a e)"
  unfolding operation_defs
  by (auto intro!: inv.keeps_intros simp: keepsInv_def intro: stmt_inv split: prod.split)

lemma custom_ops_inv:
  "keeps keepsInv (DB_AddHost h ip)" "keeps keepsInv (DB_DeleteHost h ip)"
  "keeps keepsInv (DeleteAllHostsForHostname h)" "keeps keepsInv (DB_DeleteCNAME al)"
  unfolding operation_defs
  by (auto intro!: inv.keeps_intros simp: keepsInv_def intro: stmt_inv split: option.split)

lemma dbInv_tick [simp]: "dbInv (d\<lparr>db_tick := n\<rparr>) = dbInv d"
  by (simp add: dbInv_def)

lemma DB_AddCNAME_inv: "keeps keepsInv (DB_AddCNAME al tg)"
proof -
  let ?gone = "\<lambda>d. dbInv d \<and> (\<forall>r\<in>set (tbl_rows (db_records d)). isCNAMERow r \<longrightarrow> dr_source r \<noteq> al)"
  have del: "triple dbInv (sqlExec ctx (deleteRecords (\<lambda>r. dr_source r = al \<and> isCNAMERow r))) (\<lambda>_. ?gone) dbInv" for ctx
  proof (rule triple_exec)
    fix d assume "dbInv d"
    with delete_inv(2) [of "\<lambda>r. dr_source r = al \<and> isCNAMERow r" d]
    show "case deleteRecords (\<lambda>r. dr_source r = al \<and> isCNAMERow r) d of Inl e \<Rightarrow> dbInv d | Inr (x, d') \<Rightarrow> ?gone d'"
      by (auto simp: deleteRecords_def deleteRows_def)
  qed (simp_all add: dbInv_tick)
  have "triple ?gone (sqlExec ctx (insertRecord al RecordTypeCNAME tg)) (\<lambda>_. dbInv) dbInv" for ctx
    by (rule triple_exec) (auto simp: dbInv_tick intro: insertRecord_inv split: sum.split prod.split)
  then have "triple dbInv (DB_AddCNAME al tg) (\<lambda>_. dbInv) dbInv"
    unfolding DB_AddCNAME_def by (intro triple_bind [OF del]) auto
  then show ?thesis unfolding triple_keeps by (simp add: keepsInv_def [abs_def])
qed

lemma filtering_ops_inv:
  "keeps keepsInv (AddWhitelistDomain a)" "keeps keepsInv (DeleteWhitelistDomain a)"
  "keeps keepsInv (AddBlacklistDomain a)" "keeps keepsInv (DeleteBlacklistDomain a)"
  "keeps keepsInv (AddBlocklist a b c)" "keeps keepsInv (DeleteBlocklist a)"
  "keeps keepsInv (EnableBlocklist a e)" "keeps keepsInv (UpdateBlocklistFetchTime ts a)"
  "keeps keepsInv (DB_SetFilteringEnabled e)" "keeps keepsInv (SetFilteringConfigTyped fc)"
  unfolding operation_defs
  by (auto intro!: inv.keeps_intros simp: keepsInv_def intro: stmt_inv)

lemma settings_ops_inv:
  "keeps keepsInv (SetUpstreamConfigTyped uc)" "keeps keepsInv (SetClusterConfig cc)"
  "keeps keepsInv IncrementVersion" "keeps keepsInv (SetVersion v)"
  unfolding operation_defs IncrementVersion_def SetVersion_def
  by (auto intro!: inv.keeps_intros simp: keepsInv_def intro: stmt_inv) (simp_all add: dbInv_def)

end
