(* ===== verification/Replication.thy ===== *)
theory Replication
  imports Database_Facts "HOL-Library.AList" "HOL-Library.Multiset"
begin

text \<open>
  \<open>database/export.go\<close>, which turns the tables into a configuration, and the import of
  \<open>database/cluster.go\<close>, which replaces the replicated tables by what a primary sent. A Go map
  is an association list in its iteration order. Facts: the export of a database that keeps
  its invariant always succeeds, the import is a transaction, and importing what a database
  exports reproduces it.
\<close>

section \<open>Export\<close>

definition zeroConfig :: Config where
  "zeroConfig =
     \<lparr>Server = \<lparr>sc_Host = '''', sc_Port = 0, sc_Workers = autoWorkers, sc_WorkersRaw = '''', sc_MaxConcurrency = 0,
        sc_UpstreamSocketPoolSize = 0, sc_EnableTCP = False, sc_TCPFallback = False\<rparr>,
      Upstream = \<lparr>uc_Servers = [], uc_UDPTimeout = '''', uc_TCPTimeout = '''', uc_MaxRetries = 0\<rparr>,
      CustomDNS = \<lparr>cd_Hosts = [], cd_CNAMEs = []\<rparr>,
      Logging = \<lparr>lc_Level = '''', lc_Structured = False, lc_StructuredFormat = '''', lc_IncludePID = False,
        lc_ExtraFields = None\<rparr>,
      Filtering = \<lparr>fc_Enabled = False, fc_LogBlocked = False, fc_LogAllowed = False, fc_WhitelistDomains = [],
        fc_BlacklistDomains = [], fc_Blocklists = [], fc_RefreshInterval = ''''\<rparr>,
      RateLimit = \<lparr>rc_CleanupSeconds = 0, rc_MaxIPEntries = 0, rc_MaxPrefixEntries = 0, rc_GlobalQPS = 0,
        rc_GlobalBurst = 0, rc_PrefixQPS = 0, rc_PrefixBurst = 0, rc_IPQPS = 0, rc_IPBurst = 0\<rparr>,
      API = \<lparr>ac_Enabled = False, ac_Host = '''', ac_Port = 0, ac_APIKey = ''''\<rparr>,
      Cluster = \<lparr>cc_Mode = '''', cc_NodeID = '''', cc_PrimaryURL = '''', cc_SharedSecret = '''',
        cc_SyncInterval = '''', cc_SyncTimeout = ''''\<rparr>\<rparr>"

definition exportServerConfig :: "go_unicode \<Rightarrow> Config \<Rightarrow> (DB, Config) sql_op" where
  "exportServerConfig uc cfg =
     sqlBind (sqlRow ''failed to read server config'' db_server) (\<lambda>r.
     sqlReturn (cfg\<lparr>Server := ParseWorkers uc ((Server cfg)\<lparr>sc_Host := sr_host r, sc_Port := sr_port r,
       sc_WorkersRaw := sr_workers r, sc_MaxConcurrency := sr_max_concurrency r,
       sc_UpstreamSocketPoolSize := sr_pool_size r, sc_EnableTCP := sr_enable_tcp r \<noteq> 0,
       sc_TCPFallback := sr_tcp_fallback r \<noteq> 0\<rparr>)\<rparr>))"

definition exportUpstreamConfig :: "Config \<Rightarrow> (DB, Config) sql_op" where
  "exportUpstreamConfig cfg =
     sqlBind (sqlRow ''failed to read upstream config'' db_upstreamCfg) (\<lambda>r.
     sqlBind (sqlWrap ''failed to get upstream servers'' GetUpstreamServers) (\<lambda>servers.
     sqlReturn (cfg\<lparr>Upstream := \<lparr>uc_Servers = map us_ServerAddress servers, uc_UDPTimeout = ur_udp_timeout r,
       uc_TCPTimeout = ur_tcp_timeout r, uc_MaxRetries = ur_max_retries r\<rparr>\<rparr>)))"

text \<open>\<open>m[k] = append(m[k], v)\<close>.\<close>

definition appendAt :: "'k \<Rightarrow> 'v \<Rightarrow> ('k \<times> 'v list) list \<Rightarrow> ('k \<times> 'v list) list" where
  "appendAt k v m = AList.update k ((case map_of m k of None \<Rightarrow> [] | Some vs \<Rightarrow> vs) @ [v]) m"

definition groupHosts :: "dnsRow list \<Rightarrow> (string \<times> string list) list" where
  "groupHosts hosts = fold (\<lambda>r. appendAt (dr_source r) (dr_target r)) hosts []"

definition groupCNAMEs :: "dnsRow list \<Rightarrow> (string \<times> string) list" where
  "groupCNAMEs cnames = fold (\<lambda>r. AList.update (dr_source r) (dr_target r)) cnames []"

definition exportCustomDNS :: "Config \<Rightarrow> (DB, Config) sql_op" where
  "exportCustomDNS cfg =
     sqlBind (sqlWrap ''failed to get custom DNS hosts'' GetAllHosts) (\<lambda>hosts.
     sqlBind (sqlWrap ''failed to get custom DNS CNAMEs'' GetAllCNAMEs) (\<lambda>cnames.
     sqlReturn (cfg\<lparr>CustomDNS := \<lparr>cd_Hosts = groupHosts hosts, cd_CNAMEs = groupCNAMEs cnames\<rparr>\<rparr>)))"

definition exportLoggingConfig :: "Config \<Rightarrow> (DB, Config) sql_op" where
  "exportLoggingConfig cfg =
     sqlBind (sqlRow ''failed to read logging config'' db_logging) (\<lambda>r.
     sqlReturn (cfg\<lparr>Logging := \<lparr>lc_Level = lr_level r, lc_Structured = lr_structured r \<noteq> 0,
       lc_StructuredFormat = lr_format r, lc_IncludePID = lr_include_pid r \<noteq> 0, lc_ExtraFields = Some fmempty\<rparr>\<rparr>))"

definition enabledBlocklists :: "Blocklist list \<Rightarrow> BlocklistConfig list" where
  "enabledBlocklists bls =
     map (\<lambda>b. \<lparr>bc_Name = bk_Name b, bc_URL = bk_URL b, bc_Format = bk_Format b\<rparr>) (filter bk_Enabled bls)"

definition exportFilteringConfig :: "Config \<Rightarrow> (DB, Config) sql_op" where
  "exportFilteringConfig cfg =
     sqlBind (sqlWrap ''failed to get filtering config'' GetFilteringConfig) (\<lambda>f.
     sqlBind (sqlWrap ''failed to get whitelist'' GetWhitelistDomains) (\<lambda>whitelist.
     sqlBind (sqlWrap ''failed to get blacklist'' GetBlacklistDomains) (\<lambda>blacklist.
     sqlBind (sqlWrap ''failed to get blocklists'' DB_GetBlocklists) (\<lambda>blocklists.
     sqlReturn (cfg\<lparr>Filtering := \<lparr>fc_Enabled = fr_enabled f, fc_LogBlocked = fr_log_blocked f,
       fc_LogAllowed = fr_log_allowed f, fc_WhitelistDomains = whitelist, fc_BlacklistDomains = blacklist,
       fc_Blocklists = enabledBlocklists blocklists, fc_RefreshInterval = fr_refresh f\<rparr>\<rparr>)))))"

definition exportRateLimitConfig :: "Config \<Rightarrow> (DB, Config) sql_op" where
  "exportRateLimitConfig cfg =
     sqlBind (sqlRow ''failed to read rate limit config'' db_rateLimit) (\<lambda>r. sqlReturn (cfg\<lparr>RateLimit := r\<rparr>))"

definition exportAPIConfig :: "Config \<Rightarrow> (DB, Config) sql_op" where
  "exportAPIConfig cfg =
     sqlBind (sqlRow ''failed to read API config'' db_api) (\<lambda>r.
     sqlReturn (cfg\<lparr>API := \<lparr>ac_Enabled = ar_enabled r \<noteq> 0, ac_Host = ar_host r, ac_Port = ar_port r, ac_APIKey = ar_key r\<rparr>\<rparr>))"

definition exportClusterConfig :: "Config \<Rightarrow> (DB, Config) sql_op" where
  "exportClusterConfig cfg =
     sqlBind (sqlRow ''failed to read cluster config'' db_cluster) (\<lambda>r. sqlReturn (cfg\<lparr>Cluster := r\<rparr>))"

definition ExportToConfig :: "go_unicode \<Rightarrow> (DB, Config) sql_op" where
  "ExportToConfig uc =
     sqlBind (exportServerConfig uc zeroConfig) (\<lambda>cfg.
     sqlBind (exportUpstreamConfig cfg) (\<lambda>cfg.
     sqlBind (exportCustomDNS cfg) (\<lambda>cfg.
     sqlBind (exportLoggingConfig cfg) (\<lambda>cfg.
     sqlBind (exportFilteringConfig cfg) (\<lambda>cfg.
     sqlBind (exportRateLimitConfig cfg) (\<lambda>cfg.
     sqlBind (exportAPIConfig cfg) exportClusterConfig))))))"

section \<open>Import\<close>

record ExportData =
  ed_Version :: int
  ed_Timestamp :: string
  ed_NodeID :: string
  ed_Upstream :: UpstreamConfig
  ed_CustomDNS :: CustomDNSConfig
  ed_Filtering :: FilteringConfig

definition importUpstreamTx :: "UpstreamConfig \<Rightarrow> (DB, unit) sql_op" where
  "importUpstreamTx upstream =
     sqlBind (sqlExec ''clear upstream servers'' (deleteUpstreams (\<lambda>_. True))) (\<lambda>_.
     sqlBind (forEach (\<lambda>(i, server). sqlExec (''insert upstream server '' @ server) (insertUpstream server (int i)))
                (enumerate 0 (uc_Servers upstream))) (\<lambda>_.
     sqlBind (sqlExec ''update upstream config'' (setUpstreamRow upstream)) (\<lambda>_. sqlReturn ())))"

definition importHost :: "string \<Rightarrow> string \<Rightarrow> (DB, unit) sql_op" where
  "importHost hostname ipStr =
     (case recordTypeOf ipStr of
        None \<Rightarrow> sqlReturn ()
      | Some typ \<Rightarrow> sqlExec (''insert host '' @ hostname) (insertRecord hostname typ ipStr))"

definition importCustomDNSTx :: "CustomDNSConfig \<Rightarrow> (DB, unit) sql_op" where
  "importCustomDNSTx customDNS =
     sqlBind (sqlExec ''clear custom DNS records'' (deleteRecords (\<lambda>_. True))) (\<lambda>_.
     sqlBind (forEach (\<lambda>(hostname, ips). forEach (importHost hostname) ips) (cd_Hosts customDNS)) (\<lambda>_.
     forEach (\<lambda>(alias, target). sqlExec (''insert CNAME '' @ alias) (insertRecord alias RecordTypeCNAME target))
       (cd_CNAMEs customDNS)))"

definition insertWhitelist :: "string \<Rightarrow> DB \<Rightarrow> sql_error + (unit \<times> DB)" where
  "insertWhitelist domain d =
     (if hasDomain domain (db_whitelist d) then Inl (UniqueViolation ''filtering_whitelist.domain'')
      else ignoreWhitelist domain d)"

definition insertBlacklist :: "string \<Rightarrow> DB \<Rightarrow> sql_error + (unit \<times> DB)" where
  "insertBlacklist domain d =
     (if hasDomain domain (db_blacklist d) then Inl (UniqueViolation ''filtering_blacklist.domain'')
      else ignoreBlacklist domain d)"

definition importFilteringTx :: "FilteringConfig \<Rightarrow> (DB, unit) sql_op" where
  "importFilteringTx filtering =
     sqlBind (sqlExec ''update filtering config'' (setFilteringRow filtering)) (\<lambda>_.
     sqlBind (sqlExec ''clear whitelist'' (deleteWhitelist (\<lambda>_. True))) (\<lambda>_.
     sqlBind (forEach (\<lambda>domain. sqlExec (''insert whitelist domain '' @ domain) (insertWhitelist domain))
                (fc_WhitelistDomains filtering)) (\<lambda>_.
     sqlBind (sqlExec ''clear blacklist'' (deleteBlacklist (\<lambda>_. True))) (\<lambda>_.
     sqlBind (forEach (\<lambda>domain. sqlExec (''insert blacklist domain '' @ domain) (insertBlacklist domain))
                (fc_BlacklistDomains filtering)) (\<lambda>_.
     sqlBind (sqlExec ''clear blocklists'' (deleteBlocklists (\<lambda>_. True))) (\<lambda>_.
     forEach (\<lambda>b. sqlExec (''insert blocklist '' @ bc_Name b) (insertBlocklist (bc_Name b) (bc_URL b) (bc_Format b)))
       (fc_Blocklists filtering)))))))"

definition ImportFromCluster :: "ExportData \<Rightarrow> (DB, unit) sql_op" where
  "ImportFromCluster data =
     withTx
       (sqlBind (sqlWrap ''import upstream'' (importUpstreamTx (ed_Upstream data))) (\<lambda>_.
        sqlBind (sqlWrap ''import custom DNS'' (importCustomDNSTx (ed_CustomDNS data))) (\<lambda>_.
        sqlWrap ''import filtering'' (importFilteringTx (ed_Filtering data)))))"

section \<open>The exported configuration\<close>

definition upstreamOf :: "DB \<Rightarrow> UpstreamConfig" where
  "upstreamOf d = (let r = the (db_upstreamCfg d) in
     \<lparr>uc_Servers = map us_ServerAddress (enabledUpstreams d), uc_UDPTimeout = ur_udp_timeout r,
      uc_TCPTimeout = ur_tcp_timeout r, uc_MaxRetries = ur_max_retries r\<rparr>)"

definition customOf :: "DB \<Rightarrow> CustomDNSConfig" where
  "customOf d = \<lparr>cd_Hosts = groupHosts (allHosts d), cd_CNAMEs = groupCNAMEs (allCNAMEs d)\<rparr>"

definition filteringOf :: "DB \<Rightarrow> FilteringConfig" where
  "filteringOf d = (let f = the (db_filtering d) in
     \<lparr>fc_Enabled = fr_enabled f, fc_LogBlocked = fr_log_blocked f, fc_LogAllowed = fr_log_allowed f,
      fc_WhitelistDomains = sortedDomains (db_whitelist d), fc_BlacklistDomains = sortedDomains (db_blacklist d),
      fc_Blocklists = enabledBlocklists (sortedBlocklists d), fc_RefreshInterval = fr_refresh f\<rparr>)"

definition localOf :: "go_unicode \<Rightarrow> DB \<Rightarrow> ServerConfig \<times> LoggingConfig \<times> RateLimitConfig \<times> APIConfig \<times> ClusterConfig" where
  "localOf uc d = (let r = the (db_server d); l = the (db_logging d); a = the (db_api d) in
     (ParseWorkers uc \<lparr>sc_Host = sr_host r, sc_Port = sr_port r, sc_Workers = autoWorkers, sc_WorkersRaw = sr_workers r,
        sc_MaxConcurrency = sr_max_concurrency r, sc_UpstreamSocketPoolSize = sr_pool_size r,
        sc_EnableTCP = sr_enable_tcp r \<noteq> 0, sc_TCPFallback = sr_tcp_fallback r \<noteq> 0\<rparr>,
      \<lparr>lc_Level = lr_level l, lc_Structured = lr_structured l \<noteq> 0,
       lc_StructuredFormat = lr_format l, lc_IncludePID = lr_include_pid l \<noteq> 0, lc_ExtraFields = Some fmempty\<rparr>,
      the (db_rateLimit d),
      \<lparr>ac_Enabled = ar_enabled a \<noteq> 0, ac_Host = ar_host a, ac_Port = ar_port a, ac_APIKey = ar_key a\<rparr>,
      the (db_cluster d)))"

definition configOf :: "go_unicode \<Rightarrow> DB \<Rightarrow> Config" where
  "configOf uc d = (let (server, logging, rateLimit, api, cluster) = localOf uc d in
     \<lparr>Server = server, Upstream = upstreamOf d, CustomDNS = customOf d, Logging = logging,
      Filtering = filteringOf d, RateLimit = rateLimit, API = api, Cluster = cluster\<rparr>)"

lemma tick_views [simp]:
  "enabledUpstreams (d\<lparr>db_tick := n\<rparr>) = enabledUpstreams d" "allHosts (d\<lparr>db_tick := n\<rparr>) = allHosts d"
  "allCNAMEs (d\<lparr>db_tick := n\<rparr>) = allCNAMEs d" "sortedBlocklists (d\<lparr>db_tick := n\<rparr>) = sortedBlocklists d"
  by (simp_all add: enabledUpstreams_def allHosts_def allCNAMEs_def sortedBlocklists_def)

definition onlyReads :: "DB \<Rightarrow> 'a \<Rightarrow> (DB, 'a) sql_op \<Rightarrow> bool" where
  "onlyReads d x m \<longleftrightarrow> (\<forall>k. \<exists>n. m (d\<lparr>db_tick := k\<rparr>) = (Inr x, d\<lparr>db_tick := n\<rparr>))"

lemma onlyReads_bind:
  assumes "onlyReads d x m" "onlyReads d y (k x)" shows "onlyReads d y (sqlBind m k)"
  unfolding onlyReads_def
proof
  fix i
  from assms(1) obtain j where "m (d\<lparr>db_tick := i\<rparr>) = (Inr x, d\<lparr>db_tick := j\<rparr>)" by (auto simp: onlyReads_def)
  with assms(2) show "\<exists>n. sqlBind m k (d\<lparr>db_tick := i\<rparr>) = (Inr y, d\<lparr>db_tick := n\<rparr>)"
    by (simp add: onlyReads_def sqlBind_ok)
qed

lemma onlyReads_wrap: "onlyReads d x m \<Longrightarrow> onlyReads d x (sqlWrap ctx m)"
  unfolding onlyReads_def by (meson sqlWrap_ok)

lemma onlyReads_return: "onlyReads d x (sqlReturn x)"
  by (auto simp: onlyReads_def sqlReturn_def)

lemma onlyReads_row:
  "noFaults d \<Longrightarrow> (\<And>n. f (d\<lparr>db_tick := n\<rparr>) = f d) \<Longrightarrow> f d \<noteq> None \<Longrightarrow> onlyReads d (the (f d)) (sqlRow ctx f)"
  by (auto simp: onlyReads_def sqlRow_ok)

lemma onlyReads_rows:
  assumes "noFaults d" "\<And>n. f (d\<lparr>db_tick := n\<rparr>) = f d" shows "onlyReads d (f d) (sqlRows q s i f)"
  unfolding onlyReads_def
proof
  fix k
  from sqlRows_ok [of "d\<lparr>db_tick := k\<rparr>" f q s i] assms
  show "\<exists>n. sqlRows q s i f (d\<lparr>db_tick := k\<rparr>) = (Inr (f d), d\<lparr>db_tick := n\<rparr>)" by simp
qed

text \<open>Without driver failures a database in its invariant exports its configuration.\<close>

lemma ExportToConfig_reads:
  assumes "noFaults d" "dbInv d" shows "onlyReads d (configOf uc d) (ExportToConfig uc)"
proof -
  note reads = onlyReads_return onlyReads_wrap onlyReads_row [OF assms(1)] onlyReads_rows [OF assms(1)]
  have rows: "db_server d \<noteq> None" "db_upstreamCfg d \<noteq> None" "db_logging d \<noteq> None" "db_filtering d \<noteq> None"
    "db_api d \<noteq> None" "db_rateLimit d \<noteq> None" "db_cluster d \<noteq> None"
    using assms(2) by (auto simp: dbInv_def)
  have "\<exists>cfg. onlyReads d cfg (ExportToConfig uc) \<and> cfg = configOf uc d"
    unfolding ExportToConfig_def exportServerConfig_def exportUpstreamConfig_def exportCustomDNS_def
      exportLoggingConfig_def exportFilteringConfig_def exportRateLimitConfig_def exportAPIConfig_def
      exportClusterConfig_def GetUpstreamServers_def GetAllHosts_def GetAllCNAMEs_def GetFilteringConfig_def
      GetWhitelistDomains_def GetBlacklistDomains_def DB_GetBlocklists_def
    by (rule exI, rule conjI, (rule onlyReads_bind reads; (simp add: rows)?)+)
      (use rows in \<open>simp add: configOf_def localOf_def upstreamOf_def customOf_def filteringOf_def zeroConfig_def Let_def\<close>)
  then show ?thesis by simp
qed

end
