(* ===== verification/Replication_Facts.thy ===== *)
theory Replication_Facts
  imports Replication
begin

text \<open>
  Importing what a database exports. Each insertion loop of the import is an instance of
  \<open>insert_loop\<close>; the parts of the database that one phase of the import leaves alone are views
  (\<open>db_view\<close>) and pass through by the frame rule.
\<close>

section \<open>Insertion loops\<close>

text \<open>With \<open>F\<close> a statement on runs without driver failures, without it one on the runs that return.\<close>

definition calm :: "bool \<Rightarrow> DB \<Rightarrow> bool" where
  "calm F d \<longleftrightarrow> (F \<longrightarrow> noFaults d)"

lemma calm_tick [simp]: "calm F (d\<lparr>db_tick := n\<rparr>) = calm F d"
  by (simp add: calm_def)

locale insert_loop = db_view rest for rest :: "DB \<Rightarrow> 'r" +
  fixes keys :: "DB \<Rightarrow> 'k list" and ins :: "'x \<Rightarrow> DB \<Rightarrow> sql_error + (unit \<times> DB)"
    and key :: "'x \<Rightarrow> 'k" and proj :: "'k \<Rightarrow> 'u" and valid :: "'x \<Rightarrow> bool"
  assumes keys_tick: "keys (d\<lparr>db_tick := n\<rparr>) = keys d"
    and insert: "valid x \<Longrightarrow> proj (key x) \<notin> proj ` set (keys d) \<Longrightarrow>
      \<exists>d'. ins x d = Inr ((), d') \<and> keys d' = keys d @ [key x] \<and> db_fault d' = db_fault d \<and> rest d' = rest d"
begin

lemma inserted:
  assumes "valid x" "proj (key x) \<notin> proj ` set ks"
  shows "triple (\<lambda>d. calm F d \<and> C (rest d) \<and> keys d = ks) (sqlExec ctx (ins x))
    (\<lambda>_ d. calm F d \<and> C (rest d) \<and> keys d = ks @ [key x]) (\<lambda>_. \<not> F)"
proof (rule triple_exec)
  fix d assume d: "calm F d \<and> C (rest d) \<and> keys d = ks"
  with insert [OF assms(1), of d] assms(2)
  obtain d' where "ins x d = Inr ((), d')" "keys d' = ks @ [key x]" "db_fault d' = db_fault d" "rest d' = rest d" by blast
  with d show "case ins x d of Inl e \<Rightarrow> \<not> F | Inr (u, d') \<Rightarrow> calm F d' \<and> C (rest d') \<and> keys d' = ks @ [key x]"
    by (simp add: calm_def noFaults_def)
qed (auto simp: keys_tick part_tick calm_def)

lemma all_inserted:
  assumes "\<forall>x\<in>set xs. valid x" "distinct (map proj (ks @ map key xs))"
  shows "triple (\<lambda>d. calm F d \<and> C (rest d) \<and> keys d = ks) (forEach (\<lambda>x. sqlExec (ctx x) (ins x)) xs)
    (\<lambda>_ d. calm F d \<and> C (rest d) \<and> keys d = ks @ map key xs) (\<lambda>_. \<not> F)"
proof -
  have "triple (\<lambda>d. calm F d \<and> C (rest d) \<and> keys d = ks @ map key []) (forEach (\<lambda>x. sqlExec (ctx x) (ins x)) xs)
    (\<lambda>_ d. calm F d \<and> C (rest d) \<and> keys d = ks @ map key xs) (\<lambda>_. \<not> F)"
  proof (rule triple_forEach)
    fix pre x post assume "xs = pre @ x # post"
    with assms have "valid x" "proj (key x) \<notin> proj ` set (ks @ map key pre)" by auto
    from inserted [OF this]
    show "triple (\<lambda>d. calm F d \<and> C (rest d) \<and> keys d = ks @ map key pre) (sqlExec (ctx x) (ins x))
      (\<lambda>_ d. calm F d \<and> C (rest d) \<and> keys d = ks @ map key (pre @ [x])) (\<lambda>_. \<not> F)" by simp
  qed
  then show ?thesis by simp
qed

text \<open>The loop after its table has been cleared.\<close>

lemma cleared_and_inserted:
  assumes "\<And>d n. B (d\<lparr>db_tick := n\<rparr>) = B d"
    and "\<And>d. B d \<Longrightarrow> \<exists>x d'. clear d = Inr (x, d') \<and> db_fault d' = db_fault d \<and> C (rest d') \<and> keys d' = []"
    and "\<forall>x\<in>set xs. valid x" "distinct (map (proj \<circ> key) xs)"
    and "triple (\<lambda>d. calm F d \<and> C (rest d) \<and> keys d = map key xs) m Q (\<lambda>_. \<not> F)"
  shows "triple (\<lambda>d. calm F d \<and> B d)
    (sqlBind (sqlExec c0 clear) (\<lambda>_. sqlBind (forEach (\<lambda>x. sqlExec (ctx x) (ins x)) xs) (\<lambda>_. m))) Q (\<lambda>_. \<not> F)"
proof (rule triple_bind)
  show "triple (\<lambda>d. calm F d \<and> B d) (sqlExec c0 clear) (\<lambda>_ d. calm F d \<and> C (rest d) \<and> keys d = []) (\<lambda>_. \<not> F)"
    using assms(1,2) by (intro triple_exec) (fastforce simp: calm_def noFaults_def)+
  show "triple (\<lambda>d. calm F d \<and> C (rest d) \<and> keys d = []) (sqlBind (forEach (\<lambda>x. sqlExec (ctx x) (ins x)) xs) (\<lambda>_. m))
      Q (\<lambda>_. \<not> F)" for x
    using all_inserted [of xs "[]" F C ctx] assms(3-5) by (intro triple_bind) simp_all
qed

end

definition upstreamKeys :: "DB \<Rightarrow> (string \<times> int \<times> bool) list" where
  "upstreamKeys d = map (\<lambda>r. (us_ServerAddress r, us_Priority r, us_Enabled r)) (tbl_rows (db_upstreams d))"

definition recordKeys :: "DB \<Rightarrow> (string \<times> string \<times> string) list" where
  "recordKeys d = map dnsKey (tbl_rows (db_records d))"

definition whitelistKeys :: "DB \<Rightarrow> string list" where
  "whitelistKeys d = map dom_domain (tbl_rows (db_whitelist d))"

definition blacklistKeys :: "DB \<Rightarrow> string list" where
  "blacklistKeys d = map dom_domain (tbl_rows (db_blacklist d))"

definition blocklistKeys :: "DB \<Rightarrow> (BlocklistConfig \<times> bool) list" where
  "blocklistKeys d = map (\<lambda>b. (\<lparr>bc_Name = bk_Name b, bc_URL = bk_URL b, bc_Format = bk_Format b\<rparr>, bk_Enabled b))
     (tbl_rows (db_blocklists d))"

lemma image_keys: "f ` set (map g xs) = (f \<circ> g) ` set xs"
  by (simp add: image_comp)

interpretation insUpstream: insert_loop db_upstreamCfg upstreamKeys "\<lambda>(i, s). insertUpstream s (int i)" "\<lambda>(i, s). (s, int i, True)" fst "\<lambda>_. True"
  by unfold_locales
    (auto simp: upstreamKeys_def insertUpstream_def hasUpstream_def newUpstream_def image_keys o_def image_iff)

interpretation insRecord: insert_loop "\<lambda>_. ()" recordKeys "\<lambda>(s, t, v). insertRecord s t v" id id
  "\<lambda>(s, t, v). t \<in> {RecordTypeA, RecordTypeAAAA, RecordTypeCNAME}"
  by unfold_locales (auto simp: recordKeys_def insertRecord_def hasRecord_key)

interpretation insWhitelist: insert_loop db_filtering whitelistKeys insertWhitelist id id "\<lambda>_. True"
  by unfold_locales
    (auto simp: whitelistKeys_def insertWhitelist_def ignoreWhitelist_def hasDomain_def newDomain_def)

interpretation insBlacklist: insert_loop "\<lambda>d. (db_filtering d, whitelistKeys d)" blacklistKeys insertBlacklist id id "\<lambda>_. True"
  by unfold_locales
    (auto simp: blacklistKeys_def whitelistKeys_def insertBlacklist_def ignoreBlacklist_def hasDomain_def newDomain_def)

interpretation insBlocklist: insert_loop "\<lambda>d. (db_filtering d, whitelistKeys d, blacklistKeys d)" blocklistKeys "\<lambda>b. insertBlocklist (bc_Name b) (bc_URL b) (bc_Format b)"
  "\<lambda>b. (b, True)" "\<lambda>(b, e). bc_Name b" "\<lambda>b. bc_Format b \<in> set blocklistFormats"
  by unfold_locales
    (auto simp: blocklistKeys_def blacklistKeys_def whitelistKeys_def insertBlocklist_def hasBlocklist_def newBlocklist_def image_keys o_def image_iff)

section \<open>What each phase leaves alone\<close>

definition exceptUpstream :: "DB \<Rightarrow> DB" where
  "exceptUpstream d = d\<lparr>db_tick := 0, db_version := None, db_upstreams := emptyTable, db_upstreamCfg := None\<rparr>"

definition exceptRecords :: "DB \<Rightarrow> DB" where
  "exceptRecords d = d\<lparr>db_tick := 0, db_version := None, db_records := emptyTable\<rparr>"

definition exceptFiltering :: "DB \<Rightarrow> DB" where
  "exceptFiltering d = d\<lparr>db_tick := 0, db_version := None, db_filtering := None, db_whitelist := emptyTable,
     db_blacklist := emptyTable, db_blocklists := emptyTable\<rparr>"

interpretation outUpstream: db_view exceptUpstream
  by unfold_locales (simp add: exceptUpstream_def)

interpretation outRecords: db_view exceptRecords
  by unfold_locales (simp add: exceptRecords_def)

interpretation outFiltering: db_view exceptFiltering
  by unfold_locales (simp add: exceptFiltering_def)

lemma importUpstreamTx_frame: "keeps (\<lambda>a b. exceptUpstream b = exceptUpstream a) (importUpstreamTx u)"
  unfolding importUpstreamTx_def
  by (auto intro!: outUpstream.keeps_intros split: prod.split)
    (auto simp: deleteUpstreams_def insertUpstream_def setUpstreamRow_def exceptUpstream_def bump_def Let_def
      split: if_splits prod.splits)

lemma importCustomDNSTx_frame: "keeps (\<lambda>a b. exceptRecords b = exceptRecords a) (importCustomDNSTx c)"
  unfolding importCustomDNSTx_def importHost_def
  by (auto intro!: outRecords.keeps_intros split: prod.split option.split)
    (auto simp: deleteRecords_def insertRecord_def exceptRecords_def bump_def split: if_splits prod.splits)

lemma importFilteringTx_frame: "keeps (\<lambda>a b. exceptFiltering b = exceptFiltering a) (importFilteringTx f)"
  unfolding importFilteringTx_def
  by (auto intro!: outFiltering.keeps_intros)
    (auto simp: setFilteringRow_def updateFiltering_def deleteWhitelist_def deleteBlacklist_def deleteBlocklists_def
      insertWhitelist_def insertBlacklist_def ignoreWhitelist_def ignoreBlacklist_def insertBlocklist_def
      exceptFiltering_def bump_def Let_def split: if_splits prod.splits)

section \<open>What each phase writes\<close>

lemma importUpstreamTx_writes:
  assumes "distinct (uc_Servers u)"
  shows "triple (\<lambda>d. calm F d \<and> db_upstreamCfg d \<noteq> None) (importUpstreamTx u)
    (\<lambda>_ d. calm F d \<and> upstreamKeys d = map (\<lambda>(i, s). (s, int i, True)) (enumerate 0 (uc_Servers u)) \<and>
       db_upstreamCfg d = Some \<lparr>ur_udp_timeout = uc_UDPTimeout u, ur_tcp_timeout = uc_TCPTimeout u,
         ur_max_retries = uc_MaxRetries u\<rparr>) (\<lambda>_. \<not> F)"
proof -
  have loop: "(\<lambda>(i, server). sqlExec (''insert upstream server '' @ server) (insertUpstream server (int i))) =
    (\<lambda>x. sqlExec ((\<lambda>(i, server). ''insert upstream server '' @ server) x) ((\<lambda>(i, s). insertUpstream s (int i)) x))"
    by auto
  have keys: "fst \<circ> (\<lambda>(i, s). (s, int i, True)) = snd" by auto
  show ?thesis
    unfolding importUpstreamTx_def loop
  proof (rule insUpstream.cleared_and_inserted [where C = "\<lambda>c. c \<noteq> None"])
    show "distinct (map (fst \<circ> (\<lambda>(i, s). (s, int i, True))) (enumerate 0 (uc_Servers u)))" by (simp add: keys assms)
  next
    let ?set = "sqlExec ''update upstream config'' (setUpstreamRow u)"
    let ?keys = "map (\<lambda>(i, s). (s, int i, True)) (enumerate 0 (uc_Servers u))"
    show "triple (\<lambda>d. calm F d \<and> db_upstreamCfg d \<noteq> None \<and> upstreamKeys d = ?keys) (sqlBind ?set (\<lambda>_. sqlReturn ()))
      (\<lambda>_ d. calm F d \<and> upstreamKeys d = ?keys \<and> db_upstreamCfg d = Some \<lparr>ur_udp_timeout = uc_UDPTimeout u,
        ur_tcp_timeout = uc_TCPTimeout u, ur_max_retries = uc_MaxRetries u\<rparr>) (\<lambda>_. \<not> F)"
      by (rule triple_bind [OF triple_exec triple_return])
        (auto simp: setUpstreamRow_def upstreamKeys_def Let_def calm_def noFaults_def)
  qed (simp_all add: deleteUpstreams_def deleteRows_def upstreamKeys_def)
qed

text \<open>The host records of a configuration: addresses that do not parse are skipped.\<close>

definition hostRecord :: "string \<Rightarrow> string \<Rightarrow> (string \<times> string \<times> string) list" where
  "hostRecord h ip = (case recordTypeOf ip of None \<Rightarrow> [] | Some t \<Rightarrow> [(h, t, ip)])"

definition hostRecords :: "(string \<times> string list) list \<Rightarrow> (string \<times> string \<times> string) list" where
  "hostRecords hosts = concat (map (\<lambda>(h, ips). concat (map (hostRecord h) ips)) hosts)"

definition cnameRecords :: "(string \<times> string) list \<Rightarrow> (string \<times> string \<times> string) list" where
  "cnameRecords cnames = map (\<lambda>(a, t). (a, RecordTypeCNAME, t)) cnames"

definition insertHostRecord :: "string \<times> string \<times> string \<Rightarrow> (DB, unit) sql_op" where
  "insertHostRecord x = sqlExec (''insert host '' @ fst x) ((\<lambda>(s, t, v). insertRecord s t v) x)"

lemma importHost_records: "importHost h ip = forEach insertHostRecord (hostRecord h ip)"
  by (simp add: importHost_def hostRecord_def insertHostRecord_def sqlBind_laws split: option.split)

lemma forEach_host: "forEach (importHost h) ips = forEach insertHostRecord (concat (map (hostRecord h) ips))"
  by (induction ips) (simp_all add: importHost_records forEach_append)

lemma forEach_hosts:
  "forEach (\<lambda>(h, ips). forEach (importHost h) ips) hosts = forEach insertHostRecord (hostRecords hosts)"
  by (induction hosts) (auto simp: hostRecords_def forEach_host forEach_append)

lemma recordTypeOf_valid: "recordTypeOf ip = Some t \<Longrightarrow> t \<in> {RecordTypeA, RecordTypeAAAA}"
  by (auto simp: recordTypeOf_def split: option.splits if_splits)

lemma hostRecords_valid: "(s, t, v) \<in> set (hostRecords hosts) \<Longrightarrow> t \<in> {RecordTypeA, RecordTypeAAAA} \<and> recordTypeOf v = Some t"
  by (auto simp: hostRecords_def hostRecord_def split: option.splits dest: recordTypeOf_valid [OF sym])

lemma importCustomDNSTx_writes:
  assumes "distinct (hostRecords (cd_Hosts c) @ cnameRecords (cd_CNAMEs c))"
  shows "triple (calm F) (importCustomDNSTx c)
    (\<lambda>_ d. calm F d \<and> recordKeys d = hostRecords (cd_Hosts c) @ cnameRecords (cd_CNAMEs c)) (\<lambda>_. \<not> F)"
proof -
  let ?hosts = "hostRecords (cd_Hosts c)" and ?ins = "\<lambda>(s, t, v). insertRecord s t v"
  let ?cnames = "forEach (\<lambda>(alias, target). sqlExec (''insert CNAME '' @ alias) (insertRecord alias RecordTypeCNAME target)) (cd_CNAMEs c)"
  have cn: "?cnames = forEach (\<lambda>x. sqlExec (''insert CNAME '' @ fst x) (?ins x)) (cnameRecords (cd_CNAMEs c))"
    by (simp add: cnameRecords_def forEach_map comp_def case_prod_unfold)
  have loop: "triple (\<lambda>d. calm F d \<and> True \<and> recordKeys d = map id ?hosts) ?cnames
    (\<lambda>_ d. calm F d \<and> True \<and> recordKeys d = ?hosts @ map id (cnameRecords (cd_CNAMEs c))) (\<lambda>_. \<not> F)"
  proof -
    have 1: "\<forall>x\<in>set (cnameRecords (cd_CNAMEs c)). case x of (s, t, v) \<Rightarrow> t \<in> {RecordTypeA, RecordTypeAAAA, RecordTypeCNAME}"
      by (auto simp: cnameRecords_def)
    have 2: "distinct (map id (?hosts @ map id (cnameRecords (cd_CNAMEs c))))" using assms by simp
    show ?thesis
      unfolding cn using insRecord.all_inserted [OF 1 2, of F "\<lambda>_. True" "\<lambda>x. ''insert CNAME '' @ fst x"]
      unfolding list.map_id .
  qed
  have "triple (\<lambda>d. calm F d \<and> True) (importCustomDNSTx c)
      (\<lambda>_ d. calm F d \<and> True \<and> recordKeys d = ?hosts @ map id (cnameRecords (cd_CNAMEs c))) (\<lambda>_. \<not> F)"
    unfolding importCustomDNSTx_def forEach_hosts insertHostRecord_def
  proof (rule insRecord.cleared_and_inserted [OF _ _ _ _ loop])
    show "\<forall>x\<in>set ?hosts. case x of (s, t, v) \<Rightarrow> t \<in> {RecordTypeA, RecordTypeAAAA, RecordTypeCNAME}"
      using hostRecords_valid by blast
  qed (use assms in \<open>auto simp: deleteRecords_def deleteRows_def recordKeys_def\<close>)
  then show ?thesis by simp
qed

lemma importFilteringTx_writes:
  assumes "distinct (fc_WhitelistDomains f)" "distinct (fc_BlacklistDomains f)"
    and "distinct (map bc_Name (fc_Blocklists f))" "\<forall>b\<in>set (fc_Blocklists f). bc_Format b \<in> set blocklistFormats"
  shows "triple (\<lambda>d. calm F d \<and> db_filtering d \<noteq> None) (importFilteringTx f)
    (\<lambda>_ d. calm F d \<and>
       db_filtering d = Some \<lparr>fr_enabled = fc_Enabled f, fr_log_blocked = fc_LogBlocked f, fr_log_allowed = fc_LogAllowed f,
         fr_refresh = fc_RefreshInterval f\<rparr> \<and>
       whitelistKeys d = fc_WhitelistDomains f \<and> blacklistKeys d = fc_BlacklistDomains f \<and>
       blocklistKeys d = map (\<lambda>b. (b, True)) (fc_Blocklists f)) (\<lambda>_. \<not> F)"
proof -
  let ?row = "\<lparr>fr_enabled = fc_Enabled f, fr_log_blocked = fc_LogBlocked f, fr_log_allowed = fc_LogAllowed f,
    fr_refresh = fc_RefreshInterval f\<rparr>"
  have set: "triple (\<lambda>d. calm F d \<and> db_filtering d \<noteq> None) (sqlExec c (setFilteringRow f))
    (\<lambda>_ d. calm F d \<and> db_filtering d = Some ?row) (\<lambda>_. \<not> F)" for c
    by (rule triple_exec) (auto simp: setFilteringRow_def updateFiltering_def Let_def calm_def noFaults_def)
  note keys = whitelistKeys_def blacklistKeys_def blocklistKeys_def deleteRows_def
  have blocklists: "triple (\<lambda>d. calm F d \<and> (db_filtering d, whitelistKeys d) = (Some ?row, W) \<and> blacklistKeys d = map id B)
    (sqlBind (sqlExec c0 (deleteBlocklists (\<lambda>_. True)))
      (\<lambda>_. forEach (\<lambda>b. sqlExec (ctx b) (insertBlocklist (bc_Name b) (bc_URL b) (bc_Format b))) (fc_Blocklists f)))
    (\<lambda>_ d. calm F d \<and> (db_filtering d, whitelistKeys d, blacklistKeys d) = (Some ?row, W, B) \<and>
      blocklistKeys d = map (\<lambda>b. (b, True)) (fc_Blocklists f)) (\<lambda>_. \<not> F)" for W B c0 ctx
    by (subst sqlBind_laws(3) [symmetric, of "forEach _ _"],
        rule insBlocklist.cleared_and_inserted [where C = "\<lambda>r. r = (Some ?row, W, B)"])
      (use assms in \<open>auto simp: keys deleteBlocklists_def comp_def intro: triple_return\<close>)
  have blacklist: "triple (\<lambda>d. calm F d \<and> db_filtering d = Some ?row \<and> whitelistKeys d = map id W)
    (sqlBind (sqlExec c0 (deleteBlacklist (\<lambda>_. True))) (\<lambda>_. sqlBind
      (forEach (\<lambda>domain. sqlExec (ctx domain) (insertBlacklist domain)) (fc_BlacklistDomains f)) (\<lambda>_.
     sqlBind (sqlExec c1 (deleteBlocklists (\<lambda>_. True)))
      (\<lambda>_. forEach (\<lambda>b. sqlExec (ctx' b) (insertBlocklist (bc_Name b) (bc_URL b) (bc_Format b))) (fc_Blocklists f)))))
    (\<lambda>_ d. calm F d \<and> (db_filtering d, whitelistKeys d, blacklistKeys d) = (Some ?row, W, fc_BlacklistDomains f) \<and>
      blocklistKeys d = map (\<lambda>b. (b, True)) (fc_Blocklists f)) (\<lambda>_. \<not> F)" for W c0 c1 ctx ctx'
    by (rule insBlacklist.cleared_and_inserted [OF _ _ _ _ blocklists])
      (use assms in \<open>auto simp: keys deleteBlacklist_def\<close>)
  have "triple (\<lambda>d. calm F d \<and> db_filtering d \<noteq> None) (importFilteringTx f)
    (\<lambda>_ d. calm F d \<and> (db_filtering d, whitelistKeys d, blacklistKeys d) =
        (Some ?row, fc_WhitelistDomains f, fc_BlacklistDomains f) \<and>
      blocklistKeys d = map (\<lambda>b. (b, True)) (fc_Blocklists f)) (\<lambda>_. \<not> F)"
    unfolding importFilteringTx_def
    by (rule triple_bind [OF set], rule insWhitelist.cleared_and_inserted [OF _ _ _ _ blacklist])
      (use assms in \<open>auto simp: keys deleteWhitelist_def\<close>)
  then show ?thesis by simp
qed

section \<open>The configuration depends on the keys only\<close>

lemma map_sort_key: "map f (sort_key f xs) = sort (map f xs)"
  by (rule properties_for_sort [symmetric]) simp_all

lemma sort_mset: "mset xs = mset ys \<Longrightarrow> sort xs = sort ys"
  by (rule properties_for_sort) simp_all

lemma upstreamOf_keys:
  assumes "upstreamKeys d = map (\<lambda>(i, s). (s, int i, True)) (enumerate 0 servers)"
  shows "map us_ServerAddress (enabledUpstreams d) = servers"
proof -
  let ?rows = "tbl_rows (db_upstreams d)"
  have "\<forall>k\<in>set (upstreamKeys d). snd (snd k)" unfolding assms by auto
  then have en: "filter us_Enabled ?rows = ?rows" by (simp add: upstreamKeys_def filter_id_conv)
  have "map us_Priority ?rows = map int (map fst (enumerate 0 servers))"
    using arg_cong [OF assms, of "map (fst \<circ> snd)"]
    by (simp add: upstreamKeys_def comp_def case_prod_unfold del: map_fst_enumerate)
  then have "map us_Priority ?rows = map int [0..<length servers]" by simp
  then have "sorted (map us_Priority ?rows)" by (simp add: sorted_iff_nth_mono)
  then have "enabledUpstreams d = ?rows" by (simp add: enabledUpstreams_def en sort_key_id_if_sorted)
  with arg_cong [OF assms, of "map fst"] show ?thesis
    by (simp add: upstreamKeys_def comp_def case_prod_unfold)
qed

definition isHostKey :: "string \<times> string \<times> string \<Rightarrow> bool" where
  "isHostKey k \<longleftrightarrow> fst (snd k) \<in> {RecordTypeA, RecordTypeAAAA}"

definition isCNAMEKey :: "string \<times> string \<times> string \<Rightarrow> bool" where
  "isCNAMEKey k \<longleftrightarrow> fst (snd k) = RecordTypeCNAME"

definition endsOf :: "string \<times> string \<times> string \<Rightarrow> string \<times> string" where
  "endsOf k = (fst k, snd (snd k))"

lemma row_keys: "isHostRow = isHostKey \<circ> dnsKey" "isCNAMERow = isCNAMEKey \<circ> dnsKey"
  by (auto simp: fun_eq_iff isHostRow_def isHostKey_def isCNAMERow_def isCNAMEKey_def dnsKey_def)

lemma allHosts_keys: "map dnsKey (allHosts d) = sort (filter isHostKey (recordKeys d))"
proof -
  have "(\<lambda>r. (dr_source r, dr_type r, dr_target r)) = dnsKey" by (simp add: fun_eq_iff dnsKey_def)
  then show ?thesis
    by (simp add: allHosts_def map_sort_key recordKeys_def row_keys filter_map)
qed

lemma groupHosts_keys: "groupHosts rows = fold (\<lambda>k. appendAt (fst k) (snd k)) (map (endsOf \<circ> dnsKey) rows) []"
  by (simp add: groupHosts_def fold_map comp_def endsOf_def dnsKey_def)

lemma groupCNAMEs_distinct:
  assumes "distinct (map dr_source rows)" shows "groupCNAMEs rows = map (endsOf \<circ> dnsKey) rows"
proof -
  have upd: "k \<notin> fst ` set m \<Longrightarrow> AList.update k v m = m @ [(k, v)]" for k v and m :: "(string \<times> string) list"
    by (induction m) auto
  have "fold (\<lambda>r. AList.update (dr_source r) (dr_target r)) rows m = m @ map (endsOf \<circ> dnsKey) rows"
    if "fst ` set m \<inter> dr_source ` set rows = {}" for m
    using that assms
    by (induction rows arbitrary: m) (auto simp: upd endsOf_def dnsKey_def)
  from this [of "[]"] show ?thesis by (simp add: groupCNAMEs_def)
qed

lemma cname_inj:
  assumes "recordsInv (tbl_rows (db_records d))"
  shows "inj_on fst (set (map endsOf (filter isCNAMEKey (recordKeys d))))"
proof -
  let ?rows = "filter isCNAMERow (tbl_rows (db_records d))"
  have "map endsOf (filter isCNAMEKey (recordKeys d)) = map (endsOf \<circ> dnsKey) ?rows"
    by (simp add: recordKeys_def row_keys filter_map)
  moreover have "inj_on dr_source (set ?rows)" using assms by (auto simp: recordsInv_def distinct_map)
  then have "inj_on fst (set (map (endsOf \<circ> dnsKey) ?rows))"
    by (auto simp: inj_on_def endsOf_def dnsKey_def)
  ultimately show ?thesis by (simp only:)
qed

lemma allCNAMEs_keys:
  assumes "recordsInv (tbl_rows (db_records d))"
  shows "groupCNAMEs (allCNAMEs d) = sort_key fst (map endsOf (filter isCNAMEKey (recordKeys d)))"
proof -
  let ?rows = "filter isCNAMERow (tbl_rows (db_records d))"
  have dist: "distinct (map dr_source ?rows)" using assms by (simp add: recordsInv_def)
  then have "distinct (map dr_source (allCNAMEs d))"
    unfolding allCNAMEs_def by (metis mset_map mset_sort mset_eq_imp_distinct_iff)
  then have "groupCNAMEs (allCNAMEs d) = map (endsOf \<circ> dnsKey) (allCNAMEs d)" by (rule groupCNAMEs_distinct)
  moreover have "sort_key fst (map (endsOf \<circ> dnsKey) ?rows) = map (endsOf \<circ> dnsKey) (allCNAMEs d)"
  proof (rule sort_key_inj_key_eq)
    show "mset (map (endsOf \<circ> dnsKey) ?rows) = mset (map (endsOf \<circ> dnsKey) (allCNAMEs d))"
      by (simp only: allCNAMEs_def mset_map mset_sort)
    have "fst \<circ> (endsOf \<circ> dnsKey) = dr_source" by (auto simp: fun_eq_iff endsOf_def dnsKey_def)
    from cname_inj [OF assms] show "inj_on fst (set (map (endsOf \<circ> dnsKey) ?rows))"
      by (simp only: recordKeys_def row_keys filter_map map_map)
    show "sorted (map fst (map (endsOf \<circ> dnsKey) (allCNAMEs d)))"
      by (simp add: \<open>fst \<circ> (endsOf \<circ> dnsKey) = dr_source\<close> allCNAMEs_def)
  qed
  ultimately show ?thesis by (simp add: recordKeys_def row_keys filter_map comp_def)
qed

lemma customOf_cong:
  assumes "mset (recordKeys a) = mset (recordKeys b)" "recordsInv (tbl_rows (db_records a))" "recordsInv (tbl_rows (db_records b))"
  shows "customOf a = customOf b"
proof -
  have f: "mset (filter P (recordKeys a)) = mset (filter P (recordKeys b))" for P
    using assms(1) by (metis mset_filter)
  have "map (endsOf \<circ> dnsKey) (allHosts a) = map (endsOf \<circ> dnsKey) (allHosts b)"
    using allHosts_keys [of a] allHosts_keys [of b] sort_mset [OF f [of isHostKey]] by (metis map_map)
  moreover have "sort_key fst (map endsOf (filter isCNAMEKey (recordKeys a))) = sort_key fst (map endsOf (filter isCNAMEKey (recordKeys b)))"
    by (rule sort_key_inj_key_eq [OF _ cname_inj [OF assms(2)]]) (simp_all add: assms(1))
  ultimately show ?thesis
    by (simp add: customOf_def groupHosts_keys allCNAMEs_keys assms)
qed

section \<open>What an export holds\<close>

definition flat :: "('k \<times> 'v list) list \<Rightarrow> ('k \<times> 'v) list" where
  "flat m = concat (map (\<lambda>(k, vs). map (Pair k) vs) m)"

lemma flat_update:
  "distinct (map fst m) \<Longrightarrow> map_of m k = old \<Longrightarrow>
    mset (flat (AList.update k ((case old of None \<Rightarrow> [] | Some vs \<Rightarrow> vs) @ [v]) m)) = add_mset (k, v) (mset (flat m))"
proof (induction m)
  case (Cons x m)
  have "map_of m k = None" if "k \<notin> fst ` set m" using that by (simp add: map_of_eq_None_iff)
  with Cons show ?case by (cases x) (auto simp: flat_def map_of_eq_None_iff)
qed (simp add: flat_def)

lemma flat_group:
  "distinct (map fst m) \<Longrightarrow>
    mset (flat (fold (\<lambda>k. appendAt (fst k) (snd k)) ps m)) = mset (flat m) + mset ps"
proof (induction ps arbitrary: m)
  case (Cons p ps)
  have "distinct (map fst (appendAt (fst p) (snd p) m))"
    using Cons.prems unfolding appendAt_def by (rule distinct_update)
  with Cons.IH [OF this] flat_update [OF Cons.prems refl, of "fst p" "snd p"] show ?case
    by (simp add: appendAt_def)
qed simp

lemma hostRecords_flat: "hostRecords hosts = concat (map (\<lambda>(h, ip). hostRecord h ip) (flat hosts))"
  by (induction hosts) (auto simp: hostRecords_def flat_def comp_def)

lemma mset_concat_map: "mset xs = mset ys \<Longrightarrow> mset (concat (map f xs)) = mset (concat (map f ys))"
  by (simp add: mset_concat flip: sum_mset_sum_list)

lemma mset_hostRecords: "mset xs = mset ys \<Longrightarrow> mset (hostRecords xs) = mset (hostRecords ys)"
  unfolding hostRecords_def by (rule mset_concat_map)

lemma mset_cnameRecords: "mset xs = mset ys \<Longrightarrow> mset (cnameRecords xs) = mset (cnameRecords ys)"
  unfolding cnameRecords_def by simp

lemma host_rows:
  assumes "recordsInv (tbl_rows (db_records d))"
  shows "mset (hostRecords (groupHosts (allHosts d))) = mset (filter isHostKey (recordKeys d))"
proof -
  let ?rec = "\<lambda>(h, ip). hostRecord h ip"
  have row: "?rec ((endsOf \<circ> dnsKey) r) = [dnsKey r]" if "r \<in> set (allHosts d)" for r
  proof -
    from that assms have "dnsRowOK r" "\<not> isCNAMERow r"
      by (auto simp: allHosts_def recordsInv_def list_all_iff isHostRow_def isCNAMERow_def RecordTypeA_def
          RecordTypeAAAA_def RecordTypeCNAME_def)
    then show ?thesis by (simp add: dnsRowOK_def hostRecord_def endsOf_def dnsKey_def)
  qed
  have "mset (flat (groupHosts (allHosts d))) = mset (map (endsOf \<circ> dnsKey) (allHosts d))"
    unfolding groupHosts_keys by (subst flat_group) (simp_all add: flat_def)
  then have "mset (hostRecords (groupHosts (allHosts d))) = mset (concat (map ?rec (map (endsOf \<circ> dnsKey) (allHosts d))))"
    unfolding hostRecords_flat by (rule mset_concat_map)
  also have "map ?rec (map (endsOf \<circ> dnsKey) (allHosts d)) = map (\<lambda>r. [dnsKey r]) (allHosts d)"
    using row by simp
  finally show ?thesis by (simp add: allHosts_keys)
qed

lemma cname_rows:
  assumes "recordsInv (tbl_rows (db_records d))"
  shows "mset (cnameRecords (groupCNAMEs (allCNAMEs d))) = mset (filter isCNAMEKey (recordKeys d))"
proof -
  have ends: "(\<lambda>(a, t). (a, RecordTypeCNAME, t)) (endsOf k) = k" if "isCNAMEKey k" for k
    using that by (cases k) (simp add: isCNAMEKey_def endsOf_def)
  have "mset (cnameRecords (groupCNAMEs (allCNAMEs d))) = mset (cnameRecords (map endsOf (filter isCNAMEKey (recordKeys d))))"
    unfolding allCNAMEs_keys [OF assms] by (rule mset_cnameRecords) simp
  also have "cnameRecords (map endsOf (filter isCNAMEKey (recordKeys d))) = filter isCNAMEKey (recordKeys d)"
    unfolding cnameRecords_def map_map by (rule map_idI) (simp add: ends)
  finally show ?thesis .
qed

lemma exported_records:
  assumes "recordsInv (tbl_rows (db_records a))"
    and "mset hosts = mset (cd_Hosts (customOf a))" "mset cnames = mset (cd_CNAMEs (customOf a))"
  shows "mset (hostRecords hosts @ cnameRecords cnames) = mset (recordKeys a)"
proof -
  have "isCNAMEKey k \<longleftrightarrow> \<not> isHostKey k" if "k \<in> set (recordKeys a)" for k
    using that assms(1) recordTypeOf_valid
    by (fastforce simp: recordKeys_def recordsInv_def list_all_iff dnsRowOK_def dnsKey_def isCNAMEKey_def isHostKey_def
        isCNAMERow_def RecordTypeA_def RecordTypeAAAA_def RecordTypeCNAME_def)
  then have "filter isCNAMEKey (recordKeys a) = filter (\<lambda>k. \<not> isHostKey k) (recordKeys a)" by (rule filter_cong [OF refl])
  with mset_hostRecords [OF assms(2)] mset_cnameRecords [OF assms(3)] host_rows [OF assms(1)] cname_rows [OF assms(1)]
  show ?thesis by (simp add: customOf_def flip: multiset_partition)
qed

section \<open>The import keeps the invariant\<close>

definition aliasesIn :: "string set \<Rightarrow> DB \<Rightarrow> bool" where
  "aliasesIn A d \<longleftrightarrow> dbInv d \<and> (\<forall>r\<in>set (tbl_rows (db_records d)). isCNAMERow r \<longrightarrow> dr_source r \<in> A)"

lemma aliasesIn_tick: "aliasesIn A (d\<lparr>db_tick := n\<rparr>) = aliasesIn A d"
  by (simp add: aliasesIn_def dbInv_tick)

lemma aliases_insert:
  assumes "typ = RecordTypeCNAME \<and> s \<notin> A \<and> B = insert s A \<or> typ \<noteq> RecordTypeCNAME \<and> recordTypeOf v = Some typ \<and> B = A"
  shows "triple (aliasesIn A) (sqlExec ctx (insertRecord s typ v)) (\<lambda>_. aliasesIn B) dbInv"
proof (rule triple_exec)
  fix d assume d: "aliasesIn A d"
  have "aliasesIn B d'" if ins: "insertRecord s typ v d = Inr (x, d')" for x d'
  proof -
    from ins have "d' = bump 1 (d\<lparr>db_records := appendRow (newRecord s typ v) (db_records d)\<rparr>)"
      by (auto simp: insertRecord_def split: if_splits)
    moreover have "dbInv d'" using d assms by (intro insertRecord_inv [OF ins]) (auto simp: aliasesIn_def)
    ultimately show ?thesis using d assms by (auto simp: aliasesIn_def)
  qed
  with d show "case insertRecord s typ v d of Inl e \<Rightarrow> dbInv d | Inr (x, d') \<Rightarrow> aliasesIn B d'"
    by (auto simp: aliasesIn_def split: sum.split)
qed (auto simp: aliasesIn_tick aliasesIn_def)

lemma importCustomDNSTx_inv:
  assumes "distinct (map fst (cd_CNAMEs c))" shows "triple dbInv (importCustomDNSTx c) (\<lambda>_. dbInv) dbInv"
proof -
  have del: "triple dbInv (sqlExec ctx (deleteRecords (\<lambda>_. True))) (\<lambda>_. aliasesIn {}) dbInv" for ctx
    using delete_inv(2) [of "\<lambda>_. True"]
    by (intro triple_exec) (auto simp: aliasesIn_def dbInv_tick deleteRecords_def deleteRows_def)
  have host: "triple (aliasesIn {}) (insertHostRecord x) (\<lambda>_. aliasesIn {}) dbInv"
    if "x \<in> set (hostRecords (cd_Hosts c))" for x
    using that hostRecords_valid [of "fst x" "fst (snd x)" "snd (snd x)" "cd_Hosts c"]
    unfolding insertHostRecord_def case_prod_unfold
    by (intro aliases_insert) (auto simp: RecordTypeA_def RecordTypeAAAA_def RecordTypeCNAME_def)
  have hosts: "triple (aliasesIn {}) (forEach insertHostRecord (hostRecords (cd_Hosts c))) (\<lambda>_. aliasesIn {}) dbInv"
    by (rule triple_forEach [where Inv = "\<lambda>_. aliasesIn {}"]) (auto intro: host)
  let ?cname = "\<lambda>(alias, target). sqlExec (''insert CNAME '' @ alias) (insertRecord alias RecordTypeCNAME target)"
  have "triple (aliasesIn (fst ` set ([] :: (string \<times> string) list))) (forEach ?cname (cd_CNAMEs c)) (\<lambda>_. aliasesIn (fst ` set (cd_CNAMEs c))) dbInv"
  proof (rule triple_forEach [where Inv = "\<lambda>pre. aliasesIn (fst ` set pre)"])
    fix pre x post assume xs: "cd_CNAMEs c = pre @ x # post"
    from assms have "fst x \<notin> fst ` set pre" unfolding xs by simp
    then show "triple (aliasesIn (fst ` set pre)) (?cname x) (\<lambda>_. aliasesIn (fst ` set (pre @ [x]))) dbInv"
      unfolding case_prod_unfold by (intro aliases_insert) auto
  qed
  then have "triple (aliasesIn {}) (forEach ?cname (cd_CNAMEs c)) (\<lambda>_. dbInv) dbInv"
    by (rule triple_conseq) (simp_all add: aliasesIn_def)
  with del hosts show ?thesis
    unfolding importCustomDNSTx_def forEach_hosts by (intro triple_bind)
qed

lemma ImportFromCluster_inv:
  assumes "distinct (map fst (cd_CNAMEs (ed_CustomDNS data)))" shows "keeps keepsInv (ImportFromCluster data)"
proof -
  have "keeps keepsInv (importCustomDNSTx (ed_CustomDNS data))"
    using importCustomDNSTx_inv [OF assms] unfolding triple_keeps by (simp add: keepsInv_def [abs_def])
  moreover have "keeps keepsInv (importUpstreamTx u)" for u
    unfolding importUpstreamTx_def
    by (auto intro!: inv.keeps_intros simp: keepsInv_def intro: stmt_inv split: prod.split)
  moreover have "keeps keepsInv (importFilteringTx f)" for f
    unfolding importFilteringTx_def
    by (auto intro!: inv.keeps_intros simp: keepsInv_def insertWhitelist_def insertBlacklist_def setFilteringRow_def
        intro: stmt_inv split: if_splits)
  ultimately show ?thesis
    unfolding ImportFromCluster_def by (intro inv.keeps_withTx inv.keeps_bind inv.keeps_wrap)
qed

lemma ImportFromCluster_versioned: "keeps versioned (ImportFromCluster data)"
  unfolding ImportFromCluster_def importUpstreamTx_def importCustomDNSTx_def importHost_def importFilteringTx_def
    setFilteringRow_def
  by (intro ver.keeps_intros)
    (auto intro!: ver.keeps_intros intro: stmt_versioned simp: insertWhitelist_def insertBlacklist_def
      split: prod.split option.split if_splits)

section \<open>Round trip\<close>

lemma filteringOf_keys:
  assumes "whitelistKeys b = fc_WhitelistDomains (filteringOf a)" "blacklistKeys b = fc_BlacklistDomains (filteringOf a)"
    and "blocklistKeys b = map (\<lambda>x. (x, True)) (fc_Blocklists (filteringOf a))"
    and "db_filtering b = db_filtering a"
  shows "filteringOf b = filteringOf a"
proof -
  have dom: "sortedDomains (db_whitelist b) = sortedDomains (db_whitelist a)" "sortedDomains (db_blacklist b) = sortedDomains (db_blacklist a)"
    using assms(1,2) by (simp_all add: whitelistKeys_def blacklistKeys_def sortedDomains_def filteringOf_def Let_def sort_key_id_if_sorted)
  let ?cfg = "\<lambda>r. \<lparr>bc_Name = bk_Name r, bc_URL = bk_URL r, bc_Format = bk_Format r\<rparr>"
  let ?rows = "tbl_rows (db_blocklists b)"
  have fst: "map ?cfg ?rows = enabledBlocklists (sortedBlocklists a)" and snd: "\<forall>r\<in>set ?rows. bk_Enabled r"
    using arg_cong [OF assms(3), of "map fst"] arg_cong [OF assms(3), of "\<lambda>xs. \<forall>x\<in>set xs. snd x"]
    by (simp_all add: blocklistKeys_def filteringOf_def Let_def comp_def)
  have "map bk_Name ?rows = map bc_Name (map ?cfg ?rows)" by (simp add: comp_def)
  also have "\<dots> = map bk_Name (filter bk_Enabled (sortedBlocklists a))" unfolding fst by (simp add: enabledBlocklists_def comp_def)
  finally have "sorted (map bk_Name ?rows)"
    by (simp add: sortedBlocklists_def sorted_filter)
  then have "sortedBlocklists b = ?rows" by (simp add: sortedBlocklists_def sort_key_id_if_sorted)
  moreover have "filter bk_Enabled ?rows = ?rows" using snd by (simp add: filter_id_conv)
  ultimately have "enabledBlocklists (sortedBlocklists b) = enabledBlocklists (sortedBlocklists a)"
    using fst by (simp add: enabledBlocklists_def)
  with dom assms(4) show ?thesis by (simp add: filteringOf_def)
qed

definition exportOf :: "DB \<Rightarrow> ExportData \<Rightarrow> bool" where
  "exportOf a data \<longleftrightarrow> ed_Upstream data = upstreamOf a \<and> ed_Filtering data = filteringOf a \<and>
     mset (cd_Hosts (ed_CustomDNS data)) = mset (cd_Hosts (customOf a)) \<and>
     mset (cd_CNAMEs (ed_CustomDNS data)) = mset (cd_CNAMEs (customOf a))"

lemma exported_filtering:
  assumes "dbInv a"
  shows "distinct (fc_WhitelistDomains (filteringOf a))" "distinct (fc_BlacklistDomains (filteringOf a))"
    "distinct (map bc_Name (fc_Blocklists (filteringOf a)))"
    "\<forall>b\<in>set (fc_Blocklists (filteringOf a)). bc_Format b \<in> set blocklistFormats"
proof -
  have "distinct (map bk_Name (sort_key bk_Name (tbl_rows (db_blocklists a))))"
    using assms unfolding dbInv_def blocklistsInv_def by (simp add: map_sort_key)
  then show "distinct (map bc_Name (fc_Blocklists (filteringOf a)))"
    by (simp add: filteringOf_def Let_def enabledBlocklists_def sortedBlocklists_def comp_def distinct_keys_filter)
  show "distinct (fc_WhitelistDomains (filteringOf a))" "distinct (fc_BlacklistDomains (filteringOf a))"
    "\<forall>b\<in>set (fc_Blocklists (filteringOf a)). bc_Format b \<in> set blocklistFormats"
    using assms
    by (auto simp: dbInv_def blocklistsInv_def list_all_iff filteringOf_def Let_def sortedDomains_def
        enabledBlocklists_def sortedBlocklists_def)
qed

lemma exported_upstream: "dbInv a \<Longrightarrow> distinct (uc_Servers (upstreamOf a))"
proof -
  assume "dbInv a"
  then have "distinct (map us_ServerAddress (filter us_Enabled (tbl_rows (db_upstreams a))))"
    by (simp add: dbInv_def distinct_keys_filter)
  then show ?thesis
    unfolding upstreamOf_def enabledUpstreams_def Let_def
    by (metis (no_types, lifting) UpstreamConfig.select_convs(1) mset_eq_imp_distinct_iff mset_map mset_sort)
qed

definition nodeLocal :: "DB \<Rightarrow> DB" where
  "nodeLocal d = exceptFiltering (exceptRecords (exceptUpstream d))"

lemma except_views [simp]:
  "upstreamKeys (exceptRecords d) = upstreamKeys d" "db_upstreamCfg (exceptRecords d) = db_upstreamCfg d"
  "upstreamKeys (exceptFiltering d) = upstreamKeys d" "db_upstreamCfg (exceptFiltering d) = db_upstreamCfg d"
  "recordKeys (exceptFiltering d) = recordKeys d" "db_filtering (exceptUpstream d) = db_filtering d"
  "db_filtering (exceptRecords d) = db_filtering d"
  "nodeLocal (exceptUpstream d) = nodeLocal d" "nodeLocal (exceptRecords d) = nodeLocal d"
  "nodeLocal (exceptFiltering d) = nodeLocal d"
  by (simp_all add: exceptRecords_def exceptFiltering_def exceptUpstream_def upstreamKeys_def recordKeys_def nodeLocal_def)

definition importedKeys :: "ExportData \<Rightarrow> DB \<Rightarrow> bool" where
  "importedKeys data d \<longleftrightarrow>
     upstreamKeys d = map (\<lambda>(i, s). (s, int i, True)) (enumerate 0 (uc_Servers (ed_Upstream data))) \<and>
     db_upstreamCfg d = Some \<lparr>ur_udp_timeout = uc_UDPTimeout (ed_Upstream data), ur_tcp_timeout = uc_TCPTimeout (ed_Upstream data),
       ur_max_retries = uc_MaxRetries (ed_Upstream data)\<rparr> \<and>
     recordKeys d = hostRecords (cd_Hosts (ed_CustomDNS data)) @ cnameRecords (cd_CNAMEs (ed_CustomDNS data)) \<and>
     db_filtering d = Some \<lparr>fr_enabled = fc_Enabled (ed_Filtering data), fr_log_blocked = fc_LogBlocked (ed_Filtering data),
       fr_log_allowed = fc_LogAllowed (ed_Filtering data), fr_refresh = fc_RefreshInterval (ed_Filtering data)\<rparr> \<and>
     whitelistKeys d = fc_WhitelistDomains (ed_Filtering data) \<and> blacklistKeys d = fc_BlacklistDomains (ed_Filtering data) \<and>
     blocklistKeys d = map (\<lambda>b. (b, True)) (fc_Blocklists (ed_Filtering data))"

text \<open>What can be imported: no value that a constraint of the schema refuses.\<close>

definition importable :: "ExportData \<Rightarrow> bool" where
  "importable data \<longleftrightarrow> distinct (uc_Servers (ed_Upstream data)) \<and>
     distinct (hostRecords (cd_Hosts (ed_CustomDNS data)) @ cnameRecords (cd_CNAMEs (ed_CustomDNS data))) \<and>
     distinct (fc_WhitelistDomains (ed_Filtering data)) \<and> distinct (fc_BlacklistDomains (ed_Filtering data)) \<and>
     distinct (map bc_Name (fc_Blocklists (ed_Filtering data))) \<and>
     (\<forall>b\<in>set (fc_Blocklists (ed_Filtering data)). bc_Format b \<in> set blocklistFormats)"

lemma ImportFromCluster_writes:
  assumes "importable data"
  shows "triple (\<lambda>d. calm F d \<and> db_upstreamCfg d \<noteq> None \<and> db_filtering d \<noteq> None \<and> nodeLocal d = L)
    (ImportFromCluster data) (\<lambda>_ d. calm F d \<and> importedKeys data d \<and> nodeLocal d = L) (\<lambda>_. \<not> F)"
proof -
  note imp = assms [unfolded importable_def]
  let ?P = "\<lambda>d. calm F d \<and> db_upstreamCfg d \<noteq> None \<and> db_filtering d \<noteq> None \<and> nodeLocal d = L"
  let ?Q = "\<lambda>d. calm F d \<and> importedKeys data d \<and> nodeLocal d = L"
  let ?U = "\<lambda>d. upstreamKeys d = map (\<lambda>(i, s). (s, int i, True)) (enumerate 0 (uc_Servers (ed_Upstream data))) \<and>
     db_upstreamCfg d = Some \<lparr>ur_udp_timeout = uc_UDPTimeout (ed_Upstream data), ur_tcp_timeout = uc_TCPTimeout (ed_Upstream data),
       ur_max_retries = uc_MaxRetries (ed_Upstream data)\<rparr>"
  let ?R = "\<lambda>d. recordKeys d = hostRecords (cd_Hosts (ed_CustomDNS data)) @ cnameRecords (cd_CNAMEs (ed_CustomDNS data))"
  let ?F = "\<lambda>d. db_filtering d \<noteq> None \<and> nodeLocal d = L"
  have 1: "triple ?P (importUpstreamTx (ed_Upstream data)) (\<lambda>_ d. calm F d \<and> ?U d \<and> ?F d) (\<lambda>_. \<not> F)"
    by (rule triple_conseq [OF triple_frame [OF importUpstreamTx_frame importUpstreamTx_writes, where C = ?F]])
      (use imp in auto)
  have 2: "triple (\<lambda>d. calm F d \<and> ?U d \<and> ?F d) (importCustomDNSTx (ed_CustomDNS data))
    (\<lambda>_ d. calm F d \<and> ?U d \<and> ?R d \<and> ?F d) (\<lambda>_. \<not> F)"
    by (rule triple_conseq [OF triple_frame [OF importCustomDNSTx_frame importCustomDNSTx_writes,
            where C = "\<lambda>d. ?U d \<and> ?F d"]]) (use imp in auto)
  have 3: "triple (\<lambda>d. calm F d \<and> ?U d \<and> ?R d \<and> ?F d) (importFilteringTx (ed_Filtering data)) (\<lambda>_. ?Q) (\<lambda>_. \<not> F)"
    by (rule triple_conseq [OF triple_frame [OF importFilteringTx_frame importFilteringTx_writes,
            where C = "\<lambda>d. ?U d \<and> ?R d \<and> nodeLocal d = L"]]) (use imp in \<open>auto simp: importedKeys_def\<close>)
  show ?thesis
    unfolding ImportFromCluster_def
  proof (rule triple_withTx)
    show "triple ?P (sqlBind (sqlWrap ''import upstream'' (importUpstreamTx (ed_Upstream data))) (\<lambda>_.
        sqlBind (sqlWrap ''import custom DNS'' (importCustomDNSTx (ed_CustomDNS data))) (\<lambda>_.
        sqlWrap ''import filtering'' (importFilteringTx (ed_Filtering data))))) (\<lambda>_. ?Q) (\<lambda>_. \<not> F)"
      by (intro triple_bind [OF triple_wrap [OF 1]] triple_bind [OF triple_wrap [OF 2]] triple_wrap [OF 3])
  qed (auto simp: calm_def importedKeys_def nodeLocal_def exceptUpstream_def insUpstream.keys_tick insRecord.keys_tick
      insWhitelist.keys_tick insBlacklist.keys_tick insBlocklist.keys_tick)
qed

lemma exportOf_importable:
  assumes "dbInv a" "exportOf a data"
  shows "importable data" "distinct (map fst (cd_CNAMEs (ed_CustomDNS data)))"
    "mset (hostRecords (cd_Hosts (ed_CustomDNS data)) @ cnameRecords (cd_CNAMEs (ed_CustomDNS data))) = mset (recordKeys a)"
proof -
  have rec: "recordsInv (tbl_rows (db_records a))" using assms(1) by (simp add: dbInv_def)
  show m: "mset (hostRecords (cd_Hosts (ed_CustomDNS data)) @ cnameRecords (cd_CNAMEs (ed_CustomDNS data))) = mset (recordKeys a)"
    by (rule exported_records [OF rec]) (use assms(2) in \<open>auto simp: exportOf_def\<close>)
  have "distinct (recordKeys a)" using rec by (simp add: recordKeys_def recordsInv_def)
  then have "distinct (hostRecords (cd_Hosts (ed_CustomDNS data)) @ cnameRecords (cd_CNAMEs (ed_CustomDNS data)))"
    using m by (metis mset_eq_imp_distinct_iff)
  with exported_filtering [OF assms(1)] exported_upstream [OF assms(1)] assms(2) show "importable data"
    by (simp add: importable_def exportOf_def)
  let ?ends = "map endsOf (filter isCNAMEKey (recordKeys a))"
  have "distinct ?ends"
  proof -
    have "inj_on endsOf {k. isCNAMEKey k}" by (auto simp: inj_on_def endsOf_def isCNAMEKey_def)
    with \<open>distinct (recordKeys a)\<close> show ?thesis by (auto simp: distinct_map inj_on_def)
  qed
  with cname_inj [OF rec] have "distinct (map fst ?ends)" by (simp add: distinct_map comp_inj_on)
  moreover have "mset (map fst (cd_CNAMEs (ed_CustomDNS data))) = mset (map fst ?ends)"
    using assms(2) by (simp add: exportOf_def customOf_def allCNAMEs_keys [OF rec] multiset.map_comp)
  ultimately show "distinct (map fst (cd_CNAMEs (ed_CustomDNS data)))" by (metis mset_eq_imp_distinct_iff)
qed

lemma import_roundtrip:
  assumes "noFaults b" "dbInv a" "dbInv b" "exportOf a data"
  obtains b' where "ImportFromCluster data b = (Inr (), b')" "noFaults b'" "dbInv b'"
    "upstreamOf b' = upstreamOf a" "customOf b' = customOf a" "filteringOf b' = filteringOf a" "nodeLocal b' = nodeLocal b"
proof -
  note ex = exportOf_importable [OF assms(2,4)]
  from triple_total [OF ImportFromCluster_writes [OF ex(1), of True "nodeLocal b", simplified]] assms(1,3)
  obtain b' where imp: "ImportFromCluster data b = (Inr (), b')" "noFaults b'" "importedKeys data b'" "nodeLocal b' = nodeLocal b"
    by (auto simp: dbInv_def calm_def)
  have inv: "dbInv b'" using keepsD [OF ImportFromCluster_inv [OF ex(2)] imp(1)] assms(3) by (simp add: keepsInv_def)
  from assms(2) obtain u f where rows: "db_upstreamCfg a = Some u" "db_filtering a = Some f" by (auto simp: dbInv_def)
  have "map us_ServerAddress (enabledUpstreams b') = uc_Servers (upstreamOf a)"
    using imp(3) assms(4) by (intro upstreamOf_keys) (simp add: importedKeys_def exportOf_def)
  then have "upstreamOf b' = upstreamOf a"
    using imp(3) assms(4) by (simp add: importedKeys_def exportOf_def upstreamOf_def Let_def)
  moreover have "mset (recordKeys b') = mset (recordKeys a)" using imp(3) ex(3) by (simp add: importedKeys_def)
  then have "customOf b' = customOf a" by (rule customOf_cong) (use inv assms(2) in \<open>simp_all add: dbInv_def\<close>)
  moreover have "db_filtering b' = db_filtering a"
    using imp(3) assms(4) rows by (simp add: importedKeys_def exportOf_def filteringOf_def Let_def)
  then have "filteringOf b' = filteringOf a"
    using imp(3) assms(4) by (intro filteringOf_keys) (simp_all add: importedKeys_def exportOf_def)
  ultimately show thesis using that imp inv by blast
qed

lemma localOf_nodeLocal: "nodeLocal b = nodeLocal a \<Longrightarrow> localOf uc b = localOf uc a"
proof -
  assume "nodeLocal b = nodeLocal a"
  from arg_cong [OF this, of "localOf uc"] show ?thesis
    by (simp add: nodeLocal_def localOf_def exceptUpstream_def exceptRecords_def exceptFiltering_def)
qed

end
