(* ===== verification/Database_Life.thy ===== *)
theory Database_Life
  imports Replication_Facts
begin

text \<open>
  The life of a database: the state after the migrations, and one step per operation of
  \<open>internal/database\<close>, with any pattern of driver failures. \<open>SetVersion\<close> stands apart, since it
  alone may move the version back.
\<close>

section \<open>After the migrations\<close>

definition freshDB :: "(nat \<Rightarrow> string option) \<Rightarrow> DB" where
  "freshDB fault =
     \<lparr>db_fault = fault, db_tick = 0, db_version = Some 5,
      db_server = Some \<lparr>sr_host = ''0.0.0.0'', sr_port = 53, sr_workers = ''auto'', sr_max_concurrency = 0, sr_pool_size = 0,
        sr_enable_tcp = 1, sr_tcp_fallback = 1\<rparr>,
      db_upstreamCfg = Some \<lparr>ur_udp_timeout = ''3s'', ur_tcp_timeout = ''5s'', ur_max_retries = 3\<rparr>,
      db_logging = Some \<lparr>lr_level = ''INFO'', lr_structured = 0, lr_format = ''json'', lr_include_pid = 0\<rparr>,
      db_filtering = Some \<lparr>fr_enabled = False, fr_log_blocked = True, fr_log_allowed = False, fr_refresh = ''24h''\<rparr>,
      db_rateLimit = Some \<lparr>rc_CleanupSeconds = 60, rc_MaxIPEntries = 65536, rc_MaxPrefixEntries = 16384,
        rc_GlobalQPS = 100000, rc_GlobalBurst = 100000, rc_PrefixQPS = 10000, rc_PrefixBurst = 20000,
        rc_IPQPS = 5000, rc_IPBurst = 10000\<rparr>,
      db_api = Some \<lparr>ar_enabled = 1, ar_host = ''0.0.0.0'', ar_port = 8080, ar_key = ''''\<rparr>,
      db_cluster = Some \<lparr>cc_Mode = ''standalone'', cc_NodeID = '''', cc_PrimaryURL = '''', cc_SharedSecret = '''',
        cc_SyncInterval = ''30s'', cc_SyncTimeout = ''10s''\<rparr>,
      db_records = emptyTable,
      db_upstreams = \<lparr>tbl_rows = [newUpstream ''9.9.9.9'' 0 1, newUpstream ''1.1.1.1'' 1 2, newUpstream ''8.8.8.8'' 2 3],
        tbl_seq = 3\<rparr>,
      db_whitelist = emptyTable, db_blacklist = emptyTable,
      db_blocklists = \<lparr>tbl_rows = [newBlocklist ''StevenBlack Hosts''
          ''https://raw.githubusercontent.com/StevenBlack/hosts/master/hosts'' ''hosts'' 1], tbl_seq = 1\<rparr>\<rparr>"

lemma freshDB_inv: "dbInv (freshDB fault)"
  by (simp add: dbInv_def freshDB_def emptyTable_def recordsInv_def blocklistsInv_def newUpstream_def newBlocklist_def
      blocklistFormats_def clusterModes_def ClusterModeStandalone_def)

lemma freshDB_faults: "noFaults (freshDB (\<lambda>_. None))"
  by (simp add: noFaults_def freshDB_def)

section \<open>Steps\<close>

inductive db_edit :: "DB \<Rightarrow> DB \<Rightarrow> bool" where
  read: "db_edit d (d\<lparr>db_tick := n\<rparr>)"
| addUpstream: "db_edit d (snd (AddUpstreamServer a p d))"
| setUpstreams: "db_edit d (snd (SetUpstreamServers servers d))"
| deleteUpstream: "db_edit d (snd (DeleteUpstreamServer a d))"
| enableUpstream: "db_edit d (snd (EnableUpstreamServer a e d))"
| addHost: "db_edit d (snd (DB_AddHost h ip d))"
| deleteHost: "db_edit d (snd (DB_DeleteHost h ip d))"
| deleteHosts: "db_edit d (snd (DeleteAllHostsForHostname h d))"
| addCNAME: "db_edit d (snd (DB_AddCNAME al tg d))"
| deleteCNAME: "db_edit d (snd (DB_DeleteCNAME al d))"
| addWhitelist: "db_edit d (snd (AddWhitelistDomain a d))"
| deleteWhitelist: "db_edit d (snd (DeleteWhitelistDomain a d))"
| addBlacklist: "db_edit d (snd (AddBlacklistDomain a d))"
| deleteBlacklist: "db_edit d (snd (DeleteBlacklistDomain a d))"
| addBlocklist: "db_edit d (snd (AddBlocklist a url format d))"
| deleteBlocklist: "db_edit d (snd (DeleteBlocklist a d))"
| enableBlocklist: "db_edit d (snd (EnableBlocklist a e d))"
| fetchedBlocklist: "db_edit d (snd (UpdateBlocklistFetchTime ts a d))"
| enableFiltering: "db_edit d (snd (DB_SetFilteringEnabled e d))"
| setFiltering: "db_edit d (snd (SetFilteringConfigTyped fc d))"
| setUpstreamCfg: "db_edit d (snd (SetUpstreamConfigTyped uc d))"
| setCluster: "db_edit d (snd (SetClusterConfig cc d))"
| import: "distinct (map fst (cd_CNAMEs (ed_CustomDNS data))) \<Longrightarrow> db_edit d (snd (ImportFromCluster data d))"
| increment: "db_edit d (snd (IncrementVersion d))"

inductive db_step :: "DB \<Rightarrow> DB \<Rightarrow> bool" where
  edit: "db_edit d d' \<Longrightarrow> db_step d d'"
| setVersion: "db_step d (snd (SetVersion v d))"

inductive_cases db_stepE: "db_step d d'"

lemmas ops_versioned = upstream_ops_versioned custom_ops_versioned filtering_ops_versioned settings_ops_versioned
  ImportFromCluster_versioned

lemmas ops_inv = upstream_ops_inv custom_ops_inv DB_AddCNAME_inv filtering_ops_inv settings_ops_inv

lemma db_edit_versioned: "db_edit d d' \<Longrightarrow> versioned d d'"
proof (induction rule: db_edit.induct)
  case (read d n)
  show ?case by (rule ver.tick)
qed (use ops_versioned in \<open>auto simp: keeps_def\<close>)

lemma db_edit_inv: "db_edit d d' \<Longrightarrow> dbInv d \<Longrightarrow> dbInv d'"
proof (induction rule: db_edit.induct)
  case (import data d)
  then show ?case using ImportFromCluster_inv [of data] by (auto simp: keeps_def keepsInv_def)
qed (use ops_inv in \<open>auto simp: keeps_def keepsInv_def\<close>)

lemma db_step_inv: "db_step d d' \<Longrightarrow> dbInv d \<Longrightarrow> dbInv d'"
  using settings_ops_inv(4) by (auto elim!: db_stepE intro: db_edit_inv simp: keeps_def keepsInv_def)

lemma db_reachable_inv: "db_step\<^sup>*\<^sup>* (freshDB fault) d \<Longrightarrow> dbInv d"
  by (induction rule: rtranclp_induct) (auto intro: freshDB_inv db_step_inv)

text \<open>Between two states with the same version no data changed.\<close>

lemma db_edits_versioned: "db_edit\<^sup>*\<^sup>* d d' \<Longrightarrow> versioned d d'"
  by (induction rule: rtranclp_induct) (auto intro: ver.same versioned_trans db_edit_versioned)

end
