(* ===== verification/Cluster_Sync.thy ===== *)
theory Cluster_Sync
  imports Replication GoTime GoStrconv
begin

text \<open>
  \<open>internal/cluster\<close>: the syncer of a secondary node. The HTTP client, the JSON decoder and
  the three callbacks are arguments; a callback works on the node's state \<open>'s\<close>. \<open>Syncer.cfg\<close>
  points into the running configuration, so it is an argument as well. \<open>time.ParseDuration\<close> is
  \<open>pd\<close> and \<open>now\<close> what \<open>time.Now\<close> returns. The loop's goroutine is the field \<open>sy_loop\<close>, moved by
  \<open>runLoop\<close>; a Go panic ends in \<open>LoopPanicked\<close> or \<^const>\<open>None\<close>.
\<close>

section \<open>Data\<close>

datatype sync_loop = NoLoop | Looping duration | LoopExited | LoopPanicked

record Syncer =
  sy_timeout :: duration
  sy_running :: bool
  sy_lastSyncTime :: "instant option"
  sy_lastSyncVersion :: int
  sy_lastSyncError :: string
  sy_nextSyncTime :: "instant option"
  sy_syncCount :: int
  sy_errorCount :: int
  sy_stopClosed :: bool
  sy_doneClosed :: bool
  sy_loop :: sync_loop

record SyncStatus =
  ss_Mode :: string
  ss_NodeID :: string
  ss_PrimaryURL :: string
  ss_LastSyncTime :: "instant option"
  ss_LastSyncVersion :: int
  ss_LastSyncError :: string
  ss_NextSyncTime :: "instant option"
  ss_SyncCount :: int
  ss_ErrorCount :: int
  ss_ConfigVersion :: int

record 's sync_callbacks =
  cb_import :: "ExportData \<Rightarrow> 's \<Rightarrow> db_error option \<times> 's"
  cb_reload :: "('s \<Rightarrow> db_error option \<times> 's) option"
  cb_version :: "'s \<Rightarrow> (db_error + int) \<times> 's"

record HttpRequest =
  hr_url :: string
  hr_headers :: "(string \<times> string) list"

record HttpResponse =
  hp_status :: int
  hp_body :: string

record 's http =
  ht_newRequest :: "string \<Rightarrow> string option"
  ht_do :: "duration \<Rightarrow> HttpRequest \<Rightarrow> 's \<Rightarrow> (string + HttpResponse) \<times> 's"
  ht_decode :: "string \<Rightarrow> string + ExportData"

section \<open>Construction\<close>

definition NewSyncer :: "(string \<Rightarrow> duration option) \<Rightarrow> ClusterConfig \<Rightarrow> db_error + Syncer" where
  "NewSyncer pd cfg =
     (if cc_Mode cfg \<noteq> ClusterModeSecondary then
        Inl (Msg (''syncer can only be created for secondary mode, got: '' @ cc_Mode cfg))
      else if cc_PrimaryURL cfg = '''' then Inl (Msg ''primary_url is required for secondary mode'')
      else Inr \<lparr>sy_timeout = (case pd (cc_SyncTimeout cfg) of Some d \<Rightarrow> d | None \<Rightarrow> 30 * Second),
        sy_running = False, sy_lastSyncTime = None, sy_lastSyncVersion = 0, sy_lastSyncError = '''',
        sy_nextSyncTime = None, sy_syncCount = 0, sy_errorCount = 0, sy_stopClosed = False, sy_doneClosed = False,
        sy_loop = NoLoop\<rparr>)"

section \<open>One synchronisation\<close>

definition recordSuccess :: "instant \<Rightarrow> int \<Rightarrow> Syncer \<Rightarrow> Syncer" where
  "recordSuccess now version sy =
     sy\<lparr>sy_lastSyncTime := Some now, sy_lastSyncVersion := version, sy_lastSyncError := '''',
        sy_syncCount := sy_syncCount sy + 1\<rparr>"

definition recordError :: "(sql_error \<Rightarrow> string) \<Rightarrow> db_error \<Rightarrow> Syncer \<Rightarrow> Syncer" where
  "recordError txt err sy = sy\<lparr>sy_lastSyncError := errorText txt err, sy_errorCount := sy_errorCount sy + 1\<rparr>"

definition exportRequest :: "ClusterConfig \<Rightarrow> HttpRequest" where
  "exportRequest cfg =
     \<lparr>hr_url = cc_PrimaryURL cfg @ ''/api/v1/cluster/export'',
      hr_headers = (if cc_SharedSecret cfg \<noteq> '''' then [(''X-Cluster-Secret'', cc_SharedSecret cfg)] else [])
        @ [(''Accept'', ''application/json'')]
        @ (if cc_NodeID cfg \<noteq> '''' then [(''X-Node-Id'', cc_NodeID cfg)] else [])\<rparr>"

definition fetchConfig ::
  "'s http \<Rightarrow> ClusterConfig \<Rightarrow> Syncer \<Rightarrow> 's \<Rightarrow> (db_error + ExportData) \<times> 's" where
  "fetchConfig http cfg sy st =
     (case ht_newRequest http (hr_url (exportRequest cfg)) of
        Some e \<Rightarrow> (Inl (Wrap ''create request'' (Msg e)), st)
      | None \<Rightarrow>
          (case ht_do http (sy_timeout sy) (exportRequest cfg) st of
             (Inl e, st') \<Rightarrow> (Inl (Wrap ''http request'' (Msg e)), st')
           | (Inr resp, st') \<Rightarrow>
               if hp_status resp \<noteq> 200 then
                 (Inl (Msg (''unexpected status '' @ Itoa (hp_status resp) @ '': '' @ take 1024 (hp_body resp))), st')
               else
                 (case ht_decode http (hp_body resp) of
                    Inl e \<Rightarrow> (Inl (Wrap ''decode response'' (Msg e)), st')
                  | Inr data \<Rightarrow> (Inr data, st'))))"

text \<open>\<open>versionFunc\<close> with its error dropped: 0 in that case.\<close>

definition currentVersion :: "'s sync_callbacks \<Rightarrow> 's \<Rightarrow> int \<times> 's" where
  "currentVersion cb st = (case cb_version cb st of (Inl _, st') \<Rightarrow> (0, st') | (Inr v, st') \<Rightarrow> (v, st'))"

definition runReload :: "'s sync_callbacks \<Rightarrow> 's \<Rightarrow> 's" where
  "runReload cb st = (case cb_reload cb of None \<Rightarrow> st | Some f \<Rightarrow> snd (f st))"

definition doSync ::
  "(sql_error \<Rightarrow> string) \<Rightarrow> 's http \<Rightarrow> 's sync_callbacks \<Rightarrow> ClusterConfig \<Rightarrow> instant \<Rightarrow> Syncer \<Rightarrow> 's \<Rightarrow>
     db_error option \<times> Syncer \<times> 's" where
  "doSync txt http cb cfg now sy st =
     (case fetchConfig http cfg sy st of
        (Inl err, st1) \<Rightarrow> (Some (Wrap ''fetch config'' err), recordError txt err sy, st1)
      | (Inr data, st1) \<Rightarrow>
          (let (current, st2) = currentVersion cb st1 in
           if ed_Version data \<le> current then (None, recordSuccess now (ed_Version data) sy, st2)
           else
             (case cb_import cb data st2 of
                (Some err, st3) \<Rightarrow> (Some (Wrap ''import config'' err), recordError txt err sy, st3)
              | (None, st3) \<Rightarrow> (None, recordSuccess now (ed_Version data) sy, runReload cb st3))))"

definition ForceSync where "ForceSync = doSync"

section \<open>Lifecycle\<close>

text \<open>\<open>time.NewTicker\<close> panics for an interval that is not positive.\<close>

definition startLoop :: "duration \<Rightarrow> Syncer \<Rightarrow> Syncer" where
  "startLoop interval sy = sy\<lparr>sy_loop := (if interval \<le> 0 then LoopPanicked else Looping interval)\<rparr>"

definition Syncer_Start ::
  "(sql_error \<Rightarrow> string) \<Rightarrow> (string \<Rightarrow> duration option) \<Rightarrow> 's http \<Rightarrow> 's sync_callbacks \<Rightarrow> ClusterConfig \<Rightarrow> instant \<Rightarrow>
     Syncer \<Rightarrow> 's \<Rightarrow> db_error option \<times> Syncer \<times> 's" where
  "Syncer_Start txt pd http cb cfg now sy st =
     (if sy_running sy then (Some (Msg ''syncer already running''), sy, st)
      else
        (let interval = (case pd (cc_SyncInterval cfg) of Some d \<Rightarrow> d | None \<Rightarrow> 5 * Minute);
             (_, sy1, st1) = doSync txt http cb cfg now (sy\<lparr>sy_running := True\<rparr>) st
         in (None, startLoop interval sy1, st1)))"

text \<open>The deferred \<open>close(s.doneCh)\<close> of the loop: a second close panics.\<close>

definition exitLoop :: "Syncer \<Rightarrow> Syncer" where
  "exitLoop sy =
     (if sy_doneClosed sy then sy\<lparr>sy_loop := LoopPanicked\<rparr> else sy\<lparr>sy_loop := LoopExited, sy_doneClosed := True\<rparr>)"

datatype loop_event = CtxDone | StopReceived | TickerFired

text \<open>One round of the loop: the next time is announced, then an event is taken.\<close>

definition runLoop ::
  "(sql_error \<Rightarrow> string) \<Rightarrow> 's http \<Rightarrow> 's sync_callbacks \<Rightarrow> ClusterConfig \<Rightarrow> instant \<Rightarrow> loop_event \<Rightarrow> instant \<Rightarrow>
     Syncer \<Rightarrow> 's \<Rightarrow> Syncer \<times> 's" where
  "runLoop txt http cb cfg started ev now sy st =
     (case sy_loop sy of
        Looping interval \<Rightarrow>
          (let sy1 = sy\<lparr>sy_nextSyncTime := Some (started + interval)\<rparr> in
           case ev of
             CtxDone \<Rightarrow> (exitLoop sy1, st)
           | StopReceived \<Rightarrow> (exitLoop sy1, st)
           | TickerFired \<Rightarrow> snd (doSync txt http cb cfg now sy1 st))
      | _ \<Rightarrow> (sy, st))"

text \<open>
  \<open>Stop\<close> closes \<open>stopCh\<close>, which a second close turns into a panic, and waits until the loop
  has closed \<open>doneCh\<close>: a loop that is still running takes the stop and exits.
\<close>

definition Syncer_Stop :: "Syncer \<Rightarrow> Syncer option" where
  "Syncer_Stop sy =
     (if \<not> sy_running sy then Some sy
      else if sy_stopClosed sy then None
      else
        (let sy1 = sy\<lparr>sy_running := False, sy_stopClosed := True\<rparr> in
         case sy_loop sy1 of Looping _ \<Rightarrow> Some (exitLoop sy1) | _ \<Rightarrow> Some sy1))"

definition Syncer_Status :: "'s sync_callbacks \<Rightarrow> ClusterConfig \<Rightarrow> Syncer \<Rightarrow> 's \<Rightarrow> SyncStatus \<times> 's" where
  "Syncer_Status cb cfg sy st =
     (let (localVersion, st') = currentVersion cb st in
      (\<lparr>ss_Mode = cc_Mode cfg, ss_NodeID = cc_NodeID cfg, ss_PrimaryURL = cc_PrimaryURL cfg,
        ss_LastSyncTime = sy_lastSyncTime sy, ss_LastSyncVersion = sy_lastSyncVersion sy,
        ss_LastSyncError = sy_lastSyncError sy, ss_NextSyncTime = sy_nextSyncTime sy,
        ss_SyncCount = sy_syncCount sy, ss_ErrorCount = sy_errorCount sy, ss_ConfigVersion = localVersion\<rparr>, st'))"

section \<open>Facts\<close>

text \<open>A syncer's counters add up to its attempts, and an attempt changes nothing else of its lifecycle.\<close>

lemma doSync_counts:
  assumes "doSync txt http cb cfg now sy st = (r, sy', st')"
  shows "sy_syncCount sy' + sy_errorCount sy' = sy_syncCount sy + sy_errorCount sy + 1"
    "r = None \<longleftrightarrow> sy_syncCount sy' = sy_syncCount sy + 1"
    "r = None \<longleftrightarrow> sy_errorCount sy' = sy_errorCount sy"
    "sy_running sy' = sy_running sy" "sy_loop sy' = sy_loop sy" "sy_stopClosed sy' = sy_stopClosed sy"
    "sy_doneClosed sy' = sy_doneClosed sy" "sy_nextSyncTime sy' = sy_nextSyncTime sy"
  using assms
  by (auto simp: doSync_def recordSuccess_def recordError_def Let_def split: prod.splits sum.splits option.splits if_splits)

section \<open>What the callbacks promise\<close>

text \<open>
  \<open>applied data st\<close>: the node's replicated data are those of \<open>data\<close>; \<open>kept\<close> relates states with
  the same replicated data. An import may fail before or after it has taken effect, never in
  the middle; one that returns leaves the data and the version of the export.
\<close>

locale sync_target =
  fixes cb :: "'s sync_callbacks" and fetched :: "'s \<Rightarrow> 's \<Rightarrow> bool"
    and inv :: "'s \<Rightarrow> bool" and ok :: "ExportData \<Rightarrow> bool"
    and applied :: "ExportData \<Rightarrow> 's \<Rightarrow> bool" and kept :: "'s \<Rightarrow> 's \<Rightarrow> bool" and version :: "'s \<Rightarrow> int option"
  assumes fetched: "fetched a b \<Longrightarrow> inv a \<Longrightarrow> inv b \<and> kept a b \<and> version b = version a"
    and kept_trans: "kept a b \<Longrightarrow> kept b c \<Longrightarrow> kept a c"
    and kept_applied: "kept a b \<Longrightarrow> applied data a \<longleftrightarrow> applied data b"
    and reads: "inv st \<Longrightarrow> cb_version cb st = (r, st') \<Longrightarrow>
      inv st' \<and> kept st st' \<and> version st' = version st \<and> (\<forall>v. r = Inr v \<longrightarrow> version st = Some v)"
    and import_fails: "inv st \<Longrightarrow> ok data \<Longrightarrow> cb_import cb data st = (Some e, st') \<Longrightarrow>
      inv st' \<and> (kept st st' \<or> applied data st')"
    and import_works: "inv st \<Longrightarrow> ok data \<Longrightarrow> cb_import cb data st = (None, st') \<Longrightarrow>
      inv st' \<and> applied data st' \<and> version st' = Some (ed_Version data)"
    and reloads: "inv st \<Longrightarrow> cb_reload cb = Some f \<Longrightarrow>
      inv (snd (f st)) \<and> kept st (snd (f st)) \<and> version (snd (f st)) = version st"
begin

lemma reload_keeps: "inv st \<Longrightarrow> inv (runReload cb st)"
  "inv st \<Longrightarrow> applied data st \<Longrightarrow> applied data (runReload cb st)" "inv st \<Longrightarrow> version (runReload cb st) = version st"
  using reloads [of st] kept_applied by (auto simp: runReload_def split: option.split)

lemma currentVersion_reads:
  assumes "inv st" "currentVersion cb st = (v, st')"
  shows "inv st'" "kept st st'" "version st' = version st"
proof -
  obtain r where "cb_version cb st = (r, st')"
    using assms(2) by (auto simp: currentVersion_def split: prod.splits sum.splits)
  from reads [OF assms(1) this] show "inv st'" "kept st st'" "version st' = version st" by simp_all
qed

text \<open>
  Whatever fails, the node keeps its data or has those of the export; and the version it
  reports after an import that returned is the export's.
\<close>

lemma doSync_outcome:
  assumes net: "\<And>r st'. fetchConfig http cfg sy st = (r, st') \<Longrightarrow> fetched st st' \<and> (\<forall>data. r = Inr data \<longrightarrow> ok data)"
    and "inv st" and sync: "doSync txt http cb cfg now sy st = (r, sy', st')"
  shows "inv st' \<and>
    (kept st st' \<or> (\<exists>data st1. fetchConfig http cfg sy st = (Inr data, st1) \<and> applied data st' \<and>
       (r = None \<longrightarrow> version st' = Some (ed_Version data) \<and> sy_lastSyncVersion sy' = ed_Version data)))"
proof -
  obtain f st1 where f: "fetchConfig http cfg sy st = (f, st1)" by (rule prod.exhaust)
  from net [OF f] fetched assms(2) have 1: "inv st1" "kept st st1" by auto
  show ?thesis
  proof (cases f)
    case (Inl e)
    with f sync 1 show ?thesis by (auto simp: doSync_def)
  next
    case (Inr data)
    from net [OF f] Inr have ok: "ok data" by simp
    obtain cur st2 where c: "currentVersion cb st1 = (cur, st2)" by (rule prod.exhaust)
    note 2 = currentVersion_reads [OF 1(1) c]
    note run = sync [unfolded doSync_def f Inr, simplified, unfolded c, simplified]
    show ?thesis
    proof (cases "ed_Version data \<le> cur")
      case True
      with run 2 1(2) kept_trans show ?thesis by auto
    next
      case False
      obtain i st3 where i: "cb_import cb data st2 = (i, st3)" by (rule prod.exhaust)
      show ?thesis
      proof (cases i)
        case None
        from import_works [OF 2(1) ok] i None have 3: "inv st3" "applied data st3" "version st3 = Some (ed_Version data)"
          by auto
        from run False i None have st': "st' = runReload cb st3" and v: "sy_lastSyncVersion sy' = ed_Version data"
          by (auto simp: recordSuccess_def)
        have "inv st'" "applied data st'" "version st' = Some (ed_Version data)"
          unfolding st' using reload_keeps [OF 3(1)] 3(2,3) by simp_all
        with f [unfolded Inr] v show ?thesis by blast
      next
        case (Some e)
        from import_fails [OF 2(1) ok] i Some have "inv st3 \<and> (kept st2 st3 \<or> applied data st3)" by auto
        moreover from run False i Some have "st' = st3" "r \<noteq> None" by auto
        ultimately show ?thesis using kept_trans [OF 1(2) kept_trans [OF 2(2)], of st3] f [unfolded Inr] by blast
      qed
    qed
  qed
qed

text \<open>A second attempt that finds the same export changes nothing.\<close>

lemma up_to_date:
  assumes "fetchConfig http cfg sy st = (Inr data, st1)" "currentVersion cb st1 = (v, st2)" "ed_Version data \<le> v"
  shows "doSync txt http cb cfg now sy st = (None, recordSuccess now (ed_Version data) sy, st2)"
  using assms by (simp add: doSync_def)

end

end
