(* ===== verification/Node.thy ===== *)
theory Node
  imports Runner Replication_Facts Cluster_Sync
begin

text \<open>
  \<open>cmd/hydradns/main.go\<close>: the flags, the closures that connect the database, the running
  resolvers and the cluster syncer, and the order in which \<open>run\<close> starts them. What the
  closures share is the record \<open>node\<close>. The callbacks are an interpretation of \<open>sync_target\<close>, so
  what \<open>Cluster_Sync\<close> proves of \<open>doSync\<close> holds of a secondary node.
\<close>

section \<open>Flags\<close>

record cliFlags =
  f_dbPath :: string
  f_host :: string
  f_port :: int
  f_workers :: int
  f_noTCP :: bool
  f_jsonLogs :: bool
  f_debug :: bool
  f_clusterMode :: string
  f_clusterPrimary :: string
  f_clusterSecret :: string
  f_clusterNodeID :: string

definition orElse :: "string \<Rightarrow> string \<Rightarrow> string" where
  "orElse flag old = (if flag \<noteq> '''' then flag else old)"

definition overrideServer :: "cliFlags \<Rightarrow> ServerConfig \<Rightarrow> ServerConfig" where
  "overrideServer f s =
     (let s1 = s\<lparr>sc_Host := orElse (f_host f) (sc_Host s)\<rparr>;
          s2 = (if f_port f \<noteq> 0 then s1\<lparr>sc_Port := f_port f\<rparr> else s1);
          s3 = (if f_workers f \<ge> 0 then s2\<lparr>sc_Workers := \<lparr>ws_Mode = WorkersFixed, ws_Value = f_workers f\<rparr>\<rparr> else s2)
      in if f_noTCP f then s3\<lparr>sc_EnableTCP := False\<rparr> else s3)"

definition overrideLogging :: "cliFlags \<Rightarrow> LoggingConfig \<Rightarrow> LoggingConfig" where
  "overrideLogging f l =
     (let l1 = (if f_jsonLogs f then l\<lparr>lc_Structured := True, lc_StructuredFormat := ''json''\<rparr> else l)
      in if f_debug f then l1\<lparr>lc_Level := ''DEBUG''\<rparr> else l1)"

text \<open>\<open>uuid\<close> is the text \<open>uuid.New().String()\<close> returns.\<close>

definition overrideCluster :: "string \<Rightarrow> cliFlags \<Rightarrow> ClusterConfig \<Rightarrow> ClusterConfig" where
  "overrideCluster uuid f c =
     (let c1 = c\<lparr>cc_Mode := orElse (f_clusterMode f) (cc_Mode c),
                 cc_PrimaryURL := orElse (f_clusterPrimary f) (cc_PrimaryURL c),
                 cc_SharedSecret := orElse (f_clusterSecret f) (cc_SharedSecret c),
                 cc_NodeID := orElse (f_clusterNodeID f) (cc_NodeID c)\<rparr>
      in if cc_NodeID c1 = '''' then c1\<lparr>cc_NodeID := take 8 uuid\<rparr> else c1)"

definition applyCLIOverrides :: "string \<Rightarrow> cliFlags \<Rightarrow> Config \<Rightarrow> Config" where
  "applyCLIOverrides uuid f cfg =
     cfg\<lparr>Server := overrideServer f (Server cfg), Logging := overrideLogging f (Logging cfg),
         Cluster := overrideCluster uuid f (Cluster cfg)\<rparr>"

section \<open>Closures\<close>

record 'w node =
  nd_db :: DB
  nd_hydra :: "'w hydra"

record 'w node_env =
  ne_unicode :: go_unicode
  ne_parseDuration :: "string \<Rightarrow> duration option"
  ne_sqlText :: "sql_error \<Rightarrow> string"
  ne_resolveText :: "resolve_error \<Rightarrow> string"
  ne_http :: "'w node http"

definition onDB :: "(DB, 'a) sql_op \<Rightarrow> 'w node \<Rightarrow> (db_error + 'a) \<times> 'w node" where
  "onDB m nd = (let (r, d) = m (nd_db nd) in (r, nd\<lparr>nd_db := d\<rparr>))"

text \<open>What the API calls after a change of the custom names.\<close>

definition customDNSReload :: "'w node_env \<Rightarrow> 'w node \<Rightarrow> db_error option \<times> 'w node" where
  "customDNSReload env nd =
     (case onDB (ExportToConfig (ne_unicode env)) nd of
        (Inl e, nd1) \<Rightarrow> (Some (Wrap ''failed to export config'' e), nd1)
      | (Inr cfg, nd1) \<Rightarrow>
          (let (e, rr) = ReloadCustomDNS (ne_unicode env) cfg (hy_custom (nd_hydra nd1))
           in (map_option (\<lambda>e. Msg (ne_resolveText env e)) e, nd1\<lparr>nd_hydra := (nd_hydra nd1)\<lparr>hy_custom := rr\<rparr>\<rparr>)))"

definition importFunc :: "ExportData \<Rightarrow> 'w node \<Rightarrow> db_error option \<times> 'w node" where
  "importFunc data nd =
     (case onDB (sqlBind (ImportFromCluster data) (\<lambda>_. SetVersion (ed_Version data))) nd of
        (Inl e, nd1) \<Rightarrow> (Some e, nd1)
      | (Inr _, nd1) \<Rightarrow> (None, nd1))"

text \<open>\<open>reloadFunc\<close> differs from the API's callback in the text of one error only.\<close>

definition reloadFunc :: "'w node_env \<Rightarrow> 'w node \<Rightarrow> db_error option \<times> 'w node" where
  "reloadFunc env nd =
     (case onDB (ExportToConfig (ne_unicode env)) nd of
        (Inl e, nd1) \<Rightarrow> (Some (Wrap ''failed to export config'' e), nd1)
      | (Inr cfg, nd1) \<Rightarrow>
          (let (e, rr) = ReloadCustomDNS (ne_unicode env) cfg (hy_custom (nd_hydra nd1))
           in (map_option (\<lambda>e. Wrap ''failed to reload custom DNS'' (Msg (ne_resolveText env e))) e,
               nd1\<lparr>nd_hydra := (nd_hydra nd1)\<lparr>hy_custom := rr\<rparr>\<rparr>)))"

definition syncCallbacks :: "'w node_env \<Rightarrow> 'w node sync_callbacks" where
  "syncCallbacks env = \<lparr>cb_import = importFunc, cb_reload = Some (reloadFunc env), cb_version = onDB GetVersion\<rparr>"

section \<open>Start\<close>

definition startClusterSyncer ::
  "'w node_env \<Rightarrow> ClusterConfig \<Rightarrow> instant \<Rightarrow> 'w node \<Rightarrow> Syncer option \<times> 'w node" where
  "startClusterSyncer env cfg now nd =
     (case NewSyncer (ne_parseDuration env) cfg of
        Inl _ \<Rightarrow> (None, nd)
      | Inr sy \<Rightarrow>
          (let (_, sy1, nd1) = Syncer_Start (ne_sqlText env) (ne_parseDuration env) (ne_http env) (syncCallbacks env)
             cfg now sy nd
           in (Some sy1, nd1)))"

text \<open>
  The order of \<open>run\<close>: the configuration is exported, the policy engine built, the syncer
  started with its first synchronisation, and only then \<open>RunWithContext\<close> loads the custom names.
\<close>

definition runNode ::
  "'w node_env \<Rightarrow> string \<Rightarrow> cliFlags \<Rightarrow> int \<Rightarrow> instant \<Rightarrow> 'w \<Rightarrow> DB \<Rightarrow>
     db_error + (Config \<times> Syncer option \<times> 'w node)" where
  "runNode env uuid flags procs now w db =
     (case ExportToConfig (ne_unicode env) db of
        (Inl e, _) \<Rightarrow> Inl (Wrap ''failed to load config from database'' e)
      | (Inr exported, db1) \<Rightarrow>
          (let cfg = applyCLIOverrides uuid flags exported;
               policy = BuildPolicyEngine (ne_unicode env) (ne_parseDuration env) (Some cfg);
               started = startHydra (ne_unicode env) (ne_parseDuration env) cfg procs policy w;
               nd0 = \<lparr>nd_db = db1, nd_hydra = started\<lparr>hy_custom := None\<rparr>\<rparr>;
               (syncer, nd1) = (if cc_Mode (Cluster cfg) = ClusterModeSecondary
                                then startClusterSyncer env (Cluster cfg) now nd0 else (None, nd0));
               hy = nd_hydra nd1
           in Inr (cfg, syncer, nd1\<lparr>nd_hydra := hy\<lparr>hy_custom := initCustomDNS (ne_unicode env) cfg (hy_custom hy)\<rparr>\<rparr>)))"

section \<open>The callbacks keep the syncer's contract\<close>

definition importOK :: "ExportData \<Rightarrow> bool" where
  "importOK data \<longleftrightarrow> importable data \<and> distinct (map fst (cd_CNAMEs (ed_CustomDNS data)))"

definition sameReplica :: "DB \<Rightarrow> DB \<Rightarrow> bool" where
  "sameReplica a b \<longleftrightarrow> dataOf b = dataOf a"

lemma sameReplica_keys:
  assumes "sameReplica a b" shows "importedKeys data a = importedKeys data b" "dbInv a \<Longrightarrow> db_version b \<noteq> None \<Longrightarrow> dbInv b"
  using assms
  by (auto simp: sameReplica_def dataOf_def importedKeys_def upstreamKeys_def recordKeys_def whitelistKeys_def
      blacklistKeys_def blocklistKeys_def dbInv_def)

interpretation replica: db_view "\<lambda>d. (dataOf d, db_version d)"
  by unfold_locales (simp add: dataOf_def)

text \<open>Operations that only read leave the data and the version alone.\<close>

lemma reading_ops:
  "keeps (\<lambda>a b. (dataOf b, db_version b) = (dataOf a, db_version a)) GetVersion"
  "keeps (\<lambda>a b. (dataOf b, db_version b) = (dataOf a, db_version a)) (ExportToConfig uc)"
  unfolding GetVersion_def ExportToConfig_def exportServerConfig_def exportUpstreamConfig_def exportCustomDNS_def
    exportLoggingConfig_def exportFilteringConfig_def exportRateLimitConfig_def exportAPIConfig_def
    exportClusterConfig_def GetUpstreamServers_def GetAllHosts_def GetAllCNAMEs_def GetFilteringConfig_def
    GetWhitelistDomains_def GetBlacklistDomains_def DB_GetBlocklists_def
  by (intro replica.keeps_intros)+

lemma sqlBind_cases:
  assumes "sqlBind m k d = (r, d')"
  shows "(\<exists>e. m d = (Inl e, d') \<and> r = Inl e) \<or> (\<exists>x d1. m d = (Inr x, d1) \<and> k x d1 = (r, d'))"
  using assms by (auto simp: sqlBind_def split: prod.splits sum.splits)

lemma SetVersion_replica: "keeps (\<lambda>a b. dataOf b = dataOf a \<and> (db_version a \<noteq> None \<longrightarrow> db_version b \<noteq> None)) (SetVersion v)"
  by (auto simp: keeps_def SetVersion_def sqlExec_def driverCall_def dataOf_def split: option.split)

lemma SetVersion_sets: "SetVersion v d = (Inr u, d') \<Longrightarrow> db_version d' = map_option (\<lambda>_. v) (db_version d)"
  by (auto simp: SetVersion_def sqlExec_def driverCall_def split: option.splits)

lemma importFunc_db:
  "importFunc data nd = (r, nd') \<Longrightarrow> nd_hydra nd' = nd_hydra nd \<and>
    (\<exists>x. sqlBind (ImportFromCluster data) (\<lambda>_. SetVersion (ed_Version data)) (nd_db nd) = (x, nd_db nd') \<and> (r = None \<longleftrightarrow> (\<exists>u. x = Inr u)))"
  by (auto simp: importFunc_def onDB_def Let_def split: prod.splits sum.splits)

lemma import_replaces:
  assumes "dbInv d" "importOK data" "ImportFromCluster data d = (Inr u, d')"
  shows "importedKeys data d'" "nodeLocal d' = nodeLocal d"
proof -
  have imp: "importable data" using assms(2) by (simp add: importOK_def)
  from tripleD [OF ImportFromCluster_writes [OF imp, of False "nodeLocal d"] _ assms(3)] assms(1)
  show "importedKeys data d'" "nodeLocal d' = nodeLocal d" by (auto simp: calm_def dbInv_def)
qed

lemma importFunc_outcome:
  assumes inv: "dbInv (nd_db nd)" and ok: "importOK data" and run: "importFunc data nd = (r, nd')"
  shows "dbInv (nd_db nd')"
    "r = None \<Longrightarrow> importedKeys data (nd_db nd') \<and> db_version (nd_db nd') = Some (ed_Version data)"
    "r \<noteq> None \<Longrightarrow> sameReplica (nd_db nd) (nd_db nd') \<or> importedKeys data (nd_db nd')"
proof -
  from importFunc_db [OF run] obtain x where
    b: "sqlBind (ImportFromCluster data) (\<lambda>_. SetVersion (ed_Version data)) (nd_db nd) = (x, nd_db nd')"
    and rx: "r = None \<longleftrightarrow> (\<exists>u. x = Inr u)" by blast
  have "keeps keepsInv (sqlBind (ImportFromCluster data) (\<lambda>_. SetVersion (ed_Version data)))"
    using ok by (auto intro!: inv.keeps_bind ImportFromCluster_inv settings_ops_inv simp: importOK_def)
  from keepsD [OF this b] inv show "dbInv (nd_db nd')" by (simp add: keepsInv_def)
  have "(\<exists>e. x = Inl e \<and> sameReplica (nd_db nd) (nd_db nd')) \<or>
    (\<exists>d1. dbInv d1 \<and> importedKeys data d1 \<and> SetVersion (ed_Version data) d1 = (x, nd_db nd'))"
    using sqlBind_cases [OF b]
  proof
    assume "\<exists>e. ImportFromCluster data (nd_db nd) = (Inl e, nd_db nd') \<and> x = Inl e"
    then obtain e where e: "ImportFromCluster data (nd_db nd) = (Inl e, nd_db nd')" "x = Inl e" by blast
    from withTx_failed e(1) have "sameData (nd_db nd) (nd_db nd')" unfolding ImportFromCluster_def by blast
    then have "nd_db nd' = (nd_db nd)\<lparr>db_tick := db_tick (nd_db nd')\<rparr>" by (simp add: sameData_def)
    then have "sameReplica (nd_db nd) (nd_db nd')" unfolding sameReplica_def by (metis replica.part_tick prod.inject)
    with e show ?thesis by blast
  next
    assume "\<exists>u d1. ImportFromCluster data (nd_db nd) = (Inr u, d1) \<and> SetVersion (ed_Version data) d1 = (x, nd_db nd')"
    then obtain u d1 where d1: "ImportFromCluster data (nd_db nd) = (Inr u, d1)" "SetVersion (ed_Version data) d1 = (x, nd_db nd')"
      by blast
    have "distinct (map fst (cd_CNAMEs (ed_CustomDNS data)))" using ok by (simp add: importOK_def)
    from keepsD [OF ImportFromCluster_inv [OF this] d1(1)] inv have "dbInv d1" by (simp add: keepsInv_def)
    with import_replaces(1) [OF inv ok d1(1)] d1(2) show ?thesis by blast
  qed
  then consider (failed) "x \<noteq> Inr ()" "sameReplica (nd_db nd) (nd_db nd')"
    | (imported) d1 where "dbInv d1" "importedKeys data d1" "SetVersion (ed_Version data) d1 = (x, nd_db nd')" by blast
  then have "(x \<noteq> Inr () \<longrightarrow> sameReplica (nd_db nd) (nd_db nd') \<or> importedKeys data (nd_db nd')) \<and>
    (x = Inr () \<longrightarrow> importedKeys data (nd_db nd') \<and> db_version (nd_db nd') = Some (ed_Version data))"
  proof cases
    case imported
    have "sameReplica d1 (nd_db nd')" using keepsD [OF SetVersion_replica imported(3)] by (simp add: sameReplica_def)
    with sameReplica_keys(1) imported(2) have k: "importedKeys data (nd_db nd')" by blast
    from imported(1) obtain v where "db_version d1 = Some v" by (auto simp: dbInv_def)
    with SetVersion_sets [of "ed_Version data" d1 "()" "nd_db nd'"] imported(3) k show ?thesis by simp
  qed simp
  with rx show "r = None \<Longrightarrow> importedKeys data (nd_db nd') \<and> db_version (nd_db nd') = Some (ed_Version data)"
    "r \<noteq> None \<Longrightarrow> sameReplica (nd_db nd) (nd_db nd') \<or> importedKeys data (nd_db nd')" by auto
qed

lemma reloadFunc_db:
  "nd_db (snd (reloadFunc env nd)) = snd (ExportToConfig (ne_unicode env) (nd_db nd))"
  "nd_db (snd (customDNSReload env nd)) = snd (ExportToConfig (ne_unicode env) (nd_db nd))"
  "nd_hydra (snd (reloadFunc env nd)) = nd_hydra (snd (customDNSReload env nd))"
  by (auto simp: reloadFunc_def customDNSReload_def onDB_def Let_def split: prod.splits sum.splits)

definition nodeFetched :: "'w node \<Rightarrow> 'w node \<Rightarrow> bool" where
  "nodeFetched a b \<longleftrightarrow> (\<exists>w. b = a\<lparr>nd_hydra := (nd_hydra a)\<lparr>hy_world := w\<rparr>\<rparr>)"

interpretation secondary: sync_target "syncCallbacks env" nodeFetched "\<lambda>nd. dbInv (nd_db nd)" importOK
  "\<lambda>data nd. importedKeys data (nd_db nd)" "\<lambda>a b. sameReplica (nd_db a) (nd_db b)" "\<lambda>nd. db_version (nd_db nd)" for env
proof
  fix a b :: "'a node"
  assume "nodeFetched a b" "dbInv (nd_db a)"
  then show "dbInv (nd_db b) \<and> sameReplica (nd_db a) (nd_db b) \<and> db_version (nd_db b) = db_version (nd_db a)"
    by (auto simp: nodeFetched_def sameReplica_def)
next
  fix st st' :: "'a node" and r
  assume inv: "dbInv (nd_db st)" and "cb_version (syncCallbacks env) st = (r, st')"
  then have v: "GetVersion (nd_db st) = (r, nd_db st')" by (auto simp: syncCallbacks_def onDB_def split: prod.splits)
  have "db_version (nd_db st) = Some v" if "r = Inr v" for v
    using v that by (auto simp: GetVersion_def sqlRow_def sqlExec_def driverCall_def split: option.splits)
  moreover from keepsD [OF reading_ops(1) v] have s: "sameReplica (nd_db st) (nd_db st')" "db_version (nd_db st') = db_version (nd_db st)"
    by (auto simp: sameReplica_def)
  moreover have "dbInv (nd_db st')" using sameReplica_keys(2) [OF s(1) inv] s(2) inv by (simp add: dbInv_def)
  ultimately show "dbInv (nd_db st') \<and> sameReplica (nd_db st) (nd_db st') \<and> db_version (nd_db st') = db_version (nd_db st) \<and>
    (\<forall>v. r = Inr v \<longrightarrow> db_version (nd_db st) = Some v)" by blast
next
  fix st st' :: "'a node" and data e
  assume "dbInv (nd_db st)" "importOK data" "cb_import (syncCallbacks env) data st = (Some e, st')"
  with importFunc_outcome [of st data "Some e" st']
  show "dbInv (nd_db st') \<and> (sameReplica (nd_db st) (nd_db st') \<or> importedKeys data (nd_db st'))"
    by (simp add: syncCallbacks_def)
next
  fix st st' :: "'a node" and data
  assume "dbInv (nd_db st)" "importOK data" "cb_import (syncCallbacks env) data st = (None, st')"
  with importFunc_outcome [of st data None st']
  show "dbInv (nd_db st') \<and> importedKeys data (nd_db st') \<and> db_version (nd_db st') = Some (ed_Version data)"
    by (simp add: syncCallbacks_def)
next
  fix st :: "'a node" and f
  assume inv: "dbInv (nd_db st)" and "cb_reload (syncCallbacks env) = Some f"
  then have f: "nd_db (snd (f st)) = snd (ExportToConfig (ne_unicode env) (nd_db st))"
    by (auto simp: syncCallbacks_def reloadFunc_db)
  have s: "sameReplica (nd_db st) (nd_db (snd (f st)))" "db_version (nd_db (snd (f st))) = db_version (nd_db st)"
    using reading_ops(2) [of "ne_unicode env"] unfolding f by (auto simp: keeps_def sameReplica_def)
  with sameReplica_keys(2) [OF s(1) inv] inv
  show "dbInv (nd_db (snd (f st))) \<and> sameReplica (nd_db st) (nd_db (snd (f st))) \<and>
    db_version (nd_db (snd (f st))) = db_version (nd_db st)" by (simp add: dbInv_def)
qed (simp add: sameReplica_def, rule sameReplica_keys(1))

section \<open>Convergence\<close>

lemma reload_ok:
  assumes "noFaults (nd_db nd)" "dbInv (nd_db nd)"
  obtains n where "snd (customDNSReload env nd) = nd\<lparr>nd_db := (nd_db nd)\<lparr>db_tick := n\<rparr>,
    nd_hydra := (nd_hydra nd)\<lparr>hy_custom := snd (ReloadCustomDNS (ne_unicode env) (configOf (ne_unicode env) (nd_db nd)) (hy_custom (nd_hydra nd)))\<rparr>\<rparr>"
proof -
  let ?d = "nd_db nd"
  from ExportToConfig_reads [OF assms] obtain n where
    "ExportToConfig (ne_unicode env) (?d\<lparr>db_tick := db_tick ?d\<rparr>) = (Inr (configOf (ne_unicode env) ?d), ?d\<lparr>db_tick := n\<rparr>)"
    unfolding onlyReads_def by blast
  then show thesis by (intro that [of n]) (simp add: customDNSReload_def onDB_def split: prod.split)
qed

lemma ReloadCustomDNS_cong: "CustomDNS a = CustomDNS b \<Longrightarrow> ReloadCustomDNS uc a rr = ReloadCustomDNS uc b rr"
  by (simp add: ReloadCustomDNS_def)

lemma configOf_parts [simp]:
  "Upstream (configOf uc d) = upstreamOf d" "CustomDNS (configOf uc d) = customOf d" "Filtering (configOf uc d) = filteringOf d"
  by (simp_all add: configOf_def split: prod.split)

lemma view_data:
  assumes "dataOf b = dataOf a"
  shows "upstreamOf b = upstreamOf a" "customOf b = customOf a" "filteringOf b = filteringOf a" "localOf uc b = localOf uc a"
  using assms
  by (simp_all add: dataOf_def upstreamOf_def customOf_def filteringOf_def localOf_def enabledUpstreams_def allHosts_def
      allCNAMEs_def sortedBlocklists_def)

lemma SetVersion_ok:
  assumes "noFaults d" "db_version d \<noteq> None"
  obtains d' where "SetVersion v d = (Inr (), d')" "dataOf d' = dataOf d" "db_version d' = Some v" "noFaults d'"
proof -
  have "SetVersion v d = (Inr (), d\<lparr>db_tick := Suc (db_tick d), db_version := Some v\<rparr>)"
    using assms by (auto simp: SetVersion_def sqlExec_ok)
  then show thesis by (rule that) (use assms in \<open>simp_all add: dataOf_def noFaults_def\<close>)
qed

lemma importFunc_converges:
  assumes "noFaults (nd_db nd)" "dbInv (nd_db nd)" "dbInv a" "exportOf a data"
  obtains nd' where "importFunc data nd = (None, nd')" "noFaults (nd_db nd')" "dbInv (nd_db nd')"
    "db_version (nd_db nd') = Some (ed_Version data)" "upstreamOf (nd_db nd') = upstreamOf a"
    "customOf (nd_db nd') = customOf a" "filteringOf (nd_db nd') = filteringOf a"
    "localOf uc (nd_db nd') = localOf uc (nd_db nd)" "nd_hydra nd' = nd_hydra nd"
proof -
  from import_roundtrip [OF assms(1,3,2,4)] obtain b where
    b: "ImportFromCluster data (nd_db nd) = (Inr (), b)" "noFaults b" "dbInv b" "upstreamOf b = upstreamOf a"
      "customOf b = customOf a" "filteringOf b = filteringOf a" "nodeLocal b = nodeLocal (nd_db nd)" .
  from b(3) have "db_version b \<noteq> None" by (simp add: dbInv_def)
  from SetVersion_ok [OF b(2) this] obtain d' where
    d': "SetVersion (ed_Version data) b = (Inr (), d')" "dataOf d' = dataOf b" "db_version d' = Some (ed_Version data)" "noFaults d'" .
  have "importFunc data nd = (None, nd\<lparr>nd_db := d'\<rparr>)"
    using b(1) d'(1) by (simp add: importFunc_def onDB_def sqlBind_def)
  moreover have "dbInv d'" using sameReplica_keys(2) [of b d'] b(3) d'(2,3) by (simp add: sameReplica_def)
  ultimately show thesis
    using that b d' view_data [OF d'(2)] localOf_nodeLocal [OF b(7)] by simp
qed

lemma sync_converges:
  assumes db: "noFaults (nd_db nd)" "dbInv (nd_db nd)" "db_version (nd_db nd) = Some v" "v < ed_Version data"
    and primary: "dbInv a" "exportOf a data"
    and fetch: "fetchConfig (ne_http env) cfg sy nd = (Inr data, nd1)" "nodeFetched nd nd1"
    and sync: "doSync txt (ne_http env) (syncCallbacks env) cfg now sy nd = (r, sy', nd')"
  shows "r = None" "sy_lastSyncVersion sy' = ed_Version data" "db_version (nd_db nd') = Some (ed_Version data)"
    "upstreamOf (nd_db nd') = upstreamOf a" "customOf (nd_db nd') = customOf a" "filteringOf (nd_db nd') = filteringOf a"
    "localOf uc (nd_db nd') = localOf uc (nd_db nd)" "hy_policy (nd_hydra nd') = hy_policy (nd_hydra nd)"
    "hy_custom (nd_hydra nd') = snd (ReloadCustomDNS (ne_unicode env) (configOf (ne_unicode env) a) (hy_custom (nd_hydra nd)))"
proof -
  from fetch(2) obtain w where nd1: "nd1 = nd\<lparr>nd_hydra := (nd_hydra nd)\<lparr>hy_world := w\<rparr>\<rparr>" by (auto simp: nodeFetched_def)
  let ?nd2 = "nd1\<lparr>nd_db := (nd_db nd)\<lparr>db_tick := Suc (db_tick (nd_db nd))\<rparr>\<rparr>"
  have cur: "currentVersion (syncCallbacks env) nd1 = (v, ?nd2)"
    using db(1,3) by (simp add: currentVersion_def syncCallbacks_def onDB_def GetVersion_def nd1 sqlRow_ok)
  have "noFaults (nd_db ?nd2)" "dbInv (nd_db ?nd2)" using db(1,2) by simp_all
  from importFunc_converges [OF this primary] obtain nd3 where
    3: "importFunc data ?nd2 = (None, nd3)" "noFaults (nd_db nd3)" "dbInv (nd_db nd3)"
    "db_version (nd_db nd3) = Some (ed_Version data)" "upstreamOf (nd_db nd3) = upstreamOf a"
    "customOf (nd_db nd3) = customOf a" "filteringOf (nd_db nd3) = filteringOf a"
    "localOf uc (nd_db nd3) = localOf uc (nd_db ?nd2)" "nd_hydra nd3 = nd_hydra ?nd2" .
  have run: "r = None" "sy' = recordSuccess now (ed_Version data) sy" "nd' = snd (reloadFunc env nd3)"
  proof -
    have cb: "cb_import (syncCallbacks env) = importFunc" "cb_reload (syncCallbacks env) = Some (reloadFunc env)"
      by (simp_all add: syncCallbacks_def)
    from sync fetch(1) cur db(4) 3(1) show "r = None" "sy' = recordSuccess now (ed_Version data) sy" "nd' = snd (reloadFunc env nd3)"
      by (auto simp: doSync_def runReload_def cb)
  qed
  obtain n where "snd (customDNSReload env nd3) = nd3\<lparr>nd_db := (nd_db nd3)\<lparr>db_tick := n\<rparr>,
    nd_hydra := (nd_hydra nd3)\<lparr>hy_custom := snd (ReloadCustomDNS (ne_unicode env) (configOf (ne_unicode env) (nd_db nd3)) (hy_custom (nd_hydra nd3)))\<rparr>\<rparr>"
    by (rule reload_ok [OF 3(2,3)])
  then have nd': "nd_db nd' = (nd_db nd3)\<lparr>db_tick := n\<rparr>"
    "nd_hydra nd' = (nd_hydra nd3)\<lparr>hy_custom := snd (ReloadCustomDNS (ne_unicode env) (configOf (ne_unicode env) (nd_db nd3)) (hy_custom (nd_hydra nd3)))\<rparr>"
    unfolding run(3) by (simp_all add: reloadFunc_db flip: reloadFunc_db(2))
  have view: "dataOf (nd_db nd') = dataOf (nd_db nd3)" unfolding nd' by (simp add: dataOf_def)
  show "r = None" by (rule run)
  show "sy_lastSyncVersion sy' = ed_Version data" by (simp add: run recordSuccess_def)
  show "db_version (nd_db nd') = Some (ed_Version data)" using 3(4) by (simp add: nd')
  show "upstreamOf (nd_db nd') = upstreamOf a" "customOf (nd_db nd') = customOf a" "filteringOf (nd_db nd') = filteringOf a"
    using view_data [OF view] 3 by simp_all
  have "dataOf (nd_db ?nd2) = dataOf (nd_db nd)" by (simp add: dataOf_def)
  with view_data(4) [OF view] view_data(4) [OF this] 3(8) show "localOf uc (nd_db nd') = localOf uc (nd_db nd)" by simp
  show "hy_policy (nd_hydra nd') = hy_policy (nd_hydra nd)" using 3(9) by (simp add: nd' nd1)
  have "ReloadCustomDNS (ne_unicode env) (configOf (ne_unicode env) (nd_db nd3)) rr =
    ReloadCustomDNS (ne_unicode env) (configOf (ne_unicode env) a) rr" for rr
    by (rule ReloadCustomDNS_cong) (simp add: 3(6))
  then show "hy_custom (nd_hydra nd') = snd (ReloadCustomDNS (ne_unicode env) (configOf (ne_unicode env) a) (hy_custom (nd_hydra nd)))"
    using 3(9) by (simp add: nd' nd1)
qed

end
