(* ===== verification/Node_Start.thy ===== *)
theory Node_Start
  imports Node
begin

text \<open>
  The start of a secondary node, step by step: what the configuration of \<open>run\<close> comes from,
  that the first synchronisation happens and succeeds, and which custom names are served when
  the start is over.
\<close>

lemma NewSyncer_secondary:
  "cc_Mode cfg = ClusterModeSecondary \<Longrightarrow> cc_PrimaryURL cfg \<noteq> '''' \<Longrightarrow> \<exists>sy. NewSyncer pd cfg = Inr sy \<and> \<not> sy_running sy"
  by (simp add: NewSyncer_def)

lemma startClusterSyncer_first:
  assumes "cc_Mode cfg = ClusterModeSecondary" "cc_PrimaryURL cfg \<noteq> ''''" "startClusterSyncer env cfg now nd = (syncer, nd')"
  obtains sy r sy' where "doSync (ne_sqlText env) (ne_http env) (syncCallbacks env) cfg now sy nd = (r, sy', nd')"
proof -
  from NewSyncer_secondary [OF assms(1,2), of "ne_parseDuration env"] obtain sy where
    sy: "NewSyncer (ne_parseDuration env) cfg = Inr sy" "\<not> sy_running sy" by blast
  obtain r sy1 nd1 where s: "doSync (ne_sqlText env) (ne_http env) (syncCallbacks env) cfg now (sy\<lparr>sy_running := True\<rparr>) nd = (r, sy1, nd1)"
    by (rule prod_cases3)
  from assms(3) sy s have "nd' = nd1" by (auto simp: startClusterSyncer_def Syncer_Start_def Let_def)
  with s show thesis by (intro that) blast
qed

lemma initCustomDNS_loaded:
  "NewCustomDNSResolver uc (cd_Hosts (CustomDNS cfg)) (cd_CNAMEs (CustomDNS cfg)) = Inr rs \<Longrightarrow>
    initCustomDNS uc cfg rr = initCustomDNS uc cfg None"
  by (simp add: initCustomDNS_def Reload_def)

lemma override_keeps: "CustomDNS (applyCLIOverrides uuid flags cfg) = CustomDNS cfg"
  "Cluster (applyCLIOverrides uuid flags cfg) = overrideCluster uuid flags (Cluster cfg)"
  by (simp_all add: applyCLIOverrides_def)

text \<open>The replicated data arrive in the database, and the resolver serves what was exported before.\<close>

lemma first_sync_overwritten:
  assumes cluster: "cluster = overrideCluster uuid flags (the (db_cluster db))"
    and db: "noFaults db" "dbInv db" "db_version db = Some v" "v < ed_Version data"
    and primary: "dbInv a" "exportOf a data"
    and mode: "cc_Mode cluster = ClusterModeSecondary" "cc_PrimaryURL cluster \<noteq> ''''"
    and net: "\<And>sy nd. \<exists>nd1. fetchConfig (ne_http env) cluster sy nd = (Inr data, nd1) \<and> nodeFetched nd nd1"
    and loads: "NewCustomDNSResolver (ne_unicode env) (cd_Hosts (customOf db)) (cd_CNAMEs (customOf db)) = Inr rs"
    and run: "runNode env uuid flags procs now w db = Inr (cfg, syncer, nd)"
  shows "CustomDNS cfg = customOf db" "customOf (nd_db nd) = customOf a" "db_version (nd_db nd) = Some (ed_Version data)"
    "hy_custom (nd_hydra nd) = initCustomDNS (ne_unicode env) cfg None"
proof -
  from ExportToConfig_reads [OF db(1,2)] obtain n where
    ex: "ExportToConfig (ne_unicode env) (db\<lparr>db_tick := db_tick db\<rparr>) = (Inr (configOf (ne_unicode env) db), db\<lparr>db_tick := n\<rparr>)"
    unfolding onlyReads_def by blast
  let ?cfg = "applyCLIOverrides uuid flags (configOf (ne_unicode env) db)"
  have parts: "Cluster ?cfg = cluster" "CustomDNS ?cfg = customOf db"
    by (simp_all add: override_keeps cluster configOf_def localOf_def Let_def)
  from run ex mode(1) obtain hy0 nd1 where s: "startClusterSyncer env cluster now \<lparr>nd_db = db\<lparr>db_tick := n\<rparr>, nd_hydra = hy0\<rparr> = (syncer, nd1)"
    and cfg: "cfg = ?cfg" and nd: "nd = nd1\<lparr>nd_hydra := (nd_hydra nd1)\<lparr>hy_custom := initCustomDNS (ne_unicode env) ?cfg (hy_custom (nd_hydra nd1))\<rparr>\<rparr>"
    by (auto simp: runNode_def Let_def parts split: prod.splits)
  from startClusterSyncer_first [OF mode s] obtain sy r sy' where
    sync: "doSync (ne_sqlText env) (ne_http env) (syncCallbacks env) cluster now sy \<lparr>nd_db = db\<lparr>db_tick := n\<rparr>, nd_hydra = hy0\<rparr> = (r, sy', nd1)" .
  from net obtain ndf where f: "fetchConfig (ne_http env) cluster sy \<lparr>nd_db = db\<lparr>db_tick := n\<rparr>, nd_hydra = hy0\<rparr> = (Inr data, ndf)"
    "nodeFetched \<lparr>nd_db = db\<lparr>db_tick := n\<rparr>, nd_hydra = hy0\<rparr> ndf" by blast
  have "customOf (nd_db nd1) = customOf a" "db_version (nd_db nd1) = Some (ed_Version data)"
    by (rule sync_converges [OF _ _ _ db(4) primary f sync]; use db in simp)+
  then show "CustomDNS cfg = customOf db" "customOf (nd_db nd) = customOf a" "db_version (nd_db nd) = Some (ed_Version data)"
    using parts by (simp_all add: nd cfg)
  show "hy_custom (nd_hydra nd) = initCustomDNS (ne_unicode env) cfg None"
    using initCustomDNS_loaded [of "ne_unicode env" ?cfg rs] loads parts by (simp add: nd cfg)
qed

lemma runNode_starts:
  assumes "noFaults db" "dbInv db" shows "\<exists>out. runNode env uuid flags procs now w db = Inr out"
proof -
  from ExportToConfig_reads [OF assms] obtain n where
    "ExportToConfig (ne_unicode env) (db\<lparr>db_tick := db_tick db\<rparr>) = (Inr (configOf (ne_unicode env) db), db\<lparr>db_tick := n\<rparr>)"
    unfolding onlyReads_def by blast
  then show ?thesis by (simp add: runNode_def Let_def split: prod.split)
qed

lemma NewCustomDNSResolver_empty: "\<exists>rs. NewCustomDNSResolver uc [] [] = Inr rs"
  by (simp add: NewCustomDNSResolver_def)

end
