(* ===== verification/Cli.thy ===== *)
theory Cli
  imports Node
begin

text \<open>
  \<open>parseFlags\<close> of \<open>cmd/hydradns/main.go\<close> with Go's \<open>flag\<close> package: the flags, their defaults, and
  the parsing of the command line. An error of the package ends the process with its usage
  message; here it is a value. \<open>strconv.ParseInt\<close> with base 0, which also reads prefixed and
  underscored literals, is the argument \<open>pint\<close>.
\<close>

section \<open>Flags\<close>

datatype flag_error =
    BadFlagSyntax string
  | FlagNotDefined string
  | ErrHelp
  | FlagNeedsArgument string
  | InvalidFlagValue string string

definition DefaultDatabasePath :: string where
  "DefaultDatabasePath = ''hydradns.db''"

definition defaultFlags :: cliFlags where
  "defaultFlags = \<lparr>f_dbPath = DefaultDatabasePath, f_host = '''', f_port = 0, f_workers = -1, f_noTCP = False,
     f_jsonLogs = False, f_debug = False, f_clusterMode = '''', f_clusterPrimary = '''', f_clusterSecret = '''',
     f_clusterNodeID = ''''\<rparr>"

definition textFlags :: "(string \<times> (string \<Rightarrow> cliFlags \<Rightarrow> cliFlags)) list" where
  "textFlags =
     [(''db'', \<lambda>v f. f\<lparr>f_dbPath := v\<rparr>), (''host'', \<lambda>v f. f\<lparr>f_host := v\<rparr>),
      (''cluster-mode'', \<lambda>v f. f\<lparr>f_clusterMode := v\<rparr>), (''cluster-primary'', \<lambda>v f. f\<lparr>f_clusterPrimary := v\<rparr>),
      (''cluster-secret'', \<lambda>v f. f\<lparr>f_clusterSecret := v\<rparr>), (''cluster-node-id'', \<lambda>v f. f\<lparr>f_clusterNodeID := v\<rparr>)]"

definition intFlags :: "(string \<times> (int \<Rightarrow> cliFlags \<Rightarrow> cliFlags)) list" where
  "intFlags = [(''port'', \<lambda>i f. f\<lparr>f_port := i\<rparr>), (''workers'', \<lambda>i f. f\<lparr>f_workers := i\<rparr>)]"

definition boolFlags :: "(string \<times> (bool \<Rightarrow> cliFlags \<Rightarrow> cliFlags)) list" where
  "boolFlags =
     [(''no-tcp'', \<lambda>b f. f\<lparr>f_noTCP := b\<rparr>), (''json-logs'', \<lambda>b f. f\<lparr>f_jsonLogs := b\<rparr>),
      (''debug'', \<lambda>b f. f\<lparr>f_debug := b\<rparr>)]"

section \<open>Parsing\<close>

definition ParseBool :: "string \<Rightarrow> bool option" where
  "ParseBool s =
     (if s \<in> {''1'', ''t'', ''T'', ''TRUE'', ''true'', ''True''} then Some True
      else if s \<in> {''0'', ''f'', ''F'', ''FALSE'', ''false'', ''False''} then Some False
      else None)"

text \<open>A name and, after the first equals sign, a value.\<close>

definition splitEquals :: "string \<Rightarrow> string \<times> string option" where
  "splitEquals s =
     (let name = takeWhile (\<lambda>c. c \<noteq> CHR ''='') s
      in if CHR ''='' \<in> set s then (name, Some (drop (length name + 1) s)) else (name, None))"

definition setValue :: "(string \<Rightarrow> int option) \<Rightarrow> string \<Rightarrow> string \<Rightarrow> cliFlags \<Rightarrow> flag_error + cliFlags" where
  "setValue pint name v f =
     (case map_of textFlags name of
        Some upd \<Rightarrow> Inr (upd v f)
      | None \<Rightarrow>
          (case map_of intFlags name of
             None \<Rightarrow> Inl (FlagNotDefined name)
           | Some upd \<Rightarrow>
               (case pint v of None \<Rightarrow> Inl (InvalidFlagValue v name) | Some i \<Rightarrow> Inr (upd i f))))"

definition setBool :: "string \<Rightarrow> (bool \<Rightarrow> cliFlags \<Rightarrow> cliFlags) \<Rightarrow> string option \<Rightarrow> cliFlags \<Rightarrow> flag_error + cliFlags" where
  "setBool name upd value f =
     (case value of
        None \<Rightarrow> Inr (upd True f)
      | Some v \<Rightarrow> (case ParseBool v of None \<Rightarrow> Inl (InvalidFlagValue v name) | Some b \<Rightarrow> Inr (upd b f)))"

definition definedFlag :: "string \<Rightarrow> bool" where
  "definedFlag name \<longleftrightarrow> name \<in> fst ` set textFlags \<union> fst ` set intFlags \<union> fst ` set boolFlags"

text \<open>One flag after the other, until the first argument that is none or \<open>--\<close>.\<close>

function parseArgs :: "(string \<Rightarrow> int option) \<Rightarrow> string list \<Rightarrow> cliFlags \<Rightarrow> flag_error + cliFlags" where
  "parseArgs pint [] f = Inr f"
| "parseArgs pint (s # rest) f =
     (if length s < 2 \<or> s ! 0 \<noteq> CHR ''-'' \<or> s = ''--'' then Inr f
      else
        (let name0 = (if s ! 1 = CHR ''-'' then drop 2 s else drop 1 s);
             (name, value) = splitEquals name0
         in if hd name0 = CHR ''-'' \<or> hd name0 = CHR ''='' then Inl (BadFlagSyntax s)
            else if \<not> definedFlag name then
              Inl (if name \<in> {''help'', ''h''} then ErrHelp else FlagNotDefined name)
            else
              (case map_of boolFlags name of
                 Some upd \<Rightarrow> andThen (setBool name upd value f) (parseArgs pint rest)
               | None \<Rightarrow>
                   (case value of
                      Some v \<Rightarrow> andThen (setValue pint name v f) (parseArgs pint rest)
                    | None \<Rightarrow>
                        (case rest of
                           [] \<Rightarrow> Inl (FlagNeedsArgument name)
                         | v # rest2 \<Rightarrow> andThen (setValue pint name v f) (parseArgs pint rest2))))))"
  by pat_completeness auto
termination by (relation "measure (\<lambda>(pint, args, f). length args)") auto

definition parseFlags :: "(string \<Rightarrow> int option) \<Rightarrow> string list \<Rightarrow> flag_error + cliFlags" where
  "parseFlags pint args = parseArgs pint args defaultFlags"

section \<open>The command line of given flags\<close>

definition boolText :: "bool \<Rightarrow> string" where
  "boolText b = (if b then ''true'' else ''false'')"

definition argsOf :: "cliFlags \<Rightarrow> string list" where
  "argsOf f =
     [''-db='' @ f_dbPath f, ''-host='' @ f_host f, ''-port='' @ Itoa (f_port f), ''-workers='' @ Itoa (f_workers f),
      ''-no-tcp='' @ boolText (f_noTCP f), ''-json-logs='' @ boolText (f_jsonLogs f), ''-debug='' @ boolText (f_debug f),
      ''-cluster-mode='' @ f_clusterMode f, ''-cluster-primary='' @ f_clusterPrimary f,
      ''-cluster-secret='' @ f_clusterSecret f, ''-cluster-node-id='' @ f_clusterNodeID f]"

declare parseArgs.simps(2) [simp del]

lemma ParseBool_boolText: "ParseBool (boolText b) = Some b"
  by (simp add: ParseBool_def boolText_def)

lemma splitEquals_name: "CHR ''='' \<notin> set name \<Longrightarrow> splitEquals (name @ CHR ''='' # v) = (name, Some v)"
  by (auto simp: splitEquals_def Let_def takeWhile_append takeWhile_eq_all_conv [THEN iffD2])

text \<open>One argument of the form \<open>-name=value\<close>.\<close>

lemma parse_assignment:
  assumes "definedFlag name" "name \<noteq> []" "hd name \<noteq> CHR ''-''" "CHR ''='' \<notin> set name"
  shows "parseArgs pint ((CHR ''-'' # name @ CHR ''='' # v) # rest) f =
    (case map_of boolFlags name of
       Some upd \<Rightarrow> andThen (setBool name upd (Some v) f) (parseArgs pint rest)
     | None \<Rightarrow> andThen (setValue pint name v f) (parseArgs pint rest))"
proof -
  obtain c cs where n: "name = c # cs" "c \<noteq> CHR ''-''" "c \<noteq> CHR ''=''" using assms by (cases name) auto
  have "splitEquals (c # cs @ CHR ''='' # v) = (c # cs, Some v)" using splitEquals_name [OF assms(4)] n(1) by simp
  with assms(1) n show ?thesis by (simp add: parseArgs.simps(2) split: option.split)
qed

lemmas flag_tables = definedFlag_def textFlags_def intFlags_def boolFlags_def

text \<open>The eleven arguments set the eleven fields.\<close>

lemma parseArgs_argsOf:
  assumes "pint (Itoa (f_port f)) = Some (f_port f)" "pint (Itoa (f_workers f)) = Some (f_workers f)"
  shows "parseArgs pint (argsOf f) g = Inr f"
proof -
  note texts = parse_assignment [of "''db''"] parse_assignment [of "''host''"] parse_assignment [of "''cluster-mode''"]
    parse_assignment [of "''cluster-primary''"] parse_assignment [of "''cluster-secret''"]
    parse_assignment [of "''cluster-node-id''"]
  note other = parse_assignment [of "''port''"] parse_assignment [of "''workers''"] parse_assignment [of "''no-tcp''"]
    parse_assignment [of "''json-logs''"] parse_assignment [of "''debug''"]
  show ?thesis
    using texts [of pint] other [of pint]
    by (simp add: argsOf_def flag_tables setValue_def setBool_def ParseBool_boolText assms)
qed

section \<open>Without flags\<close>

lemma default_overrides:
  "applyCLIOverrides uuid defaultFlags cfg =
     (if cc_NodeID (Cluster cfg) = '''' then cfg\<lparr>Cluster := (Cluster cfg)\<lparr>cc_NodeID := take 8 uuid\<rparr>\<rparr> else cfg)"
  by (simp add: applyCLIOverrides_def overrideServer_def overrideLogging_def overrideCluster_def defaultFlags_def orElse_def
      Let_def)

end
