(* ===== verification/Logging_Setup.thy ===== *)
theory Logging_Setup
  imports Node
begin

text \<open>
  \<open>logging/logging.go\<close>: the level and the handler that \<open>Configure\<close> chooses. A \<open>slog\<close> handler is what it
  was built with; the order of its extra fields is that of a Go map and left open.
\<close>

datatype slog_level = LevelDebug | LevelInfo | LevelWarn | LevelError

datatype slog_format = JSONHandler | TextHandler

record slog_handler =
  sh_format :: slog_format
  sh_level :: slog_level
  sh_fields :: "(string, string) fmap"
  sh_pid :: "int option"

definition parseLevel :: "go_unicode \<Rightarrow> string \<Rightarrow> slog_level" where
  "parseLevel uc s =
     (let s = ToUpper uc (TrimSpace uc s) in
      if s = ''DEBUG'' then LevelDebug
      else if s = ''INFO'' then LevelInfo
      else if s = ''WARN'' \<or> s = ''WARNING'' then LevelWarn
      else if s = ''ERROR'' then LevelError
      else LevelInfo)"

text \<open>\<open>pid\<close> is what \<open>os.Getpid\<close> returns.\<close>

definition Configure :: "go_unicode \<Rightarrow> int \<Rightarrow> LoggingConfig \<Rightarrow> slog_handler" where
  "Configure uc pid cfg =
     \<lparr>sh_format = (if lc_Structured cfg \<and> ToLower uc (lc_StructuredFormat cfg) = ''json'' then JSONHandler else TextHandler),
      sh_level = parseLevel uc (lc_Level cfg),
      sh_fields = (case lc_ExtraFields cfg of None \<Rightarrow> fmempty | Some m \<Rightarrow> m),
      sh_pid = (if lc_IncludePID cfg then Some pid else None)\<rparr>"

text \<open>The flags of the command line decide, whatever the database says.\<close>

lemma flags_decide_logging:
  "f_debug f \<Longrightarrow> sh_level (Configure uc pid (overrideLogging f l)) = LevelDebug"
  "f_jsonLogs f \<Longrightarrow> sh_format (Configure uc pid (overrideLogging f l)) = JSONHandler"
  "\<not> f_debug f \<Longrightarrow> \<not> f_jsonLogs f \<Longrightarrow> Configure uc pid (overrideLogging f l) = Configure uc pid l"
proof -
  have "parseLevel uc ''DEBUG'' = LevelDebug" "ToLower uc ''json'' = ''json''" by code_simp+
  then show "f_debug f \<Longrightarrow> sh_level (Configure uc pid (overrideLogging f l)) = LevelDebug"
    "f_jsonLogs f \<Longrightarrow> sh_format (Configure uc pid (overrideLogging f l)) = JSONHandler"
    "\<not> f_debug f \<Longrightarrow> \<not> f_jsonLogs f \<Longrightarrow> Configure uc pid (overrideLogging f l) = Configure uc pid l"
    by (simp_all add: Configure_def overrideLogging_def Let_def)
qed

end
