(* ===== verification/Api.thy ===== *)
theory Api
  imports Node Query_Handler
begin

text \<open>
  \<open>internal/api\<close>: the state of the handlers, every endpoint that \<open>RegisterRoutes\<close> registers,
  and the API key middleware. A handler takes what gin has bound (\<^const>\<open>Inl\<close> the text of a
  binding error) and returns the status, the body and the next state; \<^const>\<open>None\<close> is a nil
  dereference, which gin's recovery turns into a status 500. A pointer of \<open>Handler\<close> that may be nil
  is an option or a flag next to the object it points to, which lives in \<open>hd_node\<close>. Logging
  is left out, and so are the host's memory and CPU figures of \<open>Stats\<close>.
\<close>

section \<open>State\<close>

record 'w Handler =
  hd_cfg :: "Config option"
  hd_db :: bool
  hd_policy :: bool
  hd_reload :: bool
  hd_stats :: "DNSStats option"
  hd_syncer :: "Syncer option"
  hd_node :: "'w node"

definition SetPolicyEngine :: "'w Handler \<Rightarrow> PolicyEngine \<Rightarrow> 'w Handler" where
  "SetPolicyEngine h pe =
     h\<lparr>hd_policy := True, hd_node := (hd_node h)\<lparr>nd_hydra := (nd_hydra (hd_node h))\<lparr>hy_policy := pe\<rparr>\<rparr>\<rparr>"

definition SetCustomDNSReloadFunc :: "'w Handler \<Rightarrow> 'w Handler" where
  "SetCustomDNSReloadFunc h = h\<lparr>hd_reload := True\<rparr>"

definition SetDNSStatsFunc :: "'w Handler \<Rightarrow> DNSStats \<Rightarrow> 'w Handler" where
  "SetDNSStatsFunc h st = h\<lparr>hd_stats := Some st\<rparr>"

definition SetClusterSyncer :: "'w Handler \<Rightarrow> Syncer option \<Rightarrow> 'w Handler" where
  "SetClusterSyncer h sy = h\<lparr>hd_syncer := sy\<rparr>"

text \<open>\<open>api.New\<close> with the wiring of \<open>run\<close>.\<close>

definition newAPIHandler :: "Config \<Rightarrow> DNSStats \<Rightarrow> Syncer option \<Rightarrow> 'w node \<Rightarrow> 'w Handler" where
  "newAPIHandler cfg st sy nd =
     SetClusterSyncer (SetCustomDNSReloadFunc (SetDNSStatsFunc
       (SetPolicyEngine \<lparr>hd_cfg = Some cfg, hd_db = True, hd_policy = False, hd_reload = False, hd_stats = None,
          hd_syncer = None, hd_node = nd\<rparr> (hy_policy (nd_hydra nd))) st)) sy"

section \<open>Responses\<close>

record HostRecord =
  hrec_Name :: string
  hrec_IPs :: "string list"

record CNAMERecord =
  crec_Alias :: string
  crec_Target :: string

datatype operation_data = HostData HostRecord | CNAMEData CNAMERecord

record apiBlocklist =
  ab_Name :: string
  ab_URL :: string
  ab_Format :: string
  ab_Enabled :: bool
  ab_LastFetched :: "string option"

record ClusterStatus =
  cs_Mode :: string
  cs_NodeID :: string
  cs_ConfigVersion :: int
  cs_PrimaryURL :: string
  cs_LastSyncTime :: "instant option"
  cs_LastSyncVersion :: int
  cs_LastSyncError :: string
  cs_NextSyncTime :: "instant option"
  cs_SyncCount :: int
  cs_ErrorCount :: int

record ServerView =
  sv_Host :: string
  sv_Port :: int
  sv_Workers :: string
  sv_MaxConcurrency :: int
  sv_PoolSize :: int
  sv_EnableTCP :: bool
  sv_TCPFallback :: bool

record APIView =
  av_Enabled :: bool
  av_Host :: string
  av_Port :: int

record ClusterView =
  cv_Mode :: string
  cv_NodeID :: string
  cv_PrimaryURL :: string
  cv_SyncInterval :: string
  cv_SyncTimeout :: string

record ConfigView =
  vw_Server :: ServerView
  vw_Upstream :: UpstreamConfig
  vw_CustomDNS :: CustomDNSConfig
  vw_Logging :: LoggingConfig
  vw_Filtering :: FilteringConfig
  vw_RateLimit :: RateLimitConfig
  vw_API :: APIView
  vw_Cluster :: ClusterView

datatype api_body =
    ErrorResponse string
  | StatusResponse string
  | DomainListResponse "string list" int
  | FilteringStatsResponse PolicyStats
  | BlocklistsResponse "apiBlocklist list" int
  | CustomDNSRecordsResponse "(string \<times> string list) list" "(string \<times> string) list" int int int
  | CustomDNSOperationResponse string "operation_data option"
  | ClusterStatusResponse ClusterStatus
  | ClusterConfigResponse ClusterConfig
  | SetClusterConfigResponse string string string string bool
  | ExportResponse ExportData
  | ConfigResponse ConfigView
  | StatsResponse DNSStatsSnapshot "PolicyStats option"

type_synonym 'w outcome = "((int \<times> api_body) \<times> 'w Handler) option"

definition reply :: "int \<Rightarrow> api_body \<Rightarrow> 'w Handler \<Rightarrow> 'w outcome" where
  "reply status body h = Some ((status, body), h)"

text \<open>A call of a method of \<open>h.db\<close>: with a nil database it panics when it takes the lock.\<close>

definition callDB :: "(DB, 'a) sql_op \<Rightarrow> (db_error + 'a \<Rightarrow> 'w Handler \<Rightarrow> 'w outcome) \<Rightarrow> 'w Handler \<Rightarrow> 'w outcome" where
  "callDB m k h =
     (if \<not> hd_db h then None
      else (let (r, nd) = onDB m (hd_node h) in k r (h\<lparr>hd_node := nd\<rparr>)))"

definition bindJSON :: "string \<Rightarrow> string + 'r \<Rightarrow> ('r \<Rightarrow> 'w Handler \<Rightarrow> 'w outcome) \<Rightarrow> 'w Handler \<Rightarrow> 'w outcome" where
  "bindJSON ctx req k h = (case req of Inl e \<Rightarrow> reply 400 (ErrorResponse (ctx @ e)) h | Inr r \<Rightarrow> k r h)"

definition withCfg :: "(Config \<Rightarrow> 'w Handler \<Rightarrow> 'w outcome) \<Rightarrow> 'w Handler \<Rightarrow> 'w outcome" where
  "withCfg k h = (case hd_cfg h of None \<Rightarrow> None | Some cfg \<Rightarrow> k cfg h)"

definition setCustom :: "CustomDNSConfig \<Rightarrow> 'w Handler \<Rightarrow> 'w Handler" where
  "setCustom c h = h\<lparr>hd_cfg := map_option (\<lambda>cfg. cfg\<lparr>CustomDNS := c\<rparr>) (hd_cfg h)\<rparr>"

section \<open>Custom DNS\<close>

definition ListCustomDNS :: "'w Handler \<Rightarrow> 'w outcome" where
  "ListCustomDNS =
     withCfg (\<lambda>cfg.
       let hosts = cd_Hosts (CustomDNS cfg); cnames = cd_CNAMEs (CustomDNS cfg)
       in reply 200 (CustomDNSRecordsResponse hosts cnames (int (length hosts)) (int (length cnames))
            (int (length hosts) + int (length cnames))))"

fun invalidIP :: "go_unicode \<Rightarrow> string list \<Rightarrow> string option" where
  "invalidIP uc [] = None"
| "invalidIP uc (ip # ips) =
     (let trimmed = TrimSpace uc ip in
      if trimmed = '''' then Some ''IP address cannot be empty''
      else if ParseAddr trimmed = None then Some (''Invalid IP address: '' @ trimmed)
      else invalidIP uc ips)"

definition validateIPs :: "go_unicode \<Rightarrow> string list \<Rightarrow> string option" where
  "validateIPs uc ips = (if ips = [] then Some ''At least one IP address is required'' else invalidIP uc ips)"

definition triggerReload :: "'w node_env \<Rightarrow> 'w Handler \<Rightarrow> 'w Handler" where
  "triggerReload env h = (if hd_reload h then h\<lparr>hd_node := snd (customDNSReload env (hd_node h))\<rparr> else h)"

record AddHostRequest =
  ah_Name :: string
  ah_IPs :: "string list"

definition AddHost :: "'w node_env \<Rightarrow> string + AddHostRequest \<Rightarrow> 'w Handler \<Rightarrow> 'w outcome" where
  "AddHost env request =
     bindJSON ''Invalid request: '' request (\<lambda>req h.
       let name = TrimSpace (ne_unicode env) (ah_Name req); ips = ah_IPs req in
       if name = '''' then reply 400 (ErrorResponse ''Host name cannot be empty'') h
       else
         (case validateIPs (ne_unicode env) ips of
            Some e \<Rightarrow> reply 400 (ErrorResponse e) h
          | None \<Rightarrow>
              withCfg (\<lambda>cfg h.
                let c = CustomDNS cfg in
                if map_of (cd_Hosts c) name \<noteq> None then reply 409 (ErrorResponse (''Host already exists: '' @ name)) h
                else
                  callDB (forEach (DB_AddHost name) ips) (\<lambda>r h.
                    case r of
                      Inl e \<Rightarrow> reply 500 (ErrorResponse (''Failed to persist host: '' @ errorText (ne_sqlText env) e)) h
                    | Inr _ \<Rightarrow>
                        reply 201 (CustomDNSOperationResponse ''Host record added successfully''
                          (Some (HostData \<lparr>hrec_Name = name, hrec_IPs = ips\<rparr>))) (triggerReload env h))
                    (setCustom (c\<lparr>cd_Hosts := AList.update name ips (cd_Hosts c)\<rparr>) h)) h))"

definition UpdateHost :: "'w node_env \<Rightarrow> string \<Rightarrow> string + string list \<Rightarrow> 'w Handler \<Rightarrow> 'w outcome" where
  "UpdateHost env name request h =
     (if name = '''' then reply 400 (ErrorResponse ''Host name is required'') h
      else
        bindJSON ''Invalid request: '' request (\<lambda>ips h.
          case validateIPs (ne_unicode env) ips of
            Some e \<Rightarrow> reply 400 (ErrorResponse e) h
          | None \<Rightarrow>
              withCfg (\<lambda>cfg h.
                let c = CustomDNS cfg in
                if map_of (cd_Hosts c) name = None then reply 404 (ErrorResponse (''Host not found: '' @ name)) h
                else
                  callDB (DeleteAllHostsForHostname name) (\<lambda>r h.
                    case r of
                      Inl e \<Rightarrow> reply 500 (ErrorResponse (''Failed to update host: '' @ errorText (ne_sqlText env) e)) h
                    | Inr _ \<Rightarrow>
                        callDB (forEach (DB_AddHost name) ips) (\<lambda>r h.
                          case r of
                            Inl e \<Rightarrow> reply 500 (ErrorResponse (''Failed to persist host: '' @ errorText (ne_sqlText env) e)) h
                          | Inr _ \<Rightarrow>
                              reply 200 (CustomDNSOperationResponse ''Host record updated successfully''
                                (Some (HostData \<lparr>hrec_Name = name, hrec_IPs = ips\<rparr>))) (triggerReload env h)) h)
                    (setCustom (c\<lparr>cd_Hosts := AList.update name ips (cd_Hosts c)\<rparr>) h)) h) h)"

definition DeleteHost :: "'w node_env \<Rightarrow> string \<Rightarrow> 'w Handler \<Rightarrow> 'w outcome" where
  "DeleteHost env name h =
     (if name = '''' then reply 400 (ErrorResponse ''Host name is required'') h
      else
        withCfg (\<lambda>cfg h.
          let c = CustomDNS cfg in
          if map_of (cd_Hosts c) name = None then reply 404 (ErrorResponse (''Host not found: '' @ name)) h
          else
            callDB (DeleteAllHostsForHostname name) (\<lambda>r h.
              case r of
                Inl e \<Rightarrow> reply 500 (ErrorResponse (''Failed to delete host: '' @ errorText (ne_sqlText env) e)) h
              | Inr _ \<Rightarrow> reply 200 (CustomDNSOperationResponse ''Host record deleted successfully'' None) (triggerReload env h))
              (setCustom (c\<lparr>cd_Hosts := AList.delete name (cd_Hosts c)\<rparr>) h)) h)"

record AddCNAMERequest =
  acn_Alias :: string
  acn_Target :: string

definition AddCNAME :: "'w node_env \<Rightarrow> string + AddCNAMERequest \<Rightarrow> 'w Handler \<Rightarrow> 'w outcome" where
  "AddCNAME env request =
     bindJSON ''Invalid request: '' request (\<lambda>req h.
       let alias = TrimSpace (ne_unicode env) (acn_Alias req); target = TrimSpace (ne_unicode env) (acn_Target req) in
       if alias = '''' \<or> target = '''' then reply 400 (ErrorResponse ''Alias and target cannot be empty'') h
       else
         withCfg (\<lambda>cfg h.
           let c = CustomDNS cfg in
           if map_of (cd_CNAMEs c) alias \<noteq> None then reply 409 (ErrorResponse (''CNAME already exists: '' @ alias)) h
           else
             callDB (DB_AddCNAME alias target) (\<lambda>r h.
               case r of
                 Inl e \<Rightarrow> reply 500 (ErrorResponse (''Failed to persist CNAME: '' @ errorText (ne_sqlText env) e)) h
               | Inr _ \<Rightarrow>
                   reply 201 (CustomDNSOperationResponse ''CNAME record added successfully''
                     (Some (CNAMEData \<lparr>crec_Alias = alias, crec_Target = target\<rparr>))) (triggerReload env h))
               (setCustom (c\<lparr>cd_CNAMEs := AList.update alias target (cd_CNAMEs c)\<rparr>) h)) h)"

definition UpdateCNAME :: "'w node_env \<Rightarrow> string \<Rightarrow> string + string \<Rightarrow> 'w Handler \<Rightarrow> 'w outcome" where
  "UpdateCNAME env alias request h =
     (if alias = '''' then reply 400 (ErrorResponse ''CNAME alias is required'') h
      else
        bindJSON ''Invalid request: '' request (\<lambda>rawTarget h.
          let target = TrimSpace (ne_unicode env) rawTarget in
          if target = '''' then reply 400 (ErrorResponse ''Target cannot be empty'') h
          else
            withCfg (\<lambda>cfg h.
              let c = CustomDNS cfg in
              if map_of (cd_CNAMEs c) alias = None then reply 404 (ErrorResponse (''CNAME not found: '' @ alias)) h
              else
                callDB (DB_AddCNAME alias target) (\<lambda>r h.
                  case r of
                    Inl e \<Rightarrow> reply 500 (ErrorResponse (''Failed to update CNAME: '' @ errorText (ne_sqlText env) e)) h
                  | Inr _ \<Rightarrow>
                      reply 200 (CustomDNSOperationResponse ''CNAME record updated successfully''
                        (Some (CNAMEData \<lparr>crec_Alias = alias, crec_Target = target\<rparr>))) (triggerReload env h))
                  (setCustom (c\<lparr>cd_CNAMEs := AList.update alias target (cd_CNAMEs c)\<rparr>) h)) h) h)"

definition Contains :: "string \<Rightarrow> string \<Rightarrow> bool" where
  "Contains s sub \<longleftrightarrow> (\<exists>i\<in>{..length s}. take (length sub) (drop i s) = sub)"

definition DeleteCNAME :: "'w node_env \<Rightarrow> string \<Rightarrow> 'w Handler \<Rightarrow> 'w outcome" where
  "DeleteCNAME env alias h =
     (if alias = '''' then reply 400 (ErrorResponse ''CNAME alias is required'') h
      else
        withCfg (\<lambda>cfg h.
          let c = CustomDNS cfg;
              finished = \<lambda>h. reply 200 (CustomDNSOperationResponse ''CNAME record deleted successfully'' None) (triggerReload env h) in
          if map_of (cd_CNAMEs c) alias = None then reply 404 (ErrorResponse (''CNAME not found: '' @ alias)) h
          else
            callDB (DB_DeleteCNAME alias) (\<lambda>r h.
              case r of
                Inl e \<Rightarrow>
                  if Contains (errorText (ne_sqlText env) e) ''not found'' then finished h
                  else reply 500 (ErrorResponse (''Failed to delete CNAME: '' @ errorText (ne_sqlText env) e)) h
              | Inr _ \<Rightarrow> finished h)
              (setCustom (c\<lparr>cd_CNAMEs := AList.delete alias (cd_CNAMEs c)\<rparr>) h)) h)"

end
