(* ===== verification/Api_Routes.thy ===== *)
theory Api_Routes
  imports Api
begin

text \<open>
  The endpoints of \<open>handlers/filtering.go\<close>, \<open>handlers/cluster.go\<close>, \<open>handlers/config.go\<close> and
  \<open>handlers/health.go\<close>, the table of \<open>routes.go\<close> and the middleware \<open>RequireAPIKey\<close>. The current
  time, a fresh UUID and SQL's \<open>CURRENT_TIMESTAMP\<close> are arguments.
\<close>

section \<open>Domain lists\<close>

record listOps =
  lo_getFromDB :: "(DB, string list) sql_op"
  lo_addToDB :: "string \<Rightarrow> (DB, unit) sql_op"
  lo_deleteFromDB :: "string \<Rightarrow> (DB, unit) sql_op"
  lo_addToEngine :: "PolicyEngine \<Rightarrow> string \<Rightarrow> PolicyEngine"
  lo_removeFromEngine :: "PolicyEngine \<Rightarrow> string \<Rightarrow> PolicyEngine"

definition whitelistOps :: "go_unicode \<Rightarrow> listOps" where
  "whitelistOps uc =
     \<lparr>lo_getFromDB = GetWhitelistDomains, lo_addToDB = AddWhitelistDomain, lo_deleteFromDB = DeleteWhitelistDomain,
      lo_addToEngine = AddToWhitelist uc, lo_removeFromEngine = RemoveFromWhitelist uc\<rparr>"

definition blacklistOps :: "go_unicode \<Rightarrow> listOps" where
  "blacklistOps uc =
     \<lparr>lo_getFromDB = GetBlacklistDomains, lo_addToDB = AddBlacklistDomain, lo_deleteFromDB = DeleteBlacklistDomain,
      lo_addToEngine = AddToBlacklist uc, lo_removeFromEngine = RemoveFromBlacklist uc\<rparr>"

definition noDatabase :: "'w Handler \<Rightarrow> 'w outcome" where
  "noDatabase = reply 503 (ErrorResponse ''database not available'')"

definition onEngine :: "(PolicyEngine \<Rightarrow> PolicyEngine) \<Rightarrow> 'w Handler \<Rightarrow> 'w Handler" where
  "onEngine f h =
     h\<lparr>hd_node := (hd_node h)\<lparr>nd_hydra := (nd_hydra (hd_node h))\<lparr>hy_policy := f (hy_policy (nd_hydra (hd_node h)))\<rparr>\<rparr>\<rparr>"

definition replyDomains :: "'w node_env \<Rightarrow> listOps \<Rightarrow> 'w Handler \<Rightarrow> 'w outcome" where
  "replyDomains env ops =
     callDB (lo_getFromDB ops) (\<lambda>r.
       case r of
         Inl e \<Rightarrow> reply 503 (ErrorResponse (errorText (ne_sqlText env) e))
       | Inr domains \<Rightarrow> reply 200 (DomainListResponse domains (int (length domains))))"

definition getDomainList :: "'w node_env \<Rightarrow> listOps \<Rightarrow> 'w Handler \<Rightarrow> 'w outcome" where
  "getDomainList env ops h = (if \<not> hd_db h then noDatabase h else replyDomains env ops h)"

text \<open>The loop over the request's domains: the database first, then the engine.\<close>

fun changeDomains ::
  "'w node_env \<Rightarrow> (string \<Rightarrow> (DB, unit) sql_op) \<Rightarrow> (PolicyEngine \<Rightarrow> string \<Rightarrow> PolicyEngine) \<Rightarrow>
     ('w Handler \<Rightarrow> 'w outcome) \<Rightarrow> string list \<Rightarrow> 'w Handler \<Rightarrow> 'w outcome" where
  "changeDomains env inDB inEngine k [] h = k h"
| "changeDomains env inDB inEngine k (domain # rest) h =
     callDB (inDB domain) (\<lambda>r h.
       case r of
         Inl e \<Rightarrow> reply 400 (ErrorResponse (errorText (ne_sqlText env) e)) h
       | Inr _ \<Rightarrow>
           changeDomains env inDB inEngine k rest
             (if hd_policy h then onEngine (\<lambda>pe. inEngine pe domain) h else h)) h"

definition addToDomainList :: "'w node_env \<Rightarrow> listOps \<Rightarrow> string + string list \<Rightarrow> 'w Handler \<Rightarrow> 'w outcome" where
  "addToDomainList env ops request h =
     (if \<not> hd_db h then noDatabase h
      else
        bindJSON '''' request (\<lambda>domains.
          changeDomains env (lo_addToDB ops) (lo_addToEngine ops) (replyDomains env ops) domains) h)"

definition removeFromDomainList :: "'w node_env \<Rightarrow> listOps \<Rightarrow> string + string list \<Rightarrow> 'w Handler \<Rightarrow> 'w outcome" where
  "removeFromDomainList env ops request h =
     (if \<not> hd_db h then noDatabase h
      else
        bindJSON '''' request (\<lambda>domains.
          changeDomains env (lo_deleteFromDB ops) (lo_removeFromEngine ops) (replyDomains env ops) domains) h)"

definition GetWhitelist :: "'w node_env \<Rightarrow> 'w Handler \<Rightarrow> 'w outcome" where
  "GetWhitelist env = getDomainList env (whitelistOps (ne_unicode env))"

definition AddWhitelist :: "'w node_env \<Rightarrow> string + string list \<Rightarrow> 'w Handler \<Rightarrow> 'w outcome" where
  "AddWhitelist env = addToDomainList env (whitelistOps (ne_unicode env))"

definition RemoveWhitelist :: "'w node_env \<Rightarrow> string + string list \<Rightarrow> 'w Handler \<Rightarrow> 'w outcome" where
  "RemoveWhitelist env = removeFromDomainList env (whitelistOps (ne_unicode env))"

definition GetBlacklist :: "'w node_env \<Rightarrow> 'w Handler \<Rightarrow> 'w outcome" where
  "GetBlacklist env = getDomainList env (blacklistOps (ne_unicode env))"

definition AddBlacklist :: "'w node_env \<Rightarrow> string + string list \<Rightarrow> 'w Handler \<Rightarrow> 'w outcome" where
  "AddBlacklist env = addToDomainList env (blacklistOps (ne_unicode env))"

definition RemoveBlacklist :: "'w node_env \<Rightarrow> string + string list \<Rightarrow> 'w Handler \<Rightarrow> 'w outcome" where
  "RemoveBlacklist env = removeFromDomainList env (blacklistOps (ne_unicode env))"

section \<open>Filtering\<close>

definition FilteringStats :: "'w Handler \<Rightarrow> 'w outcome" where
  "FilteringStats h =
     (if \<not> hd_policy h then reply 503 (ErrorResponse ''filtering not enabled'') h
      else reply 200 (FilteringStatsResponse (PolicyEngine_Stats (hy_policy (nd_hydra (hd_node h))))) h)"

definition GetBlocklists :: "'w node_env \<Rightarrow> 'w Handler \<Rightarrow> 'w outcome" where
  "GetBlocklists env h =
     (if \<not> hd_db h then noDatabase h
      else
        callDB DB_GetBlocklists (\<lambda>r.
          case r of
            Inl e \<Rightarrow> reply 503 (ErrorResponse (errorText (ne_sqlText env) e))
          | Inr bls \<Rightarrow>
              reply 200 (BlocklistsResponse
                (map (\<lambda>b. \<lparr>ab_Name = bk_Name b, ab_URL = bk_URL b, ab_Format = bk_Format b, ab_Enabled = bk_Enabled b,
                   ab_LastFetched = bk_LastFetched b\<rparr>) bls) (int (length bls)))) h)"

definition SetBlocklistEnabled :: "'w node_env \<Rightarrow> string \<Rightarrow> string + bool \<Rightarrow> 'w Handler \<Rightarrow> 'w outcome" where
  "SetBlocklistEnabled env name request h =
     (if \<not> hd_db h then noDatabase h
      else if name = '''' then reply 400 (ErrorResponse ''missing blocklist name'') h
      else
        bindJSON '''' request (\<lambda>enabled.
          callDB (EnableBlocklist name enabled) (\<lambda>r.
            case r of
              Inl e \<Rightarrow> reply 503 (ErrorResponse (errorText (ne_sqlText env) e))
            | Inr _ \<Rightarrow> reply 200 (StatusResponse ''ok''))) h)"

definition RefreshBlocklist :: "'w node_env \<Rightarrow> string \<Rightarrow> string \<Rightarrow> 'w Handler \<Rightarrow> 'w outcome" where
  "RefreshBlocklist env stamp name h =
     (if \<not> hd_db h then noDatabase h
      else if name = '''' then reply 400 (ErrorResponse ''missing blocklist name'') h
      else
        callDB (UpdateBlocklistFetchTime stamp name) (\<lambda>r.
          case r of
            Inl e \<Rightarrow> reply 503 (ErrorResponse (errorText (ne_sqlText env) e))
          | Inr _ \<Rightarrow> reply 200 (StatusResponse ''ok'')) h)"

definition SetFilteringEnabled :: "'w node_env \<Rightarrow> string + bool \<Rightarrow> 'w Handler \<Rightarrow> 'w outcome" where
  "SetFilteringEnabled env request h =
     (if \<not> hd_policy h then reply 503 (ErrorResponse ''filtering not available'') h
      else
        bindJSON '''' request (\<lambda>enabled h.
          let finish = \<lambda>h. reply 200 (StatusResponse ''ok'') (onEngine (\<lambda>pe. SetEnabled pe enabled) h) in
          if hd_db h then
            callDB (DB_SetFilteringEnabled enabled) (\<lambda>r h.
              case r of
                Inl e \<Rightarrow> reply 503 (ErrorResponse (''failed to persist setting: '' @ errorText (ne_sqlText env) e)) h
              | Inr _ \<Rightarrow> finish h) h
          else finish h) h)"

section \<open>Cluster\<close>

definition unavailable :: "'w Handler \<Rightarrow> 'w outcome" where
  "unavailable = reply 500 (ErrorResponse ''config unavailable'')"

definition GetClusterStatus :: "'w node_env \<Rightarrow> 'w Handler \<Rightarrow> 'w outcome" where
  "GetClusterStatus env h =
     (case hd_cfg h of
        None \<Rightarrow> unavailable h
      | Some cfg \<Rightarrow>
          (let (v, nd1) = (if hd_db h then currentVersion (syncCallbacks env) (hd_node h) else (0, hd_node h));
               resp = \<lparr>cs_Mode = cc_Mode (Cluster cfg), cs_NodeID = cc_NodeID (Cluster cfg), cs_ConfigVersion = v,
                 cs_PrimaryURL = '''', cs_LastSyncTime = None, cs_LastSyncVersion = 0, cs_LastSyncError = '''',
                 cs_NextSyncTime = None, cs_SyncCount = 0, cs_ErrorCount = 0\<rparr>
           in case hd_syncer h of
                None \<Rightarrow> reply 200 (ClusterStatusResponse resp) (h\<lparr>hd_node := nd1\<rparr>)
              | Some sy \<Rightarrow>
                  (let (status, nd2) = Syncer_Status (syncCallbacks env) (Cluster cfg) sy nd1
                   in reply 200 (ClusterStatusResponse (resp\<lparr>cs_PrimaryURL := ss_PrimaryURL status,
                        cs_LastSyncTime := ss_LastSyncTime status, cs_LastSyncVersion := ss_LastSyncVersion status,
                        cs_LastSyncError := ss_LastSyncError status, cs_NextSyncTime := ss_NextSyncTime status,
                        cs_SyncCount := ss_SyncCount status, cs_ErrorCount := ss_ErrorCount status\<rparr>))
                      (h\<lparr>hd_node := nd2\<rparr>))))"

text \<open>\<open>secret\<close> is the header \<open>X-Cluster-Secret\<close>, empty if absent.\<close>

definition GetClusterExport :: "string \<Rightarrow> string \<Rightarrow> 'w Handler \<Rightarrow> 'w outcome" where
  "GetClusterExport timestamp secret h =
     (case hd_cfg h of
        None \<Rightarrow> unavailable h
      | Some cfg \<Rightarrow>
          if \<not> hd_db h then unavailable h
          else if cc_Mode (Cluster cfg) = ClusterModeSecondary then
            reply 403 (ErrorResponse ''export not allowed from secondary node'') h
          else if cc_SharedSecret (Cluster cfg) \<noteq> '''' \<and> secret \<noteq> cc_SharedSecret (Cluster cfg) then
            reply 401 (ErrorResponse ''invalid cluster secret'') h
          else
            callDB GetVersion (\<lambda>r.
              case r of
                Inl _ \<Rightarrow> reply 500 (ErrorResponse ''failed to get config version'')
              | Inr version \<Rightarrow>
                  reply 200 (ExportResponse \<lparr>ed_Version = version, ed_Timestamp = timestamp, ed_NodeID = cc_NodeID (Cluster cfg),
                    ed_Upstream = Upstream cfg, ed_CustomDNS = CustomDNS cfg, ed_Filtering = Filtering cfg\<rparr>)) h)"

definition PostClusterSync :: "'w node_env \<Rightarrow> instant \<Rightarrow> 'w Handler \<Rightarrow> 'w outcome" where
  "PostClusterSync env now h =
     (case hd_cfg h of
        None \<Rightarrow> unavailable h
      | Some cfg \<Rightarrow>
          if cc_Mode (Cluster cfg) \<noteq> ClusterModeSecondary then
            reply 403 (ErrorResponse ''sync only available in secondary mode'') h
          else
            (case hd_syncer h of
               None \<Rightarrow> reply 500 (ErrorResponse ''syncer not initialized'') h
             | Some sy \<Rightarrow>
                 (let (r, sy1, nd1) = ForceSync (ne_sqlText env) (ne_http env) (syncCallbacks env) (Cluster cfg) now sy (hd_node h);
                      h1 = h\<lparr>hd_syncer := Some sy1, hd_node := nd1\<rparr>
                  in case r of
                       Some e \<Rightarrow> reply 500 (ErrorResponse (''sync failed: '' @ errorText (ne_sqlText env) e)) h1
                     | None \<Rightarrow> reply 200 (StatusResponse ''sync completed'') h1)))"

definition requestedCluster :: "string \<Rightarrow> ClusterConfig \<Rightarrow> ClusterConfig" where
  "requestedCluster uuid req =
     req\<lparr>cc_NodeID := (if cc_NodeID req = '''' then take 8 uuid else cc_NodeID req),
         cc_SyncInterval := (if cc_SyncInterval req = '''' then ''5m'' else cc_SyncInterval req),
         cc_SyncTimeout := (if cc_SyncTimeout req = '''' then ''30s'' else cc_SyncTimeout req)\<rparr>"

definition PutClusterConfig :: "string \<Rightarrow> string + ClusterConfig \<Rightarrow> 'w Handler \<Rightarrow> 'w outcome" where
  "PutClusterConfig uuid request h =
     (if hd_cfg h = None \<or> \<not> hd_db h then unavailable h
      else
        bindJSON ''invalid request: '' request (\<lambda>req h.
          if cc_Mode req = ''secondary'' \<and> cc_PrimaryURL req = '''' then
            reply 400 (ErrorResponse ''primary_url is required for secondary mode'') h
          else
            (let clusterCfg = requestedCluster uuid req;
                 saved = \<lambda>message restart.
                   reply 200 (SetClusterConfigResponse ''configured'' (cc_Mode req) (cc_NodeID clusterCfg) message restart) in
             callDB (SetClusterConfig clusterCfg) (\<lambda>r h.
               case r of
                 Inl _ \<Rightarrow> reply 500 (ErrorResponse ''failed to save cluster configuration'') h
               | Inr _ \<Rightarrow>
                   (let h1 = h\<lparr>hd_cfg := map_option (\<lambda>cfg. cfg\<lparr>Cluster := clusterCfg\<rparr>) (hd_cfg h)\<rparr> in
                    if cc_Mode req = ''standalone'' \<or> cc_Mode req = ''primary'' then
                      (case hd_syncer h1 of
                         None \<Rightarrow> saved ''Cluster configuration saved.'' False h1
                       | Some sy \<Rightarrow>
                           (case Syncer_Stop sy of
                              None \<Rightarrow> None
                            | Some _ \<Rightarrow> saved ''Cluster configuration saved. Syncer stopped.'' False (h1\<lparr>hd_syncer := None\<rparr>)))
                    else saved ''Cluster configuration saved. Restart required for changes to take effect.'' True h1)) h)) h)"

definition GetClusterConfig :: "'w Handler \<Rightarrow> 'w outcome" where
  "GetClusterConfig h =
     (case hd_cfg h of
        None \<Rightarrow> unavailable h
      | Some cfg \<Rightarrow>
          reply 200 (ClusterConfigResponse ((Cluster cfg)\<lparr>cc_SharedSecret :=
            (if cc_SharedSecret (Cluster cfg) \<noteq> '''' then ''********'' else '''')\<rparr>)) h)"

section \<open>Configuration and health\<close>

definition configView :: "Config \<Rightarrow> ConfigView" where
  "configView cfg =
     (let s = Server cfg; a = API cfg; c = Cluster cfg in
      \<lparr>vw_Server = \<lparr>sv_Host = sc_Host s, sv_Port = sc_Port s, sv_Workers = WorkerSetting_String (sc_Workers s),
         sv_MaxConcurrency = sc_MaxConcurrency s, sv_PoolSize = sc_UpstreamSocketPoolSize s,
         sv_EnableTCP = sc_EnableTCP s, sv_TCPFallback = sc_TCPFallback s\<rparr>,
       vw_Upstream = Upstream cfg, vw_CustomDNS = CustomDNS cfg, vw_Logging = Logging cfg, vw_Filtering = Filtering cfg,
       vw_RateLimit = RateLimit cfg,
       vw_API = \<lparr>av_Enabled = ac_Enabled a, av_Host = ac_Host a, av_Port = ac_Port a\<rparr>,
       vw_Cluster = \<lparr>cv_Mode = cc_Mode c, cv_NodeID = cc_NodeID c, cv_PrimaryURL = cc_PrimaryURL c,
         cv_SyncInterval = cc_SyncInterval c, cv_SyncTimeout = cc_SyncTimeout c\<rparr>\<rparr>)"

definition GetConfig :: "'w Handler \<Rightarrow> 'w outcome" where
  "GetConfig h =
     (case hd_cfg h of None \<Rightarrow> unavailable h | Some cfg \<Rightarrow> reply 200 (ConfigResponse (configView cfg)) h)"

definition PutConfig :: "'w Handler \<Rightarrow> 'w outcome" where
  "PutConfig = reply 501 (ErrorResponse ''config updates not yet implemented'')"

definition ReloadConfig :: "'w Handler \<Rightarrow> 'w outcome" where
  "ReloadConfig = reply 501 (ErrorResponse ''config reload not yet implemented'')"

definition Health :: "'w Handler \<Rightarrow> 'w outcome" where
  "Health = reply 200 (StatusResponse ''ok'')"

definition getDNSStats :: "'w Handler \<Rightarrow> DNSStatsSnapshot" where
  "getDNSStats h =
     (case hd_stats h of
        None \<Rightarrow> \<lparr>snap_total = 0, snap_UDP = 0, snap_TCP = 0, snap_NX = 0, snap_Err = 0, snap_AvgLatencyMs = 0\<rparr>
      | Some st \<Rightarrow> Snapshot st)"

definition Stats :: "'w Handler \<Rightarrow> 'w outcome" where
  "Stats h =
     reply 200 (StatsResponse (getDNSStats h)
       (if hd_policy h then Some (PolicyEngine_Stats (hy_policy (nd_hydra (hd_node h)))) else None)) h"

section \<open>Routes\<close>

datatype api_request =
    R_Health | R_Stats | R_GetConfig | R_PutConfig | R_ReloadConfig
  | R_GetWhitelist | R_AddWhitelist "string + string list" | R_RemoveWhitelist "string + string list"
  | R_GetBlacklist | R_AddBlacklist "string + string list" | R_RemoveBlacklist "string + string list"
  | R_GetBlocklists | R_SetBlocklistEnabled string "string + bool" | R_RefreshBlocklist string string
  | R_FilteringStats | R_SetFilteringEnabled "string + bool"
  | R_ListCustomDNS | R_AddHost "string + AddHostRequest" | R_UpdateHost string "string + string list" | R_DeleteHost string
  | R_AddCNAME "string + AddCNAMERequest" | R_UpdateCNAME string "string + string" | R_DeleteCNAME string
  | R_GetClusterStatus | R_GetClusterConfig | R_PutClusterConfig string "string + ClusterConfig"
  | R_GetClusterExport string string | R_PostClusterSync instant

fun route :: "'w node_env \<Rightarrow> api_request \<Rightarrow> 'w Handler \<Rightarrow> 'w outcome" where
  "route env R_Health = Health"
| "route env R_Stats = Stats"
| "route env R_GetConfig = GetConfig"
| "route env R_PutConfig = PutConfig"
| "route env R_ReloadConfig = ReloadConfig"
| "route env R_GetWhitelist = GetWhitelist env"
| "route env (R_AddWhitelist r) = AddWhitelist env r"
| "route env (R_RemoveWhitelist r) = RemoveWhitelist env r"
| "route env R_GetBlacklist = GetBlacklist env"
| "route env (R_AddBlacklist r) = AddBlacklist env r"
| "route env (R_RemoveBlacklist r) = RemoveBlacklist env r"
| "route env R_GetBlocklists = GetBlocklists env"
| "route env (R_SetBlocklistEnabled name r) = SetBlocklistEnabled env name r"
| "route env (R_RefreshBlocklist stamp name) = RefreshBlocklist env stamp name"
| "route env R_FilteringStats = FilteringStats"
| "route env (R_SetFilteringEnabled r) = SetFilteringEnabled env r"
| "route env R_ListCustomDNS = ListCustomDNS"
| "route env (R_AddHost r) = AddHost env r"
| "route env (R_UpdateHost name r) = UpdateHost env name r"
| "route env (R_DeleteHost name) = DeleteHost env name"
| "route env (R_AddCNAME r) = AddCNAME env r"
| "route env (R_UpdateCNAME name r) = UpdateCNAME env name r"
| "route env (R_DeleteCNAME name) = DeleteCNAME env name"
| "route env R_GetClusterStatus = GetClusterStatus env"
| "route env R_GetClusterConfig = GetClusterConfig"
| "route env (R_PutClusterConfig uuid r) = PutClusterConfig uuid r"
| "route env (R_GetClusterExport timestamp secret) = GetClusterExport timestamp secret"
| "route env (R_PostClusterSync now) = PostClusterSync env now"

definition RequireAPIKey :: "string \<Rightarrow> string \<Rightarrow> ('w Handler \<Rightarrow> 'w outcome) \<Rightarrow> 'w Handler \<Rightarrow> 'w outcome" where
  "RequireAPIKey expected got handle h =
     (if expected = '''' \<or> got = expected then handle h else reply 401 (ErrorResponse ''unauthorized'') h)"

text \<open>\<open>registered\<close> is the configuration at registration, \<open>got\<close> the header \<open>X-API-Key\<close>.\<close>

definition RegisterRoutes ::
  "'w node_env \<Rightarrow> Config option \<Rightarrow> string \<Rightarrow> api_request \<Rightarrow> 'w Handler \<Rightarrow> 'w outcome" where
  "RegisterRoutes env registered got req =
     (case registered of
        Some cfg \<Rightarrow>
          if ac_APIKey (API cfg) \<noteq> '''' then RequireAPIKey (ac_APIKey (API cfg)) got (route env req) else route env req
      | None \<Rightarrow> route env req)"

end
