(* ===== verification/Api_Facts.thy ===== *)
theory Api_Facts
  imports Api_Routes
begin

text \<open>
  What every endpoint respects. A request first changes the database, the configuration in
  memory and the policy engine, and at most then reloads the custom names or synchronises;
  \<open>api_relation\<close> asks for one relation for the first part (\<open>R1\<close>) and one for the whole (\<open>R\<close>), and
  proves once that every route respects \<open>R\<close>. It is interpreted for the invariant of the
  database and for the steps of the running resolvers.
\<close>

section \<open>Relations that all endpoints respect\<close>

definition upholds :: "('w Handler \<Rightarrow> bool) \<Rightarrow> 'w outcome \<Rightarrow> bool" where
  "upholds P out \<longleftrightarrow> (case out of None \<Rightarrow> True | Some (_, h) \<Rightarrow> P h)"

lemma upholdsD: "upholds P out \<Longrightarrow> out = Some (resp, h) \<Longrightarrow> P h"
  by (simp add: upholds_def)

locale api_relation =
  fixes env :: "'w node_env" and R1 R :: "'w Handler \<Rightarrow> 'w Handler \<Rightarrow> bool" and D :: "DB \<Rightarrow> DB \<Rightarrow> bool"
  assumes same: "R1 h h" and through: "R1 a b \<Longrightarrow> R1 b c \<Longrightarrow> R1 a c"
    and whole: "R1 a b \<Longrightarrow> R a b" and andThen: "R1 a b \<Longrightarrow> R b c \<Longrightarrow> R a c"
    and cfg: "R1 h (h\<lparr>hd_cfg := conf\<rparr>)" and syncer: "R1 h (h\<lparr>hd_syncer := syo\<rparr>)"
    and db: "D (nd_db (hd_node h)) d \<Longrightarrow> R1 h (h\<lparr>hd_node := (hd_node h)\<lparr>nd_db := d\<rparr>\<rparr>)"
    and engine: "R1 h (onEngine (\<lambda>pe. AddToWhitelist (ne_unicode env) pe s) h)"
      "R1 h (onEngine (\<lambda>pe. AddToBlacklist (ne_unicode env) pe s) h)"
      "R1 h (onEngine (\<lambda>pe. RemoveFromWhitelist (ne_unicode env) pe s) h)"
      "R1 h (onEngine (\<lambda>pe. RemoveFromBlacklist (ne_unicode env) pe s) h)"
      "R1 h (onEngine (\<lambda>pe. SetEnabled pe on) h)"
    and reload: "R h (triggerReload env h)"
    and sync: "doSync (ne_sqlText env) (ne_http env) (syncCallbacks env) cc now sy (hd_node h) = (r, sy', nd') \<Longrightarrow>
      R h (h\<lparr>hd_syncer := Some sy', hd_node := nd'\<rparr>)"
    and relD: "db_relation D"
    and ops: "keeps D (AddWhitelistDomain s)" "keeps D (DeleteWhitelistDomain s)" "keeps D (AddBlacklistDomain s)"
      "keeps D (DeleteBlacklistDomain s)" "keeps D (EnableBlocklist s on)" "keeps D (UpdateBlocklistFetchTime t s)"
      "keeps D (DB_SetFilteringEnabled on)" "keeps D (DB_AddHost s t)" "keeps D (DeleteAllHostsForHostname s)"
      "keeps D (DB_AddCNAME s t)" "keeps D (DB_DeleteCNAME s)" "keeps D (SetClusterConfig cl)"
begin

lemma reads: "keeps D (sqlRows q sc it f)" "keeps D (sqlRow ctx g)"
  using db_relation.keeps_rows [OF relD] db_relation.keeps_row [OF relD] by blast+

lemma addHosts_keeps: "keeps D (forEach (DB_AddHost name) ips)"
  by (rule db_relation.keeps_forEach [OF relD ops(8)])

lemma u_reply: "R1 h0 h \<Longrightarrow> upholds (R h0) (reply st b h)"
  by (simp add: upholds_def reply_def whole)

lemma u_reload: "R1 h0 h \<Longrightarrow> upholds (R h0) (reply st b (triggerReload env h))"
  using andThen [OF _ reload] by (simp add: upholds_def reply_def)

lemma u_call:
  assumes "R1 h0 h" "keeps D m" "\<And>r h. R1 h0 h \<Longrightarrow> upholds (R h0) (k r h)" shows "upholds (R h0) (callDB m k h)"
proof -
  obtain r d where m: "m (nd_db (hd_node h)) = (r, d)" by (rule prod.exhaust)
  from keepsD [OF assms(2) m] have "R1 h0 (h\<lparr>hd_node := (hd_node h)\<lparr>nd_db := d\<rparr>\<rparr>)"
    using through [OF assms(1) db] by blast
  from assms(3) [OF this] show ?thesis by (simp add: callDB_def onDB_def m upholds_def)
qed

lemma u_bindJSON: "R1 h0 h \<Longrightarrow> (\<And>r h. R1 h0 h \<Longrightarrow> upholds (R h0) (k r h)) \<Longrightarrow> upholds (R h0) (bindJSON ctx req k h)"
  by (auto simp: bindJSON_def u_reply split: sum.split)

lemma u_withCfg: "R1 h0 h \<Longrightarrow> (\<And>c h. R1 h0 h \<Longrightarrow> upholds (R h0) (k c h)) \<Longrightarrow> upholds (R h0) (withCfg k h)"
  by (cases "hd_cfg h") (simp_all add: withCfg_def upholds_def [of _ None])

lemma u_state:
  "R1 h0 h \<Longrightarrow> R1 h0 (setCustom c h)" "R1 h0 h \<Longrightarrow> R1 h0 (h\<lparr>hd_cfg := conf\<rparr>)" "R1 h0 h \<Longrightarrow> R1 h0 (h\<lparr>hd_syncer := sy\<rparr>)"
  using through cfg syncer by (auto simp: setCustom_def)

lemmas u_intros = u_reply u_reload u_call u_bindJSON u_withCfg u_state

lemma changeDomains_upholds:
  assumes "R1 h0 h" "\<And>d. keeps D (inDB d)" "\<And>d h. R1 h (onEngine (\<lambda>pe. inEngine pe d) h)"
    and "\<And>h. R1 h0 h \<Longrightarrow> upholds (R h0) (k h)"
  shows "upholds (R h0) (changeDomains env inDB inEngine k domains h)"
  using assms(1)
proof (induction domains arbitrary: h)
  case (Cons d domains)
  have e: "R1 h0 (if hd_policy h then onEngine (\<lambda>pe. inEngine pe d) h else h)" if "R1 h0 h" for h
    using that through [OF that assms(3)] by simp
  show ?case
    unfolding changeDomains.simps
  proof (intro u_call Cons.prems assms(2))
    fix r h assume "R1 h0 h"
    with Cons.IH [OF e] u_reply show "upholds (R h0) (case r of Inl er \<Rightarrow> reply 400 (ErrorResponse (errorText (ne_sqlText env) er)) h
      | Inr _ \<Rightarrow> changeDomains env inDB inEngine k domains (if hd_policy h then onEngine (\<lambda>pe. inEngine pe d) h else h))"
      by (cases r) (simp_all del: if_split)
  qed
qed (simp add: assms(4))

lemma replyDomains_upholds:
  assumes "keeps D (lo_getFromDB l)" "R1 h0 h" shows "upholds (R h0) (replyDomains env l h)"
  unfolding replyDomains_def by (intro u_call assms) (simp split: sum.split add: u_reply)

lemma lists_keep:
  assumes "l = whitelistOps (ne_unicode env) \<or> l = blacklistOps (ne_unicode env)"
  shows "keeps D (lo_getFromDB l)" "keeps D (lo_addToDB l d)" "keeps D (lo_deleteFromDB l d)"
    "R1 h (onEngine (\<lambda>pe. lo_addToEngine l pe d) h)" "R1 h (onEngine (\<lambda>pe. lo_removeFromEngine l pe d) h)"
  using assms
  by (auto simp: whitelistOps_def blacklistOps_def GetWhitelistDomains_def GetBlacklistDomains_def reads ops engine)

lemma domain_lists_uphold:
  assumes "l = whitelistOps (ne_unicode env) \<or> l = blacklistOps (ne_unicode env)"
  shows "upholds (R h) (getDomainList env l h)" "upholds (R h) (addToDomainList env l req h)"
    "upholds (R h) (removeFromDomainList env l req h)"
  unfolding getDomainList_def addToDomainList_def removeFromDomainList_def noDatabase_def
  by (auto intro!: u_reply u_bindJSON same changeDomains_upholds replyDomains_upholds lists_keep [OF assms])

lemma filtering_upholds:
  "upholds (R h) (FilteringStats h)" "upholds (R h) (GetBlocklists env h)" "upholds (R h) (SetBlocklistEnabled env nm req h)"
  "upholds (R h) (RefreshBlocklist env stamp nm h)"
  unfolding FilteringStats_def GetBlocklists_def SetBlocklistEnabled_def RefreshBlocklist_def noDatabase_def
    DB_GetBlocklists_def
  by (auto intro!: u_reply u_call u_bindJSON same ops reads split: sum.split)

lemma SetFilteringEnabled_upholds: "upholds (R h) (SetFilteringEnabled env req h)"
proof -
  have "R1 h (onEngine (\<lambda>pe. SetEnabled pe e) h1)" if "R1 h h1" for e h1
    using through [OF that engine(5)] .
  then show ?thesis
    unfolding SetFilteringEnabled_def Let_def
    by (auto intro!: u_reply u_call u_bindJSON same ops split: sum.split)
qed

lemma custom_upholds:
  "upholds (R h) (ListCustomDNS h)" "upholds (R h) (DeleteHost env nm h)" "upholds (R h) (UpdateHost env nm rq h)"
  "upholds (R h) (AddHost env req h)"
  unfolding ListCustomDNS_def DeleteHost_def UpdateHost_def AddHost_def Let_def
  by (auto intro!: u_intros same ops addHosts_keeps split: sum.split option.split)

lemma cname_upholds:
  "upholds (R h) (AddCNAME env req h)" "upholds (R h) (UpdateCNAME env nm rq h)" "upholds (R h) (DeleteCNAME env nm h)"
  unfolding AddCNAME_def UpdateCNAME_def DeleteCNAME_def Let_def
  by (auto intro!: u_intros same ops split: sum.split)

lemma config_upholds:
  "upholds (R h) (Health h)" "upholds (R h) (Stats h)" "upholds (R h) (GetConfig h)" "upholds (R h) (PutConfig h)"
  "upholds (R h) (ReloadConfig h)" "upholds (R h) (GetClusterConfig h)" "upholds (R h) (GetClusterExport ts sec h)"
  unfolding Health_def Stats_def GetConfig_def PutConfig_def ReloadConfig_def GetClusterConfig_def GetClusterExport_def
    unavailable_def GetVersion_def
  by (auto intro!: u_reply u_call same reads split: sum.split option.split)

lemma currentVersion_R1: "currentVersion (syncCallbacks env) (hd_node h) = (v, nd) \<Longrightarrow> R1 h0 h \<Longrightarrow> R1 h0 (h\<lparr>hd_node := nd\<rparr>)"
proof -
  assume v: "currentVersion (syncCallbacks env) (hd_node h) = (v, nd)" and h: "R1 h0 h"
  obtain r d where g: "GetVersion (nd_db (hd_node h)) = (r, d)" by (rule prod.exhaust)
  have "keeps D GetVersion" unfolding GetVersion_def by (rule reads)
  from keepsD [OF this g] have "R1 h (h\<lparr>hd_node := (hd_node h)\<lparr>nd_db := d\<rparr>\<rparr>)" by (rule db)
  moreover have "nd = (hd_node h)\<lparr>nd_db := d\<rparr>"
    using v g by (auto simp: currentVersion_def syncCallbacks_def onDB_def split: sum.splits)
  ultimately show ?thesis using through [OF h] by simp
qed

lemma GetClusterStatus_upholds: "upholds (R h) (GetClusterStatus env h)"
proof (cases "hd_cfg h")
  case (Some cfg)
  obtain v nd1 where v: "(if hd_db h then currentVersion (syncCallbacks env) (hd_node h) else (0, hd_node h)) = (v, nd1)"
    by (rule prod.exhaust)
  have 1: "R1 h (h\<lparr>hd_node := nd1\<rparr>)"
    using v currentVersion_R1 [of h v nd1 h] same [of h] by (auto split: if_splits)
  have 2: "R1 h (h\<lparr>hd_node := nd2\<rparr>)" if "Syncer_Status (syncCallbacks env) (Cluster cfg) sy nd1 = (status, nd2)" for sy status nd2
  proof -
    from that obtain v2 where "currentVersion (syncCallbacks env) (hd_node (h\<lparr>hd_node := nd1\<rparr>)) = (v2, nd2)"
      by (auto simp: Syncer_Status_def Let_def split: prod.splits)
    from currentVersion_R1 [OF this 1] show ?thesis by simp
  qed
  show ?thesis
    unfolding GetClusterStatus_def Some using v 1 2
    by (auto simp: Let_def intro!: u_reply split: option.split prod.split)
qed (simp add: GetClusterStatus_def unavailable_def u_reply same)

lemma PutClusterConfig_upholds: "upholds (R h) (PutClusterConfig uuid req h)"
  unfolding PutClusterConfig_def unavailable_def Let_def
  by (auto intro!: u_intros same ops split: sum.split option.split simp: upholds_def [of _ None])

lemma PostClusterSync_upholds: "upholds (R h) (PostClusterSync env now h)"
proof (cases "hd_cfg h")
  case (Some cfg)
  have "upholds (R h) (reply st b (h\<lparr>hd_syncer := Some sy', hd_node := nd'\<rparr>))"
    if "doSync (ne_sqlText env) (ne_http env) (syncCallbacks env) (Cluster cfg) now sy (hd_node h) = (r, sy', nd')" for sy sy' nd' r st b
    using sync [OF that] by (simp add: upholds_def reply_def)
  then show ?thesis
    unfolding PostClusterSync_def Some ForceSync_def
    by (auto simp: Let_def intro!: u_reply same split: option.split prod.split)
qed (simp add: PostClusterSync_def unavailable_def u_reply same)

lemma route_upholds: "upholds (R h) (route env req h)"
  by (cases req)
    (simp_all add: GetWhitelist_def AddWhitelist_def RemoveWhitelist_def GetBlacklist_def AddBlacklist_def RemoveBlacklist_def
      domain_lists_uphold filtering_upholds SetFilteringEnabled_upholds custom_upholds cname_upholds config_upholds
      GetClusterStatus_upholds PutClusterConfig_upholds PostClusterSync_upholds)

text \<open>The middleware respects the relation as well.\<close>

lemma request_upholds: "upholds (R h) (RegisterRoutes env registered got req h)"
  by (auto simp: RegisterRoutes_def RequireAPIKey_def route_upholds u_reply same split: option.split)

end

end
