(* ===== verification/Api_Safety.thy ===== *)
theory Api_Safety
  imports Api_Facts
begin

text \<open>
  The two instances of \<open>api_relation\<close>: every request keeps the invariant of the database, and
  what it does to the running resolvers is a sequence of steps of \<open>hydra_step\<close>. What the JSON
  decoder returns holds Go maps, which have each key once.
\<close>

section \<open>The network\<close>

definition netOK :: "'w node_env \<Rightarrow> bool" where
  "netOK env \<longleftrightarrow> (\<forall>cfg sy nd r nd'. fetchConfig (ne_http env) cfg sy nd = (r, nd') \<longrightarrow>
     nodeFetched nd nd' \<and> (\<forall>data. r = Inr data \<longrightarrow> distinct (map fst (cd_CNAMEs (ed_CustomDNS data)))))"

lemma importFunc_inv:
  assumes "dbInv (nd_db nd)" "distinct (map fst (cd_CNAMEs (ed_CustomDNS data)))" "importFunc data nd = (r, nd')"
  shows "dbInv (nd_db nd')"
proof -
  have "keeps keepsInv (sqlBind (ImportFromCluster data) (\<lambda>_. SetVersion (ed_Version data)))"
    using assms(2) by (auto intro!: inv.keeps_bind ImportFromCluster_inv settings_ops_inv)
  with importFunc_db [OF assms(3)] assms(1) show ?thesis by (auto dest: keepsD simp: keepsInv_def)
qed

text \<open>The parts of \<open>doSync\<close>, whatever happens: fetch, read the version, import, reload.\<close>

lemma doSync_parts:
  assumes "netOK env" "doSync txt (ne_http env) (syncCallbacks env) cc now sy nd = (r, sy', nd')"
  obtains nd1 where "nodeFetched nd nd1" "nd' = nd1"
  | nd1 nd2 v where "nodeFetched nd nd1" "currentVersion (syncCallbacks env) nd1 = (v, nd2)" "nd' = nd2"
  | nd1 nd2 v data e nd3 where "nodeFetched nd nd1" "currentVersion (syncCallbacks env) nd1 = (v, nd2)"
    "distinct (map fst (cd_CNAMEs (ed_CustomDNS data)))" "importFunc data nd2 = (e, nd3)"
    "nd' = nd3 \<or> nd' = snd (reloadFunc env nd3)"
proof -
  obtain f nd1 where f: "fetchConfig (ne_http env) cc sy nd = (f, nd1)" by (rule prod.exhaust)
  with assms(1) have 1: "nodeFetched nd nd1" "\<And>data. f = Inr data \<Longrightarrow> distinct (map fst (cd_CNAMEs (ed_CustomDNS data)))"
    unfolding netOK_def by blast+
  show thesis
  proof (cases f)
    case (Inl e)
    with assms(2) f that(1) [OF 1(1)] show thesis by (auto simp: doSync_def)
  next
    case (Inr data)
    obtain v nd2 where v: "currentVersion (syncCallbacks env) nd1 = (v, nd2)" by (rule prod.exhaust)
    obtain e nd3 where i: "importFunc data nd2 = (e, nd3)" by (rule prod.exhaust)
    have cb: "cb_import (syncCallbacks env) data nd2 = (e, nd3)" "runReload (syncCallbacks env) nd3 = snd (reloadFunc env nd3)"
      using i by (simp_all add: syncCallbacks_def runReload_def)
    note run = assms(2) [unfolded doSync_def f Inr, simplified, unfolded v, simplified]
    show thesis
    proof (cases "ed_Version data \<le> v")
      case True
      with run that(2) [OF 1(1) v] show thesis by auto
    next
      case False
      with run cb have "nd' = nd3 \<or> nd' = snd (reloadFunc env nd3)" by (cases e) auto
      with that(3) [OF 1(1) v 1(2) [OF Inr] i] show thesis by blast
    qed
  qed
qed

lemma currentVersion_node:
  "currentVersion (syncCallbacks env) nd = (v, nd') \<Longrightarrow> nd' = nd\<lparr>nd_db := snd (GetVersion (nd_db nd))\<rparr>"
  by (auto simp: currentVersion_def syncCallbacks_def onDB_def split: prod.splits sum.splits)

lemma reads_inv: "keeps keepsInv GetVersion" "keeps keepsInv (ExportToConfig uc)"
proof -
  have "keepsInv a b" if "(dataOf b, db_version b) = (dataOf a, db_version a)" for a b
    using that by (auto simp: keepsInv_def dbInv_def dataOf_def)
  then show "keeps keepsInv GetVersion" "keeps keepsInv (ExportToConfig uc)"
    using reading_ops by (auto simp: keeps_def)
qed

lemma reload_inv: "dbInv (nd_db nd) \<Longrightarrow> dbInv (nd_db (snd (reloadFunc env nd)))"
  "dbInv (nd_db nd) \<Longrightarrow> dbInv (nd_db (snd (customDNSReload env nd)))"
  using reads_inv(2) [of "ne_unicode env"] by (simp_all add: reloadFunc_db keeps_def keepsInv_def)

section \<open>The database\<close>

lemma doSync_dbInv:
  assumes "netOK env" "dbInv (nd_db nd)" "doSync txt (ne_http env) (syncCallbacks env) cc now sy nd = (r, sy', nd')"
  shows "dbInv (nd_db nd')"
proof -
  have fetched: "dbInv (nd_db b)" if "nodeFetched nd b" for b
    using that assms(2) by (auto simp: nodeFetched_def)
  have version: "dbInv (nd_db b)" if "nodeFetched nd a" "currentVersion (syncCallbacks env) a = (v, b)" for a b v
    using currentVersion_node [OF that(2)] fetched [OF that(1)] reads_inv(1) by (simp add: keeps_def keepsInv_def)
  from assms(1,3) show ?thesis
    by (rule doSync_parts) (use fetched version importFunc_inv reload_inv(1) in blast)+
qed

definition keepsData :: "'w node_env \<Rightarrow> 'w Handler \<Rightarrow> 'w Handler \<Rightarrow> bool" where
  "keepsData env h h' \<longleftrightarrow> (netOK env \<longrightarrow> dbInv (nd_db (hd_node h)) \<longrightarrow> dbInv (nd_db (hd_node h')))"

interpretation api_db: api_relation env "keepsData env" "keepsData env" keepsInv for env
proof
  fix h :: "'a Handler" and cc now sy r sy' nd'
  assume "doSync (ne_sqlText env) (ne_http env) (syncCallbacks env) cc now sy (hd_node h) = (r, sy', nd')"
  then show "keepsData env h (h\<lparr>hd_syncer := Some sy', hd_node := nd'\<rparr>)"
    using doSync_dbInv by (auto simp: keepsData_def)
next
  show "keepsData env h (triggerReload env h)" for h :: "'a Handler"
    by (simp add: keepsData_def triggerReload_def reload_inv)
qed (auto simp: keepsData_def keepsInv_def onEngine_def upstream_ops_inv custom_ops_inv filtering_ops_inv settings_ops_inv
      DB_AddCNAME_inv inv.db_relation_axioms)

section \<open>The running resolvers\<close>

text \<open>What an export that returns has read.\<close>

definition mayRead :: "DB \<Rightarrow> ('a \<Rightarrow> bool) \<Rightarrow> (DB, 'a) sql_op \<Rightarrow> bool" where
  "mayRead d Q m \<longleftrightarrow> (\<forall>k x d'. m (d\<lparr>db_tick := k\<rparr>) = (Inr x, d') \<longrightarrow> Q x \<and> (\<exists>n. d' = d\<lparr>db_tick := n\<rparr>))"

lemma mayRead_bind:
  assumes "mayRead d Q m" "\<And>x. Q x \<Longrightarrow> mayRead d P (k x)" shows "mayRead d P (sqlBind m k)"
  unfolding mayRead_def
proof (intro allI impI)
  fix i x d' assume "sqlBind m k (d\<lparr>db_tick := i\<rparr>) = (Inr x, d')"
  from sqlBind_cases [OF this] obtain y d1 where y: "m (d\<lparr>db_tick := i\<rparr>) = (Inr y, d1)" "k y d1 = (Inr x, d')" by auto
  from assms(1) y(1) obtain n where "Q y" "d1 = d\<lparr>db_tick := n\<rparr>" unfolding mayRead_def by blast
  with assms(2) y(2) show "P x \<and> (\<exists>n. d' = d\<lparr>db_tick := n\<rparr>)" unfolding mayRead_def by blast
qed

lemma mayRead_return: "Q x \<Longrightarrow> mayRead d Q (sqlReturn x)"
  by (auto simp: mayRead_def sqlReturn_def)

lemma mayRead_wrap: "mayRead d Q m \<Longrightarrow> mayRead d Q (sqlWrap ctx m)"
  unfolding mayRead_def sqlWrap_def by (auto split: prod.splits sum.splits)

lemma mayRead_exec: "(\<And>n x d'. f (d\<lparr>db_tick := n\<rparr>) = Inr (x, d') \<Longrightarrow> Q x \<and> d' = d\<lparr>db_tick := n\<rparr>) \<Longrightarrow> mayRead d Q (sqlExec ctx f)"
  by (fastforce simp: mayRead_def sqlExec_def driverCall_def split: option.splits sum.splits)

lemma mayRead_row: "mayRead d (\<lambda>_. True) (sqlRow ctx f)"
  unfolding sqlRow_def by (rule mayRead_exec) (auto split: option.splits)

lemma mayRead_rows:
  assumes "\<And>n. f (d\<lparr>db_tick := n\<rparr>) = f d" shows "mayRead d (\<lambda>x. x = f d) (sqlRows q sc it f)"
proof -
  have check: "mayRead d (\<lambda>_. True) (sqlCheck ctx)" for ctx
    unfolding sqlCheck_def by (rule mayRead_exec) simp
  show ?thesis
    unfolding sqlRows_def
    by (rule mayRead_bind [where Q = "\<lambda>x. x = f d"], rule mayRead_exec, simp add: assms,
        rule mayRead_bind [where Q = "\<lambda>_. True"], simp add: check mayRead_return,
        rule mayRead_bind [OF check], simp add: mayRead_return)
qed

lemma export_custom:
  assumes "ExportToConfig uc d = (Inr cfg, d')" shows "CustomDNS cfg = customOf d" "\<exists>n. d' = d\<lparr>db_tick := n\<rparr>"
proof -
  let ?C = "\<lambda>cfg. CustomDNS cfg = customOf d" and ?T = "\<lambda>_. True"
  note rows = mayRead_bind [OF mayRead_wrap [OF mayRead_rows]] and row = mayRead_bind [OF mayRead_row]
    and wrow = mayRead_bind [OF mayRead_wrap [OF mayRead_row]]
  have 1: "mayRead d ?T (exportServerConfig uc c)" "mayRead d ?T (exportUpstreamConfig c)" for c
    unfolding exportServerConfig_def exportUpstreamConfig_def GetUpstreamServers_def
    by (rule row, simp add: mayRead_return, rule row, rule rows, simp, simp add: mayRead_return)
  have 2: "mayRead d ?C (exportCustomDNS c)" for c
    unfolding exportCustomDNS_def GetAllHosts_def GetAllCNAMEs_def
    by (rule rows, simp, rule rows, simp, rule mayRead_return) (simp add: customOf_def)
  have 3: "mayRead d ?C (exportLoggingConfig c)" "mayRead d ?C (exportFilteringConfig c)" "mayRead d ?C (exportRateLimitConfig c)"
    "mayRead d ?C (exportAPIConfig c)" "mayRead d ?C (exportClusterConfig c)" if "?C c" for c
    unfolding exportLoggingConfig_def exportFilteringConfig_def exportRateLimitConfig_def exportAPIConfig_def
      exportClusterConfig_def GetFilteringConfig_def GetWhitelistDomains_def GetBlacklistDomains_def DB_GetBlocklists_def
    by ((rule row wrow rows; (simp add: that mayRead_return)?)+)
  have "mayRead d ?C (ExportToConfig uc)"
    unfolding ExportToConfig_def
    by (rule mayRead_bind [OF 1(1)], rule mayRead_bind [OF 1(2)], rule mayRead_bind [OF 2],
        (rule mayRead_bind, erule 3)+, erule 3)
  moreover have "ExportToConfig uc (d\<lparr>db_tick := db_tick d\<rparr>) = (Inr cfg, d')" using assms by simp
  ultimately show "CustomDNS cfg = customOf d" "\<exists>n. d' = d\<lparr>db_tick := n\<rparr>" unfolding mayRead_def by blast+
qed

definition rowsOK :: "DB \<Rightarrow> bool" where
  "rowsOK d \<longleftrightarrow> length (tbl_rows (db_records d)) \<le> 65535"

lemma group_bounded:
  assumes "(n, ips) \<in> set (groupHosts rows)" shows "length ips \<le> length rows"
proof -
  have "size (mset (flat (groupHosts rows))) = length rows"
    unfolding groupHosts_keys by (subst flat_group) (simp_all add: flat_def)
  moreover have "length ips \<le> length (flat m)" if "(n, ips) \<in> set m" for m :: "(string \<times> string list) list"
    using that by (induction m) (auto simp: flat_def)
  ultimately show ?thesis using assms by (metis size_mset)
qed

lemma rowsOK_bounded: "rowsOK d \<Longrightarrow> CustomDNS cfg = customOf d \<Longrightarrow> hostsBounded cfg"
  unfolding hostsBounded_def rowsOK_def
proof (clarify)
  fix n ips assume *: "length (tbl_rows (db_records d)) \<le> 65535" "CustomDNS cfg = customOf d" "(n, ips) \<in> set (cd_Hosts (CustomDNS cfg))"
  then have "length ips \<le> length (allHosts d)" by (auto simp: customOf_def dest: group_bounded)
  also have "\<dots> \<le> length (tbl_rows (db_records d))" by (simp add: allHosts_def)
  finally show "length ips \<le> 65535" using *(1) by simp
qed

lemma reload_steps:
  assumes "rowsOK (nd_db (snd (customDNSReload env nd)))"
  shows "(hydra_step (ne_unicode env) we)\<^sup>*\<^sup>* (nd_hydra nd) (nd_hydra (snd (customDNSReload env nd)))"
proof (cases "ExportToConfig (ne_unicode env) (nd_db nd)")
  case (Pair r d)
  show ?thesis
  proof (cases r)
    case (Inl e)
    with Pair show ?thesis by (simp add: customDNSReload_def onDB_def)
  next
    case (Inr cfg)
    from export_custom [OF Pair [unfolded Inr]] obtain n where c: "CustomDNS cfg = customOf (nd_db nd)" "d = (nd_db nd)\<lparr>db_tick := n\<rparr>"
      by blast
    from assms Pair c(2) have "rowsOK (nd_db nd)" by (simp add: reloadFunc_db rowsOK_def)
    then have "hostsBounded cfg" using c(1) by (rule rowsOK_bounded)
    then have "hydra_step (ne_unicode env) we (nd_hydra nd)
      ((nd_hydra nd)\<lparr>hy_custom := snd (ReloadCustomDNS (ne_unicode env) cfg (hy_custom (nd_hydra nd)))\<rparr>)"
      by (rule hydra_step.reload)
    with Pair Inr show ?thesis by (auto simp: customDNSReload_def onDB_def split: prod.split)
  qed
qed

lemma fetched_steps: "nodeFetched nd nd' \<Longrightarrow> (hydra_step uc we)\<^sup>*\<^sup>* (nd_hydra nd) (nd_hydra nd')"
  by (auto simp: nodeFetched_def intro!: r_into_rtranclp hydra_step.world)

lemma doSync_steps:
  assumes "netOK env" "rowsOK (nd_db nd')" "doSync txt (ne_http env) (syncCallbacks env) cc now sy nd = (r, sy', nd')"
  shows "(hydra_step (ne_unicode env) we)\<^sup>*\<^sup>* (nd_hydra nd) (nd_hydra nd')"
  using assms(1,3)
proof (cases rule: doSync_parts)
  case (1 nd1)
  then show ?thesis by (simp add: fetched_steps)
next
  case (2 nd1 nd2 v)
  with currentVersion_node [OF 2(2)] show ?thesis by (simp add: fetched_steps)
next
  case (3 nd1 nd2 v data e nd3)
  have "nd_hydra nd3 = nd_hydra nd1"
    using importFunc_db [OF 3(4)] currentVersion_node [OF 3(2)] by simp
  with fetched_steps [OF 3(1)] have s: "(hydra_step (ne_unicode env) we)\<^sup>*\<^sup>* (nd_hydra nd) (nd_hydra nd3)" by simp
  from 3(5) show ?thesis
  proof
    assume r: "nd' = snd (reloadFunc env nd3)"
    with assms(2) have "rowsOK (nd_db (snd (customDNSReload env nd3)))" by (simp add: reloadFunc_db)
    from rtranclp_trans [OF s reload_steps [OF this]] r show ?thesis by (simp add: reloadFunc_db(3))
  qed (use s in simp)
qed

definition hydraOf :: "'w Handler \<Rightarrow> 'w hydra" where
  "hydraOf h = nd_hydra (hd_node h)"

definition servedSteps :: "'w node_env \<Rightarrow> 'w env \<Rightarrow> 'w Handler \<Rightarrow> 'w Handler \<Rightarrow> bool" where
  "servedSteps env we h h' \<longleftrightarrow>
     (netOK env \<longrightarrow> rowsOK (nd_db (hd_node h')) \<longrightarrow> (hydra_step (ne_unicode env) we)\<^sup>*\<^sup>* (hydraOf h) (hydraOf h'))"

interpretation api_hydra: api_relation env
  "\<lambda>h h'. (hydra_step (ne_unicode env) we)\<^sup>*\<^sup>* (hydraOf h) (hydraOf h')" "servedSteps env we" "\<lambda>_ _. True" for env we
proof
  fix h :: "'a Handler" and cc now sy r sy' nd'
  assume "doSync (ne_sqlText env) (ne_http env) (syncCallbacks env) cc now sy (hd_node h) = (r, sy', nd')"
  then show "servedSteps env we h (h\<lparr>hd_syncer := Some sy', hd_node := nd'\<rparr>)"
    using doSync_steps by (auto simp: servedSteps_def hydraOf_def)
next
  show "servedSteps env we h (triggerReload env h)" for h :: "'a Handler"
    using reload_steps by (auto simp: servedSteps_def hydraOf_def triggerReload_def)
next
  show "servedSteps env we a c"
    if "(hydra_step (ne_unicode env) we)\<^sup>*\<^sup>* (hydraOf a) (hydraOf b)" "servedSteps env we b c" for a b c :: "'a Handler"
    using that by (auto simp: servedSteps_def)
qed (auto simp: servedSteps_def hydraOf_def onEngine_def keeps_def db_relation_def
      intro: hydra_step.whitelist hydra_step.blacklist hydra_step.unwhitelist hydra_step.unblacklist hydra_step.enable)

end
