(* ===== verification/Api_Effects.thy ===== *)
theory Api_Effects
  imports Api_Safety
begin

text \<open>
  What successful requests achieve. The handlers of the domain lists are proved once, in the
  locale \<open>domain_list\<close>, and interpreted for the whitelist and the blacklist. For the custom names
  the configuration in memory and the database agree after every request that did not fail
  with an internal error. The secrets of the configuration reach no response.
\<close>

section \<open>Domain lists\<close>

definition policyOf :: "'w Handler \<Rightarrow> PolicyEngine" where
  "policyOf h = hy_policy (nd_hydra (hd_node h))"

definition dbOf :: "'w Handler \<Rightarrow> DB" where
  "dbOf h = nd_db (hd_node h)"

lemma onEngine_parts [simp]:
  "policyOf (onEngine f h) = f (policyOf h)" "dbOf (onEngine f h) = dbOf h" "hd_db (onEngine f h) = hd_db h"
  "hd_policy (onEngine f h) = hd_policy h" "hd_cfg (onEngine f h) = hd_cfg h" "hd_syncer (onEngine f h) = hd_syncer h"
  by (simp_all add: onEngine_def policyOf_def dbOf_def)

lemma callDB_Some:
  assumes "callDB m k h = Some out"
  obtains r d where "hd_db h" "m (dbOf h) = (r, d)" "k r (h\<lparr>hd_node := (hd_node h)\<lparr>nd_db := d\<rparr>\<rparr>) = Some out"
  using assms by (auto simp: callDB_def onDB_def dbOf_def split: if_splits prod.splits)

lemma reply_Some: "reply st b h = Some (resp, h') \<longleftrightarrow> resp = (st, b) \<and> h' = h"
  by (auto simp: reply_def)

lemma dbOf_parts [simp]: "dbOf (h\<lparr>hd_cfg := c\<rparr>) = dbOf h" "dbOf (h\<lparr>hd_node := nd\<rparr>) = nd_db nd"
  by (simp_all add: dbOf_def)

lemma node_db_parts [simp]:
  "dbOf (h\<lparr>hd_node := (hd_node h)\<lparr>nd_db := d\<rparr>\<rparr>) = d" "policyOf (h\<lparr>hd_node := (hd_node h)\<lparr>nd_db := d\<rparr>\<rparr>) = policyOf h"
  by (simp_all add: dbOf_def policyOf_def)

lemma changeDomains_step:
  assumes "changeDomains env inDB inEngine k (x # ds) h = Some ((200, b), h')" "hd_policy h"
  obtains d where "inDB x (dbOf h) = (Inr (), d)"
    "changeDomains env inDB inEngine k ds (onEngine (\<lambda>pe. inEngine pe x) (h\<lparr>hd_node := (hd_node h)\<lparr>nd_db := d\<rparr>\<rparr>)) = Some ((200, b), h')"
proof -
  from assms(1) [unfolded changeDomains.simps] obtain r d where m: "inDB x (dbOf h) = (r, d)"
    and k: "(\<lambda>r h. case r of Inl e \<Rightarrow> reply 400 (ErrorResponse (errorText (ne_sqlText env) e)) h
      | Inr _ \<Rightarrow> changeDomains env inDB inEngine k ds (if hd_policy h then onEngine (\<lambda>pe. inEngine pe x) h else h)) r
        (h\<lparr>hd_node := (hd_node h)\<lparr>nd_db := d\<rparr>\<rparr>) = Some ((200, b), h')"
    by (rule callDB_Some)
  show thesis
  proof (cases r)
    case (Inr u)
    with m k assms(2) show thesis by (intro that [of d]) simp_all
  qed (use k in \<open>simp add: reply_Some\<close>)
qed

locale domain_list =
  fixes uc :: go_unicode and l :: listOps and keys :: "DB \<Rightarrow> string set" and entries :: "PolicyEngine \<Rightarrow> string list set"
  assumes get: "lo_getFromDB l d = (Inr ds, d') \<Longrightarrow> set ds = keys d \<and> keys d' = keys d"
    and add: "lo_addToDB l x d = (Inr u, d') \<Longrightarrow> keys d' = insert x (keys d)"
    and delete: "lo_deleteFromDB l x d = (Inr u, d') \<Longrightarrow> keys d' = keys d - {x}"
    and engine_add: "policyInv pe \<Longrightarrow> entries (lo_addToEngine l pe x) = entries pe \<union> set_option (domainPath uc x)"
    and engine_remove: "policyInv pe \<Longrightarrow> entries (lo_removeFromEngine l pe x) = entries pe - set_option (domainPath uc x)"
    and engine_inv: "policyInv pe \<Longrightarrow> policyInv (lo_addToEngine l pe x)" "policyInv pe \<Longrightarrow> policyInv (lo_removeFromEngine l pe x)"
begin

definition paths :: "string list \<Rightarrow> string list set" where
  "paths ds = (\<Union>x \<in> set ds. set_option (domainPath uc x))"

lemma replyDomains_ok:
  assumes "replyDomains env l h = Some ((200, b), h')"
  shows "\<exists>xs. b = DomainListResponse xs (int (length xs)) \<and> set xs = keys (dbOf h) \<and> keys (dbOf h') = keys (dbOf h) \<and>
    policyOf h' = policyOf h"
  using assms unfolding replyDomains_def
  by (elim callDB_Some) (auto simp: reply_Some split: sum.splits dest: get)

lemma added:
  assumes "changeDomains env (lo_addToDB l) (lo_addToEngine l) (replyDomains env l) ds h = Some ((200, b), h')"
    and "hd_policy h" "policyInv (policyOf h)"
  shows "\<exists>xs. b = DomainListResponse xs (int (length xs)) \<and> set xs = keys (dbOf h') \<and>
    keys (dbOf h') = keys (dbOf h) \<union> set ds \<and> entries (policyOf h') = entries (policyOf h) \<union> paths ds \<and> policyInv (policyOf h')"
  using assms
proof (induction ds arbitrary: h)
  case Nil
  then show ?case using replyDomains_ok [of env h b h'] by (auto simp: paths_def)
next
  case (Cons x ds)
  from Cons.prems(1,2) obtain d where m: "lo_addToDB l x (dbOf h) = (Inr (), d)"
    and k: "changeDomains env (lo_addToDB l) (lo_addToEngine l) (replyDomains env l) ds
      (onEngine (\<lambda>pe. lo_addToEngine l pe x) (h\<lparr>hd_node := (hd_node h)\<lparr>nd_db := d\<rparr>\<rparr>)) = Some ((200, b), h')"
    by (rule changeDomains_step)
  from Cons.IH [OF k] Cons.prems(2,3) engine_inv(1) add [OF m] engine_add [OF Cons.prems(3), of x]
  show ?case by (auto simp: paths_def)
qed

lemma removed:
  assumes "changeDomains env (lo_deleteFromDB l) (lo_removeFromEngine l) (replyDomains env l) ds h = Some ((200, b), h')"
    and "hd_policy h" "policyInv (policyOf h)"
  shows "\<exists>xs. b = DomainListResponse xs (int (length xs)) \<and> set xs = keys (dbOf h') \<and>
    keys (dbOf h') = keys (dbOf h) - set ds \<and> entries (policyOf h') = entries (policyOf h) - paths ds \<and> policyInv (policyOf h')"
  using assms
proof (induction ds arbitrary: h)
  case Nil
  then show ?case using replyDomains_ok [of env h b h'] by (auto simp: paths_def)
next
  case (Cons x ds)
  from Cons.prems(1,2) obtain d where m: "lo_deleteFromDB l x (dbOf h) = (Inr (), d)"
    and k: "changeDomains env (lo_deleteFromDB l) (lo_removeFromEngine l) (replyDomains env l) ds
      (onEngine (\<lambda>pe. lo_removeFromEngine l pe x) (h\<lparr>hd_node := (hd_node h)\<lparr>nd_db := d\<rparr>\<rparr>)) = Some ((200, b), h')"
    by (rule changeDomains_step)
  from Cons.IH [OF k] Cons.prems(2,3) engine_inv(2) delete [OF m] engine_remove [OF Cons.prems(3), of x]
  show ?case by (auto simp: paths_def)
qed

lemma add_request:
  assumes "addToDomainList env l (Inr ds) h = Some ((200, b), h')" "hd_policy h" "policyInv (policyOf h)"
  shows "\<exists>xs. b = DomainListResponse xs (int (length xs)) \<and> set xs = keys (dbOf h') \<and>
    keys (dbOf h') = keys (dbOf h) \<union> set ds \<and> entries (policyOf h') = entries (policyOf h) \<union> paths ds \<and> policyInv (policyOf h')"
  using assms by (intro added) (auto simp: addToDomainList_def bindJSON_def noDatabase_def reply_Some split: if_splits)

lemma remove_request:
  assumes "removeFromDomainList env l (Inr ds) h = Some ((200, b), h')" "hd_policy h" "policyInv (policyOf h)"
  shows "\<exists>xs. b = DomainListResponse xs (int (length xs)) \<and> set xs = keys (dbOf h') \<and>
    keys (dbOf h') = keys (dbOf h) - set ds \<and> entries (policyOf h') = entries (policyOf h) - paths ds \<and> policyInv (policyOf h')"
  using assms by (intro removed) (auto simp: removeFromDomainList_def bindJSON_def noDatabase_def reply_Some split: if_splits)

end

lemma rows_read:
  fixes f :: "DB \<Rightarrow> 'a list"
  assumes "sqlRows q sc it f d = (Inr x, d')" "\<And>n. f (d\<lparr>db_tick := n\<rparr>) = f d"
  shows "x = f d" "\<exists>n. d' = d\<lparr>db_tick := n\<rparr>"
proof -
  have "sqlRows q sc it f (d\<lparr>db_tick := db_tick d\<rparr>) = (Inr x, d')" using assms(1) by simp
  with mayRead_rows [of f d q sc it] assms(2) show "x = f d" "\<exists>n. d' = d\<lparr>db_tick := n\<rparr>"
    unfolding mayRead_def by blast+
qed

lemma exec_done:
  "sqlExec ctx f d = (Inr x, d') \<Longrightarrow> f (d\<lparr>db_tick := Suc (db_tick d)\<rparr>) = Inr (x, d')"
  by (auto simp: sqlExec_def driverCall_def split: option.splits sum.splits)

lemma mustAffect_done:
  assumes "mustAffect ctx f nf d = (Inr u, d')"
  obtains n d1 where "f (d\<lparr>db_tick := Suc (db_tick d)\<rparr>) = Inr (n, d1)" "0 < n" "\<exists>k. d' = d1\<lparr>db_tick := k\<rparr>"
proof -
  from sqlBind_cases [OF assms [unfolded mustAffect_def]] obtain n d1 where e: "sqlExec ctx f d = (Inr n, d1)"
    and r: "sqlBind (sqlCheck ''failed to get affected rows'') (\<lambda>_. if n = 0 then sqlFail (Msg nf) else sqlReturn ()) d1 = (Inr u, d')"
    by auto
  from sqlBind_cases [OF r] obtain v d2 where c: "sqlCheck ''failed to get affected rows'' d1 = (Inr v, d2)"
    and "(if n = 0 then sqlFail (Msg nf) else sqlReturn ()) d2 = (Inr u, d')" by auto
  then have "0 < n" "d' = d2" by (auto simp: sqlFail_def sqlReturn_def split: if_splits)
  with exec_done [OF e] exec_done [OF c [unfolded sqlCheck_def]] that show thesis by auto
qed

lemma domain_ops_done:
  "AddWhitelistDomain x d = (Inr u, d') \<Longrightarrow> set (whitelistKeys d') = insert x (set (whitelistKeys d))"
  "AddBlacklistDomain x d = (Inr u, d') \<Longrightarrow> set (blacklistKeys d') = insert x (set (blacklistKeys d))"
  "DeleteWhitelistDomain x d = (Inr u, d') \<Longrightarrow> set (whitelistKeys d') = set (whitelistKeys d) - {x}"
  "DeleteBlacklistDomain x d = (Inr u, d') \<Longrightarrow> set (blacklistKeys d') = set (blacklistKeys d) - {x}"
  unfolding AddWhitelistDomain_def AddBlacklistDomain_def DeleteWhitelistDomain_def DeleteBlacklistDomain_def
  by (auto dest!: exec_done elim!: mustAffect_done simp: ignoreWhitelist_def ignoreBlacklist_def hasDomain_def whitelistKeys_def
      blacklistKeys_def newDomain_def deleteWhitelist_def deleteBlacklist_def deleteRows_def split: if_splits)

interpretation whitelisted: domain_list uc "whitelistOps uc" "\<lambda>d. set (whitelistKeys d)" "\<lambda>pe. exactPaths (pe_whitelist pe)" for uc
proof
  fix d ds d' assume "lo_getFromDB (whitelistOps uc) d = (Inr ds, d')"
  then have g: "GetWhitelistDomains d = (Inr ds, d')" by (simp add: whitelistOps_def)
  from rows_read [OF g [unfolded GetWhitelistDomains_def]]
  show "set ds = set (whitelistKeys d) \<and> set (whitelistKeys d') = set (whitelistKeys d)"
    by (auto simp: sortedDomains_def whitelistKeys_def)
qed (auto simp: whitelistOps_def domain_ops_done policyInv_updates AddToWhitelist_def RemoveFromWhitelist_def policyInv_def
      Trie_Add_paths Trie_Remove_paths trieInv_Add trieInv_Remove)

interpretation blacklisted: domain_list uc "blacklistOps uc" "\<lambda>d. set (blacklistKeys d)" "\<lambda>pe. exactPaths (pe_blacklist pe)" for uc
proof
  fix d ds d' assume "lo_getFromDB (blacklistOps uc) d = (Inr ds, d')"
  then have g: "GetBlacklistDomains d = (Inr ds, d')" by (simp add: blacklistOps_def)
  from rows_read [OF g [unfolded GetBlacklistDomains_def]]
  show "set ds = set (blacklistKeys d) \<and> set (blacklistKeys d') = set (blacklistKeys d)"
    by (auto simp: sortedDomains_def blacklistKeys_def)
qed (auto simp: blacklistOps_def domain_ops_done policyInv_updates AddToBlacklist_def RemoveFromBlacklist_def policyInv_def
      Trie_Add_paths Trie_Remove_paths trieInv_Add trieInv_Remove)

section \<open>Custom names\<close>

definition hostPairs :: "DB \<Rightarrow> (string \<times> string) set" where
  "hostPairs d = (\<lambda>r. (dr_source r, dr_target r)) ` {r \<in> set (tbl_rows (db_records d)). isHostRow r}"

definition cnamePairs :: "DB \<Rightarrow> (string \<times> string) set" where
  "cnamePairs d = (\<lambda>r. (dr_source r, dr_target r)) ` {r \<in> set (tbl_rows (db_records d)). isCNAMERow r}"

definition agrees :: "'w Handler \<Rightarrow> bool" where
  "agrees h \<longleftrightarrow> (\<forall>cfg. hd_cfg h = Some cfg \<longrightarrow>
     hostPairs (dbOf h) = {(n, ip). \<exists>ips. map_of (cd_Hosts (CustomDNS cfg)) n = Some ips \<and> ip \<in> set ips} \<and>
     cnamePairs (dbOf h) = {(a, t). map_of (cd_CNAMEs (CustomDNS cfg)) a = Some t})"

lemma pairs_iff:
  "(n, ip) \<in> hostPairs d \<longleftrightarrow> (\<exists>r\<in>set (tbl_rows (db_records d)). isHostRow r \<and> dr_source r = n \<and> dr_target r = ip)"
  "(n, ip) \<in> cnamePairs d \<longleftrightarrow> (\<exists>r\<in>set (tbl_rows (db_records d)). isCNAMERow r \<and> dr_source r = n \<and> dr_target r = ip)"
  by (auto simp: hostPairs_def cnamePairs_def image_iff)

lemma pairs_insert:
  assumes "tbl_rows (db_records d') = tbl_rows (db_records d) @ [r]"
  shows "hostPairs d' = (if isHostRow r then insert (dr_source r, dr_target r) (hostPairs d) else hostPairs d)"
    "cnamePairs d' = (if isCNAMERow r then insert (dr_source r, dr_target r) (cnamePairs d) else cnamePairs d)"
  using assms by (auto simp: pairs_iff)

lemma pairs_filter:
  assumes "tbl_rows (db_records d') = filter (\<lambda>r. \<not> P r) (tbl_rows (db_records d))"
  shows "hostPairs d' = (\<lambda>r. (dr_source r, dr_target r)) ` {r \<in> set (tbl_rows (db_records d)). isHostRow r \<and> \<not> P r}"
    "cnamePairs d' = (\<lambda>r. (dr_source r, dr_target r)) ` {r \<in> set (tbl_rows (db_records d)). isCNAMERow r \<and> \<not> P r}"
  using assms by (auto simp: pairs_iff)

lemma pairs_tick [simp]: "hostPairs (d\<lparr>db_tick := n\<rparr>) = hostPairs d" "cnamePairs (d\<lparr>db_tick := n\<rparr>) = cnamePairs d"
  by (simp_all add: hostPairs_def cnamePairs_def)

lemma DB_AddHost_pairs:
  assumes "DB_AddHost n ip d = (Inr u, d')"
  shows "hostPairs d' = insert (n, ip) (hostPairs d)" "cnamePairs d' = cnamePairs d"
proof -
  from assms obtain t where t: "recordTypeOf ip = Some t" and e: "sqlExec (''failed to add host '' @ n) (upsertRecord n t ip) d = (Inr u, d')"
    by (auto simp: DB_AddHost_def sqlFail_def split: option.splits)
  have ty: "isHostRow r" "\<not> isCNAMERow r" if "dr_type r = t" for r
    using recordTypeOf_valid [OF t] that
    by (auto simp: isHostRow_def isCNAMERow_def RecordTypeA_def RecordTypeAAAA_def RecordTypeCNAME_def)
  let ?d = "d\<lparr>db_tick := Suc (db_tick d)\<rparr>"
  have "hostPairs d' = insert (n, ip) (hostPairs d) \<and> cnamePairs d' = cnamePairs d"
  proof (cases "hasRecord n t ip ?d")
    case True
    then have "(n, ip) \<in> hostPairs d" using ty by (auto simp: hasRecord_def pairs_iff)
    moreover have "d' = bump 1 ?d" using exec_done [OF e] True by (simp add: upsertRecord_def)
    ultimately show ?thesis by (auto simp: hostPairs_def cnamePairs_def)
  next
    case False
    let ?r = "newRecord n t ip (tbl_seq (db_records ?d) + 1)"
    from exec_done [OF e] False have "tbl_rows (db_records d') = tbl_rows (db_records d) @ [?r]"
      by (auto simp: upsertRecord_def insertRecord_def split: if_splits)
    moreover have "isHostRow ?r" "\<not> isCNAMERow ?r" by (rule ty; simp add: newRecord_def)+
    ultimately show ?thesis by (simp add: pairs_insert [of d' d ?r])
  qed
  then show "hostPairs d' = insert (n, ip) (hostPairs d)" "cnamePairs d' = cnamePairs d" by simp_all
qed

lemma addHosts_pairs:
  "forEach (DB_AddHost n) ips d = (Inr u, d') \<Longrightarrow> hostPairs d' = {n} \<times> set ips \<union> hostPairs d \<and> cnamePairs d' = cnamePairs d"
proof (induction ips arbitrary: d)
  case (Cons ip ips)
  from sqlBind_cases [OF Cons.prems [unfolded forEach.simps]] obtain v d1 where
    1: "DB_AddHost n ip d = (Inr v, d1)" and 2: "forEach (DB_AddHost n) ips d1 = (Inr u, d')" by auto
  from Cons.IH [OF 2] DB_AddHost_pairs [OF 1] show ?case by auto
qed (auto simp: sqlReturn_def)

lemma deleted_pairs:
  "deleteRecords (\<lambda>r. dr_source r = n \<and> isHostRow r) d = Inr (k, d') \<Longrightarrow>
    hostPairs d' = hostPairs d - {n} \<times> UNIV \<and> cnamePairs d' = cnamePairs d"
  "deleteRecords (\<lambda>r. dr_source r = n \<and> isCNAMERow r) d = Inr (k, d') \<Longrightarrow>
    cnamePairs d' = cnamePairs d - {n} \<times> UNIV \<and> hostPairs d' = hostPairs d"
proof -
  have kinds: "\<not> (isHostRow r \<and> isCNAMERow r)" for r
    by (auto simp: isHostRow_def isCNAMERow_def RecordTypeA_def RecordTypeAAAA_def RecordTypeCNAME_def)
  have rows: "tbl_rows (db_records d') = filter (\<lambda>r. \<not> P r) (tbl_rows (db_records d))" if "deleteRecords P d = Inr (k, d')" for P
    using that by (auto simp: deleteRecords_def deleteRows_def)
  show "hostPairs d' = hostPairs d - {n} \<times> UNIV \<and> cnamePairs d' = cnamePairs d"
    if "deleteRecords (\<lambda>r. dr_source r = n \<and> isHostRow r) d = Inr (k, d')"
    unfolding pairs_filter [OF rows [OF that]] using kinds by (auto simp: hostPairs_def cnamePairs_def image_iff)
  show "cnamePairs d' = cnamePairs d - {n} \<times> UNIV \<and> hostPairs d' = hostPairs d"
    if "deleteRecords (\<lambda>r. dr_source r = n \<and> isCNAMERow r) d = Inr (k, d')"
    unfolding pairs_filter [OF rows [OF that]] using kinds by (auto simp: hostPairs_def cnamePairs_def image_iff)
qed

lemma DeleteAllHosts_pairs:
  assumes "DeleteAllHostsForHostname n d = (Inr u, d')"
  shows "hostPairs d' = hostPairs d - {n} \<times> UNIV \<and> cnamePairs d' = cnamePairs d"
  using sqlBind_cases [OF assms [unfolded DeleteAllHostsForHostname_def]]
  by (auto simp: sqlReturn_def dest!: exec_done deleted_pairs)

lemma DB_AddCNAME_pairs:
  assumes "DB_AddCNAME a t d = (Inr u, d')"
  shows "cnamePairs d' = insert (a, t) (cnamePairs d - {a} \<times> UNIV) \<and> hostPairs d' = hostPairs d"
proof -
  from sqlBind_cases [OF assms [unfolded DB_AddCNAME_def]] obtain k d1 where
    d1: "sqlExec (''failed to clear existing CNAME '' @ a) (deleteRecords (\<lambda>r. dr_source r = a \<and> isCNAMERow r)) d = (Inr k, d1)"
    and i: "sqlExec (''failed to add CNAME '' @ a) (insertRecord a RecordTypeCNAME t) d1 = (Inr u, d')" by auto
  have "isCNAMERow (newRecord a RecordTypeCNAME t j)" "\<not> isHostRow (newRecord a RecordTypeCNAME t j)" for j
    by (auto simp: newRecord_def isHostRow_def isCNAMERow_def RecordTypeA_def RecordTypeAAAA_def RecordTypeCNAME_def)
  moreover from exec_done [OF i] have
    "tbl_rows (db_records d') = tbl_rows (db_records d1) @ [newRecord a RecordTypeCNAME t (tbl_seq (db_records d1) + 1)]"
    by (auto simp: insertRecord_def split: if_splits)
  ultimately have "cnamePairs d' = insert (a, t) (cnamePairs d1) \<and> hostPairs d' = hostPairs d1"
    by (simp add: pairs_insert)
  with deleted_pairs(2) [OF exec_done [OF d1]] show ?thesis by auto
qed

lemma DB_DeleteCNAME_pairs:
  assumes "DB_DeleteCNAME a d = (Inr u, d')"
  shows "cnamePairs d' = cnamePairs d - {a} \<times> UNIV \<and> hostPairs d' = hostPairs d"
  using assms unfolding DB_DeleteCNAME_def by (elim mustAffect_done) (auto dest!: deleted_pairs)

text \<open>No text of a driver error contains "not found".\<close>

definition quietErrors :: "'w node_env \<Rightarrow> bool" where
  "quietErrors env \<longleftrightarrow> (\<forall>e. \<not> Contains (errorText (ne_sqlText env) (Wrap ''failed to delete CNAME'' (SqlErr e))) ''not found'' \<and>
     \<not> Contains (errorText (ne_sqlText env) (Wrap ''failed to get affected rows'' (SqlErr e))) ''not found'')"

lemma DB_DeleteCNAME_notFound:
  assumes "quietErrors env" "DB_DeleteCNAME a d = (Inl e, d')" "Contains (errorText (ne_sqlText env) e) ''not found''"
  shows "cnamePairs d' = cnamePairs d - {a} \<times> UNIV \<and> hostPairs d' = hostPairs d"
proof -
  let ?del = "deleteRecords (\<lambda>r. dr_source r = a \<and> isCNAMERow r)"
  have exec: "\<exists>s. e = Wrap ctx (SqlErr s)" if "sqlExec ctx f d = (Inl e, d')" for ctx and f :: "DB \<Rightarrow> sql_error + ('x \<times> DB)" and d
    using that by (auto simp: sqlExec_def split: prod.splits option.splits sum.splits)
  from sqlBind_cases [OF assms(2) [unfolded DB_DeleteCNAME_def mustAffect_def]] assms(1,3) exec
  obtain n d1 where del: "sqlExec ''failed to delete CNAME'' ?del d = (Inr n, d1)"
    and r: "sqlBind (sqlCheck ''failed to get affected rows'') (\<lambda>_. if n = 0 then sqlFail (Msg (''CNAME not found: '' @ a)) else sqlReturn ()) d1
      = (Inl e, d')" unfolding quietErrors_def by blast
  from sqlBind_cases [OF r] assms(1,3) exec obtain v d2 where
    "sqlCheck ''failed to get affected rows'' d1 = (Inr v, d2)" "(if n = 0 then sqlFail (Msg (''CNAME not found: '' @ a)) else sqlReturn ()) d2 = (Inl e, d')"
    unfolding quietErrors_def sqlCheck_def by blast
  then have "\<exists>k. d' = d1\<lparr>db_tick := k\<rparr>"
    by (auto simp: sqlFail_def sqlReturn_def sqlCheck_def dest!: exec_done split: if_splits)
  with deleted_pairs(2) [OF exec_done [OF del]] show ?thesis by auto
qed

lemma reload_pairs [simp]:
  "hostPairs (dbOf (triggerReload env h)) = hostPairs (dbOf h)" "cnamePairs (dbOf (triggerReload env h)) = cnamePairs (dbOf h)"
  "hd_cfg (triggerReload env h) = hd_cfg h"
proof -
  have "dataOf (snd (ExportToConfig (ne_unicode env) d)) = dataOf d" for d
    using reading_ops(2) by (simp add: keeps_def)
  then have "db_records (dbOf (triggerReload env h)) = db_records (dbOf h)"
    by (simp add: triggerReload_def dbOf_def reloadFunc_db dataOf_def)
  then show "hostPairs (dbOf (triggerReload env h)) = hostPairs (dbOf h)" "cnamePairs (dbOf (triggerReload env h)) = cnamePairs (dbOf h)"
    by (simp_all add: hostPairs_def cnamePairs_def)
qed (simp add: triggerReload_def)

text \<open>The shape all changes of the custom names share: memory, then database, then reload.\<close>

lemma custom_change:
  assumes "agrees h" "hd_cfg h = Some cfg" "callDB m k (setCustom c h) = Some ((st, b), h')" "st \<noteq> 500"
    and k: "\<And>r h1. k r h1 = Some ((st, b), h') \<Longrightarrow> h' = triggerReload env h1 \<and> worked r"
    and m: "\<And>r d d'. m d = (r, d') \<Longrightarrow> worked r \<Longrightarrow>
      hostPairs d = {(n, ip). \<exists>ips. map_of (cd_Hosts (CustomDNS cfg)) n = Some ips \<and> ip \<in> set ips} \<Longrightarrow>
      cnamePairs d = {(a, t). map_of (cd_CNAMEs (CustomDNS cfg)) a = Some t} \<Longrightarrow>
      hostPairs d' = {(n, ip). \<exists>ips. map_of (cd_Hosts c) n = Some ips \<and> ip \<in> set ips} \<and>
      cnamePairs d' = {(a, t). map_of (cd_CNAMEs c) a = Some t}"
  shows "agrees h'"
proof -
  from assms(3) obtain r d where d: "m (dbOf (setCustom c h)) = (r, d)"
    "k r ((setCustom c h)\<lparr>hd_node := (hd_node (setCustom c h))\<lparr>nd_db := d\<rparr>\<rparr>) = Some ((st, b), h')" by (rule callDB_Some)
  from k [OF d(2)] have h': "h' = triggerReload env ((setCustom c h)\<lparr>hd_node := (hd_node (setCustom c h))\<lparr>nd_db := d\<rparr>\<rparr>)"
    and w: "worked r" by simp_all
  have "dbOf (setCustom c h) = dbOf h" by (simp add: setCustom_def dbOf_def)
  with m [OF d(1) w] assms(1,2) show ?thesis by (simp add: h' agrees_def setCustom_def)
qed

lemma update_pairs:
  "{(n, ip). \<exists>ips. map_of (AList.update name new hosts) n = Some ips \<and> ip \<in> set ips} =
    {name} \<times> set new \<union> ({(n, ip). \<exists>ips. map_of hosts n = Some ips \<and> ip \<in> set ips} - {name} \<times> UNIV)"
  "{(n, ip). \<exists>ips. map_of (AList.delete name hosts) n = Some ips \<and> ip \<in> set ips} =
    {(n, ip). \<exists>ips. map_of hosts n = Some ips \<and> ip \<in> set ips} - {name} \<times> UNIV"
  "{(a, t). map_of (AList.update al tg cnames) a = Some t} = insert (al, tg) ({(a, t). map_of cnames a = Some t} - {al} \<times> UNIV)"
  "{(a, t). map_of (AList.delete al cnames) a = Some t} = {(a, t). map_of cnames a = Some t} - {al} \<times> UNIV"
  by (auto simp: update_conv' delete_conv' split: if_splits)

lemma fresh_pairs:
  "map_of hosts name = None \<Longrightarrow> {(n, ip). \<exists>ips. map_of hosts n = Some ips \<and> ip \<in> set ips} - {name} \<times> UNIV =
    {(n, ip). \<exists>ips. map_of hosts n = Some ips \<and> ip \<in> set ips}"
  by auto

lemma AddHost_agrees:
  assumes "agrees h" "AddHost env req h = Some ((st, b), h')" "st \<noteq> 500" shows "agrees h'"
proof -
  consider "h' = h" | cfg name ips where "hd_cfg h = Some cfg" "map_of (cd_Hosts (CustomDNS cfg)) name = None"
    "callDB (forEach (DB_AddHost name) ips) (\<lambda>r h. case r of
        Inl e \<Rightarrow> reply 500 (ErrorResponse (''Failed to persist host: '' @ errorText (ne_sqlText env) e)) h
      | Inr _ \<Rightarrow> reply 201 (CustomDNSOperationResponse ''Host record added successfully''
          (Some (HostData \<lparr>hrec_Name = name, hrec_IPs = ips\<rparr>))) (triggerReload env h))
      (setCustom ((CustomDNS cfg)\<lparr>cd_Hosts := AList.update name ips (cd_Hosts (CustomDNS cfg))\<rparr>) h) = Some ((st, b), h')"
    using assms(2)
    by (auto simp: AddHost_def bindJSON_def withCfg_def Let_def reply_Some split: sum.splits option.splits if_splits)
  then show ?thesis
  proof cases
    case (2 cfg name ips)
    show ?thesis
      by (rule custom_change [OF assms(1) 2(1,3) assms(3), where worked = "\<lambda>r. \<exists>u. r = Inr u"])
        (use assms(3) 2(2) in \<open>auto simp: reply_Some update_pairs fresh_pairs split: sum.splits dest!: addHosts_pairs\<close>)
  qed (use assms(1) in simp)
qed

lemma callDB_seq:
  assumes "callDB m (\<lambda>r h. case r of Inl e \<Rightarrow> f e h | Inr _ \<Rightarrow> callDB m2 k h) h = Some out"
  shows "(\<exists>e h1. f e h1 = Some out) \<or> callDB (sqlBind m (\<lambda>_. m2)) k h = Some out"
  using assms
  by (auto simp: callDB_def onDB_def sqlBind_def split: prod.splits sum.splits if_splits)

lemma UpdateHost_agrees:
  assumes "agrees h" "UpdateHost env name req h = Some ((st, b), h')" "st \<noteq> 500" shows "agrees h'"
proof -
  let ?m = "\<lambda>ips. sqlBind (DeleteAllHostsForHostname name) (\<lambda>_. forEach (DB_AddHost name) ips)"
  let ?k = "\<lambda>ips r h. case r of
        Inl e \<Rightarrow> reply 500 (ErrorResponse (''Failed to persist host: '' @ errorText (ne_sqlText env) e)) h
      | Inr _ \<Rightarrow> reply 200 (CustomDNSOperationResponse ''Host record updated successfully''
          (Some (HostData \<lparr>hrec_Name = name, hrec_IPs = ips\<rparr>))) (triggerReload env h)"
  consider "h' = h" | cfg ips where "hd_cfg h = Some cfg"
    "callDB (?m ips) (?k ips) (setCustom ((CustomDNS cfg)\<lparr>cd_Hosts := AList.update name ips (cd_Hosts (CustomDNS cfg))\<rparr>) h) = Some ((st, b), h')"
    using assms(2,3)
    by (auto simp: UpdateHost_def bindJSON_def withCfg_def Let_def reply_Some split: sum.splits option.splits if_splits
        dest!: callDB_seq)
  then show ?thesis
  proof cases
    case (2 cfg ips)
    have pairs: "hostPairs d' = {name} \<times> set ips \<union> (hostPairs d - {name} \<times> UNIV) \<and> cnamePairs d' = cnamePairs d"
      if "?m ips d = (Inr u, d')" for d d' u
      using sqlBind_cases [OF that] by (auto dest!: DeleteAllHosts_pairs addHosts_pairs)
    show ?thesis
      by (rule custom_change [OF assms(1) 2 assms(3), where worked = "\<lambda>r. \<exists>u. r = Inr u"])
        (use assms(3) in \<open>auto simp: reply_Some update_pairs split: sum.splits dest!: pairs\<close>)
  qed (use assms(1) in simp)
qed

lemma DeleteHost_agrees:
  assumes "agrees h" "DeleteHost env name h = Some ((st, b), h')" "st \<noteq> 500" shows "agrees h'"
proof -
  consider "h' = h" | cfg where "hd_cfg h = Some cfg"
    "callDB (DeleteAllHostsForHostname name) (\<lambda>r h. case r of
        Inl e \<Rightarrow> reply 500 (ErrorResponse (''Failed to delete host: '' @ errorText (ne_sqlText env) e)) h
      | Inr _ \<Rightarrow> reply 200 (CustomDNSOperationResponse ''Host record deleted successfully'' None) (triggerReload env h))
      (setCustom ((CustomDNS cfg)\<lparr>cd_Hosts := AList.delete name (cd_Hosts (CustomDNS cfg))\<rparr>) h) = Some ((st, b), h')"
    using assms(2) by (auto simp: DeleteHost_def withCfg_def Let_def reply_Some split: option.splits if_splits)
  then show ?thesis
  proof cases
    case (2 cfg)
    show ?thesis
      by (rule custom_change [OF assms(1) 2 assms(3), where worked = "\<lambda>r. \<exists>u. r = Inr u"])
        (use assms(3) in \<open>auto simp: reply_Some update_pairs split: sum.splits dest!: DeleteAllHosts_pairs\<close>)
  qed (use assms(1) in simp)
qed

text \<open>Adding and updating an alias write the same, with other texts.\<close>

lemma setCNAME_agrees:
  assumes "agrees h" "hd_cfg h = Some cfg" "st \<noteq> 500"
    and "callDB (DB_AddCNAME al tg) (\<lambda>r h. case r of Inl e \<Rightarrow> reply 500 (f e) h | Inr _ \<Rightarrow> reply ok body (triggerReload env h))
      (setCustom ((CustomDNS cfg)\<lparr>cd_CNAMEs := AList.update al tg (cd_CNAMEs (CustomDNS cfg))\<rparr>) h) = Some ((st, b), h')"
  shows "agrees h'"
  by (rule custom_change [OF assms(1,2,4,3), where worked = "\<lambda>r. \<exists>u. r = Inr u"])
    (use assms(3) in \<open>auto simp: reply_Some update_pairs split: sum.splits dest!: DB_AddCNAME_pairs\<close>)

lemma CNAME_agrees:
  assumes "agrees h" "st \<noteq> 500"
  shows "AddCNAME env req h = Some ((st, b), h') \<Longrightarrow> agrees h'"
    "UpdateCNAME env al rq h = Some ((st, b), h') \<Longrightarrow> agrees h'"
  using assms setCNAME_agrees [OF assms(1) _ assms(2)]
  by (auto simp: AddCNAME_def UpdateCNAME_def bindJSON_def withCfg_def Let_def reply_Some split: sum.splits option.splits if_splits)

lemma DeleteCNAME_agrees:
  assumes "quietErrors env" "agrees h" "DeleteCNAME env al h = Some ((st, b), h')" "st \<noteq> 500" shows "agrees h'"
proof -
  let ?fin = "\<lambda>h. reply 200 (CustomDNSOperationResponse ''CNAME record deleted successfully'' None) (triggerReload env h)"
  let ?found = "\<lambda>e. Contains (errorText (ne_sqlText env) e) ''not found''"
  consider "h' = h" | cfg where "hd_cfg h = Some cfg"
    "callDB (DB_DeleteCNAME al) (\<lambda>r h. case r of
        Inl e \<Rightarrow> if ?found e then ?fin h else reply 500 (ErrorResponse (''Failed to delete CNAME: '' @ errorText (ne_sqlText env) e)) h
      | Inr _ \<Rightarrow> ?fin h)
      (setCustom ((CustomDNS cfg)\<lparr>cd_CNAMEs := AList.delete al (cd_CNAMEs (CustomDNS cfg))\<rparr>) h) = Some ((st, b), h')"
    using assms(3) by (auto simp: DeleteCNAME_def withCfg_def Let_def reply_Some split: option.splits if_splits)
  then show ?thesis
  proof cases
    case (2 cfg)
    show ?thesis
      by (rule custom_change [OF assms(2) 2 assms(4), where worked = "\<lambda>r. case r of Inl e \<Rightarrow> ?found e | Inr _ \<Rightarrow> True"])
        (use assms(4) in \<open>auto simp: reply_Some update_pairs split: sum.splits if_splits
          dest!: DB_DeleteCNAME_pairs DB_DeleteCNAME_notFound [OF assms(1)]\<close>)
  qed (use assms(2) in simp)
qed

fun customRequest :: "api_request \<Rightarrow> bool" where
  "customRequest R_ListCustomDNS = True"
| "customRequest (R_AddHost _) = True"
| "customRequest (R_UpdateHost _ _) = True"
| "customRequest (R_DeleteHost _) = True"
| "customRequest (R_AddCNAME _) = True"
| "customRequest (R_UpdateCNAME _ _) = True"
| "customRequest (R_DeleteCNAME _) = True"
| "customRequest _ = False"

lemma custom_agrees:
  assumes "quietErrors env" "agrees h" "customRequest req" "route env req h = Some ((st, b), h')" "st \<noteq> 500"
  shows "agrees h'"
  using assms(3,4,1,2,5)
  by (cases req)
    (auto intro: AddHost_agrees UpdateHost_agrees DeleteHost_agrees CNAME_agrees DeleteCNAME_agrees
      simp: ListCustomDNS_def withCfg_def Let_def reply_Some split: option.splits)

end
