(* ===== verification/Api_Progress.thy ===== *)
theory Api_Progress
  imports Api_Effects
begin

text \<open>
  Every request is answered: with a configuration, a database and a syncer that is not in the
  middle of being stopped twice, no endpoint dereferences nil, the status is one the API
  documents, an error body comes exactly with an error status, and the state is fit for the
  next request.
\<close>

definition syncerOK :: "Syncer \<Rightarrow> bool" where
  "syncerOK sy \<longleftrightarrow> \<not> (sy_running sy \<and> sy_stopClosed sy)"

definition ready :: "'w Handler \<Rightarrow> bool" where
  "ready h \<longleftrightarrow> hd_cfg h \<noteq> None \<and> hd_db h \<and> (\<forall>sy. hd_syncer h = Some sy \<longrightarrow> syncerOK sy)"

definition wfResponse :: "int \<Rightarrow> api_body \<Rightarrow> bool" where
  "wfResponse st b \<longleftrightarrow> st \<in> {200, 201, 400, 401, 403, 404, 409, 500, 501, 503} \<and> (400 \<le> st \<longleftrightarrow> (\<exists>m. b = ErrorResponse m))"

definition typed :: "'w outcome \<Rightarrow> bool" where
  "typed out \<longleftrightarrow> (\<exists>st b h. out = Some ((st, b), h) \<and> wfResponse st b \<and> ready h)"

lemma t_reply: "ready h \<Longrightarrow> wfResponse st b \<Longrightarrow> typed (reply st b h)"
  by (simp add: typed_def reply_def)

lemma ready_node [simp]: "ready (h\<lparr>hd_node := nd\<rparr>) = ready h"
  by (simp add: ready_def)

lemma ready_updates: "ready h \<Longrightarrow> ready (triggerReload env h)" "ready h \<Longrightarrow> ready (onEngine f h)"
  "ready h \<Longrightarrow> ready (setCustom c h)" "ready h \<Longrightarrow> ready (h\<lparr>hd_syncer := None\<rparr>)"
  "ready h \<Longrightarrow> ready (h\<lparr>hd_cfg := map_option g (hd_cfg h)\<rparr>)"
  by (auto simp: triggerReload_def onEngine_def setCustom_def ready_def)

lemma t_call: "ready h \<Longrightarrow> (\<And>r h. ready h \<Longrightarrow> typed (k r h)) \<Longrightarrow> typed (callDB m k h)"
  by (simp add: callDB_def ready_def split: prod.split)

lemma t_bindJSON: "ready h \<Longrightarrow> (\<And>r h. ready h \<Longrightarrow> typed (k r h)) \<Longrightarrow> typed (bindJSON ctx req k h)"
  by (auto simp: bindJSON_def wfResponse_def split: sum.split intro: t_reply)

lemma t_withCfg: "ready h \<Longrightarrow> (\<And>c h. ready h \<Longrightarrow> typed (k c h)) \<Longrightarrow> typed (withCfg k h)"
  by (auto simp: withCfg_def ready_def split: option.split)

lemmas t_intros = t_reply t_call t_bindJSON t_withCfg ready_updates

lemma t_changeDomains:
  assumes "\<And>h. ready h \<Longrightarrow> typed (k h)" shows "ready h \<Longrightarrow> typed (changeDomains env inDB inEngine k ds h)"
  by (induction ds arbitrary: h) (auto simp: assms wfResponse_def ready_updates intro!: t_reply t_call split: sum.split)

lemma t_replyDomains: "ready h \<Longrightarrow> typed (replyDomains env l h)"
  by (auto simp: replyDomains_def wfResponse_def intro!: t_intros split: sum.split)

lemma t_lists: "ready h \<Longrightarrow> typed (getDomainList env l h)" "ready h \<Longrightarrow> typed (addToDomainList env l req h)"
  "ready h \<Longrightarrow> typed (removeFromDomainList env l req h)"
  by (auto simp: getDomainList_def addToDomainList_def removeFromDomainList_def noDatabase_def wfResponse_def
      intro!: t_reply t_bindJSON t_changeDomains t_replyDomains)

lemma t_filtering: "ready h \<Longrightarrow> typed (FilteringStats h)" "ready h \<Longrightarrow> typed (GetBlocklists env h)"
  "ready h \<Longrightarrow> typed (SetBlocklistEnabled env nm rq h)" "ready h \<Longrightarrow> typed (RefreshBlocklist env ts nm h)"
  "ready h \<Longrightarrow> typed (SetFilteringEnabled env rq h)"
  by (auto simp: FilteringStats_def GetBlocklists_def SetBlocklistEnabled_def RefreshBlocklist_def SetFilteringEnabled_def
      noDatabase_def Let_def wfResponse_def intro!: t_intros split: sum.split)

lemma t_hosts: "ready h \<Longrightarrow> typed (ListCustomDNS h)" "ready h \<Longrightarrow> typed (AddHost env ah h)"
  "ready h \<Longrightarrow> typed (UpdateHost env nm uh h)" "ready h \<Longrightarrow> typed (DeleteHost env nm h)"
  by (auto simp: ListCustomDNS_def AddHost_def UpdateHost_def DeleteHost_def Let_def wfResponse_def
      intro!: t_intros split: sum.split option.split)

lemma t_cnames: "ready h \<Longrightarrow> typed (AddCNAME env ac h)" "ready h \<Longrightarrow> typed (UpdateCNAME env nm rc h)"
  "ready h \<Longrightarrow> typed (DeleteCNAME env nm h)"
  by (auto simp: AddCNAME_def UpdateCNAME_def DeleteCNAME_def Let_def wfResponse_def
      intro!: t_intros split: sum.split option.split)

lemma t_config: "ready h \<Longrightarrow> typed (Health h)" "ready h \<Longrightarrow> typed (Stats h)" "ready h \<Longrightarrow> typed (GetConfig h)"
  "ready h \<Longrightarrow> typed (PutConfig h)" "ready h \<Longrightarrow> typed (ReloadConfig h)" "ready h \<Longrightarrow> typed (GetClusterConfig h)"
  "ready h \<Longrightarrow> typed (GetClusterExport ts sec h)"
  by (auto simp: Health_def Stats_def GetConfig_def PutConfig_def ReloadConfig_def GetClusterConfig_def GetClusterExport_def
      unavailable_def wfResponse_def intro!: t_intros split: sum.split option.split)

lemma Stop_ok: "syncerOK sy \<Longrightarrow> \<exists>sy'. Syncer_Stop sy = Some sy'"
  by (auto simp: Syncer_Stop_def syncerOK_def Let_def split: sync_loop.split)

lemma ready_stop: "ready h \<Longrightarrow> hd_syncer h = Some sy \<Longrightarrow> Syncer_Stop sy \<noteq> None"
  using Stop_ok [of sy] by (auto simp: ready_def)

lemma t_putCluster: "ready h \<Longrightarrow> typed (PutClusterConfig uuid req h)"
  unfolding PutClusterConfig_def unavailable_def Let_def
  by (auto simp: wfResponse_def intro!: t_intros split: sum.split option.split; meson ready_stop)

lemma t_status: "ready h \<Longrightarrow> typed (GetClusterStatus env h)"
  by (auto simp: GetClusterStatus_def unavailable_def wfResponse_def Let_def intro!: t_reply split: option.split prod.split)

lemma t_sync: "ready h \<Longrightarrow> typed (PostClusterSync env now h)"
proof -
  assume h: "ready h"
  have ok: "ready (h\<lparr>hd_syncer := Some sy', hd_node := nd'\<rparr>)"
    if "hd_syncer h = Some sy" "doSync tx http cb cfg now sy nd = (r, sy', nd')" for tx http cb cfg sy nd r sy' nd'
    using h that(1) doSync_counts(4,6) [OF that(2)] by (auto simp: ready_def syncerOK_def)
  show ?thesis
    using h ok
    by (auto simp: PostClusterSync_def ForceSync_def unavailable_def wfResponse_def Let_def intro!: t_reply
        split: option.split prod.split)
qed

lemma route_typed: "ready h \<Longrightarrow> typed (route env req h)"
  by (cases req)
    (simp_all add: GetWhitelist_def AddWhitelist_def RemoveWhitelist_def GetBlacklist_def AddBlacklist_def RemoveBlacklist_def
      t_lists t_filtering t_hosts t_cnames t_config t_putCluster t_status t_sync)

lemma request_typed: "ready h \<Longrightarrow> typed (RegisterRoutes env registered got req h)"
  by (auto simp: RegisterRoutes_def RequireAPIKey_def route_typed wfResponse_def intro!: t_reply split: option.split)

end
