(* ===== verification/Api_Export.thy ===== *)
theory Api_Export
  imports Api_Progress
begin

text \<open>
  What a primary exports after a change of its domain lists: the handlers change the database,
  hence the version, and the engine, while the export reads the configuration in memory.
\<close>

lemma replyDomains_same:
  assumes "replyDomains env (blacklistOps uc) h = Some (resp, h')"
  shows "hd_cfg h' = hd_cfg h \<and> versioned (dbOf h) (dbOf h')"
  using assms unfolding replyDomains_def
proof (rule callDB_Some)
  fix r d
  assume "lo_getFromDB (blacklistOps uc) (dbOf h) = (r, d)"
    and k: "(case r of Inl e \<Rightarrow> reply 503 (ErrorResponse (errorText (ne_sqlText env) e))
      | Inr domains \<Rightarrow> reply 200 (DomainListResponse domains (int (length domains)))) (h\<lparr>hd_node := (hd_node h)\<lparr>nd_db := d\<rparr>\<rparr>) = Some (resp, h')"
  then have "GetBlacklistDomains (dbOf h) = (r, d)" by (simp add: blacklistOps_def)
  from keepsD [OF ver.keeps_rows this [unfolded GetBlacklistDomains_def]] k show ?thesis
    by (cases r) (auto simp: reply_Some)
qed

lemma blacklisting_same_config:
  assumes "changeDomains env AddBlacklistDomain inEngine (replyDomains env (blacklistOps uc)) ds h = Some (resp, h')"
  shows "hd_cfg h' = hd_cfg h \<and> versioned (dbOf h) (dbOf h')"
  using assms
proof (induction ds arbitrary: h)
  case Nil
  then show ?case using replyDomains_same by simp
next
  case (Cons x ds)
  from Cons.prems [unfolded changeDomains.simps] show ?case
  proof (rule callDB_Some)
    fix r d
    let ?h = "h\<lparr>hd_node := (hd_node h)\<lparr>nd_db := d\<rparr>\<rparr>"
    let ?h1 = "if hd_policy ?h then onEngine (\<lambda>pe. inEngine pe x) ?h else ?h"
    assume r: "AddBlacklistDomain x (dbOf h) = (r, d)"
      and k: "(case r of Inl e \<Rightarrow> reply 400 (ErrorResponse (errorText (ne_sqlText env) e)) ?h
        | Inr _ \<Rightarrow> changeDomains env AddBlacklistDomain inEngine (replyDomains env (blacklistOps uc)) ds ?h1) = Some (resp, h')"
    have v: "versioned (dbOf h) d" by (rule keepsD [OF filtering_ops_versioned(3) r])
    have h1: "hd_cfg ?h1 = hd_cfg h" "dbOf ?h1 = d" by simp_all
    show ?case
    proof (cases r)
      case (Inl e)
      with k v show ?thesis by (auto simp: reply_Some)
    next
      case (Inr u)
      with k have "changeDomains env AddBlacklistDomain inEngine (replyDomains env (blacklistOps uc)) ds ?h1 = Some (resp, h')" by simp
      from Cons.IH [OF this] h1 v show ?thesis using versioned_trans by metis
    qed
  qed
qed

lemma AddBlacklist_same_config:
  assumes "AddBlacklist env (Inr ds) h = Some (resp, h')"
  shows "hd_cfg h' = hd_cfg h" "versioned (dbOf h) (dbOf h')"
proof -
  have "hd_db h \<Longrightarrow> changeDomains env AddBlacklistDomain (AddToBlacklist (ne_unicode env)) (replyDomains env (blacklistOps (ne_unicode env))) ds h = Some (resp, h')"
    "\<not> hd_db h \<Longrightarrow> h' = h"
    using assms by (simp_all add: AddBlacklist_def addToDomainList_def bindJSON_def blacklistOps_def noDatabase_def reply_Some)
  with blacklisting_same_config [of env "AddToBlacklist (ne_unicode env)" "ne_unicode env" ds h resp h'] ver.same
  show "hd_cfg h' = hd_cfg h" "versioned (dbOf h) (dbOf h')" by (cases "hd_db h"; simp)+
qed

lemma GetClusterExport_ok:
  assumes "GetClusterExport ts sec h = Some ((200, b), h')"
  obtains cfg v where "hd_cfg h = Some cfg" "db_version (dbOf h) = Some v" "b = ExportResponse \<lparr>ed_Version = v, ed_Timestamp = ts,
    ed_NodeID = cc_NodeID (Cluster cfg), ed_Upstream = Upstream cfg, ed_CustomDNS = CustomDNS cfg, ed_Filtering = Filtering cfg\<rparr>"
proof -
  from assms obtain cfg where cfg: "hd_cfg h = Some cfg" and call: "callDB GetVersion (\<lambda>r. case r of
      Inl _ \<Rightarrow> reply 500 (ErrorResponse ''failed to get config version'')
    | Inr version \<Rightarrow> reply 200 (ExportResponse \<lparr>ed_Version = version, ed_Timestamp = ts, ed_NodeID = cc_NodeID (Cluster cfg),
        ed_Upstream = Upstream cfg, ed_CustomDNS = CustomDNS cfg, ed_Filtering = Filtering cfg\<rparr>)) h = Some ((200, b), h')"
    by (auto simp: GetClusterExport_def unavailable_def reply_Some split: option.splits if_splits)
  from call show thesis
  proof (rule callDB_Some)
    fix r d
    assume "GetVersion (dbOf h) = (r, d)" and k: "(case r of Inl _ \<Rightarrow> reply 500 (ErrorResponse ''failed to get config version'')
      | Inr version \<Rightarrow> reply 200 (ExportResponse \<lparr>ed_Version = version, ed_Timestamp = ts, ed_NodeID = cc_NodeID (Cluster cfg),
          ed_Upstream = Upstream cfg, ed_CustomDNS = CustomDNS cfg, ed_Filtering = Filtering cfg\<rparr>))
      (h\<lparr>hd_node := (hd_node h)\<lparr>nd_db := d\<rparr>\<rparr>) = Some ((200, b), h')"
    then have "db_version (dbOf h) = Some v" if "r = Inr v" for v
      using that by (auto simp: GetVersion_def sqlRow_def sqlExec_def driverCall_def split: option.splits)
    with k cfg that show thesis by (cases r) (auto simp: reply_Some)
  qed
qed

lemma export_misses_blacklist:
  assumes add: "AddBlacklist env (Inr ds) h = Some ((200, b), h')" "x \<in> set ds" "x \<notin> set (blacklistKeys (dbOf h))"
    and pol: "hd_policy h" "policyInv (policyOf h)"
    and before: "GetClusterExport ts sec h = Some ((200, ExportResponse e), h1)"
    and after: "GetClusterExport ts sec h' = Some ((200, ExportResponse e'), h2)"
  shows "x \<in> set (blacklistKeys (dbOf h'))" "ed_Version e < ed_Version e'" "e' = e\<lparr>ed_Version := ed_Version e'\<rparr>"
proof -
  from blacklisted.add_request [OF add(1) [unfolded AddBlacklist_def] pol] add(2)
  show x: "x \<in> set (blacklistKeys (dbOf h'))" by auto
  from before obtain cfg v where 1: "hd_cfg h = Some cfg" "db_version (dbOf h) = Some v"
    "ExportResponse e = ExportResponse \<lparr>ed_Version = v, ed_Timestamp = ts,
    ed_NodeID = cc_NodeID (Cluster cfg), ed_Upstream = Upstream cfg, ed_CustomDNS = CustomDNS cfg, ed_Filtering = Filtering cfg\<rparr>"
    by (rule GetClusterExport_ok)
  from after obtain cfg' v' where 2: "hd_cfg h' = Some cfg'" "db_version (dbOf h') = Some v'"
    "ExportResponse e' = ExportResponse \<lparr>ed_Version = v', ed_Timestamp = ts,
    ed_NodeID = cc_NodeID (Cluster cfg'), ed_Upstream = Upstream cfg', ed_CustomDNS = CustomDNS cfg', ed_Filtering = Filtering cfg'\<rparr>"
    by (rule GetClusterExport_ok)
  note same = AddBlacklist_same_config [OF add(1)]
  from same(1) 1(1) 2(1) have "cfg' = cfg" by simp
  with 1(3) 2(3) show "e' = e\<lparr>ed_Version := ed_Version e'\<rparr>" by simp
  have "dataOf (dbOf h') \<noteq> dataOf (dbOf h)" using x add(3) by (auto simp: dataOf_def blacklistKeys_def)
  with same(2) 1(2) 2(2) have "v < v'" by (auto simp: versioned_def)
  with 1(3) 2(3) show "ed_Version e < ed_Version e'" by simp
qed

end
