(* ===== verification/Api_Secrets.thy ===== *)
theory Api_Secrets
  imports Api_Effects
begin

text \<open>
  The API key and the shared secret of the cluster. A request runs the same way whatever the
  secrets are: replacing them in the configuration (\<open>maskH\<close>) commutes with every endpoint that
  neither checks, sends nor sets one.
\<close>

definition mask :: "string \<Rightarrow> string \<Rightarrow> Config \<Rightarrow> Config" where
  "mask key secret cfg = cfg\<lparr>API := (API cfg)\<lparr>ac_APIKey := key\<rparr>, Cluster := (Cluster cfg)\<lparr>cc_SharedSecret := secret\<rparr>\<rparr>"

definition maskH :: "string \<Rightarrow> string \<Rightarrow> 'w Handler \<Rightarrow> 'w Handler" where
  "maskH key secret h = h\<lparr>hd_cfg := map_option (mask key secret) (hd_cfg h)\<rparr>"

definition masked :: "string \<Rightarrow> string \<Rightarrow> 'w outcome \<Rightarrow> 'w outcome" where
  "masked key secret out = map_option (map_prod id (maskH key secret)) out"

lemma mask_fields [simp]:
  "CustomDNS (mask key secret cfg) = CustomDNS cfg" "cc_Mode (Cluster (mask key secret cfg)) = cc_Mode (Cluster cfg)"
  "cc_NodeID (Cluster (mask key secret cfg)) = cc_NodeID (Cluster cfg)" "configView (mask key secret cfg) = configView cfg"
  "cc_SharedSecret (Cluster (mask key secret cfg)) = secret" "Upstream (mask key secret cfg) = Upstream cfg"
  "Filtering (mask key secret cfg) = Filtering cfg"
  "(Cluster (mask key secret cfg))\<lparr>cc_SharedSecret := x\<rparr> = (Cluster cfg)\<lparr>cc_SharedSecret := x\<rparr>"
  by (simp_all add: mask_def configView_def Let_def)

lemma maskH_fields [simp]:
  "hd_db (maskH key secret h) = hd_db h" "hd_policy (maskH key secret h) = hd_policy h" "hd_reload (maskH key secret h) = hd_reload h"
  "hd_stats (maskH key secret h) = hd_stats h" "hd_syncer (maskH key secret h) = hd_syncer h" "hd_node (maskH key secret h) = hd_node h"
  "hd_cfg (maskH key secret h) = map_option (mask key secret) (hd_cfg h)"
  by (simp_all add: maskH_def)

lemma mask_reply: "reply st b (maskH key secret h) = masked key secret (reply st b h)"
  by (simp add: reply_def masked_def)

lemma maskH_updates:
  "(maskH key secret h)\<lparr>hd_node := nd\<rparr> = maskH key secret (h\<lparr>hd_node := nd\<rparr>)"
  "triggerReload env (maskH key secret h) = maskH key secret (triggerReload env h)"
  "onEngine f (maskH key secret h) = maskH key secret (onEngine f h)"
  "setCustom c (maskH key secret h) = maskH key secret (setCustom c h)"
  by (cases "hd_cfg h"; simp add: maskH_def triggerReload_def onEngine_def setCustom_def mask_def)+

lemma mask_callDB:
  "(\<And>r h. k r (maskH key secret h) = masked key secret (k r h)) \<Longrightarrow> callDB m k (maskH key secret h) = masked key secret (callDB m k h)"
  by (simp add: callDB_def maskH_updates masked_def [of _ _ None] split: prod.split)

lemma mask_bindJSON:
  "(\<And>r h. k r (maskH key secret h) = masked key secret (k r h)) \<Longrightarrow> bindJSON ctx req k (maskH key secret h) = masked key secret (bindJSON ctx req k h)"
  by (simp add: bindJSON_def mask_reply split: sum.split)

lemma mask_withCfg:
  "(\<And>c h. k (mask key secret c) (maskH key secret h) = masked key secret (k c h)) \<Longrightarrow>
    withCfg k (maskH key secret h) = masked key secret (withCfg k h)"
  by (simp add: withCfg_def masked_def [of _ _ None] split: option.split)

lemmas mask_intros = mask_callDB mask_bindJSON mask_withCfg

lemma mask_replyDomains: "replyDomains env l (maskH key secret h) = masked key secret (replyDomains env l h)"
  unfolding replyDomains_def by (intro mask_intros) (simp add: mask_reply split: sum.split)

lemma mask_changeDomains:
  assumes "\<And>h. k (maskH key secret h) = masked key secret (k h)"
  shows "changeDomains env inDB inEngine k ds (maskH key secret h) = masked key secret (changeDomains env inDB inEngine k ds h)"
  by (induction ds arbitrary: h) (auto simp: assms mask_reply maskH_updates split: sum.split intro!: mask_callDB)

lemma mask_lists:
  "getDomainList env l (maskH key secret h) = masked key secret (getDomainList env l h)"
  "addToDomainList env l req (maskH key secret h) = masked key secret (addToDomainList env l req h)"
  "removeFromDomainList env l req (maskH key secret h) = masked key secret (removeFromDomainList env l req h)"
  by (auto simp: getDomainList_def addToDomainList_def removeFromDomainList_def noDatabase_def mask_reply mask_replyDomains
      intro!: mask_bindJSON mask_changeDomains)

lemma mask_filtering:
  "FilteringStats (maskH key secret h) = masked key secret (FilteringStats h)"
  "GetBlocklists env (maskH key secret h) = masked key secret (GetBlocklists env h)"
  "SetBlocklistEnabled env nm rq (maskH key secret h) = masked key secret (SetBlocklistEnabled env nm rq h)"
  "RefreshBlocklist env ts nm (maskH key secret h) = masked key secret (RefreshBlocklist env ts nm h)"
  "SetFilteringEnabled env rq (maskH key secret h) = masked key secret (SetFilteringEnabled env rq h)"
  by (auto simp: FilteringStats_def GetBlocklists_def SetBlocklistEnabled_def RefreshBlocklist_def SetFilteringEnabled_def
      noDatabase_def mask_reply maskH_updates Let_def split: sum.split intro!: mask_intros)

lemma mask_custom:
  "ListCustomDNS (maskH key secret h) = masked key secret (ListCustomDNS h)"
  "AddHost env ah (maskH key secret h) = masked key secret (AddHost env ah h)"
  "UpdateHost env nm uh (maskH key secret h) = masked key secret (UpdateHost env nm uh h)"
  "DeleteHost env nm (maskH key secret h) = masked key secret (DeleteHost env nm h)"
  "AddCNAME env ac (maskH key secret h) = masked key secret (AddCNAME env ac h)"
  "UpdateCNAME env nm rc (maskH key secret h) = masked key secret (UpdateCNAME env nm rc h)"
  "DeleteCNAME env nm (maskH key secret h) = masked key secret (DeleteCNAME env nm h)"
  by (auto simp: ListCustomDNS_def AddHost_def UpdateHost_def DeleteHost_def AddCNAME_def UpdateCNAME_def DeleteCNAME_def
      mask_reply maskH_updates Let_def split: sum.split option.split intro!: mask_intros)

lemma mask_config:
  "Health (maskH key secret h) = masked key secret (Health h)" "Stats (maskH key secret h) = masked key secret (Stats h)"
  "GetConfig (maskH key secret h) = masked key secret (GetConfig h)" "PutConfig (maskH key secret h) = masked key secret (PutConfig h)"
  "ReloadConfig (maskH key secret h) = masked key secret (ReloadConfig h)"
  by (auto simp: Health_def Stats_def GetConfig_def PutConfig_def ReloadConfig_def unavailable_def getDNSStats_def mask_reply
      split: option.split)

definition hasSecret :: "'w Handler \<Rightarrow> bool" where
  "hasSecret h \<longleftrightarrow> (\<exists>cfg. hd_cfg h = Some cfg \<and> cc_SharedSecret (Cluster cfg) \<noteq> '''')"

lemma mask_clusterConfig:
  "secret \<noteq> '''' \<Longrightarrow> hasSecret h \<Longrightarrow> GetClusterConfig (maskH key secret h) = masked key secret (GetClusterConfig h)"
  by (auto simp: GetClusterConfig_def hasSecret_def mask_reply split: option.split)

lemma mask_clusterStatus: "GetClusterStatus env (maskH key secret h) = masked key secret (GetClusterStatus env h)"
proof (cases "hd_cfg h")
  case (Some cfg)
  have "Syncer_Status cb (Cluster (mask key secret cfg)) sy nd = Syncer_Status cb (Cluster cfg) sy nd" for cb :: "'a node sync_callbacks" and sy nd
    by (simp add: Syncer_Status_def mask_def)
  then show ?thesis
    by (simp add: GetClusterStatus_def Some mask_reply maskH_updates Let_def split: option.split prod.split)
qed (simp add: GetClusterStatus_def unavailable_def mask_reply)

fun usesSecrets :: "api_request \<Rightarrow> bool" where
  "usesSecrets (R_PutClusterConfig _ _) = True"
| "usesSecrets (R_GetClusterExport _ _) = True"
| "usesSecrets (R_PostClusterSync _) = True"
| "usesSecrets _ = False"

lemma route_mask:
  assumes "secret \<noteq> ''''" "hasSecret h" "\<not> usesSecrets req"
  shows "route env req (maskH key secret h) = masked key secret (route env req h)"
  using assms
  by (cases req)
    (simp_all add: GetWhitelist_def AddWhitelist_def RemoveWhitelist_def GetBlacklist_def AddBlacklist_def RemoveBlacklist_def
      mask_lists mask_filtering mask_custom mask_config mask_clusterConfig mask_clusterStatus)

text \<open>The export checks the secret and does not contain it.\<close>

lemma export_mask:
  assumes "GetClusterExport ts sec h = Some ((200, b), h')" "hd_cfg h = Some cfg"
  shows "cc_SharedSecret (Cluster cfg) = '''' \<or> sec = cc_SharedSecret (Cluster cfg)"
    "GetClusterExport ts sec' (maskH key sec' h) = Some ((200, b), maskH key sec' h')"
proof -
  have 1: "cc_Mode (Cluster cfg) \<noteq> ClusterModeSecondary" "hd_db h" "cc_SharedSecret (Cluster cfg) = '''' \<or> sec = cc_SharedSecret (Cluster cfg)"
    using assms by (auto simp: GetClusterExport_def unavailable_def reply_Some split: if_splits)
  then show "cc_SharedSecret (Cluster cfg) = '''' \<or> sec = cc_SharedSecret (Cluster cfg)" by blast
  let ?k = "\<lambda>r. case r of Inl _ \<Rightarrow> reply 500 (ErrorResponse ''failed to get config version'')
    | Inr version \<Rightarrow> reply 200 (ExportResponse \<lparr>ed_Version = version, ed_Timestamp = ts, ed_NodeID = cc_NodeID (Cluster cfg),
        ed_Upstream = Upstream cfg, ed_CustomDNS = CustomDNS cfg, ed_Filtering = Filtering cfg\<rparr>)"
  have "GetClusterExport ts sec' (maskH key sec' h) = callDB GetVersion ?k (maskH key sec' h)"
    using 1 assms(2) by (auto simp: GetClusterExport_def)
  also have "\<dots> = masked key sec' (callDB GetVersion ?k h)"
    by (rule mask_callDB) (simp add: mask_reply split: sum.split)
  also have "callDB GetVersion ?k h = Some ((200, b), h')"
    using assms 1 by (auto simp: GetClusterExport_def)
  finally show "GetClusterExport ts sec' (maskH key sec' h) = Some ((200, b), maskH key sec' h')" by (simp add: masked_def)
qed

end
