(* ===== verification/Samples_Node.thy ===== *)
theory Samples_Node
  imports Samples_Servers Database_Life Node_Start Cli Logging_Setup Api_Export Api_Secrets
begin

text \<open>
  Concrete nodes for the witnesses: a primary with a custom host, what it exports, an HTTP client
  that returns this export, a secondary with the tables the migrations create, and the handlers of
  its API.
\<close>

definition freshNode :: DB where
  "freshNode = freshDB (\<lambda>_. None)"

definition samplePrimary :: DB where
  "samplePrimary = snd (DB_AddHost ''nas.home'' ''192.168.1.10'' freshNode)"

definition sampleExport :: ExportData where
  "sampleExport = \<lparr>ed_Version = 6, ed_Timestamp = ''2026-01-01T00:00:00Z'', ed_NodeID = ''a'',
     ed_Upstream = upstreamOf samplePrimary, ed_CustomDNS = customOf samplePrimary, ed_Filtering = filteringOf samplePrimary\<rparr>"

definition sampleHttp :: "'w node http" where
  "sampleHttp = \<lparr>ht_newRequest = (\<lambda>_. None), ht_do = (\<lambda>_ _ nd. (Inr \<lparr>hp_status = 200, hp_body = ''{}''\<rparr>, nd)),
     ht_decode = (\<lambda>_. Inr sampleExport)\<rparr>"

definition sampleNodeEnv :: "'w node_env" where
  "sampleNodeEnv = \<lparr>ne_unicode = sampleUC, ne_parseDuration = sampleDurations, ne_sqlText = (\<lambda>_. ''disk error''),
     ne_resolveText = (\<lambda>_. ''resolve error''), ne_http = sampleHttp\<rparr>"

definition sampleNode :: "int node" where
  "sampleNode = \<lparr>nd_db = freshNode, nd_hydra = sampleHydra\<rparr>"

definition sampleCluster :: ClusterConfig where
  "sampleCluster = \<lparr>cc_Mode = ''secondary'', cc_NodeID = ''b'', cc_PrimaryURL = ''http://a:8080'', cc_SharedSecret = ''s3cret'',
     cc_SyncInterval = ''30s'', cc_SyncTimeout = ''10s''\<rparr>"

definition sampleSyncer :: Syncer where
  "sampleSyncer = \<lparr>sy_timeout = 30 * Second, sy_running = False, sy_lastSyncTime = None, sy_lastSyncVersion = 0,
     sy_lastSyncError = '''', sy_nextSyncTime = None, sy_syncCount = 0, sy_errorCount = 0, sy_stopClosed = False,
     sy_doneClosed = False, sy_loop = NoLoop\<rparr>"

text \<open>The API of a standalone node with an API key and a shared secret.\<close>

definition sampleHandlerConfig :: Config where
  "sampleHandlerConfig = sampleConfig\<lparr>CustomDNS := \<lparr>cd_Hosts = [], cd_CNAMEs = []\<rparr>,
     API := (API sampleConfig)\<lparr>ac_APIKey := ''k3y''\<rparr>, Cluster := (Cluster sampleConfig)\<lparr>cc_SharedSecret := ''s3cret''\<rparr>\<rparr>"

definition sampleHandler :: "int Handler" where
  "sampleHandler = newAPIHandler sampleHandlerConfig NewDNSStats None sampleNode"

definition sampleFlags :: cliFlags where
  "sampleFlags = \<lparr>f_dbPath = ''hydradns.db'', f_host = '''', f_port = 0, f_workers = - 1, f_noTCP = False, f_jsonLogs = False, f_debug = False,
     f_clusterMode = ''secondary'', f_clusterPrimary = ''http://a:8080'', f_clusterSecret = '''', f_clusterNodeID = ''''\<rparr>"

lemma sampleNodeEnv_parts [simp]:
  "ne_unicode sampleNodeEnv = sampleUC" "ne_http sampleNodeEnv = sampleHttp"
  by (simp_all add: sampleNodeEnv_def)

lemma freshNode_ok: "noFaults freshNode" "dbInv freshNode" "db_version freshNode = Some 5"
  by (simp_all add: freshNode_def freshDB_faults freshDB_inv) (simp add: freshDB_def)

lemma samplePrimary_step: "db_edit\<^sup>*\<^sup>* (freshDB (\<lambda>_. None)) samplePrimary"
  unfolding samplePrimary_def freshNode_def by (rule r_into_rtranclp, rule db_edit.addHost)

lemma samplePrimary_reachable: "db_step\<^sup>*\<^sup>* (freshDB (\<lambda>_. None)) samplePrimary"
  unfolding samplePrimary_def freshNode_def by (rule r_into_rtranclp, rule db_step.edit, rule db_edit.addHost)

lemma sampleHost_type: "recordTypeOf ''192.168.1.10'' = Some RecordTypeA"
  by code_simp

lemma samplePrimary_added:
  "samplePrimary = bump 1 (freshNode\<lparr>db_tick := 1,
     db_records := appendRow (newRecord ''nas.home'' RecordTypeA ''192.168.1.10'') (db_records freshNode)\<rparr>)"
proof -
  have "db_tick freshNode = 0" "db_records freshNode = emptyTable" by (simp_all add: freshNode_def freshDB_def)
  then show ?thesis
    unfolding samplePrimary_def DB_AddHost_def using freshNode_ok(1)
    by (simp add: sampleHost_type sqlExec_ok upsertRecord_def insertRecord_def hasRecord_def emptyTable_def)
qed

lemma samplePrimary_ok: "noFaults samplePrimary" "dbInv samplePrimary" "db_version samplePrimary = Some 6"
proof -
  show "dbInv samplePrimary" by (rule db_reachable_inv [OF samplePrimary_reachable])
  show "noFaults samplePrimary" "db_version samplePrimary = Some 6"
    unfolding samplePrimary_added using freshNode_ok by (simp_all add: noFaults_def)
qed

lemma sampleExport_of: "exportOf samplePrimary sampleExport" "ed_Version sampleExport = 6"
  by (simp_all add: exportOf_def sampleExport_def)

lemma sampleFetch: "fetchConfig sampleHttp cfg sy nd = (Inr sampleExport, nd)"
  by (simp add: fetchConfig_def sampleHttp_def)

lemma fetched_refl: "nodeFetched nd nd"
  by (auto simp: nodeFetched_def intro!: exI [of _ "hy_world (nd_hydra nd)"])

lemma sampleNet_ok: "netOK sampleNodeEnv"
  using exportOf_importable(2) [OF samplePrimary_ok(2) sampleExport_of(1)]
  by (auto simp: netOK_def sampleFetch fetched_refl)

lemma samplePrimary_rows: "tbl_rows (db_records samplePrimary) = [newRecord ''nas.home'' RecordTypeA ''192.168.1.10'' 1]"
  unfolding samplePrimary_added by (simp add: freshNode_def freshDB_def emptyTable_def)

lemma samplePrimary_custom: "customOf samplePrimary = \<lparr>cd_Hosts = [(''nas.home'', [''192.168.1.10''])], cd_CNAMEs = []\<rparr>"
  by (simp add: customOf_def allHosts_def allCNAMEs_def samplePrimary_rows groupHosts_def groupCNAMEs_def appendAt_def
      newRecord_def isHostRow_def isCNAMERow_def RecordTypeA_def RecordTypeAAAA_def RecordTypeCNAME_def)

lemma sampleHandler_parts:
  "hd_cfg sampleHandler = Some sampleHandlerConfig" "hd_db sampleHandler" "hd_policy sampleHandler" "hd_reload sampleHandler"
  "hd_syncer sampleHandler = None" "dbOf sampleHandler = freshNode" "policyOf sampleHandler = hy_policy sampleHydra"
  "hydraOf sampleHandler = sampleHydra" "hd_node sampleHandler = sampleNode"
  by (simp_all add: sampleHandler_def newAPIHandler_def SetClusterSyncer_def SetCustomDNSReloadFunc_def SetDNSStatsFunc_def
      SetPolicyEngine_def dbOf_def policyOf_def hydraOf_def sampleNode_def)

lemma sampleHandler_ready: "ready sampleHandler"
  by (simp add: ready_def sampleHandler_parts)

lemma sampleHandler_policy: "policyInv (policyOf sampleHandler)"
  using sampleHydra_inv by (simp add: sampleHandler_parts hydraInv_def)

section \<open>A blacklist request\<close>

lemma freshNode_blacklist: "tbl_rows (db_blacklist freshNode) = []" "tbl_seq (db_blacklist freshNode) = 0" "blacklistKeys freshNode = []"
  by (simp_all add: freshNode_def freshDB_def emptyTable_def blacklistKeys_def)

definition blacklistedNode :: DB where
  "blacklistedNode = snd (AddBlacklistDomain ''io'' freshNode)"

lemma blacklistedNode_ok:
  "AddBlacklistDomain ''io'' freshNode = (Inr (), blacklistedNode)" "noFaults blacklistedNode" "db_version blacklistedNode = Some 6"
  "sortedDomains (db_blacklist blacklistedNode) = [''io'']"
  unfolding blacklistedNode_def AddBlacklistDomain_def using freshNode_ok(1,3)
  by (simp_all add: sqlExec_ok ignoreBlacklist_def hasDomain_def freshNode_blacklist sortedDomains_def newDomain_def noFaults_def)

lemma sampleBlacklist:
  obtains h n where "AddBlacklist sampleNodeEnv (Inr [''io'']) sampleHandler = Some ((200, DomainListResponse [''io''] 1), h)"
    "hd_cfg h = Some sampleHandlerConfig" "hd_db h" "dbOf h = blacklistedNode\<lparr>db_tick := n\<rparr>"
proof -
  let ?h = "onEngine (\<lambda>pe. AddToBlacklist sampleUC pe ''io'') (sampleHandler\<lparr>hd_node := sampleNode\<lparr>nd_db := blacklistedNode\<rparr>\<rparr>)"
  obtain n where get: "GetBlacklistDomains blacklistedNode = (Inr [''io''], blacklistedNode\<lparr>db_tick := n\<rparr>)"
    using sqlRows_ok [OF blacklistedNode_ok(2), of "\<lambda>d. sortedDomains (db_blacklist d)"] blacklistedNode_ok(4)
    unfolding GetBlacklistDomains_def by fastforce
  have "AddBlacklist sampleNodeEnv (Inr [''io'']) sampleHandler = replyDomains sampleNodeEnv (blacklistOps sampleUC) ?h"
    by (simp add: AddBlacklist_def addToDomainList_def bindJSON_def blacklistOps_def callDB_def onDB_def sampleHandler_parts
        blacklistedNode_ok(1)) (simp add: sampleNode_def blacklistedNode_ok(1) sampleHandler_parts)
  also have "\<dots> = Some ((200, DomainListResponse [''io''] 1), ?h\<lparr>hd_node := (hd_node ?h)\<lparr>nd_db := blacklistedNode\<lparr>db_tick := n\<rparr>\<rparr>\<rparr>)"
    using get by (simp add: replyDomains_def blacklistOps_def callDB_def onDB_def reply_def sampleHandler_parts onEngine_def)
  finally show thesis by (rule that) (simp_all add: sampleHandler_parts)
qed

lemma sampleExport_request:
  assumes "hd_cfg h = Some sampleHandlerConfig" "hd_db h" "dbOf h = d" "noFaults d" "db_version d = Some v"
  shows "\<exists>e h'. GetClusterExport ts ''s3cret'' h = Some ((200, ExportResponse e), h') \<and> ed_Version e = v"
  using assms
  by (simp add: GetClusterExport_def callDB_def onDB_def GetVersion_def sqlRow_ok dbOf_def reply_def sampleHandlerConfig_def
      sampleConfig_def ClusterModeSecondary_def)

lemma sampleHandler_agrees: "agrees sampleHandler"
proof -
  have "hostPairs freshNode = {}" "cnamePairs freshNode = {}"
    by (simp_all add: hostPairs_def cnamePairs_def freshNode_def freshDB_def emptyTable_def)
  then show ?thesis by (simp add: agrees_def sampleHandler_parts sampleHandlerConfig_def)
qed

lemma sampleEnv_quiet: "quietErrors sampleNodeEnv"
proof -
  have "set t \<subseteq> set s" if "Contains s t" for s t
    using that unfolding Contains_def by (metis set_take_subset set_drop_subset subset_trans)
  then have "\<not> Contains ''failed to delete CNAME: disk error'' ''not found''" "\<not> Contains ''failed to get affected rows: disk error'' ''not found''"
    by fastforce+
  then show ?thesis by (simp add: quietErrors_def sampleNodeEnv_def)
qed

lemma freshNode_enable:
  "\<exists>d. DB_SetFilteringEnabled True freshNode = (Inr (), d) \<and> tbl_rows (db_records d) = []"
proof -
  have f: "\<exists>r. db_filtering freshNode = Some r" "tbl_rows (db_records freshNode) = []" "\<forall>n. db_fault freshNode n = None"
    by (simp_all add: freshNode_def freshDB_def emptyTable_def)
  then obtain r where "db_filtering freshNode = Some r" by blast
  with f(2,3) show ?thesis
    by (simp add: DB_SetFilteringEnabled_def mustAffect_def sqlBind_def sqlCheck_def sqlExec_def driverCall_def updateFiltering_def
        countRow_def sqlReturn_def Let_def)
qed
lemma sampleHandlerConfig_parts:
  "cd_Hosts (CustomDNS sampleHandlerConfig) = []" "cd_CNAMEs (CustomDNS sampleHandlerConfig) = []"
  "ac_APIKey (API sampleHandlerConfig) = ''k3y''" "cc_SharedSecret (Cluster sampleHandlerConfig) = ''s3cret''"
  by (simp_all add: sampleHandlerConfig_def)

end
