(* ===== verification/Spec2Isabelle.thy ===== *)
theory Spec2Isabelle
  imports Samples_Node
begin

text \<open>
  HydraDNS is a forwarding DNS server. A request arrives on a UDP socket or a TCP connection
  (\<open>internal/server\<close>), passes a rate limiter, is parsed (\<open>internal/dns\<close>) and handed to a
  chain of resolvers (\<open>internal/resolvers\<close>): a filter that blocks listed names
  (\<open>internal/filtering\<close>), the names configured by the user, and a forwarder that asks upstream
  servers and caches their answers. Its configuration lives in a SQLite database
  (\<open>internal/database\<close>), is changed through an HTTP API (\<open>internal/api\<close>) and copied from a primary
  to its secondaries (\<open>internal/cluster\<close>); \<open>cmd/hydradns\<close> connects the parts. This development models
  the path of a request from the received bytes to the sent bytes and the management plane that
  changes what is served, and proves what makes them correct. Paths below are under \<open>src/internal\<close>.

  \<^bold>\<open>Layers.\<close>

  \<^item> \<open>Prelude\<close>, \<open>Wire\<close>, \<open>GoStrings\<close>, \<open>GoStrconv\<close>, \<open>GoTime\<close>, \<open>GoNetip\<close>, \<open>GoFloat\<close>:
    what the source uses of Go and its standard library: errors as sums, bytes, big-endian integers,
    string functions, decimal numbers, saturating durations, IP addresses with their text forms, and
    IEEE double rounding on rationals. Unicode case mapping outside ASCII is a parameter
    (\<^typ>\<open>go_unicode\<close>) of every function that needs it.
  \<^item> \<open>Dns_Enums\<close>, \<open>Dns_Errors\<close>, \<open>Helpers\<close>, \<open>Codec\<close>, \<open>Dns_Name\<close>, \<open>Dns_Header\<close>, \<open>Dns_Record\<close>,
    \<open>Dns_Packet\<close>, \<open>Dns_Edns\<close>: the files of \<open>dns/\<close> and \<open>helpers/convert.go\<close>, one definition per
    function, the Go interface \<open>Record\<close> as a datatype. The locale \<open>wire_codec\<close> states what a
    marshaller and its parser owe each other; questions and records interpret it, and the round trip
    of whole sections is proved once inside it.
  \<^item> \<open>Truncate\<close>: \<open>server/truncate.go\<close>.
  \<^item> \<open>TTL_Cache\<close>: \<open>resolvers/cache.go\<close>, with its abstract specification, a list of bindings in
    order of recency; the locale \<open>answer_cache\<close> is what the forwarder relies on.
  \<^item> \<open>Resolver\<close>: \<open>resolvers/types.go\<close> and \<open>chained.go\<close>; the locale \<open>answering\<close> is the contract of
    every resolver: keep the state's invariant, never panic on a request with one question, and
    return only bytes that answer the request.
  \<^item> \<open>Response_Cache\<close>, \<open>Forwarding\<close>, \<open>Singleflight\<close>: \<open>resolvers/forwarding_resolver.go\<close>. Sockets,
    the clock and the context are an environment record \<open>env\<close> over a world of any type; every
    socket call is an operation of it, so that all outcomes of the network are covered.
    \<open>Singleflight\<close> gives the same resolver as a step relation over any number of goroutines.
  \<^item> \<open>Domain_Trie\<close>, \<open>List_Parser\<close>, \<open>Policy\<close>, \<open>Filtering_Resolver\<close>: \<open>filtering/trie.go\<close>,
    \<open>parser.go\<close>, \<open>policy.go\<close> and \<open>resolvers/filtering_resolver.go\<close>. The locales \<open>domain_store\<close> and
    \<open>policy_check\<close> are the interfaces between them. The HTTP client is a parameter.
  \<^item> \<open>Custom_DNS\<close>: \<open>resolvers/custom_dns_resolver.go\<close> and \<open>reloadable_custom_dns.go\<close>.
  \<^item> \<open>Config\<close>: \<open>config/types.go\<close> and \<open>config.go\<close>. \<open>Rate_Limit\<close>: \<open>server/rate_limit.go\<close>, over the
    locale \<open>rounding\<close> of monotone, idempotent rounding.
  \<^item> \<open>Runner\<close>: \<open>server/runner.go\<close>; the record \<open>hydra\<close> holds what the resolvers share, and
    \<open>hydra_reachable\<close> the states the server can be in: resolutions, policy updates, list
    refreshes and reloads of the configured names in any order.
  \<^item> \<open>Query_Handler\<close>, \<open>Udp_Server\<close>, \<open>Tcp_Server\<close>: \<open>server/query_handler.go\<close>, \<open>stats.go\<close>,
    \<open>udp_server.go\<close> and \<open>tcp_server.go\<close> on values: one socket, one connection, the connection
    counters. Which case of a \<open>select\<close> fires is an argument.
  \<^item> \<open>Buffer_Pool\<close>, \<open>Udp_Runtime\<close>, \<open>Tcp_Runtime\<close>, \<open>Shutdown\<close>, \<open>Runner_Life\<close>: the same servers goroutine by
    goroutine. \<open>Buffer_Pool\<close> has \<open>pool/pool.go\<close>, the heap of byte slices, and the abstract account of
    buffers (\<open>ledger_step\<close>); the locale \<open>buffer_user\<close> says when a program keeps that account. \<open>Udp_Runtime\<close>
    has \<open>UDPServer.Run\<close>, \<open>RunOnConn\<close> and \<open>Stop\<close> with a receiver, a channel and workers per socket passing
    pointers; \<open>Tcp_Runtime\<close> has the listeners, accept loops, connection handlers, their deadlines and
    \<open>Stop\<close>. \<open>Shutdown\<close> has the locale \<open>stoppable\<close>, the laws under which waiting for goroutines ends, and
    both servers interpret it. \<open>Runner_Life\<close> runs both servers over one resolver and one context, from
    the start in \<open>RunWithContext\<close> to its return.
  \<^item> \<open>Net_Addr\<close> (host and port as text, the key of a connection, listen addresses), \<open>Rate_Log\<close> (the line
    of \<open>FormatRateLimitsLog\<close>), \<open>Web_UI\<close> (\<open>api/spa_mount.go\<close>), \<open>Db_Open\<close> (\<open>database.Open\<close> with the driver
    and the migration library as parameters), \<open>Cli\<close> (the flags of \<open>cmd/hydradns\<close> and Go's parser of
    them).
  \<^item> \<open>Sql\<close>, \<open>Database\<close>: what \<open>database/\<close> uses of \<open>database/sql\<close>, and every operation of its files on
    tables with the schema's constraints and triggers (\<open>migrations/\<close>). An oracle in the state decides
    for each driver call whether it fails. The locale \<open>db_relation\<close> proves of all compositions of
    statements what holds of each, and \<open>db_view\<close> is its case of a part that does not change;
    \<open>Database_Facts\<close> interprets them for the invariant and for the version, \<open>Database_Life\<close> gives the
    operations as steps from the tables the migrations create.
  \<^item> \<open>Replication\<close>, \<open>Replication_Facts\<close>: \<open>database/export.go\<close> and the import of \<open>database/cluster.go\<close>,
    with Hoare triples for the import; the locale \<open>insert_loop\<close> is interpreted for the five tables it
    fills. A Go map is an association list in its iteration order.
  \<^item> \<open>Cluster_Sync\<close>: \<open>cluster/cluster.go\<close>; the locale \<open>sync_target\<close> is what a syncer expects of its
    callbacks. \<open>Node\<close>: \<open>cmd/hydradns/main.go\<close>, whose closures interpret that contract; \<open>Node_Start\<close>
    follows the start of a secondary. \<open>Logging_Setup\<close>: \<open>logging/logging.go\<close>.
  \<^item> \<open>Api\<close>, \<open>Api_Routes\<close>: the handlers, the route table and the key check of \<open>api/\<close>. \<open>Api_Facts\<close>
    states in the locale \<open>api_relation\<close> what one has to know of the parts of a handler to know it of
    every request; \<open>Api_Safety\<close> interprets it for the database's invariant and for the steps of the
    resolvers. \<open>Api_Effects\<close> (what a successful request achieves, with the locale \<open>domain_list\<close> for
    both lists), \<open>Api_Secrets\<close>, \<open>Api_Progress\<close> and \<open>Api_Export\<close> hold the other facts.
  \<^item> \<open>Samples\<close>, \<open>Samples_Servers\<close>, \<open>Samples_Node\<close>: concrete messages, servers, databases and nodes used to apply the theorems below.

  \<^bold>\<open>What the theorems show.\<close> The properties C1--C40 below are ordered by importance. The first group is
  end to end: for every request and every behaviour of the network, the handler returns, its response
  is empty or carries the transaction ID of the request, and answers come from the filter, the
  configured names or a validated upstream message. Then follow the codec (round trips, progress,
  bounds), the forwarder with its cache (refinement, invariants, ageing) and its concurrency
  (one leader per key, no stranded waiter), the filter (exact meaning of the trie and the policy),
  the configured names, and the servers: no buffer is in two hands and no datagram is lost,
  duplicated or overwritten between the socket and the handler, every datagram sent answers one that
  came from that peer, the connection handlers implement the connection accounting, and after \<open>Stop\<close>
  has closed the sockets all goroutines end after a bounded number of steps. Of the
  management plane they show that every request is answered and implemented by steps of the resolver
  machine, that the database keeps its constraints and its version identifies its data, that an
  import is atomic and reproduces the exporting database, that a secondary converges and never mixes
  two configurations, that memory and database agree after the requests that change them, and that
  the secrets reach no response. Some properties state where the code falls short: truncation loses
  the header, a refresh drops static entries, the start of a secondary overwrites its first
  synchronisation, a late resolver may read a reused buffer, a silent client makes \<open>Stop\<close> time out,
  and the resolver is closed under requests when one server fails. The section \<open>Further results\<close> holds more theorems about single components.

  \<^bold>\<open>Bounds and fuel.\<close> All loops are total functions. Name decoding ends because each compression
  pointer is recorded and its depth bounded (20 in the source); the label loop because the offset
  grows. The only counters used as fuel are the source's own: \<open>maxRetries\<close> per upstream, 100
  queries per TCP connection. The bound on the steps after a stop is the sum of a weight per goroutine
  and queued packet (\<open>runWork\<close>, \<open>tcpWork\<close>). Integers keep their width where overflow matters: header fields,
  TTLs and statistics are words; Go's \<open>int\<close> is a mathematical integer for lengths and counts that
  cannot leave 64 bits.

  Faults of the database driver are a function from the number of the call, so theorems about all
  states cover every pattern of failures; \<open>noFaults\<close> is assumed only where success is claimed. The
  bound of 65535 custom records for the API requests is that of the DNS answer count.

  \<^bold>\<open>Not modelled.\<close> Socket options and the system calls behind a socket (their outcomes are events of the
  step relations), log output, and the data races noted in the findings: each critical section is
  atomic, one API request is atomic, and the effects of a resolver on the shared state are those of the
  request it was started with, also when it is late. The UDP runtime has no clock, so its \<open>Stop\<close> may
  time out at any moment; in the TCP runtime whoever waits runs as soon as what it waits for happens.
  The pooled two-byte length buffers of the TCP server are taken and returned within one step. The host's
  CPU and memory figures, JSON encoding and decoding, the static file middleware, request logging and
  the HTTP server's lifecycle are those of libraries; \<open>api/docs\<close> is generated text. SQL row timestamps
  other than \<open>last_fetched\<close> are not read by the program and have no field.
\<close>

unbundle bit_operations_syntax

text \<open>C1. In every state the running server can reach, handling any request bytes yields a result (the process does not crash), and the response is either empty or begins with the transaction ID bytes of the request, whatever the resolver, the timer and the parser did.\<close>

theorem handle_echoes_transaction_id:
  assumes "hydra_reachable uc pd env cfg s" "hostsBounded cfg"
  shows "\<exists>res. fst (Handle uc (hydraHandler uc env sel) tr b (s, st)) = Some res \<and>
    (hr_ResponseBytes res = [] \<or> take 2 (hr_ResponseBytes res) = take 2 b)"
  using hydra_Handle_outcome(2) [OF hydra_reachable_inv [OF assms]] by (metis prod.exhaust_sel)

theorem handle_echoes_transaction_id_witness:
  "\<exists>res. fst (Handle sampleUC (hydraHandler sampleUC sampleEnv sampleSelect) ''udp'' sampleQueryBytes
      (sampleHydra, None)) = Some res \<and>
    (hr_ResponseBytes res = [] \<or> take 2 (hr_ResponseBytes res) = [0x12, 0x34])"
  using handle_echoes_transaction_id [OF sampleHydra_reachable [of sampleUC sampleEnv 0] sampleConfig_hosts,
      of sampleSelect "''udp''" sampleQueryBytes None]
  by (simp add: sampleHydra_def sampleQueryBytes_def)



text \<open>C3. A request that parses and whose question name can be encoded always gets a non-empty response, also on a timeout, a shutdown or a resolver error.\<close>

theorem handle_always_replies:
  assumes "hydraInv uc s" "ParseRequestBounded uc b = Inr req" "p_Questions req = [q]"
    "EncodeName (q_Name q) = Inr nb"
  shows "\<exists>res. fst (Handle uc (hydraHandler uc env sel) tr b (s, st)) = Some res \<and> hr_ResponseBytes res \<noteq> []"
  using hydra_Handle_replies [OF assms] by (metis prod.exhaust_sel)

theorem handle_always_replies_witness:
  "\<exists>res. fst (Handle sampleUC (hydraHandler sampleUC sampleEnv (\<lambda>d w. (TimerFired, w))) ''udp''
      sampleQueryBytes (sampleHydra, None)) = Some res \<and> hr_ResponseBytes res \<noteq> []"
  using handle_always_replies [OF sampleHydra_inv sampleQuery_request sampleQuery_single(2) sampleName_encodes] .



text \<open>C5. The UDP server as a whole, all sockets, receivers and workers at once: it never crashes, no channel exceeds its capacity, and every datagram it sends answers a request that arrived from exactly that peer, at most once per request, fits the largest EDNS size and starts with the ID of that request (or is a truncated response whose header is all zero).\<close>

theorem udp_runtime_safety:
  assumes "(run_step uc (Some (hydraHandler uc env sel)))\<^sup>*\<^sup>* (udpRun numCPU u) s" "hydraInv uc (fst (udp_sys u))"
    "udp_queue u = []" "udp_sent u = []" "\<not> udp_crashed u" "\<forall>l. udp_limiter u = Some l \<longrightarrow> limiterInv l"
  shows "\<not> udp_crashed (ur_core s) \<and> (\<forall>k \<in> set (ur_conns s). int (length (so_queue k)) \<le> so_cap k) \<and>
    mset (map (\<lambda>(peer, req, out). (req, peer)) (udp_sent (ur_core s))) \<subseteq># mset (ur_received s) \<and>
    (\<forall>(peer, req, out) \<in> set (udp_sent (ur_core s)). length out \<le> EDNSMaxUDPPayloadSize \<and>
       (take 2 out = take 2 req \<or> take HeaderSize out = replicate HeaderSize 0))"
proof -
  have inv: "runInv uc s" by (rule runInv_reachable [OF assms(1) udpRun_inv(1) [OF assms(2-6)]])
  have "mset (ur_handled s) \<subseteq># mset (ur_received s)"
    using udp_buffers.handled_was_received [OF assms(1) udpRun_ledger(2,1)] by simp
  with inv have "mset (answered (ur_core s)) \<subseteq># mset (ur_received s)"
    unfolding runInv_def by (blast intro: subset_mset.order_trans)
  with inv show ?thesis by (simp add: runInv_def udpInv_def socketOK_def answered_def udpAnswer_def)
qed

theorem udp_runtime_safety_witness:
  "let s = startSocket 0 (udpRun 1 sampleUDP) in length (ur_conns s) = 1 \<and> \<not> udp_crashed (ur_core s) \<and>
     (\<forall>k \<in> set (ur_conns s). int (length (so_queue k)) \<le> so_cap k)"
proof -
  have "main_step (udpRun 1 sampleUDP) (startSocket 0 (udpRun 1 sampleUDP))"
    by (rule main_step.opened) (simp add: udpRun_def)
  then have r: "(run_step sampleUC (Some (hydraHandler sampleUC sampleEnv sampleSelect)))\<^sup>*\<^sup>* (udpRun 1 sampleUDP)
    (startSocket 0 (udpRun 1 sampleUDP))" by (auto simp: run_step_def)
  from udp_runtime_safety [OF r] sampleHydra_inv
  have "\<not> udp_crashed (ur_core (startSocket 0 (udpRun 1 sampleUDP)))"
    "\<forall>k \<in> set (ur_conns (startSocket 0 (udpRun 1 sampleUDP))). int (length (so_queue k)) \<le> so_cap k"
    by (simp_all add: sampleUDP_def)
  then show ?thesis by (simp add: Let_def startSocket_def udpRun_def)
qed

text \<open>C6. Every API request, whatever it is and whatever fails while it runs, is implemented by steps of the resolver machine: it keeps the database's invariant and moves the running resolvers from one reachable state to another, so everything proved of reachable states (transaction IDs, sound answers, no crash) keeps holding while the API is used.\<close>

theorem api_requests_are_resolver_steps:
  assumes "netOK env" "RegisterRoutes env wired got req h = Some (resp, h')" "dbInv (dbOf h)" "rowsOK (dbOf h')"
  shows "dbInv (dbOf h') \<and> (hydra_step (ne_unicode env) we)\<^sup>*\<^sup>* (hydraOf h) (hydraOf h') \<and>
    (hydra_reachable (ne_unicode env) pd we cfg (hydraOf h) \<longrightarrow> hydra_reachable (ne_unicode env) pd we cfg (hydraOf h'))"
proof -
  have "dbInv (dbOf h')"
    using upholdsD [OF api_db.request_upholds assms(2)] assms(1,3) by (simp add: keepsData_def dbOf_def)
  moreover have "(hydra_step (ne_unicode env) we)\<^sup>*\<^sup>* (hydraOf h) (hydraOf h')"
    using upholdsD [OF api_hydra.request_upholds [where we = we] assms(2)] assms(1,4) by (simp add: servedSteps_def dbOf_def)
  ultimately show ?thesis
    unfolding hydra_reachable_def using rtranclp_trans by fast
qed

theorem api_requests_are_resolver_steps_witness:
  "\<exists>h'. RegisterRoutes sampleNodeEnv (Some sampleHandlerConfig) ''k3y'' (R_SetFilteringEnabled (Inr True)) sampleHandler =
     Some ((200, StatusResponse ''ok''), h') \<and> dbInv (dbOf h') \<and>
     (hydra_step sampleUC sampleEnv)\<^sup>*\<^sup>* sampleHydra (hydraOf h')"
proof -
  from freshNode_enable obtain d where d: "DB_SetFilteringEnabled True freshNode = (Inr (), d)" "tbl_rows (db_records d) = []" by blast
  have "\<exists>h'. RegisterRoutes sampleNodeEnv (Some sampleHandlerConfig) ''k3y'' (R_SetFilteringEnabled (Inr True)) sampleHandler =
     Some ((200, StatusResponse ''ok''), h') \<and> rowsOK (dbOf h')"
    using d
    by (simp add: RegisterRoutes_def sampleHandlerConfig_parts RequireAPIKey_def SetFilteringEnabled_def sampleHandler_parts
        bindJSON_def callDB_def onDB_def reply_def rowsOK_def) (simp add: sampleNode_def)
  then obtain h' where run: "RegisterRoutes sampleNodeEnv (Some sampleHandlerConfig) ''k3y'' (R_SetFilteringEnabled (Inr True)) sampleHandler =
     Some ((200, StatusResponse ''ok''), h')" and rows: "rowsOK (dbOf h')" by blast
  have "dbInv (dbOf sampleHandler)" by (simp add: sampleHandler_parts freshNode_ok)
  from api_requests_are_resolver_steps [OF sampleNet_ok run this rows, of sampleEnv] run show ?thesis
    by (auto simp: sampleHandler_parts)
qed

text \<open>C7. Parsing the marshalled form of a well-formed packet, followed by any trailing bytes, gives the packet back with its counts filled in and its names in wire-normal form.\<close>

theorem packet_roundtrip:
  assumes "wfPacket p" "Packet_Marshal p = Inr bs"
  shows "ParsePacket uc (bs @ post) = Inr (normPacket p)"
  using assms by (rule ParsePacket_Marshal)

theorem packet_roundtrip_witness: "ParsePacket sampleUC (sampleResponseBytes @ [0, 7]) = Inr sampleResponse"
  using packet_roundtrip [OF wf_samples(2) sampleResponse_Marshal, of sampleUC "[0, 7]"]
  by (simp add: norm_samples)



text \<open>C9. Importing what a database exports, in whatever order the Go maps were iterated, succeeds on any other database whose driver works, and afterwards that database exports the same upstreams, custom names and filtering settings, while its own server, logging, rate limit, API and cluster settings are unchanged.\<close>

theorem replication_roundtrip:
  assumes "dbInv a" "dbInv b" "noFaults b" "exportOf a data"
  shows "\<exists>b' cfg n. ImportFromCluster data b = (Inr (), b') \<and> dbInv b' \<and>
    ExportToConfig uc b' = (Inr cfg, b'\<lparr>db_tick := n\<rparr>) \<and>
    Upstream cfg = upstreamOf a \<and> CustomDNS cfg = customOf a \<and> Filtering cfg = filteringOf a \<and>
    localOf uc b' = localOf uc b"
proof -
  from import_roundtrip [OF assms(3,1,2,4)] obtain b' where
    b': "ImportFromCluster data b = (Inr (), b')" "noFaults b'" "dbInv b'" "upstreamOf b' = upstreamOf a"
      "customOf b' = customOf a" "filteringOf b' = filteringOf a" "nodeLocal b' = nodeLocal b" .
  from ExportToConfig_reads [OF b'(2,3), of uc] obtain n where
    "ExportToConfig uc (b'\<lparr>db_tick := db_tick b'\<rparr>) = (Inr (configOf uc b'), b'\<lparr>db_tick := n\<rparr>)"
    unfolding onlyReads_def by blast
  with b' localOf_nodeLocal [OF b'(7)] show ?thesis
    by (intro exI [of _ b'] exI [of _ "configOf uc b'"] exI [of _ n]) simp
qed

theorem replication_roundtrip_witness:
  "\<exists>b' cfg n. ImportFromCluster sampleExport freshNode = (Inr (), b') \<and>
    ExportToConfig sampleUC b' = (Inr cfg, b'\<lparr>db_tick := n\<rparr>) \<and> cd_Hosts (CustomDNS cfg) = [(''nas.home'', [''192.168.1.10''])]"
  using replication_roundtrip [OF samplePrimary_ok(2) freshNode_ok(2,1) sampleExport_of(1), of sampleUC]
  by (auto simp: samplePrimary_custom)



text \<open>C11. From the tables the migrations create, every sequence of database operations, with any pattern of driver failures in between, keeps the constraints of the schema and the rules the code adds to it (every settings row present, each record typed by its address, one target per alias); and while the driver works, such a database always exports its configuration and the export changes nothing.\<close>

theorem database_invariant:
  assumes "db_step\<^sup>*\<^sup>* (freshDB fault) d"
  shows "dbInv d \<and> (noFaults d \<longrightarrow> (\<exists>n. ExportToConfig uc d = (Inr (configOf uc d), d\<lparr>db_tick := n\<rparr>)))"
proof -
  have inv: "dbInv d" using assms by (rule db_reachable_inv)
  have "\<exists>n. ExportToConfig uc d = (Inr (configOf uc d), d\<lparr>db_tick := n\<rparr>)" if "noFaults d"
  proof -
    from ExportToConfig_reads [OF that inv] have
      "\<exists>n. ExportToConfig uc (d\<lparr>db_tick := db_tick d\<rparr>) = (Inr (configOf uc d), d\<lparr>db_tick := n\<rparr>)"
      unfolding onlyReads_def by blast
    then show ?thesis by simp
  qed
  with inv show ?thesis by blast
qed

theorem database_invariant_witness:
  "\<exists>n. ExportToConfig sampleUC samplePrimary = (Inr (configOf sampleUC samplePrimary), samplePrimary\<lparr>db_tick := n\<rparr>)"
  using database_invariant [OF samplePrimary_reachable, of sampleUC] samplePrimary_ok(1) by blast













text \<open>C18. The TCP server with all its listeners, accept loops and connection handlers implements the connection accounting: every reachable state corresponds to a reachable state of the accounting with the same counters and the same open connections; so an address never has more than 10 handlers, its counter is their number, and the server never crashes.\<close>

theorem tcp_runtime_refines_accounting:
  assumes "(trun_step uc (Some (hydraHandler uc env sel)))\<^sup>*\<^sup>* (tcpRun numCPU now y) s" "hydraInv uc (fst y)"
  shows "(\<exists>t. tcp_step\<^sup>*\<^sup>* tcpInit t \<and> tcp_counts t = tr_counts s \<and> mset (tcp_open t) = liveIPs s) \<and>
    \<not> tr_crashed s \<and> (\<forall>ip. connCount (tr_counts s) ip = int (count (liveIPs s) ip) \<and> count (liveIPs s) ip \<le> 10)"
proof -
  from accounts_reachable [OF assms(1)] tcpRun_accounts [OF assms(2)] obtain t where
    t: "tcpCore uc s" "tcp_step\<^sup>*\<^sup>* tcpInit t" "accounts s t" by blast
  have "connCount (tcp_counts t) ip = int (count (mset (tcp_open t)) ip)" "count (mset (tcp_open t)) ip \<le> 10" for ip
    using tcpInv_reachable [OF t(2)] unfolding tcpInv_def maxTCPConnectionsPerIP_def count_mset
    by (metis of_nat_le_iff of_nat_numeral)+
  with t show ?thesis by (auto simp: accounts_def tcpCore_def)
qed

theorem tcp_runtime_refines_accounting_witness:
  "\<exists>s. (trun_step sampleUC (Some (hydraHandler sampleUC sampleEnv sampleSelect)))\<^sup>*\<^sup>* (tcpRun 1 0 (sampleHydra, None)) s \<and>
     length (tr_conns s) = 1 \<and> connCount (tr_counts s) ''10.0.0.1'' = int (count (liveIPs s) ''10.0.0.1'')"
proof -
  define s where "s = acceptConn ''10.0.0.1'' [] False (startListener 0 (tcpRun 1 0 (sampleHydra, None)))"
  have "tmain_step (tcpRun 1 0 (sampleHydra, None)) (startListener 0 (tcpRun 1 0 (sampleHydra, None)))"
    by (rule tmain_step.opened) (simp add: tcpRun_def)
  moreover have "tgo_step sampleUC (Some (hydraHandler sampleUC sampleEnv sampleSelect))
    (startListener 0 (tcpRun 1 0 (sampleHydra, None))) s"
    unfolding s_def by (rule tgo_step.accept [of _ 0]) (simp_all add: tcpRun_def startListener_def)
  ultimately have r: "(trun_step sampleUC (Some (hydraHandler sampleUC sampleEnv sampleSelect)))\<^sup>*\<^sup>*
    (tcpRun 1 0 (sampleHydra, None)) s"
    by (meson trun_step_def r_into_rtranclp rtranclp.rtrancl_into_rtrancl)
  have "length (tr_conns s) = 1"
    by (simp add: s_def acceptConn_def tryAcquireConn_def connCount_def startListener_def tcpRun_def
        maxTCPConnectionsPerIP_def Let_def)
  with r tcp_runtime_refines_accounting [OF r] sampleHydra_inv show ?thesis by auto
qed

text \<open>C19. Serving a TCP connection always comes to an end with the server's invariant intact, whatever the client sends: at most 100 responses are written, each non-empty, at most 65535 bytes long and starting with the ID of the request it answers.\<close>

theorem tcp_connection_replies:
  assumes "hydraInv uc (fst s)" "\<And>s. hydraInv uc s \<Longrightarrow> hydraInv uc (snd (ctxDone s))"
  shows "\<exists>out s'. handleConnection uc (Some (hydraHandler uc env sel)) ctxDone writes inp s = Some (out, s') \<and>
    hydraInv uc (fst s') \<and> length out \<le> 100 \<and>
    (\<forall>(req, resp) \<in> set out. take 2 resp = take 2 req \<and> resp \<noteq> [] \<and> length resp \<le> 65535)"
proof -
  obtain out s' where "handleConnection uc (Some (hydraHandler uc env sel)) ctxDone writes inp s = Some (out, s')"
    "hydraInv uc (fst s')" "length out \<le> 100" "list_all tcpAnswer out"
    using connLoop_outcome [of uc ctxDone s env sel writes maxQueriesPerConnection inp] assms
    unfolding handleConnection_def maxQueriesPerConnection_def by blast
  then show ?thesis by (fastforce simp: list_all_iff tcpAnswer_def maxTCPMessageSize_def)
qed

theorem tcp_connection_replies_witness:
  "\<exists>out s'. handleConnection sampleUC (Some (hydraHandler sampleUC sampleEnv sampleSelect)) (\<lambda>s. (False, s)) (\<lambda>_. True)
      ([0, 24] @ sampleQueryBytes) (sampleHydra, None) = Some (out, s') \<and> length out \<le> 100"
  using tcp_connection_replies [of sampleUC "(sampleHydra, None)" "\<lambda>s. (False, s)" sampleEnv sampleSelect "\<lambda>_. True"
      "[0, 24] @ sampleQueryBytes"] sampleHydra_inv by auto



text \<open>C21. Once Stop has closed the sockets, the goroutines of the UDP server take only a bounded number of further steps, whatever else happens meanwhile; they cannot get stuck before all of them have returned, and they can always all return, after which Stop returns nil.\<close>

theorem udp_shutdown_terminates:
  assumes "(run_step uc (Some (hydraHandler uc env sel)))\<^sup>*\<^sup>* (udpRun numCPU u) s" "hydraInv uc (fst (udp_sys u))"
    "udp_queue u = []" "udp_sent u = []" "\<not> udp_crashed u" "\<forall>l. udp_limiter u = Some l \<longrightarrow> limiterInv l"
    "ur_phase s = UWaiting"
  shows "(\<forall>n s'. counted (go_step uc (Some (hydraHandler uc env sel))) (\<lambda>s s'. env_step s s' \<or> main_step s s') n s s' \<longrightarrow>
      n \<le> runWork s \<and> ((\<nexists>s''. go_step uc (Some (hydraHandler uc env sel)) s' s'') \<longrightarrow> allExited s')) \<and>
    (\<exists>s'. (go_step uc (Some (hydraHandler uc env sel)))\<^sup>*\<^sup>* s s' \<and> allExited s' \<and>
       main_step s' (s'\<lparr>ur_phase := UReturned None\<rparr>))"
proof -
  have "runInv uc s" by (rule runInv_reachable [OF assms(1) udpRun_inv(1) [OF assms(2-6)]])
  with assms(7) have stop: "stopping uc s" by (auto simp: stopping_def runInv_def)
  from udp_stop.drains [OF this] obtain s' where s': "(go_step uc (Some (hydraHandler uc env sel)))\<^sup>*\<^sup>* s s'" "allExited s'"
    by blast
  then have "main_step s' (s'\<lparr>ur_phase := UReturned None\<rparr>)"
    using go_phase [OF s'(1)] assms(7) by (intro main_step.waited) simp_all
  with s' udp_stop.counted_bounded [OF _ stop] udp_stop.stuck_finished [OF _ stop] show ?thesis
    by (meson add_leD1)
qed

theorem udp_shutdown_terminates_witness:
  "\<exists>s s'. ur_phase s = UWaiting \<and> length (ur_conns s) = 1 \<and>
     (go_step sampleUC (Some (hydraHandler sampleUC sampleEnv sampleSelect)))\<^sup>*\<^sup>* s s' \<and> allExited s' \<and>
     main_step s' (s'\<lparr>ur_phase := UReturned None\<rparr>)"
proof -
  define s1 where "s1 = startSocket 0 (udpRun 1 sampleUDP)"
  define s2 where "s2 = s1\<lparr>ur_phase := UServing\<rparr>"
  define s3 where "s3 = s2\<lparr>ur_ctx := True\<rparr>"
  define s where "s = (closeConns s3)\<lparr>ur_phase := UWaiting\<rparr>"
  have "main_step (udpRun 1 sampleUDP) s1" unfolding s1_def by (rule main_step.opened) (simp add: udpRun_def)
  moreover have "main_step s1 s2" unfolding s2_def by (rule main_step.started) (simp add: s1_def startSocket_def Let_def)
  moreover have "env_step s2 s3" unfolding s3_def by (rule env_step.cancel)
  moreover have "main_step s3 s" unfolding s_def by (rule main_step.stop) (simp_all add: s3_def s2_def)
  ultimately have r: "(run_step sampleUC (Some (hydraHandler sampleUC sampleEnv sampleSelect)))\<^sup>*\<^sup>* (udpRun 1 sampleUDP) s"
    by (meson run_step_def r_into_rtranclp rtranclp.rtrancl_into_rtrancl)
  have "ur_phase s = UWaiting" "length (ur_conns s) = 1"
    by (simp_all add: s_def s3_def s2_def s1_def closeConns_def startSocket_def udpRun_def Let_def)
  with udp_shutdown_terminates [OF r] sampleHydra_inv show ?thesis by (auto simp: sampleUDP_def)
qed

text \<open>C22. Once Stop has closed the listeners, the accept loops and connection handlers of the TCP server take only a bounded number of further steps, whatever the clients do; they cannot get stuck before all of them have returned, and they can always all return.\<close>

theorem tcp_shutdown_terminates:
  assumes "(trun_step uc (Some (hydraHandler uc env sel)))\<^sup>*\<^sup>* (tcpRun numCPU now y) s" "hydraInv uc (fst y)"
    "tr_phase s = TWaiting t"
  shows "(\<forall>n s'. counted (tgo_step uc (Some (hydraHandler uc env sel))) (\<lambda>s s'. tenv_step s s' \<or> tmain_step s s') n s s' \<longrightarrow>
      n \<le> tcpWork s \<and> ((\<nexists>s''. tgo_step uc (Some (hydraHandler uc env sel)) s' s'') \<longrightarrow> tcpExited s')) \<and>
    (\<exists>s'. (tgo_step uc (Some (hydraHandler uc env sel)))\<^sup>*\<^sup>* s s' \<and> tcpExited s')"
proof -
  have "tcpRunInv uc s" by (rule tcpRunInv_reachable [OF assms(1) tcpRun_inv [OF assms(2)]])
  with assms(3) have stop: "tcpStopping uc s" by (simp add: tcpStopping_def tcpRunInv_def)
  from tcp_stop.drains [OF this] tcp_stop.counted_bounded [OF _ stop] tcp_stop.stuck_finished [OF _ stop] show ?thesis
    by (meson add_leD1)
qed

theorem tcp_shutdown_terminates_witness:
  "\<exists>s s'. tr_phase s = TWaiting (5 * Second) \<and> length (tr_conns s) = 1 \<and>
     (tgo_step sampleUC (Some (hydraHandler sampleUC sampleEnv sampleSelect)))\<^sup>*\<^sup>* s s' \<and> tcpExited s'"
proof -
  from sampleSilent_reached have "tr_phase sampleSilent = TWaiting (5 * Second)" "length (tr_conns sampleSilent) = 1"
    "(trun_step sampleUC (Some (hydraHandler sampleUC sampleEnv sampleSelect)))\<^sup>*\<^sup>*
       (tcpRun 1 0 (sampleHydra, None)) sampleSilent" by blast+
  with tcp_shutdown_terminates [of sampleUC sampleEnv sampleSelect 1 0 "(sampleHydra, None)" sampleSilent] sampleHydra_inv
  show ?thesis by auto
qed

text \<open>C23. Decoding a name, compression pointers included, always terminates; when it succeeds the offset has advanced, stays inside the message, and the name is ASCII.\<close>

theorem name_decoding_progress:
  assumes "DecodeName msg off = Inr (n, off')"
  shows "off < off' \<and> off' \<le> length msg \<and> ascii n"
  using assms by (rule DecodeName_progress)

theorem name_decoding_progress_witness:
  "0 < (8 :: nat) \<and> 8 \<le> length sampleNameBytes \<and> ascii (trimDot ''ads.io'')"
  using name_decoding_progress [OF DecodeName_EncodeName [OF sampleName_encodes, of "[]" "[]"]]
  by (simp add: sampleQuestion_def sampleNameBytes_def)

text \<open>C24. The forwarding resolver keeps its invariant (the cache holds only validated messages under the key they answer), never panics on a single-question request, and every answer, cached or fresh, was validated against the very question and carries the request's ID.\<close>

theorem forwarding_outcome:
  assumes "fwdInv uc (fst s)" "singleQuestion req"
  shows "fwdInv uc (fst (snd (ForwardingResolver_Resolve uc env s req b))) \<and>
    (case fst (ForwardingResolver_Resolve uc env s req b) of
       Inl e \<Rightarrow> e \<noteq> ResolverPanic
     | Inr res \<Rightarrow> upstreamAnswer uc req (ResponseBytes res))"
proof -
  obtain x s' where run: "ForwardingResolver_Resolve uc env s req b = (x, s')" by (rule prod.exhaust)
  from forwarding.outcome [OF assms run] show ?thesis by (auto simp: run split: sum.split)
qed

theorem forwarding_outcome_witness:
  "fwdInv sampleUC (fst (snd (ForwardingResolver_Resolve sampleUC sampleEnv (sampleForwarder, 0) sampleQuery
     sampleQueryBytes)))"
  using forwarding_outcome [of sampleUC "(sampleForwarder, 0)" sampleQuery sampleEnv sampleQueryBytes]
    sampleForwarder_inv sampleQuery_single(1) by simp

text \<open>C25. Among any number of concurrent resolutions, in any interleaving, at most one goroutine at a time leads the upstream query for a cache key.\<close>

theorem singleflight_one_leader:
  assumes "flight_reachable uc env s F" "fwdInv uc (fst s)"
    "leads (fl_threads F g) = Some (k, c)" "leads (fl_threads F h) = Some (k, c')"
  shows "g = h"
  using flight_one_leader [OF flight_reachable_inv [OF assms(1,2)] assms(3,4)] .

theorem singleflight_one_leader_witness:
  "\<exists>F. flight_reachable sampleUC sampleEnv (missedForwarder 0, 0) F \<and> leads (fl_threads F 0) = Some (sampleKey, 0) \<and>
     (\<forall>h c. leads (fl_threads F h) = Some (sampleKey, c) \<longrightarrow> h = 0)"
proof -
  obtain F where F: "flight_reachable sampleUC sampleEnv (missedForwarder 0, 0) F"
    "fl_threads F 0 = Leading sampleQuery sampleQueryBytes sampleKey 0"
    using sampleFlight_exists by blast
  then show ?thesis
    using singleflight_one_leader [OF F(1) missedForwarder_inv, of _ sampleKey _ 0 0]
    by (intro exI [of _ F]) auto
qed

text \<open>C26. A goroutine waiting for an in-flight call is never stranded: from every reachable state there is a continuation in which the leader finishes and the waiter returns the leader's outcome.\<close>

theorem singleflight_waiters_wake:
  assumes "flight_reachable uc env s F" "fwdInv uc (fst s)" "fl_threads F g = Waiting req c"
  shows "\<exists>F'. (flight_step uc env)\<^sup>*\<^sup>* F F' \<and>
    fl_threads F' g = Returned req (callOutcome (ID (p_Header req)) (fl_calls F' c))"
  using waiter_wakes [OF flight_reachable_inv [OF assms(1,2)] assms(3)] .

theorem singleflight_waiters_wake_witness:
  "\<exists>F F'. fl_threads F 1 = Waiting sampleQuery 0 \<and> (flight_step sampleUC sampleEnv)\<^sup>*\<^sup>* F F' \<and>
     fl_threads F' 1 = Returned sampleQuery (callOutcome 0x1234 (fl_calls F' 0))"
proof -
  obtain F where F: "flight_reachable sampleUC sampleEnv (missedForwarder 0, 0) F" "fl_threads F 1 = Waiting sampleQuery 0"
    using sampleFlight_exists by blast
  from singleflight_waiters_wake [OF F(1) missedForwarder_inv F(2)] F(2) show ?thesis
    by (auto simp: sampleQuery_def)
qed

text \<open>C27. Under its invariant the cache (map plus LRU list) implements a recency list: a read moves a live binding to the end and forgets an expired one, a store puts the new binding at the end and keeps the newest maxEntries bindings.\<close>

theorem cache_refines_recency_list:
  assumes "cacheInv c"
  shows "bindings (snd (Get c k now)) = lruRead now k (bindings c) \<and>
    bindings (snd (GetWithAge c k now)) = lruRead now k (bindings c) \<and>
    bindings (SetEntry c k v ttl et t t') =
      (if 0 < ttl \<and> 0 < capTTL c ttl et then
         lruPut (nat (maxEntries c)) k
           \<lparr>ce_value = v, cachedAt = t', expiresAt = t + capTTL c ttl et, entryType = et\<rparr> (bindings c)
       else bindings c)"
  using assms SetEntry_state(2) [OF assms, of ttl et k v t t'] SetEntry_rejected [of ttl c et k v t t']
  by (auto simp: bindings_Get bindings_GetWithAge)

theorem cache_refines_recency_list_witness:
  "bindings (SetEntry sampleCache ''a'' 7 Second CachePositive 0 0) =
     [(''a'', \<lparr>ce_value = 7, cachedAt = 0, expiresAt = Second, entryType = CachePositive\<rparr>)]"
proof -
  have "maxEntries sampleCache = 2" "capTTL sampleCache Second CachePositive = Second" "bindings sampleCache = []"
    by (simp_all add: sampleCache_def capTTL_def NewTTLCache_def duration_defs bindings_def)
  moreover have "0 < Second" by (simp add: duration_defs)
  ultimately show ?thesis
    using cache_refines_recency_list [OF sampleCache_inv, of "''a''" 0 7 Second CachePositive 0 0]
    by (simp add: lruPut_def newest_def forget_def)
qed



text \<open>C29. The aged TTL is the remaining time, at least 1, when the record's TTL is not below the age; when it is below, the unsigned subtraction wraps and the client receives a TTL of almost 2^32 seconds instead of 1.\<close>

theorem aged_ttl_exact_or_wraps:
  "unat (agedTTL ageSeconds ttl) =
    (if ageSeconds \<le> ttl then max 1 (unat ttl - unat ageSeconds)
     else 2 ^ 32 - (unat ageSeconds - unat ttl))"
  using agedTTL_exact [of ageSeconds ttl] agedTTL_wraps [of ttl ageSeconds] by (simp add: not_le)

text \<open>C30. A response with a question section that must be truncated is sent with twelve zero bytes in place of the header that was built for it: the transaction ID, the response bit and the truncation bit are lost.\<close>

theorem truncation_loses_the_header:
  assumes "int HeaderSize \<le> maxSize" "maxSize < int (length m)" "extractQuestionCount m \<noteq> 0"
    "HeaderSize < findQuestionSectionEnd m (unat (extractQuestionCount m))"
    "int (findQuestionSectionEnd m (unat (extractQuestionCount m))) \<le> maxSize"
  shows "take HeaderSize (truncateUDPResponse m maxSize) = replicate HeaderSize 0"
  using assms by (simp add: truncateUDPResponse_def Let_def HeaderSize_def)

theorem truncation_loses_the_header_witness:
  "take 12 (truncateUDPResponse ([0x12, 0x34, 0x81, 0x80, 0, 1, 0, 0, 0, 0, 0, 0, 0, 0, 1, 0, 1] @ replicate 9 7) 20) =
     replicate 12 0"
proof -
  have q: "extractQuestionCount ([0x12, 0x34, 0x81, 0x80, 0, 1, 0, 0, 0, 0, 0, 0, 0, 0, 1, 0, 1] @ replicate 9 7) = 1"
    by (simp add: extractQuestionCount_def slice_def Uint16_def)
  have e: "findQuestionSectionEnd ([0x12, 0x34, 0x81, 0x80, 0, 1, 0, 0, 0, 0, 0, 0, 0, 0, 1, 0, 1] @ replicate 9 7) (Suc 0) = 17"
    by (simp add: findQuestionSectionEnd_def HeaderSize_def skipQNAME.simps Let_def)
  show ?thesis
    using truncation_loses_the_header [of 20 "[0x12, 0x34, 0x81, 0x80, 0, 1, 0, 0, 0, 0, 0, 0, 0, 0, 1, 0, 1] @ replicate 9 7"] q e
    by (simp add: HeaderSize_def)
qed

text \<open>C31. The policy blocks a name exactly when filtering is enabled, no whitelist entry covers the name and some blacklist entry does; in every other case it allows it. Its counters stay consistent.\<close>

theorem policy_decision:
  assumes "policyInv pe"
  shows "res_Action (fst (Evaluate uc pe d)) =
      (if pe_enabled pe \<and> \<not> listed uc (pe_whitelist pe) d \<and> listed uc (pe_blacklist pe) d
       then pe_blockAction pe else ActionAllow) \<and>
    policyInv (snd (Evaluate uc pe d)) \<and>
    pe_queriesTotal (snd (Evaluate uc pe d)) = pe_queriesTotal pe + 1"
  using Evaluate_action [OF assms] policyInv_Evaluate [OF assms] by (simp add: Evaluate_def Let_def)

theorem policy_decision_witness:
  "res_Action (fst (Evaluate sampleUC (NewPolicyEngine sampleUC (policyConfig sampleDurations
     (sampleConfig\<lparr>Filtering := (Filtering sampleConfig)\<lparr>fc_BlacklistDomains := []\<rparr>\<rparr>))) ''ads.io'')) = ActionAllow"
  using policy_decision [OF policyInv_New [of sampleUC "policyConfig sampleDurations
     (sampleConfig\<lparr>Filtering := (Filtering sampleConfig)\<lparr>fc_BlacklistDomains := []\<rparr>\<rparr>)"], of sampleUC "''ads.io''"]
  by (simp add: NewPolicyEngine_def policyConfig_def sampleConfig_def Let_def listed_def trieInv_New)

text \<open>C32. After a refresh tick the blacklist holds only entries of lists fetched in that tick: entries configured statically or added through the API are gone.\<close>

theorem refresh_drops_static_entries:
  assumes "q \<in> exactPaths (pe_blacklist (refreshTick uc fetch p urls pe))"
  shows "\<exists>bl \<in> set urls. \<exists>t. ParseURL uc fetch p (bl_URL bl) (bl_Format bl) = Inr t \<and> q \<in> exactPaths t"
  using assms by (rule refreshTick_only_fetched)

theorem refresh_drops_static_entries_witness:
  "exactPaths (pe_blacklist (refreshTick sampleUC (\<lambda>n u. Inl undefined) NewParser [] (hy_policy sampleHydra))) = {}"
  using refresh_drops_static_entries [of _ sampleUC "\<lambda>n u. Inl undefined" NewParser "[]" "hy_policy sampleHydra"] by auto







text \<open>C36. Every combination of command-line values can be written as arguments and is read back exactly, whatever text the values contain; with no arguments the flags are the defaults, which leave the stored configuration as it is except for a missing node ID.\<close>

theorem flags_roundtrip:
  assumes "\<And>i. - (2 ^ 63) \<le> i \<Longrightarrow> i < 2 ^ 63 \<Longrightarrow> pint (Itoa i) = Some i"
    "- (2 ^ 63) \<le> f_port f" "f_port f < 2 ^ 63" "- (2 ^ 63) \<le> f_workers f" "f_workers f < 2 ^ 63"
  shows "parseFlags pint (argsOf f) = Inr f \<and> parseFlags pint [] = Inr defaultFlags \<and>
    applyCLIOverrides uuid defaultFlags cfg =
      (if cc_NodeID (Cluster cfg) = '''' then cfg\<lparr>Cluster := (Cluster cfg)\<lparr>cc_NodeID := take 8 uuid\<rparr>\<rparr> else cfg)"
proof -
  have "pint (Itoa (f_port f)) = Some (f_port f)" "pint (Itoa (f_workers f)) = Some (f_workers f)"
    using assms(1) [of "f_port f"] assms(1) [of "f_workers f"] assms(2-5) by simp_all
  from parseArgs_argsOf [OF this] default_overrides show ?thesis by (simp add: parseFlags_def)
qed

theorem flags_roundtrip_witness: "parseFlags Atoi (argsOf sampleFlags) = Inr sampleFlags"
  using flags_roundtrip [of Atoi sampleFlags "''0123456789''"] Atoi_Itoa by (simp add: sampleFlags_def)



text \<open>C38. A connection whose client is silent keeps Stop from returning nil: its handler sits in a read that the cancelled context does not interrupt, so when the read's deadline lies after the five seconds of Stop, every way Stop can return is with the timeout error.\<close>

theorem silent_client_blocks_shutdown:
  assumes "tr_phase s = TWaiting t" "silentConn c d s" "t < d" "(trun_step uc h)\<^sup>*\<^sup>* s s'" "tr_phase s' = TReturned r"
  shows "r = Some tcpStopTimeout"
  using stuckOn_reachable [OF assms(4,3), of c] assms by (auto simp: stuckOn_def)

theorem silent_client_blocks_shutdown_witness:
  "\<exists>s'. (trun_step sampleUC (Some (hydraHandler sampleUC sampleEnv sampleSelect)))\<^sup>*\<^sup>* (tcpRun 1 0 (sampleHydra, None)) s' \<and>
     tr_phase s' = TReturned (Some tcpStopTimeout)"
proof -
  let ?H = "Some (hydraHandler sampleUC sampleEnv sampleSelect)"
  note s = sampleSilent_reached
  define s' where "s' = sampleSilent\<lparr>tr_phase := TReturned (Some tcpStopTimeout),
    tr_now := max (tr_now sampleSilent) (5 * Second)\<rparr>"
  have "tmain_step sampleSilent s'" unfolding s'_def using s(2) by (rule tmain_step.expired)
  then have "(trun_step sampleUC ?H)\<^sup>*\<^sup>* sampleSilent s'" "\<exists>r. tr_phase s' = TReturned r"
    by (auto simp: trun_step_def s'_def)
  then obtain r where s': "(trun_step sampleUC ?H)\<^sup>*\<^sup>* sampleSilent s'" "tr_phase s' = TReturned r" by blast
  from silent_client_blocks_shutdown [OF s(2,4) _ s'] have "r = Some tcpStopTimeout" by (simp add: Second_def)
  with s(1) s' show ?thesis by (meson rtranclp_trans)
qed

text \<open>C39. When one server fails, RunWithContext returns its error at once, and the deferred Close of the resolver runs while the other server is still at work: for every message a TCP client can send there is a run in which the UDP socket cannot be opened, the resolver is closed, and a TCP handler has that message still to pass to the resolver.\<close>

theorem resolver_closed_under_requests:
  assumes "msg \<noteq> []" "length msg \<le> maxTCPMessageSize"
  shows "\<exists>s t. (server_step uc h)\<^sup>*\<^sup>* (startServers 1 now True u) s \<and> sv_runner s = RunnerReturned (Some err) \<and>
    sv_closed s \<and> sv_tcp s = Some t \<and> tn_state (tr_conns t ! 0) = ConnServe msg \<and> length (tr_conns t) = 1"
  using assms by (rule closed_while_serving)

theorem resolver_closed_under_requests_witness:
  "\<exists>s t. (server_step sampleUC (Some (hydraHandler sampleUC sampleEnv sampleSelect)))\<^sup>*\<^sup>* (startServers 1 0 True sampleUDP) s \<and>
     sv_closed s \<and> sv_tcp s = Some t \<and> tn_state (tr_conns t ! 0) = ConnServe sampleQueryBytes"
  using resolver_closed_under_requests [of sampleQueryBytes sampleUC "Some (hydraHandler sampleUC sampleEnv sampleSelect)"
      0 sampleUDP "''address in use''"]
  by (force simp: sampleQueryBytes_def maxTCPMessageSize_def)

text \<open>C40. When a secondary starts and its first synchronisation brings newer data, the database holds the primary's custom names, but the resolver that starts to answer serves the names exported before the synchronisation: the reload of the first synchronisation is overwritten.\<close>

theorem startup_overwrites_first_sync:
  assumes "cluster = overrideCluster uuid flags (the (db_cluster db))"
    and "noFaults db" "dbInv db" "db_version db = Some v" "v < ed_Version data" "dbInv a" "exportOf a data"
    and "cc_Mode cluster = ClusterModeSecondary" "cc_PrimaryURL cluster \<noteq> ''''"
    and "\<And>sy nd. \<exists>nd1. fetchConfig (ne_http env) cluster sy nd = (Inr data, nd1) \<and> nodeFetched nd nd1"
    and "NewCustomDNSResolver (ne_unicode env) (cd_Hosts (customOf db)) (cd_CNAMEs (customOf db)) = Inr rs"
    and "runNode env uuid flags procs now w db = Inr (cfg, syncer, nd)"
  shows "CustomDNS cfg = customOf db \<and> customOf (nd_db nd) = customOf a \<and> db_version (nd_db nd) = Some (ed_Version data) \<and>
    hy_custom (nd_hydra nd) = initCustomDNS (ne_unicode env) cfg None"
  using first_sync_overwritten [OF assms] by blast

theorem startup_overwrites_first_sync_witness:
  "\<exists>cfg syncer nd. runNode sampleNodeEnv ''0123456789'' sampleFlags 4 0 (0 :: int) freshNode = Inr (cfg, syncer, nd) \<and>
     cd_Hosts (customOf (nd_db nd)) = [(''nas.home'', [''192.168.1.10''])] \<and> hy_custom (nd_hydra nd) = None"
proof -
  have run: "\<exists>out. runNode sampleNodeEnv ''0123456789'' sampleFlags 4 0 (0 :: int) freshNode = Inr out"
    by (rule runNode_starts [OF freshNode_ok(1,2)])
  then obtain cfg syncer nd where run: "runNode sampleNodeEnv ''0123456789'' sampleFlags 4 0 (0 :: int) freshNode = Inr (cfg, syncer, nd)"
    by (metis prod_cases3)
  have custom: "customOf freshNode = \<lparr>cd_Hosts = [], cd_CNAMEs = []\<rparr>"
    by (simp add: customOf_def allHosts_def allCNAMEs_def groupHosts_def groupCNAMEs_def freshNode_def freshDB_def emptyTable_def)
  from NewCustomDNSResolver_empty obtain rs where rs: "NewCustomDNSResolver sampleUC [] [] = Inr rs" by blast
  have "cc_Mode (overrideCluster ''0123456789'' sampleFlags (the (db_cluster freshNode))) = ClusterModeSecondary"
    "cc_PrimaryURL (overrideCluster ''0123456789'' sampleFlags (the (db_cluster freshNode))) \<noteq> ''''"
    by (simp_all add: overrideCluster_def orElse_def sampleFlags_def Let_def ClusterModeSecondary_def)
  from startup_overwrites_first_sync [OF refl freshNode_ok _ samplePrimary_ok(2) sampleExport_of(1) this _ _ run, of rs] rs custom
  have "CustomDNS cfg = customOf freshNode" "customOf (nd_db nd) = customOf samplePrimary"
    "hy_custom (nd_hydra nd) = initCustomDNS sampleUC cfg None"
    by (simp_all add: sampleExport_of sampleFetch fetched_refl)
  with run custom show ?thesis by (simp add: samplePrimary_custom initCustomDNS_def Reload_def)
qed

section \<open>Further results\<close>

text \<open>Decoding an encoded domain name anywhere in a message gives the name back without its trailing dots, and advances past exactly its bytes.\<close>

theorem name_roundtrip:
  assumes "EncodeName d = Inr bs"
  shows "DecodeName (pre @ bs @ post) (length pre) = Inr (trimDot d, length pre + length bs)"
  using assms by (rule DecodeName_EncodeName)

theorem name_roundtrip_witness: "DecodeName ([9, 9] @ sampleNameBytes @ [5]) 2 = Inr (''ads.io'', 10)"
proof -
  have t: "trimDot ''ads.io'' = ''ads.io''" by code_simp
  show ?thesis
    using name_roundtrip [OF sampleName_encodes, of "[9, 9]" "[5]"] t
    by (simp add: sampleQuestion_def sampleNameBytes_def eval_nat_numeral)
qed

text \<open>A request that is accepted has at most 4096 bytes, is a standard query with exactly one question, at most 100 records per section and 200 in all, and its parts occupy distinct bytes of the message.\<close>

theorem request_bounds:
  assumes "ParseRequestBounded uc msg = Inr p"
  shows "length msg \<le> 4096 \<and> \<not> isResponse (Flags (p_Header p)) \<and> extractOpcode (Flags (p_Header p)) = 0 \<and>
    length (p_Questions p) = 1 \<and>
    length (p_Answers p) \<le> 100 \<and> length (p_Authorities p) \<le> 100 \<and> length (p_Additionals p) \<le> 100 \<and>
    length (p_Answers p) + length (p_Authorities p) + length (p_Additionals p) \<le> 200 \<and>
    12 + length (p_Questions p) + length (p_Answers p) + length (p_Authorities p) +
      length (p_Additionals p) \<le> length msg"
  using ParseRequestBounded_Inr [OF assms] ParsePacket_counts_bounded [OF ParseRequestBounded_Inr(1) [OF assms]]
  by (simp add: limit_defs HeaderSize_def)

theorem request_bounds_witness: "length sampleQueryBytes \<le> 4096 \<and> length (p_Questions sampleQuery) = 1"
  using request_bounds [OF sampleQuery_request] by blast

text \<open>What a client parses from the error response to a request: the request's ID, the response bit, the low four bits of the response code, the copied recursion-desired bit, the questions and no records.\<close>

theorem error_response_meaning:
  assumes "length (p_Questions req) \<le> 65535" "Packet_Marshal (BuildErrorResponse req rc) = Inr bs"
  shows "\<exists>p. ParsePacket uc bs = Inr p \<and> ID (p_Header p) = ID (p_Header req) \<and> IsResponse (p_Header p) \<and>
    RCodeFromFlags (Flags (p_Header p)) = rc AND RCodeMask \<and>
    RecursionDesired (p_Header p) = RecursionDesired (p_Header req) \<and> \<not> Authoritative (p_Header p) \<and>
    p_Questions p = map normQuestion (p_Questions req) \<and> p_Answers p = [] \<and> p_Authorities p = [] \<and>
    p_Additionals p = []"
proof -
  have "ParsePacket uc bs = Inr (normPacket (BuildErrorResponse req rc))"
    using ParsePacket_Marshal [OF wfPacket_BuildErrorResponse [OF assms(1)] assms(2), of uc "[]"] by simp
  then show ?thesis
    by (simp add: normPacket_def countedHeader_def BuildErrorResponse_def flag_bits buildResponseFlags_bits
        RCodeFromFlags_buildResponseFlags)
qed

theorem error_response_meaning_witness:
  "\<exists>bs p. Packet_Marshal (BuildErrorResponse sampleQuery RCodeServFail) = Inr bs \<and>
     ParsePacket sampleUC bs = Inr p \<and> RCodeFromFlags (Flags (p_Header p)) = RCodeServFail"
proof -
  have "Packet_Marshal (BuildErrorResponse sampleQuery RCodeServFail) = Inr (servfailFor sampleQuery)"
    using mustMarshal_cases [of "BuildErrorResponse sampleQuery RCodeServFail"]
      servfailFor_encodable [OF sampleQuery_single(2) sampleName_encodes]
    by (auto simp: servfailFor_def)
  moreover have "RCodeServFail AND RCodeMask = RCodeServFail" by code_simp
  ultimately show ?thesis
    using error_response_meaning [of sampleQuery RCodeServFail "servfailFor sampleQuery" sampleUC] sampleQuery_single
    by (auto simp: singleQuestion_def)
qed

text \<open>Whatever role a goroutine played (cache hit, leader or waiter), the answer it returns was validated against its own request; no goroutine panics.\<close>

theorem singleflight_results_validated:
  assumes "flight_reachable uc env s F" "fwdInv uc (fst s)" "fl_threads F g = Returned req x"
  shows "case x of Inl e \<Rightarrow> e \<noteq> ResolverPanic | Inr res \<Rightarrow> upstreamAnswer uc req (ResponseBytes res)"
proof -
  have "goodPc uc (fl_callKey F) (Returned req x)"
    using flight_reachable_inv [OF assms(1,2)] assms(3) unfolding flightInv_def by metis
  then show ?thesis by (auto split: sum.split)
qed

theorem singleflight_results_validated_witness:
  "\<exists>F x. flight_reachable sampleUC sampleEnv (missedForwarder 0, 0) F \<and> fl_threads F 1 = Returned sampleQuery x \<and>
     (case x of Inl e \<Rightarrow> e \<noteq> ResolverPanic | Inr res \<Rightarrow> upstreamAnswer sampleUC sampleQuery (ResponseBytes res))"
proof -
  obtain F where F: "flight_reachable sampleUC sampleEnv (missedForwarder 0, 0) F" "fl_threads F 1 = Waiting sampleQuery 0"
    using sampleFlight_exists by blast
  obtain F' where F': "(flight_step sampleUC sampleEnv)\<^sup>*\<^sup>* F F'"
    "fl_threads F' 1 = Returned sampleQuery (callOutcome (ID (p_Header sampleQuery)) (fl_calls F' 0))"
    using waiter_wakes [OF flight_reachable_inv [OF F(1) missedForwarder_inv] F(2), of sampleEnv] by blast
  then have "flight_reachable sampleUC sampleEnv (missedForwarder 0, 0) F'"
    using F(1) unfolding flight_reachable_def by (meson rtranclp_trans)
  with singleflight_results_validated [OF this missedForwarder_inv F'(2)] F'(2) show ?thesis by blast
qed

text \<open>Every cache operation keeps the map and the LRU list in step without duplicates, and the cache never holds more than maxEntries entries.\<close>

theorem cache_invariant:
  assumes "cacheInv c"
  shows "cacheInv (snd (Get c k now)) \<and> cacheInv (snd (GetWithAge c k now)) \<and>
    cacheInv (SetEntry c k v ttl et t t') \<and>
    int (fcard (fmdom (cache_data (SetEntry c k v ttl et t t')))) \<le> maxEntries c"
  using assms cacheInv_size [OF cacheInv_SetEntry [OF assms], of k v ttl et t t']
  by (simp add: cacheInv_Get cacheInv_GetWithAge cacheInv_SetEntry)

theorem cache_invariant_witness: "cacheInv (SetEntry sampleCache ''a'' 7 Second CachePositive 0 0)"
  using cache_invariant [OF sampleCache_inv, of "''a''" 0 7 Second CachePositive 0 0] by blast

text \<open>After a store with positive time to live, a lookup returns exactly the stored value, type and age until the capped expiry, and nothing from then on.\<close>

theorem cache_set_then_get:
  assumes "cacheInv c" "0 < ttl" "0 < capTTL c ttl et"
  shows "fst (GetWithAge (SetEntry c k v ttl et t t') k now) =
    (if now < t + capTTL c ttl et then Some (v, Sub now t', et) else None)"
  using lookup_SetEntry [OF assms, of k v t t']
  by (auto simp: GetWithAge_def Let_def After_def)

theorem cache_set_then_get_witness:
  "fst (GetWithAge (SetEntry sampleCache ''a'' 7 (2 * Second) CachePositive 0 0) ''a'' Second) = Some (7, Second, CachePositive)"
  using cache_set_then_get [OF sampleCache_inv, of "2 * Second" CachePositive "''a''" 7 0 0 Second]
  by (simp add: sampleCache_def capTTL_def NewTTLCache_def duration_defs Sub_def)

text \<open>No lookup ever returns an entry older than the cap of its kind: a day for positive answers, an hour for negative ones in a cache with the default caps.\<close>

theorem cached_age_bounded:
  assumes "timeInv c" "fst (GetWithAge c k now) = Some (v, age, et)" "0 \<le> maxTTL c" "0 \<le> maxNegativeTTL c"
  shows "age < (if et = CachePositive then maxTTL c else maxNegativeTTL c)"
  using assms by (rule GetWithAge_age_bound)

theorem cached_age_bounded_witness:
  "(Second :: duration) < maxTTL (SetEntry sampleCache ''a'' 7 (2 * Second) CachePositive 0 0)"
proof -
  let ?c = "SetEntry sampleCache ''a'' 7 (2 * Second) CachePositive 0 0"
  have inv: "cacheInv sampleCache" "timeInv sampleCache" by (simp_all add: sampleCache_inv) (simp add: sampleCache_def timeInv_New)
  have t: "timeInv ?c" using timeInv_SetEntry [OF inv] by simp
  have caps: "0 \<le> maxTTL ?c" "0 \<le> maxNegativeTTL ?c"
    by (simp_all add: sampleCache_def NewTTLCache_def duration_defs)
  have "fst (GetWithAge ?c ''a'' Second) = Some (7, Second, CachePositive)"
    using lookup_SetEntry [OF inv(1), of "2 * Second" CachePositive "''a''" 7 0 0]
    by (simp add: GetWithAge_Some_iff sampleCache_def capTTL_def NewTTLCache_def duration_defs Sub_def)
  from cached_age_bounded [OF t this caps] show ?thesis by simp
qed

text \<open>The loop that picks the cache lifetime of an answer computes the minimum of the positive TTLs of its records, and 0 when there is none.\<close>

theorem cache_ttl_is_minimum:
  "findMinimumTTL rs = (if positiveTTLs rs = {} then 0 else Min (positiveTTLs rs)) \<and>
   0 \<le> findMinimumTTL rs \<and> findMinimumTTL rs < 2 ^ 32"
  using findMinimumTTL_eq [of rs] findMinimumTTL_bounds [of rs] by blast

text \<open>The upstreams are tried in rotation order starting with the selected one: each configured upstream appears as often as it is configured, the selected one first.\<close>

theorem failover_order:
  assumes "up \<in> set (upstreams f)"
  shows "attemptOrder f up = rotate (findUpstreamIndex f up) (upstreams f) \<and> hd (attemptOrder f up) = up \<and>
    set (attemptOrder f up) = set (upstreams f) \<and> length (attemptOrder f up) = length (upstreams f)"
  using attemptOrder_first [OF assms] set_attemptOrder [of f up] attemptOrder_rotate [of f up] by simp

theorem failover_order_witness:
  "attemptOrder sampleForwarder ''1.1.1.1'' = [''1.1.1.1'', ''9.9.9.9'']"
proof -
  have u: "upstreams sampleForwarder = [''9.9.9.9'', ''1.1.1.1'']"
    by (simp add: sampleForwarder_def NewForwardingResolver_def maxUpstreams_def)
  show ?thesis
    using failover_order [of "''1.1.1.1''" sampleForwarder]
    by (simp add: u findUpstreamIndex_def rotate_def)
qed

text \<open>An upstream that has failed is skipped exactly until one hour after its first failure, later failures do not extend the time, and when it is tried again its failure is forgotten.\<close>

theorem upstream_recovers_after_an_hour:
  assumes "fmlookup (upstreamFailedAt (fst s)) up = Some t0" "onWorld (env_now env) s = (t, s1)"
  shows "(fst (canTryUpstream env up s) \<longleftrightarrow> t0 + Hour \<le> t) \<and> markFailed env up s = s \<and>
    (t0 + Hour \<le> t \<longrightarrow> fmlookup (upstreamFailedAt (fst (snd (canTryUpstream env up s)))) up = None)"
  using canTryUpstream_failed [OF assms] canTryUpstream_recovers [of env up s] markFailed_keeps_first [OF assms(1)]
  by blast

theorem upstream_recovers_after_an_hour_witness:
  "\<not> fst (canTryUpstream sampleEnv ''9.9.9.9''
      (sampleForwarder\<lparr>upstreamFailedAt := fmupd ''9.9.9.9'' 0 fmempty\<rparr>, Minute))"
  using upstream_recovers_after_an_hour
    [of "(sampleForwarder\<lparr>upstreamFailedAt := fmupd ''9.9.9.9'' 0 fmempty\<rparr>, Minute)" "''9.9.9.9''" 0 sampleEnv Minute
      "(sampleForwarder\<lparr>upstreamFailedAt := fmupd ''9.9.9.9'' 0 fmempty\<rparr>, Minute)"]
  by (simp add: onWorld_def sampleEnv_def duration_defs)

text \<open>Appending an OPT record to the raw bytes of a marshalled request without one gives exactly the bytes of the packet with that record added.\<close>

theorem edns_added_to_bytes:
  assumes "Packet_Marshal p = Inr bs" "ExtractOPT (p_Additionals p) = None" "length (p_Additionals p) < 65535"
  shows "Packet_Marshal (p\<lparr>p_Additionals := p_Additionals p @ [optRecordOf (CreateOPT sz)]\<rparr>) =
    Inr (AddEDNSToRequestBytes p bs sz)"
  using assms by (rule AddEDNS_Marshal)

theorem edns_added_to_bytes_witness:
  "Packet_Marshal (sampleQuery\<lparr>p_Additionals := [optRecordOf (CreateOPT 1232)]\<rparr>) =
    Inr (AddEDNSToRequestBytes sampleQuery sampleQueryBytes 1232)"
  using edns_added_to_bytes [OF sampleQuery_Marshal, of 1232] by (simp add: sampleQuery_def)

text \<open>Parsing marshalled EDNS options gives back exactly the options with an allowed code and at most 4096 bytes of data, in order.\<close>

theorem edns_options_roundtrip: "ParseEDNSOptions (MarshalEDNSOptions os) = filter okOption os"
  by (rule ParseEDNSOptions_Marshal)

text \<open>The byte walk that finds the end of the question section stops exactly where parsing the questions stops, whenever they parse.\<close>

theorem question_skipping_agrees_with_parsing:
  assumes "parseN (ParseQuestion uc) n msg HeaderSize = Inr (qs, off)" "HeaderSize \<le> length msg"
  shows "findQuestionSectionEnd msg n = off"
  using findQuestionSectionEnd_parse [OF assms] by (simp add: findQuestionSectionEnd_def)

theorem question_skipping_agrees_with_parsing_witness: "findQuestionSectionEnd sampleQueryBytes 1 = 24"
proof -
  have q: "appendAll Question_Marshal [] [sampleQuestion] = Inr (drop 12 sampleQueryBytes)" by code_simp
  have "parseN (ParseQuestion sampleUC) 1 sampleQueryBytes 12 = Inr ([normQuestion sampleQuestion], 24)"
    using question.parseN_appendAll [OF _ q, of sampleUC "take 12 sampleQueryBytes" "[]"]
    by (simp add: sampleQueryBytes_def eval_nat_numeral)
  from question_skipping_agrees_with_parsing [of sampleUC 1 sampleQueryBytes, unfolded HeaderSize_def, OF this]
  show ?thesis by (simp add: sampleQueryBytes_def)
qed

text \<open>A name is found in the trie exactly when it is an entry itself or one of its proper parent domains is a wildcard entry.\<close>

theorem trie_membership:
  assumes "trieInv t"
  shows "Trie_Contains uc t x \<longleftrightarrow> (\<exists>p. domainPath uc x = Some p \<and>
    (p \<in> exactPaths t \<or> (\<exists>q \<in> wildPaths t. strict_prefix q p)))"
  using Trie_Contains_listed [OF assms] by (simp add: listed_def)

theorem trie_membership_witness: "\<not> Trie_Contains sampleUC NewDomainTrie ''ads.io''"
  using trie_membership [OF trieInv_New(1), of sampleUC "''ads.io''"] by (simp add: trieInv_New)

text \<open>Adding, removing and merging change the entry sets as insertion, deletion and union do, and keep the stored size equal to the number of distinct entries.\<close>

theorem trie_updates:
  assumes "trieInv t" "trieInv u"
  shows "exactPaths (Trie_Add uc t x w) = exactPaths t \<union> set_option (domainPath uc x) \<and>
    exactPaths (snd (Trie_Remove uc t x)) = exactPaths t - set_option (domainPath uc x) \<and>
    exactPaths (Trie_Merge t u) = exactPaths t \<union> exactPaths u \<and>
    wildPaths (Trie_Merge t u) = wildPaths t \<union> wildPaths u \<and>
    trie_size (Trie_Add uc t x w) = int (card (exactPaths (Trie_Add uc t x w))) \<and>
    trie_size (snd (Trie_Remove uc t x)) = int (card (exactPaths (snd (Trie_Remove uc t x)))) \<and>
    trie_size (Trie_Merge t u) = int (card (exactPaths (Trie_Merge t u)))"
proof -
  have "trieInv (Trie_Add uc t x w)" "trieInv (snd (Trie_Remove uc t x))" "trieInv (Trie_Merge t u)"
    using assms by (simp_all add: trieInv_Add trieInv_Remove Trie_Merge_paths(3))
  with Trie_Add_paths(1) [of uc t x w] Trie_Remove_paths(1) [OF assms(1), of uc x] Trie_Merge_paths(1,2) [OF assms]
  show ?thesis by (simp only: trieInv_def)
qed

theorem trie_updates_witness:
  "exactPaths (Trie_Add sampleUC NewDomainTrie ''ads.io'' True) = set_option (domainPath sampleUC ''ads.io'')"
  using trie_updates [OF trieInv_New(1) trieInv_New(1), of sampleUC "''ads.io''" True] by (simp add: trieInv_New)

text \<open>Every entry of a parsed blocklist, in any of its formats, is a valid domain name and matches all its subdomains, and the resulting trie satisfies its invariant.\<close>

theorem parsed_lists_are_valid:
  assumes "Parse uc p input format = Inr t"
  shows "trieInv t \<and> wildPaths t = exactPaths t \<and>
    (\<forall>q \<in> exactPaths t. \<exists>d. isValidDomain d \<and> domainPath uc d = Some q)"
  using trieInv_Parse [OF assms] Parse_entries [OF assms] by blast

theorem parsed_lists_are_valid_witness:
  "\<exists>t. Parse sampleUC NewParser (''ads.io'', False) FormatDomains = Inr t \<and> exactPaths t = {[''io'', ''ads'']} \<and>
     trieInv t \<and> wildPaths t = exactPaths t"
proof -
  have "Split newline ''ads.io'' = [''ads.io'']" "map dropCR [''ads.io''] = [''ads.io'']" by code_simp+
  then have scan: "scanLines ''ads.io'' = Some [''ads.io'']"
    by (simp add: scanLines_def maxLine_def Let_def)
  have n: "normalizeDomain sampleUC ''ads.io'' = ''ads.io''" "TrimSpace sampleUC ''ads.io'' = ''ads.io''"
    "cutAt CHR ''#'' ''ads.io'' = ''ads.io''" by code_simp+
  have labels: "Split CHR ''.'' ''ads.io'' = [''ads'', ''io'']" by code_simp
  have "bytesOf ''ads'' = [0x61, 0x64, 0x73]" "bytesOf ''io'' = [0x69, 0x6F]" by code_simp+
  then have runes: "runes (bytesOf ''ads'') = [0x61, 0x64, 0x73]" "runes (bytesOf ''io'') = [0x69, 0x6F]"
    by (simp_all add: runes.simps)
  have alnum: "isAlphaNum (byteOf CHR ''a'')" "isAlphaNum (byteOf CHR ''s'')" "isAlphaNum (byteOf CHR ''i'')"
    "isAlphaNum (byteOf CHR ''o'')" "isAlphaNum 0x61" "isAlphaNum 0x64" "isAlphaNum 0x73" "isAlphaNum 0x69"
    "isAlphaNum 0x6F" by code_simp+
  have "validLabel ''ads''" "validLabel ''io''" by (simp_all add: validLabel_def runes alnum)
  then have "list_all validLabel [''ads'', ''io'']" by simp
  then have v: "isValidDomain ''ads.io''" unfolding isValidDomain_def labels by simp
  let ?t = "Trie_Add sampleUC NewDomainTrie ''ads.io'' True"
  have t: "Parse sampleUC NewParser (''ads.io'', False) FormatDomains = Inr ?t"
    by (simp add: Parse_def scan n v parseLine_def parseDomainsLine_def NewParser_def isComment_def HasPrefix_def Let_def)
  have "domainPath sampleUC ''ads.io'' = Some [''io'', ''ads'']" by (simp add: domainPath_def n labels)
  then have "exactPaths ?t = {[''io'', ''ads'']}" by (simp add: Trie_Add_paths trieInv_New)
  with t parsed_lists_are_valid [OF t] show ?thesis by blast
qed

text \<open>Blacklisting a domain blocks it and every subdomain that no whitelist entry covers; whitelisting a domain allows it and every subdomain whatever the blacklist holds.\<close>

theorem blacklisting_covers_subdomains:
  assumes "policyInv pe" "domainPath uc x = Some p" "domainPath uc y = Some q" "prefix p q"
  shows "res_Action (fst (Evaluate uc (AddToWhitelist uc pe x) y)) = ActionAllow \<and>
    (pe_enabled pe \<and> \<not> listed uc (pe_whitelist pe) y \<longrightarrow>
      res_Action (fst (Evaluate uc (AddToBlacklist uc pe x) y)) = pe_blockAction pe)"
  using AddToWhitelist_allows [OF assms] AddToBlacklist_blocks [OF assms(1) _ assms(2-4)] by blast

theorem blacklisting_covers_subdomains_witness:
  "res_Action (fst (Evaluate sampleUC (AddToBlacklist sampleUC (hy_policy sampleHydra) ''io'') ''ads.io'')) = ActionBlock"
proof -
  have n: "normalizeDomain sampleUC ''io'' = ''io''" "normalizeDomain sampleUC ''ads.io'' = ''ads.io''" by code_simp+
  have p: "domainPath sampleUC ''io'' = Some [''io'']" "domainPath sampleUC ''ads.io'' = Some [''io'', ''ads'']"
    by (simp_all add: domainPath_def n)
  have inv: "policyInv (hy_policy sampleHydra)" using sampleHydra_inv by (simp add: hydraInv_def)
  have f: "pe_enabled (hy_policy sampleHydra)" "pe_whitelist (hy_policy sampleHydra) = NewDomainTrie"
    "pe_blockAction (hy_policy sampleHydra) = ActionBlock"
    by (simp_all add: sampleHydra_def startHydra_def Let_def NewPolicyEngine_def policyConfig_def sampleConfig_def)
  show ?thesis
    using blacklisting_covers_subdomains [OF inv p] f by (simp add: listed_def trieInv_New)
qed

text \<open>An answer from the configured names is an authoritative response without error, with the request's ID and question, at least one answer record, and every answer record owned by the queried name.\<close>

theorem custom_answers_are_authoritative:
  assumes "\<forall>r. rr = Some r \<longrightarrow> customInv r" "Reloadable_Resolve uc rr req = Inr res"
  shows "customAnswer req (ResponseBytes res)"
  using assms by (rule Reloadable_answers)

theorem custom_answers_are_authoritative_witness:
  "\<exists>res. Reloadable_Resolve sampleUC (Some \<lparr>cr_hosts = fmupd ''ads.io'' [V4 [192, 0, 2, 1]] fmempty, cr_cnames = fmempty\<rparr>)
     sampleQuery = Inr res \<and> customAnswer sampleQuery (ResponseBytes res)"
proof -
  let ?r = "\<lparr>cr_hosts = fmupd ''ads.io'' [V4 [192, 0, 2, 1]] fmempty, cr_cnames = fmempty\<rparr>"
  have n: "normalizeName sampleUC ''ads.io'' = ''ads.io''" by code_simp
  have i: "ipRecords ''ads.io'' sampleQuestion [V4 [192, 0, 2, 1]] =
      [NewIPRecord (NewRRHeader ''ads.io'' 1 3600) [192, 0, 2, 1]]"
    by (simp add: ipRecords_def matchesQueryType_def sampleQuestion_def TypeA_def)
  have m: "Packet_Marshal (addressPacket sampleQuery sampleQuestion [V4 [192, 0, 2, 1]]) \<noteq> Inl e" for e
    using sampleName_encodes i
    by (simp add: Packet_Marshal_def addressPacket_def customHeader_def Header_Marshal_def appendRecords_def
        Question_Marshal_def sampleQuestion_def Let_def MarshalRecord_def NewIPRecord_def NewRRHeader_def To4_def
        marshalRecordWithRData_def TypeA_def TypeOPT_def)
  have "fcard (fmdom (cr_hosts ?r)) \<noteq> 0" by (simp add: fcard.rep_eq)
  then obtain res where res: "Reloadable_Resolve sampleUC (Some ?r) sampleQuery = Inr res"
    using m i by (cases "Packet_Marshal (addressPacket sampleQuery sampleQuestion [V4 [192, 0, 2, 1]])")
      (auto simp: Reloadable_Resolve_def CustomDNS_IsEmpty_def CustomDNS_Resolve_def sampleQuery_single
        n sampleQuestion_def buildAddressResponse_def marshalCustom_def)
  moreover have "\<forall>r. Some ?r = Some r \<longrightarrow> customInv r" by (simp add: customInv_def)
  ultimately show ?thesis using custom_answers_are_authoritative by blast
qed

text \<open>A key that has waited long enough for one token to accrue is granted its next request, whatever it spent before: no key is starved.\<close>

theorem bucket_refills:
  assumes "bucketInv l" "0 < rl_rate l" "0 < rl_burst l" "fmlookup (rl_lastUpdate l) k \<noteq> None"
    "Sub now (rl_lastCleanup l) \<le> rl_cleanupInterval l" "1 \<le> Seconds (Sub now (lastOf l k)) * rl_rate l"
  shows "fst (Bucket_Allow l k now)"
  using assms by (rule Bucket_Allow_after_wait)

theorem bucket_refills_witness: "tokensOf sampleBucket ''10.0.0.1'' = 0 \<and> fst (Bucket_Allow sampleBucket ''10.0.0.1'' Second)"
  using bucket_refills [OF sampleBucket_inv, of "''10.0.0.1''" Second]
  by (simp add: sampleBucket_fields sampleBucket_second)

text \<open>However receiver and workers interleave, the UDP server never crashes, its queue never exceeds twice the number of workers, and every datagram it sends fits the largest EDNS size and starts with the ID of the request it answers, or is a truncated response whose header is all zero.\<close>

theorem udp_server_safety:
  assumes "(udp_step uc (Some (hydraHandler uc env sel)))\<^sup>*\<^sup>* u u'" "hydraInv uc (fst (udp_sys u))"
    "udp_queue u = []" "udp_sent u = []" "\<not> udp_crashed u" "\<forall>l. udp_limiter u = Some l \<longrightarrow> limiterInv l"
  shows "\<not> udp_crashed u' \<and> int (length (udp_queue u')) \<le> 2 * workersPerSocket (udp_workers u') \<and>
    (\<forall>(peer, req, out) \<in> set (udp_sent u'). length out \<le> EDNSMaxUDPPayloadSize \<and>
       (take 2 out = take 2 req \<or> take 12 out = replicate 12 0))"
proof -
  have "udpInv uc u"
    using assms(2-6) by (simp add: udpInv_def queueCap_def workersPerSocket_def DefaultWorkersPerSocket_def)
  from udpInv_reachable [OF assms(1) this] show ?thesis
    unfolding udpInv_def queueCap_def udpAnswer_def HeaderSize_def by (auto simp: mult.commute)
qed

theorem udp_server_safety_witness:
  "let u' = recvPacket sampleQueryBytes \<lparr>ua_IP = [10, 0, 0, 1], ua_Port = 4242\<rparr> 0 0 0 sampleUDP
   in udp_queue u' = [(sampleQueryBytes, \<lparr>ua_IP = [10, 0, 0, 1], ua_Port = 4242\<rparr>)] \<and> \<not> udp_crashed u' \<and>
      int (length (udp_queue u')) \<le> 2 * workersPerSocket (udp_workers u')"
proof -
  let ?p = "\<lparr>ua_IP = [10, 0, 0, 1], ua_Port = 4242\<rparr>"
  let ?u = "recvPacket sampleQueryBytes ?p 0 0 0 sampleUDP"
  have q: "udp_queue ?u = [(sampleQueryBytes, ?p)]"
    by (simp add: recvPacket_def dispatch_def sampleUDP_def queueCap_def workersPerSocket_def
        MaxIncomingDNSMessageSize_def sampleQueryBytes_def)
  have "udp_step sampleUC (Some (hydraHandler sampleUC sampleEnv sampleSelect)) sampleUDP ?u"
    by (rule udp_step.recv) (simp add: sampleUDP_def)
  then have "(udp_step sampleUC (Some (hydraHandler sampleUC sampleEnv sampleSelect)))\<^sup>*\<^sup>* sampleUDP ?u" by blast
  from udp_server_safety [OF this] q sampleHydra_inv
  show ?thesis by (simp add: sampleUDP_def)
qed

text \<open>In every reachable state the connection counter of each address is the number of its open connections and at most 10; an address is accepted exactly while it is below the limit, and closing one of its connections always makes room for another.\<close>

theorem tcp_connection_limit:
  assumes "tcp_step\<^sup>*\<^sup>* tcpInit t"
  shows "connCount (tcp_counts t) ip = int (count_list (tcp_open t) ip) \<and> count_list (tcp_open t) ip \<le> 10 \<and>
    (fst (tryAcquireConn ip (tcp_counts t)) \<longleftrightarrow> count_list (tcp_open t) ip < 10) \<and>
    (ip \<in> set (tcp_open t) \<longrightarrow> fst (tryAcquireConn ip (releaseConn ip (tcp_counts t))))"
proof -
  note inv = tcpInv_reachable [OF assms]
  have "connCount (tcp_counts t) ip = int (count_list (tcp_open t) ip)"
    "connCount (tcp_counts t) ip \<le> maxTCPConnectionsPerIP"
    using inv unfolding tcpInv_def by blast+
  with release_frees [OF inv, of ip] show ?thesis
    by (auto simp: tryAcquireConn_iff maxTCPConnectionsPerIP_def)
qed

theorem tcp_connection_limit_witness:
  "\<exists>t. tcp_step\<^sup>*\<^sup>* tcpInit t \<and> ''10.0.0.1'' \<in> set (tcp_open t) \<and> connCount (tcp_counts t) ''10.0.0.1'' = 1 \<and>
     fst (tryAcquireConn ''10.0.0.1'' (releaseConn ''10.0.0.1'' (tcp_counts t)))"
proof -
  define t where "t = tcpInit\<lparr>tcp_counts := fmupd ''10.0.0.1'' 1 fmempty, tcp_open := [''10.0.0.1'']\<rparr>"
  have "tcp_step tcpInit t"
    using tcp_step.accept [of "''10.0.0.1''" tcpInit "fmupd ''10.0.0.1'' 1 fmempty"]
    by (simp add: t_def tryAcquireConn_def connCount_def tcpInit_def maxTCPConnectionsPerIP_def)
  then have r: "tcp_step\<^sup>*\<^sup>* tcpInit t" by blast
  with tcp_connection_limit [OF r, of "''10.0.0.1''"] show ?thesis by (intro exI [of _ t]) (simp add: t_def)
qed

text \<open>What the server writes as one TCP message is read back as exactly that message, and reading never takes bytes of the next one.\<close>

theorem tcp_framing_roundtrip:
  assumes "writeMessage True m = Some out" "m \<noteq> []"
  shows "readMessage (out @ rest) = Some (m, rest)"
  using assms by (rule readMessage_frame)

theorem tcp_framing_roundtrip_witness: "readMessage ([0, 2, 7, 8] @ [0, 5]) = Some ([7, 8], [0, 5])"
  using tcp_framing_roundtrip [of "[7, 8]" "[0, 2, 7, 8]" "[0, 5]"]
  by (simp add: writeMessage_def maxTCPMessageSize_def PutUint16_def)

text \<open>After a request that added a new blacklist domain the cluster export carries a higher version and exactly the same data as before: the domain, though stored and enforced on the primary, does not reach a secondary, which nevertheless records the new version.\<close>

theorem filter_changes_missing_from_export:
  assumes "AddBlacklist env (Inr ds) h = Some ((200, b), h')" "x \<in> set ds" "x \<notin> set (blacklistKeys (dbOf h))"
    and "hd_policy h" "policyInv (policyOf h)"
    and "GetClusterExport ts sec h = Some ((200, ExportResponse e), h1)"
    and "GetClusterExport ts sec h' = Some ((200, ExportResponse e'), h2)"
  shows "x \<in> set (blacklistKeys (dbOf h')) \<and> ed_Version e < ed_Version e' \<and> e' = e\<lparr>ed_Version := ed_Version e'\<rparr>"
  using export_misses_blacklist [OF assms] by blast

theorem filter_changes_missing_from_export_witness:
  "\<exists>h' e e' h1 h2. GetClusterExport ''t'' ''s3cret'' sampleHandler = Some ((200, ExportResponse e), h1) \<and>
     AddBlacklist sampleNodeEnv (Inr [''io'']) sampleHandler = Some ((200, DomainListResponse [''io''] 1), h') \<and>
     GetClusterExport ''t'' ''s3cret'' h' = Some ((200, ExportResponse e'), h2) \<and>
     e' = e\<lparr>ed_Version := 6\<rparr> \<and> ed_Version e < 6"
proof -
  obtain h' n where add: "AddBlacklist sampleNodeEnv (Inr [''io'']) sampleHandler = Some ((200, DomainListResponse [''io''] 1), h')"
    and h': "hd_cfg h' = Some sampleHandlerConfig" "hd_db h'" "dbOf h' = blacklistedNode\<lparr>db_tick := n\<rparr>"
    by (rule sampleBlacklist)
  from sampleExport_request [OF sampleHandler_parts(1,2,6) freshNode_ok(1,3), of "''t''"] obtain e h1 where
    before: "GetClusterExport ''t'' ''s3cret'' sampleHandler = Some ((200, ExportResponse e), h1)" by blast
  from sampleExport_request [OF h', of 6 "''t''"] blacklistedNode_ok(2,3) obtain e' h2 where
    after: "GetClusterExport ''t'' ''s3cret'' h' = Some ((200, ExportResponse e'), h2)" "ed_Version e' = 6" by auto
  from filter_changes_missing_from_export [OF add _ _ sampleHandler_parts(3) sampleHandler_policy before after(1), of "''io''"]
  have "ed_Version e < 6" "e' = e\<lparr>ed_Version := 6\<rparr>"
    using after(2) by (simp_all add: sampleHandler_parts freshNode_blacklist)
  with add before after show ?thesis by blast
qed

text \<open>When opening a socket fails, Run returns the error with every earlier socket closed, but the workers of those sockets are all still there and none of them can return before the context is cancelled; once it is, all of them can.\<close>

theorem failed_start_keeps_workers:
  assumes "(run_step uc (Some (hydraHandler uc env sel)))\<^sup>*\<^sup>* (udpRun numCPU u) s" "hydraInv uc (fst (udp_sys u))"
    "udp_queue u = []" "udp_sent u = []" "\<not> udp_crashed u" "\<forall>l. udp_limiter u = Some l \<longrightarrow> limiterInv l"
    "ur_phase s = UReturned (Some err)" "\<not> ur_ctx s"
  shows "(\<forall>k \<in> set (ur_conns s). \<not> so_open k \<and> WorkExit \<notin> set (so_workers k)) \<and>
    (\<exists>s'. (go_step uc (Some (hydraHandler uc env sel)))\<^sup>*\<^sup>* (s\<lparr>ur_ctx := True\<rparr>) s' \<and> allExited s')"
proof -
  have inv: "runInv uc s" by (rule runInv_reachable [OF assms(1) udpRun_inv(1) [OF assms(2-6)]])
  then have "stopping uc (s\<lparr>ur_ctx := True\<rparr>)"
    using runInv_env [OF env_step.cancel inv] assms(7) by (simp add: stopping_def runInv_def closedConns_def)
  with udp_stop.drains have "\<exists>s'. (go_step uc (Some (hydraHandler uc env sel)))\<^sup>*\<^sup>* (s\<lparr>ur_ctx := True\<rparr>) s' \<and> allExited s'"
    by blast
  with inv assms(7,8) show ?thesis by (simp add: runInv_def socketOK_def closedConns_def)
qed

theorem failed_start_keeps_workers_witness:
  "\<exists>s. (run_step sampleUC (Some (hydraHandler sampleUC sampleEnv sampleSelect)))\<^sup>*\<^sup>* (udpRun 2 sampleUDP) s \<and>
     ur_phase s = UReturned (Some ''address in use'') \<and> length (ur_conns s) = 1 \<and>
     (\<forall>k \<in> set (ur_conns s). \<not> so_open k \<and> WorkExit \<notin> set (so_workers k))"
proof -
  define s1 where "s1 = startSocket 1 (udpRun 2 sampleUDP)"
  define s where "s = (closeConns s1)\<lparr>ur_phase := UReturned (Some ''address in use'')\<rparr>"
  have "main_step (udpRun 2 sampleUDP) s1"
    unfolding s1_def by (rule main_step.opened) (simp add: udpRun_def numeral_2_eq_2)
  moreover have "main_step s1 s" unfolding s_def
    by (rule main_step.failed [of _ 0]) (simp add: s1_def startSocket_def Let_def)
  ultimately have r: "(run_step sampleUC (Some (hydraHandler sampleUC sampleEnv sampleSelect)))\<^sup>*\<^sup>* (udpRun 2 sampleUDP) s"
    by (meson run_step_def r_into_rtranclp rtranclp.rtrancl_into_rtrancl)
  have f: "ur_phase s = UReturned (Some ''address in use'')" "length (ur_conns s) = 1" "\<not> ur_ctx s"
    by (simp_all add: s_def s1_def closeConns_def startSocket_def udpRun_def Let_def)
  with failed_start_keeps_workers [OF r] sampleHydra_inv
  have "\<forall>k \<in> set (ur_conns s). \<not> so_open k \<and> WorkExit \<notin> set (so_workers k)" by (simp add: sampleUDP_def)
  with r f show ?thesis by blast
qed

text \<open>A connection that waits for a length or a body is always cut off within 10 seconds: the idle timeout of 30 seconds that handleConnection sets is replaced by the read deadline before every read and is never in force.\<close>

theorem read_deadline_within_ten_seconds:
  assumes "(trun_step uc (Some (hydraHandler uc env sel)))\<^sup>*\<^sup>* (tcpRun numCPU now y) s" "hydraInv uc (fst y)"
    "k \<in> set (tr_conns s)" "tn_state k = ConnLen \<or> tn_state k = ConnBody n"
  shows "tn_readDeadline k \<le> tr_now s + 10 * Second \<and> tn_readDeadline k < tr_now s + tcpConnectionIdleTimeout"
proof -
  have "tcpRunInv uc s" by (rule tcpRunInv_reachable [OF assms(1) tcpRun_inv [OF assms(2)]])
  with assms(3,4) have "tn_readDeadline k \<le> tr_now s + tcpReadTimeout" by (auto simp: tcpRunInv_def readFrom_def)
  then show ?thesis by (simp add: tcpReadTimeout_def tcpConnectionIdleTimeout_def Second_def)
qed

theorem read_deadline_within_ten_seconds_witness:
  "tn_readDeadline (tr_conns sampleSilent ! 0) \<le> tr_now sampleSilent + 10 * Second"
  using read_deadline_within_ten_seconds [OF sampleSilent_reached(1), of "tr_conns sampleSilent ! 0" 0]
    sampleSilent_reached(3,4) sampleHydra_inv by (simp add: silentConn_def)

text \<open>The key under which connections are counted is the host part of the peer's address, for IPv4 and IPv6 alike and whatever its port, so all connections of a host share one counter; and the addresses the DNS servers and the API listen on split back into the configured host and port.\<close>

theorem connections_keyed_by_host:
  assumes "plainText ip" "plainText (sc_Host (Server cfg))" "plainText (ac_Host (API cfg))"
  shows "remoteIPString (Some (JoinHostPort ip (Itoa port))) = ip \<and>
    SplitHostPort (dnsAddr cfg) = Inr (sc_Host (Server cfg), Itoa (sc_Port (Server cfg))) \<and>
    SplitHostPort (apiAddr cfg) = Inr (ac_Host (API cfg), Itoa (ac_Port (API cfg)))"
  using assms by (simp add: remoteIPString_host listenAddr_split)

theorem connections_keyed_by_host_witness:
  "remoteIPString (Some ''[2001:db8::1]:4242'') = ''2001:db8::1''"
proof -
  define cfg where "cfg = sampleConfig\<lparr>Server := (Server sampleConfig)\<lparr>sc_Host := ''0.0.0.0''\<rparr>,
    API := (API sampleConfig)\<lparr>ac_Host := ''127.0.0.1''\<rparr>\<rparr>"
  have "natDigits 4242 = ''4242''" by code_simp
  then have "JoinHostPort ''2001:db8::1'' (Itoa 4242) = ''[2001:db8::1]:4242''" by (simp add: JoinHostPort_def Itoa_def)
  with connections_keyed_by_host [of "''2001:db8::1''" cfg 4242] show ?thesis by (simp add: plainText_def cfg_def)
qed

text \<open>Opening the database leaves no connection behind when it fails, at whichever step, and exactly its own connection when it succeeds; it succeeds exactly when the driver opens and every migration step goes through, a schema that is already up to date included.\<close>

theorem open_leaves_no_handle:
  assumes "tracksHandles d handles"
  shows "(case DB_Open d path w of
      (Inl _, w') \<Rightarrow> handles w' = handles w
    | (Inr c, w') \<Rightarrow> c \<notin> handles w \<and> handles w' = insert c (handles w)) \<and>
    ((\<exists>c w'. DB_Open d path w = (Inr c, w')) \<longleftrightarrow>
     (\<exists>c w1. sd_open d (dsnOf path) w = (Inr c, w1) \<and> fst (runMigrations d c (sd_limits d 10 5 Hour c w1)) = None))"
  using DB_Open_handles [OF assms] DB_Open_ok by (intro conjI)

theorem open_leaves_no_handle_witness:
  "\<exists>d :: (nat, nat set) sql_driver. tracksHandles d id \<and> DB_Open d ''hydradns.db'' {} = (Inr 0, {0}) \<and>
     snd (DB_Open (d\<lparr>sd_up := (\<lambda>c w. (UpFailed ''disk full'', w))\<rparr>) ''hydradns.db'' {}) = {}"
proof -
  define d :: "(nat, nat set) sql_driver" where
    "d = \<lparr>sd_open = (\<lambda>_ w. if 0 \<in> w then (Inl ''busy'', w) else (Inr 0, insert 0 w)), sd_limits = (\<lambda>_ _ _ _ w. w),
       sd_source = (\<lambda>w. (None, w)), sd_instance = (\<lambda>_ w. (None, w)), sd_migrator = (\<lambda>_ w. (None, w)),
       sd_up = (\<lambda>_ w. (ErrNoChange, w)), sd_close = (\<lambda>c w. w - {c})\<rparr>"
  let ?d2 = "d\<lparr>sd_up := (\<lambda>c w. (UpFailed ''disk full'', w))\<rparr>"
  have t: "tracksHandles d id" "tracksHandles ?d2 id" by (auto simp: tracksHandles_def d_def)
  have "DB_Open d ''hydradns.db'' {} = (Inr 0, {0})" by (simp add: DB_Open_def runMigrations_def d_def)
  moreover have "\<exists>e w'. DB_Open ?d2 ''hydradns.db'' {} = (Inl e, w')" by (simp add: DB_Open_def runMigrations_def d_def)
  ultimately show ?thesis using t open_leaves_no_handle [OF t(2), where path = "''hydradns.db''" and w = "{}"] by (intro exI [of _ d]) auto
qed

text \<open>The start-up log calls a tier of the rate limiter disabled exactly when its token bucket lets every query through without keeping any record of it.\<close>

theorem log_reports_effective_limits:
  "fmtLimiter g name rate burst = name @ ''=disabled'' \<longleftrightarrow>
   (\<forall>key t. Bucket_Allow (NewTokenBucketRateLimiter \<lparr>tb_Rate = rate, tb_Burst = burst, tb_CleanupInterval = ci,
        tb_MaxEntries = m\<rparr> now) key t =
      (True, NewTokenBucketRateLimiter \<lparr>tb_Rate = rate, tb_Burst = burst, tb_CleanupInterval = ci,
        tb_MaxEntries = m\<rparr> now))"
  by (rule disabled_bucket)

text \<open>When the web interface was not built into the program, every page request is answered with an internal error after a panic, not with a placeholder; with it every page request is answered with the index, and unknown API paths always get 404.\<close>

theorem missing_index_is_an_error:
  "uiStatus (noRoute uri None) = (if HasPrefix uri ''/api'' then 404 else 500) \<and>
   uiStatus (noRoute uri (Some html)) = (if HasPrefix uri ''/api'' then 404 else 200)"
  by (simp add: noRoute_status)

end
